(* ===== verification/JsString.thy ===== *)
theory JsString
  imports Prelude
begin

text \<open>
  The string operations of ECMAScript that the sources use. A string is a list of \<open>char\<close>, and a
  \<open>char\<close> stands for one UTF-16 code unit below 256 (the Latin-1 block), so \<open>length\<close> is JavaScript's
  \<open>length\<close>; whitespace and lower case are those of ECMAScript on that block. Texts outside it occur in the
  sources only in fixed output such as the em dash; they are written with the constant \<open>em_dash\<close>
  (its UTF-8 bytes), are only concatenated, and are never measured.
\<close>

section \<open>Characters\<close>

definition js_ws :: "char \<Rightarrow> bool" where
  "js_ws c \<longleftrightarrow> c = CHR 0x09 \<or> c = CHR 0x0A \<or> c = CHR 0x0B \<or> c = CHR 0x0C \<or> c = CHR 0x0D
     \<or> c = CHR 0x20 \<or> c = CHR 0xA0"

definition js_lower_char :: "char \<Rightarrow> char" where
  "js_lower_char c =
     (let n = (of_char c :: nat)
      in if (65 \<le> n \<and> n \<le> 90) \<or> (192 \<le> n \<and> n \<le> 222 \<and> n \<noteq> 215) then char_of (n + 32) else c)"

definition is_digit :: "char \<Rightarrow> bool" where
  "is_digit c \<longleftrightarrow> 48 \<le> (of_char c :: nat) \<and> (of_char c :: nat) \<le> 57"

definition digit_value :: "char \<Rightarrow> nat" where
  "digit_value c = of_char c - 48"

definition em_dash :: string where
  "em_dash = [CHR 0xE2, CHR 0x80, CHR 0x94]"

definition middle_dot :: string where
  "middle_dot = [CHR 0xB7]"

lemma js_lower_char_idem [simp]: "js_lower_char (js_lower_char c) = js_lower_char c"
proof -
  have "of_char c < (256::nat)" by simp
  then show ?thesis
    by (auto simp: js_lower_char_def Let_def of_char_of mod_less)
qed

section \<open>Trimming and case\<close>

definition js_trim :: "string \<Rightarrow> string" where
  "js_trim s = rev (dropWhile js_ws (rev (dropWhile js_ws s)))"

definition js_lower :: "string \<Rightarrow> string" where
  "js_lower s = map js_lower_char s"

lemma js_lower_idem [simp]: "js_lower (js_lower s) = js_lower s"
  by (simp add: js_lower_def)

lemma js_lower_length [simp]: "length (js_lower s) = length s"
  by (simp add: js_lower_def)

lemma js_trim_Nil [simp]: "js_trim [] = []"
  by (simp add: js_trim_def)

lemma js_trim_prefix: "\<exists>w. dropWhile js_ws s = js_trim s @ w"
proof -
  let ?t = "dropWhile js_ws s"
  have "rev ?t = takeWhile js_ws (rev ?t) @ dropWhile js_ws (rev ?t)"
    by simp
  then have "?t = rev (dropWhile js_ws (rev ?t)) @ rev (takeWhile js_ws (rev ?t))"
    by (metis rev_append rev_rev_ident)
  then show ?thesis by (auto simp: js_trim_def)
qed

lemma js_trim_first: "js_trim s \<noteq> [] \<Longrightarrow> \<not> js_ws (hd (js_trim s))"
proof -
  assume ne: "js_trim s \<noteq> []"
  obtain w where w: "dropWhile js_ws s = js_trim s @ w" using js_trim_prefix by blast
  then have "dropWhile js_ws s \<noteq> []" and "hd (dropWhile js_ws s) = hd (js_trim s)"
    using ne by auto
  then show ?thesis using hd_dropWhile [of js_ws s] by simp
qed

lemma js_trim_last: "js_trim s \<noteq> [] \<Longrightarrow> \<not> js_ws (last (js_trim s))"
proof -
  assume ne: "js_trim s \<noteq> []"
  then have "dropWhile js_ws (rev (dropWhile js_ws s)) \<noteq> []" by (simp only: js_trim_def) simp
  then have "\<not> js_ws (hd (dropWhile js_ws (rev (dropWhile js_ws s))))" by (rule hd_dropWhile)
  moreover have "last (js_trim s) = hd (dropWhile js_ws (rev (dropWhile js_ws s)))"
    using ne by (simp only: js_trim_def last_rev) 
  ultimately show ?thesis by simp
qed

lemma js_trim_id:
  assumes "s = [] \<or> (\<not> js_ws (hd s) \<and> \<not> js_ws (last s))"
  shows "js_trim s = s"
proof (cases "s = []")
  case True
  then show ?thesis by simp
next
  case False
  have self: "xs \<noteq> [] \<Longrightarrow> \<not> js_ws (hd xs) \<Longrightarrow> dropWhile js_ws xs = xs" for xs
    by (cases xs) auto
  have "dropWhile js_ws s = s" and "dropWhile js_ws (rev s) = rev s"
    using assms False by (auto intro!: self simp: hd_rev)
  then show ?thesis by (simp add: js_trim_def)
qed

lemma js_trim_idem [simp]: "js_trim (js_trim s) = js_trim s"
  using js_trim_first [of s] js_trim_last [of s] by (intro js_trim_id) auto

lemma js_trim_length: "length (js_trim s) \<le> length s"
proof -
  have "length (js_trim s) \<le> length (dropWhile js_ws s)"
    by (simp add: js_trim_def) (metis length_dropWhile_le length_rev)
  then show ?thesis using length_dropWhile_le [of js_ws s] by linarith
qed

section \<open>Searching, splitting and joining\<close>

fun starts_with :: "string \<Rightarrow> string \<Rightarrow> bool" where
  "starts_with s [] = True"
| "starts_with [] (p # ps) = False"
| "starts_with (c # cs) (p # ps) = (c = p \<and> starts_with cs ps)"

fun str_includes :: "string \<Rightarrow> string \<Rightarrow> bool" where
  "str_includes [] p = (p = [])"
| "str_includes (c # cs) p = (starts_with (c # cs) p \<or> str_includes cs p)"

definition ends_with :: "string \<Rightarrow> string \<Rightarrow> bool" where
  "ends_with s p = starts_with (rev s) (rev p)"

fun split_char :: "char \<Rightarrow> string \<Rightarrow> string list" where
  "split_char d [] = [[]]"
| "split_char d (c # cs) =
     (if c = d then [] # split_char d cs
      else (case split_char d cs of [] \<Rightarrow> [[c]] | p # ps \<Rightarrow> (c # p) # ps))"

fun join_with :: "string \<Rightarrow> string list \<Rightarrow> string" where
  "join_with sep [] = []"
| "join_with sep [s] = s"
| "join_with sep (s # t # ts) = s @ sep @ join_with sep (t # ts)"

lemma starts_with_iff: "starts_with s p \<longleftrightarrow> (\<exists>t. s = p @ t)"
  by (induction s p rule: starts_with.induct) auto

lemma str_includes_iff: "str_includes s p \<longleftrightarrow> (\<exists>a b. s = a @ p @ b)"
proof (induction s p rule: str_includes.induct)
  case (1 p)
  then show ?case by auto
next
  case (2 c cs p)
  show ?case
  proof
    assume "str_includes (c # cs) p"
    then consider "starts_with (c # cs) p" | "str_includes cs p" by auto
    then show "\<exists>a b. c # cs = a @ p @ b"
    proof cases
      case 1
      then show ?thesis by (metis append_Nil starts_with_iff)
    next
      case 2
      then show ?thesis using "2.IH" by (metis append_Cons)
    qed
  next
    assume "\<exists>a b. c # cs = a @ p @ b"
    then obtain a b where ab: "c # cs = a @ p @ b" by blast
    show "str_includes (c # cs) p"
    proof (cases a)
      case Nil
      then have "starts_with (c # cs) p" using ab by (auto simp: starts_with_iff)
      then show ?thesis by simp
    next
      case (Cons x xs)
      then have "str_includes cs p" using ab "2.IH" by auto
      then show ?thesis by simp
    qed
  qed
qed

lemma split_char_nonempty [simp]: "split_char d s \<noteq> []"
  by (induction s) (auto split: list.splits)

lemma split_char_Cons_neq: "c \<noteq> d \<Longrightarrow>
  split_char d (c # cs) = (c # hd (split_char d cs)) # tl (split_char d cs)"
  using split_char_nonempty [of d cs] by (cases "split_char d cs") auto

lemma join_with_Cons: "ps \<noteq> [] \<Longrightarrow> join_with sep (p # ps) = p @ sep @ join_with sep ps"
  by (cases ps) auto

lemma join_split_char: "join_with [d] (split_char d s) = s"
proof (induction s)
  case Nil
  then show ?case by simp
next
  case (Cons c s)
  show ?case
  proof (cases "c = d")
    case True
    then show ?thesis using Cons by (simp add: join_with_Cons)
  next
    case False
    obtain p ps where p: "split_char d s = p # ps"
      using split_char_nonempty [of d s] by (cases "split_char d s") auto
    then show ?thesis using Cons False by (cases ps) auto
  qed
qed

lemma split_char_no_sep: "p \<in> set (split_char d s) \<Longrightarrow> d \<notin> set p"
proof (induction s arbitrary: p)
  case Nil
  then show ?case by simp
next
  case (Cons c s)
  then show ?case by (auto split: if_splits list.splits)
qed

lemma split_char_atom: "d \<notin> set s \<Longrightarrow> split_char d s = [s]"
  by (induction s) auto

lemma split_char_append: "d \<notin> set s \<Longrightarrow> split_char d (s @ d # t) = s # split_char d t"
  by (induction s) auto

lemma length_split_char: "length (split_char d s) = Suc (count_list s d)"
  by (induction s) (auto split: list.splits)

lemma split_join:
  "ps \<noteq> [] \<Longrightarrow> (\<And>p. p \<in> set ps \<Longrightarrow> d \<notin> set p) \<Longrightarrow> split_char d (join_with [d] ps) = ps"
proof (induction "[d]" ps rule: join_with.induct)
  case (3 s t ts)
  then show ?case by (simp add: split_char_append)
qed (auto simp: split_char_atom)

section \<open>Decimal numerals\<close>

fun show_nat :: "nat \<Rightarrow> string" where
  "show_nat n = (if n < 10 then [char_of (48 + n)] else show_nat (n div 10) @ [char_of (48 + n mod 10)])"

declare show_nat.simps [simp del]

definition show_int :: "int \<Rightarrow> string" where
  "show_int i = (if i < 0 then CHR ''-'' # show_nat (nat (- i)) else show_nat (nat i))"

definition read_nat :: "string \<Rightarrow> nat" where
  "read_nat s = foldl (\<lambda>n c. 10 * n + digit_value c) 0 s"

definition pad_start2 :: "string \<Rightarrow> string" where
  "pad_start2 s = replicate (2 - length s) (CHR ''0'') @ s"

lemma digit_char [simp]:
  "n < 10 \<Longrightarrow> is_digit (char_of (48 + n))"
  "n < 10 \<Longrightarrow> digit_value (char_of (48 + n)) = n"
  by (auto simp: is_digit_def digit_value_def of_char_of)

lemma show_nat_digits: "c \<in> set (show_nat n) \<Longrightarrow> is_digit c"
proof (induction n rule: show_nat.induct)
  case (1 n)
  then show ?case
    by (cases "n < 10") (auto simp: show_nat.simps [of n])
qed

lemma show_nat_nonempty [simp]: "show_nat n \<noteq> []"
  by (simp add: show_nat.simps [of n])

lemma read_nat_snoc: "read_nat (s @ [c]) = 10 * read_nat s + digit_value c"
  by (simp add: read_nat_def)

lemma read_show_nat [simp]: "read_nat (show_nat n) = n"
proof (induction n rule: show_nat.induct)
  case (1 n)
  show ?case
  proof (cases "n < 10")
    case True
    then show ?thesis by (simp add: show_nat.simps [of n] read_nat_def)
  next
    case False
    then have "read_nat (show_nat (n div 10)) = n div 10" using "1.IH" by simp
    then show ?thesis
      using False by (simp add: show_nat.simps [of n] read_nat_snoc)
  qed
qed

lemma show_nat_inj [simp]: "show_nat m = show_nat n \<longleftrightarrow> m = n"
  by (metis read_show_nat)

lemma show_nat_length_less_10: "n < 10 \<Longrightarrow> length (show_nat n) = 1"
  by (simp add: show_nat.simps [of n])

lemma show_nat_length_ge_10: "10 \<le> n \<Longrightarrow> 2 \<le> length (show_nat n)"
proof -
  assume "10 \<le> n"
  then have "show_nat n = show_nat (n div 10) @ [char_of (48 + n mod 10)]"
    by (simp add: show_nat.simps [of n])
  moreover have "1 \<le> length (show_nat (n div 10))"
    by (simp add: Suc_leI)
  ultimately show ?thesis by simp
qed

lemma pad_start2_length: "2 \<le> length (pad_start2 s)"
  by (simp add: pad_start2_def)

lemma read_nat_leading_zeros: "read_nat (replicate k (CHR ''0'') @ s) = read_nat s"
  by (induction k) (simp_all add: read_nat_def digit_value_def)

lemma read_pad_start2 [simp]: "read_nat (pad_start2 (show_nat n)) = n"
  by (simp add: pad_start2_def read_nat_leading_zeros)

section \<open>White space\<close>

text \<open>\<open>replace(/\s+/g, '' '')\<close>: every run of white space becomes one space.\<close>

fun collapse_ws :: "string \<Rightarrow> string" where
  "collapse_ws [] = []"
| "collapse_ws (c # cs) =
     (if js_ws c then (case cs of [] \<Rightarrow> '' '' | d # _ \<Rightarrow> if js_ws d then collapse_ws cs else CHR '' '' # collapse_ws cs)
      else c # collapse_ws cs)"

end
