(* ===== verification/JsValue.thy ===== *)
theory JsValue
  imports JsString
begin

text \<open>
  JavaScript values as the sources meet them when they read a response body, a stored draft or a form:
  the datatype \<open>jsv\<close>, the operators \<open>||\<close>, \<open>??\<close>, property read, \<open>Number\<close> and \<open>String\<close>, and thrown
  values (\<open>exn\<close>). A number is \<open>NaN\<close>, an infinity or an exact rational: values that a double cannot
  represent exactly are rounded by the engine and not by the model, and \<open>-0\<close> is \<open>0\<close>. The text of a
  number is JavaScript's for integers below 10^21 in size and for decimals of at most 17 fractional digits that are not
  written with an exponent.
\<close>

section \<open>Values\<close>

datatype jsnum = NaN | PosInf | NegInf | Fin rat

datatype jsv =
    Undefined
  | Null
  | Bool bool
  | Num jsnum
  | Str string
  | Arr "jsv list"
  | Obj "(string \<times> jsv) list"

abbreviation IntV :: "int \<Rightarrow> jsv" where
  "IntV n \<equiv> Num (Fin (of_int n))"

fun truthy :: "jsv \<Rightarrow> bool" where
  "truthy Undefined = False"
| "truthy Null = False"
| "truthy (Bool b) = b"
| "truthy (Num n) = (n \<noteq> NaN \<and> n \<noteq> Fin 0)"
| "truthy (Str s) = (s \<noteq> [])"
| "truthy (Arr xs) = True"
| "truthy (Obj fs) = True"

definition js_or :: "jsv \<Rightarrow> jsv \<Rightarrow> jsv" where
  "js_or a b = (if truthy a then a else b)"

definition nullish :: "jsv \<Rightarrow> bool" where
  "nullish v \<longleftrightarrow> v = Undefined \<or> v = Null"

definition js_coalesce :: "jsv \<Rightarrow> jsv \<Rightarrow> jsv" where
  "js_coalesce a b = (if nullish a then b else a)"

lemma nullish_simps [simp]:
  "nullish Undefined" "nullish Null" "\<not> nullish (Bool b)" "\<not> nullish (Num n)"
  "\<not> nullish (Str s)" "\<not> nullish (Arr xs)" "\<not> nullish (Obj fs)"
  by (simp_all add: nullish_def)

declare js_or_def [js_simps] js_coalesce_def [js_simps]

section \<open>Thrown values\<close>

text \<open>\<open>Error m\<close> is an instance of JavaScript's \<open>Error\<close> with that message; \<open>Thrown v\<close> is any other thrown value.\<close>

datatype exn = Error string | Thrown jsv

text \<open>
  The message of the \<open>TypeError\<close> for a property read on \<open>null\<close> or \<open>undefined\<close>, as the engine the
  sources run on (V8) words it.
\<close>

definition read_error :: "jsv \<Rightarrow> string \<Rightarrow> exn" where
  "read_error v k =
     Error (''Cannot read properties of '' @ (if v = Null then ''null'' else ''undefined'')
            @ '' (reading '' @ [CHR 0x27] @ k @ [CHR 0x27] @ '')'')"

definition field :: "(string \<times> jsv) list \<Rightarrow> string \<Rightarrow> jsv" where
  "field fs k = (case map_of fs k of None \<Rightarrow> Undefined | Some v \<Rightarrow> v)"

fun get :: "jsv \<Rightarrow> string \<Rightarrow> exn + jsv" where
  "get Undefined k = Inl (read_error Undefined k)"
| "get Null k = Inl (read_error Null k)"
| "get (Obj fs) k = Inr (field fs k)"
| "get v k = Inr Undefined"

text \<open>The optional read \<open>v?.k\<close> never throws.\<close>

definition get_opt :: "jsv \<Rightarrow> string \<Rightarrow> jsv" where
  "get_opt v k = (case get v k of Inl e \<Rightarrow> Undefined | Inr w \<Rightarrow> w)"

lemma field_simps' [simp]:
  "field [] k = Undefined"
  "field ((k', v) # fs) k = (if k = k' then v else field fs k)"
  by (simp_all add: field_def)

lemma get_opt_simps [simp]:
  "get_opt Undefined k = Undefined" "get_opt Null k = Undefined" "get_opt (Obj fs) k = field fs k"
  "get_opt (Bool b) k = Undefined" "get_opt (Num n) k = Undefined"
  "get_opt (Str s) k = Undefined" "get_opt (Arr xs) k = Undefined"
  by (simp_all add: get_opt_def)

lemma get_Inl_iff: "(\<exists>e. get v k = Inl e) \<longleftrightarrow> nullish v"
  by (cases v) auto

section \<open>Numbers as text\<close>

definition pow10 :: "int \<Rightarrow> rat" where
  "pow10 e = (if 0 \<le> e then 10 ^ nat e else 1 / 10 ^ nat (- e))"

fun frac_digits :: "nat \<Rightarrow> rat \<Rightarrow> string" where
  "frac_digits 0 f = []"
| "frac_digits (Suc k) f =
     (if f = 0 then []
      else char_of (48 + nat \<lfloor>10 * f\<rfloor>) # frac_digits k (10 * f - of_int \<lfloor>10 * f\<rfloor>))"

definition nonneg_text :: "rat \<Rightarrow> string" where
  "nonneg_text r =
     (let n = \<lfloor>r\<rfloor>; f = r - of_int n
      in if f = 0 then show_nat (nat n) else show_nat (nat n) @ ''.'' @ frac_digits 17 f)"

fun num_text :: "jsnum \<Rightarrow> string" where
  "num_text NaN = ''NaN''"
| "num_text PosInf = ''Infinity''"
| "num_text NegInf = ''-Infinity''"
| "num_text (Fin r) = (if r < 0 then CHR ''-'' # nonneg_text (- r) else nonneg_text r)"

lemma nonneg_text_of_int [simp]: "0 \<le> n \<Longrightarrow> nonneg_text (of_int n) = show_nat (nat n)"
  by (simp add: nonneg_text_def)

lemma num_text_of_int [simp]: "num_text (Fin (of_int n)) = show_int n"
proof (cases "n < 0")
  case True
  then have "nonneg_text (- of_int n) = show_nat (nat (- n))"
    using nonneg_text_of_int [of "- n"] by simp
  then show ?thesis using True by (simp add: show_int_def)
next
  case False
  then show ?thesis by (simp add: show_int_def)
qed

section \<open>Text as a number\<close>

text \<open>The grammar \<open>StringNumericLiteral\<close> of the language, for \<open>Number(s)\<close>.\<close>

definition span_digits :: "string \<Rightarrow> string \<times> string" where
  "span_digits s = (takeWhile is_digit s, dropWhile is_digit s)"

definition exponent_part :: "string \<Rightarrow> int option" where
  "exponent_part s =
     (case s of
        [] \<Rightarrow> Some 0
      | c # cs \<Rightarrow>
          if c = CHR ''e'' \<or> c = CHR ''E'' then
            (let (neg, ds) = (case cs of
                 d # r \<Rightarrow> (if d = CHR ''-'' then (True, r)
                         else if d = CHR ''+'' then (False, r) else (False, cs))
               | [] \<Rightarrow> (False, cs))
             in if ds \<noteq> [] \<and> list_all is_digit ds
                then Some (if neg then - int (read_nat ds) else int (read_nat ds)) else None)
          else None)"

definition unsigned_decimal :: "string \<Rightarrow> rat option" where
  "unsigned_decimal s =
     (let (ip, r1) = span_digits s;
          (fp, r2) = (case r1 of c # r \<Rightarrow> if c = CHR ''.'' then span_digits r else ([], r1)
                               | [] \<Rightarrow> ([], r1))
      in if ip = [] \<and> fp = [] then None
         else map_option (\<lambda>e. of_nat (read_nat (ip @ fp)) * pow10 (e - int (length fp)))
                (exponent_part r2))"

definition radix_digit :: "char \<Rightarrow> nat option" where
  "radix_digit c =
     (let n = of_char (js_lower_char c) :: nat
      in if 48 \<le> n \<and> n \<le> 57 then Some (n - 48)
         else if 97 \<le> n \<and> n \<le> 102 then Some (n - 87) else None)"

definition radix_value :: "nat \<Rightarrow> string \<Rightarrow> rat option" where
  "radix_value b s =
     (case traverse radix_digit s of
        None \<Rightarrow> None
      | Some ds \<Rightarrow>
          if ds \<noteq> [] \<and> list_all (\<lambda>d. d < b) ds
          then Some (of_nat (foldl (\<lambda>n d. b * n + d) 0 ds)) else None)"

definition of_option :: "rat option \<Rightarrow> jsnum" where
  "of_option r = (case r of None \<Rightarrow> NaN | Some q \<Rightarrow> Fin q)"

definition str_number :: "string \<Rightarrow> jsnum" where
  "str_number s =
     (let t = js_trim s; p = js_lower (take 2 t)
      in if t = [] then Fin 0
         else if p = ''0x'' then of_option (radix_value 16 (drop 2 t))
         else if p = ''0o'' then of_option (radix_value 8 (drop 2 t))
         else if p = ''0b'' then of_option (radix_value 2 (drop 2 t))
         else if t = ''Infinity'' \<or> t = ''+Infinity'' then PosInf
         else if t = ''-Infinity'' then NegInf
         else if hd t = CHR ''-'' then of_option (map_option uminus (unsigned_decimal (tl t)))
         else if hd t = CHR ''+'' then of_option (unsigned_decimal (tl t))
         else of_option (unsigned_decimal t))"

fun js_String :: "jsv \<Rightarrow> string" where
  "js_String Undefined = ''undefined''"
| "js_String Null = ''null''"
| "js_String (Bool b) = (if b then ''true'' else ''false'')"
| "js_String (Num n) = num_text n"
| "js_String (Str s) = s"
| "js_String (Arr xs) = join_with '','' (map (\<lambda>x. if nullish x then [] else js_String x) xs)"
| "js_String (Obj fs) = ''[object Object]''"

fun js_Number :: "jsv \<Rightarrow> jsnum" where
  "js_Number Undefined = NaN"
| "js_Number Null = Fin 0"
| "js_Number (Bool b) = (if b then Fin 1 else Fin 0)"
| "js_Number (Num n) = n"
| "js_Number (Str s) = str_number s"
| "js_Number (Arr xs) = str_number (js_String (Arr xs))"
| "js_Number (Obj fs) = NaN"

text \<open>\<open>Number(v) || d\<close>\<close>

definition num_or :: "jsnum \<Rightarrow> jsnum \<Rightarrow> jsnum" where
  "num_or n d = (if n = NaN \<or> n = Fin 0 then d else n)"

fun is_integer :: "jsnum \<Rightarrow> bool" where
  "is_integer (Fin r) = (of_int \<lfloor>r\<rfloor> = r)"
| "is_integer n = False"

fun num_le :: "jsnum \<Rightarrow> jsnum \<Rightarrow> bool" where
  "num_le NaN b = False"
| "num_le a NaN = False"
| "num_le NegInf b = True"
| "num_le a PosInf = True"
| "num_le (Fin a) (Fin b) = (a \<le> b)"
| "num_le a b = False"

lemma js_Number_Int [simp]: "js_Number (IntV n) = Fin (of_int n)"
  by simp

lemma is_integer_Int [simp]: "is_integer (Fin (of_int n))"
  by simp

lemma is_integer_cases: "is_integer n \<Longrightarrow> \<exists>i. n = Fin (of_int i)"
  by (metis is_integer.elims(2))

end
