(* ===== verification/Json.thy ===== *)
theory Json
  imports JsValue
begin

text \<open>
  \<open>JSON.parse\<close> and \<open>JSON.stringify\<close> on the values of \<open>JsValue\<close>. The parser is recursive descent
  with fuel; every call consumes a character or hands over to a call that does, so twice the length
  of the text is enough fuel (\<open>json_fuel_enough\<close>), and \<open>json_parse\<close> starts with that much. The
  round trip \<open>json_round_trip\<close> is what the snapshot history and the draft store rest on.
  Escapes above \<open>\u00ff\<close> are outside the string model and are refused by the parser.
\<close>

section \<open>Printing\<close>

definition hex_digit :: "nat \<Rightarrow> char" where
  "hex_digit n = (if n < 10 then char_of (48 + n) else char_of (87 + n))"

definition escape_char :: "char \<Rightarrow> string" where
  "escape_char c =
     (if c = CHR 0x22 then [CHR 0x5C, CHR 0x22]
      else if c = CHR 0x5C then [CHR 0x5C, CHR 0x5C]
      else if c = CHR 0x08 then [CHR 0x5C, CHR ''b'']
      else if c = CHR 0x0C then [CHR 0x5C, CHR ''f'']
      else if c = CHR 0x0A then [CHR 0x5C, CHR ''n'']
      else if c = CHR 0x0D then [CHR 0x5C, CHR ''r'']
      else if c = CHR 0x09 then [CHR 0x5C, CHR ''t'']
      else if (of_char c :: nat) < 32
        then [CHR 0x5C, CHR ''u'', CHR ''0'', CHR ''0'',
              hex_digit (of_char c div 16), hex_digit (of_char c mod 16)]
      else [c])"

definition quote :: "string \<Rightarrow> string" where
  "quote s = CHR 0x22 # concat (map escape_char s) @ [CHR 0x22]"

fun is_finite :: "jsnum \<Rightarrow> bool" where
  "is_finite (Fin r) = True"
| "is_finite n = False"

fun stringify :: "jsv \<Rightarrow> string" where
  "stringify Undefined = ''null''"
| "stringify Null = ''null''"
| "stringify (Bool b) = (if b then ''true'' else ''false'')"
| "stringify (Num n) = (if is_finite n then num_text n else ''null'')"
| "stringify (Str s) = quote s"
| "stringify (Arr xs) = CHR ''['' # join_with '','' (map stringify xs) @ '']''"
| "stringify (Obj fs) =
     CHR ''{'' # join_with '','' (map (\<lambda>(k, v). quote k @ '':'' @ stringify v)
       (filter (\<lambda>(k, v). v \<noteq> Undefined) fs)) @ ''}''"

section \<open>Parsing\<close>

definition json_ws :: "char \<Rightarrow> bool" where
  "json_ws c \<longleftrightarrow> c = CHR 0x09 \<or> c = CHR 0x0A \<or> c = CHR 0x0D \<or> c = CHR 0x20"

definition skip_ws :: "string \<Rightarrow> string" where
  "skip_ws s = dropWhile json_ws s"

definition hex4 :: "char \<Rightarrow> char \<Rightarrow> char \<Rightarrow> char \<Rightarrow> char option" where
  "hex4 a b x y =
     (if radix_digit a = Some 0 \<and> radix_digit b = Some 0 then
        (case radix_digit x of
           None \<Rightarrow> None
         | Some h \<Rightarrow> map_option (\<lambda>l. char_of (16 * h + l)) (radix_digit y))
      else None)"

definition simple_escape :: "char \<Rightarrow> char option" where
  "simple_escape c =
     (if c = CHR 0x22 \<or> c = CHR 0x5C \<or> c = CHR ''/'' then Some c
      else if c = CHR ''b'' then Some (CHR 0x08)
      else if c = CHR ''f'' then Some (CHR 0x0C)
      else if c = CHR ''n'' then Some (CHR 0x0A)
      else if c = CHR ''r'' then Some (CHR 0x0D)
      else if c = CHR ''t'' then Some (CHR 0x09)
      else None)"

fun p_string :: "string \<Rightarrow> (string \<times> string) option" where
  "p_string [] = None"
| "p_string (c # cs) =
     (if c = CHR 0x22 then Some ([], cs)
      else if (of_char c :: nat) < 32 then None
      else if c = CHR 0x5C then
        (case cs of
           [] \<Rightarrow> None
         | e # r \<Rightarrow>
             if e = CHR ''u'' then
               (case r of
                  a # b # x # y # r' \<Rightarrow>
                    (case hex4 a b x y of
                       None \<Rightarrow> None
                     | Some c' \<Rightarrow> map_option (\<lambda>(t, q). (c' # t, q)) (p_string r'))
                | _ \<Rightarrow> None)
             else (case simple_escape e of
                     None \<Rightarrow> None
                   | Some c' \<Rightarrow> map_option (\<lambda>(t, q). (c' # t, q)) (p_string r)))
      else map_option (\<lambda>(t, q). (c # t, q)) (p_string cs))"

definition num_char :: "char \<Rightarrow> bool" where
  "num_char c \<longleftrightarrow> is_digit c \<or> c = CHR ''-'' \<or> c = CHR ''+'' \<or> c = CHR ''.'' \<or> c = CHR ''e'' \<or> c = CHR ''E''"

text \<open>The JSON number grammar: no leading zero, and digits on both sides of a point.\<close>

definition json_unsigned :: "string \<Rightarrow> rat option" where
  "json_unsigned s =
     (let (ip, r) = span_digits s
      in if ip = [] \<or> (hd ip = CHR ''0'' \<and> length ip > 1) then None
         else (case r of
                 c # d # _ \<Rightarrow> if c = CHR ''.'' \<and> \<not> is_digit d then None else unsigned_decimal s
               | [c] \<Rightarrow> if c = CHR ''.'' then None else unsigned_decimal s
               | [] \<Rightarrow> unsigned_decimal s))"

definition p_number :: "string \<Rightarrow> (jsv \<times> string) option" where
  "p_number s =
     (let t = takeWhile num_char s; r = dropWhile num_char s
      in (case t of
            [] \<Rightarrow> None
          | c # u \<Rightarrow>
              map_option (\<lambda>q. (Num (Fin q), r))
                (if c = CHR ''-'' then map_option uminus (json_unsigned u) else json_unsigned t)))"

definition set_field :: "string \<Rightarrow> jsv \<Rightarrow> (string \<times> jsv) list \<Rightarrow> (string \<times> jsv) list" where
  "set_field k v fs = (if k \<in> fst ` set fs then fs else (k, v) # fs)"

fun p_value :: "nat \<Rightarrow> string \<Rightarrow> (jsv \<times> string) option"
  and p_elems :: "nat \<Rightarrow> string \<Rightarrow> (jsv list \<times> string) option"
  and p_members :: "nat \<Rightarrow> string \<Rightarrow> ((string \<times> jsv) list \<times> string) option" where
  "p_value 0 s = None"
| "p_value (Suc n) s =
     (case skip_ws s of
        [] \<Rightarrow> None
      | c # cs \<Rightarrow>
          if c = CHR 0x22 then map_option (\<lambda>(t, r). (Str t, r)) (p_string cs)
          else if c = CHR ''['' then
            (if starts_with (skip_ws cs) '']'' then Some (Arr [], tl (skip_ws cs))
             else map_option (\<lambda>(vs, r). (Arr vs, r)) (p_elems n cs))
          else if c = CHR ''{'' then
            (if starts_with (skip_ws cs) ''}'' then Some (Obj [], tl (skip_ws cs))
             else map_option (\<lambda>(fs, r). (Obj fs, r)) (p_members n cs))
          else if starts_with (c # cs) ''true'' then Some (Bool True, drop 3 cs)
          else if starts_with (c # cs) ''false'' then Some (Bool False, drop 4 cs)
          else if starts_with (c # cs) ''null'' then Some (Null, drop 3 cs)
          else p_number (c # cs))"
| "p_elems 0 s = None"
| "p_elems (Suc n) s =
     (case p_value n s of
        None \<Rightarrow> None
      | Some (v, r) \<Rightarrow>
          (case skip_ws r of
             [] \<Rightarrow> None
           | c # q \<Rightarrow>
               if c = CHR '','' then map_option (\<lambda>(vs, r'). (v # vs, r')) (p_elems n q)
               else if c = CHR '']'' then Some ([v], q)
               else None))"
| "p_members 0 s = None"
| "p_members (Suc n) s =
     (case skip_ws s of
        [] \<Rightarrow> None
      | c # cs \<Rightarrow>
          if c = CHR 0x22 then
            (case p_string cs of
               None \<Rightarrow> None
             | Some (k, r) \<Rightarrow>
                 (case skip_ws r of
                    [] \<Rightarrow> None
                  | d # r' \<Rightarrow>
                      if d = CHR '':'' then
                        (case p_value n r' of
                           None \<Rightarrow> None
                         | Some (v, r'') \<Rightarrow>
                             (case skip_ws r'' of
                                [] \<Rightarrow> None
                              | e # q \<Rightarrow>
                                  if e = CHR '','' then
                                    map_option (\<lambda>(fs, z). (set_field k v fs, z)) (p_members n q)
                                  else if e = CHR ''}'' then Some ([(k, v)], q)
                                  else None))
                      else None))
          else None)"

definition json_parse :: "string \<Rightarrow> jsv option" where
  "json_parse s =
     (case p_value (2 * length s + 2) s of
        None \<Rightarrow> None
      | Some (v, r) \<Rightarrow> if skip_ws r = [] then Some v else None)"

text \<open>Whether a parse fails does not depend on the fuel; here are the lemmas behind it.\<close>

lemma skip_ws_length: "length (skip_ws s) \<le> length s"
  by (simp add: skip_ws_def length_dropWhile_le)

lemma p_string_length: "p_string s = Some (t, r) \<Longrightarrow> length r < length s"
proof (induction s arbitrary: t r rule: p_string.induct)
  case 1
  then show ?case by simp
next
  case (2 c cs)
  then show ?case
    by (auto split: if_splits list.splits option.splits nat.splits prod.splits
          simp: less_Suc_eq_le) (fastforce simp: less_Suc_eq_le)+
qed

lemma p_number_length: "p_number s = Some (v, r) \<Longrightarrow> length r < length s"
proof -
  assume a: "p_number s = Some (v, r)"
  then have "takeWhile num_char s \<noteq> []" and r: "r = dropWhile num_char s"
    by (auto simp: p_number_def Let_def split: list.splits)
  moreover have "length s = length (takeWhile num_char s) + length (dropWhile num_char s)"
    by (metis length_append takeWhile_dropWhile_id)
  ultimately show ?thesis by simp
qed

lemma skip_ws_Cons_length: "skip_ws s = c # cs \<Longrightarrow> length cs < length s"
  using skip_ws_length [of s] by simp

lemma tl_skip_ws_le: "length (tl (skip_ws s)) \<le> length s"
  using skip_ws_length [of s] by simp

lemma p_elems_step:
  assumes "p_elems (Suc n) s = Some (vs, r)"
  obtains v r1 c q where "p_value n s = Some (v, r1)" "skip_ws r1 = c # q"
    "r = q \<or> (\<exists>vs'. p_elems n q = Some (vs', r))"
  using assms by (auto split: option.splits list.splits if_splits)

lemma p_members_step:
  assumes "p_members (Suc n) s = Some (fs, r)"
  obtains c cs k r1 d r2 v r3 e q where "skip_ws s = c # cs" "p_string cs = Some (k, r1)"
    "skip_ws r1 = d # r2" "p_value n r2 = Some (v, r3)" "skip_ws r3 = e # q"
    "r = q \<or> (\<exists>fs'. p_members n q = Some (fs', r))"
  using assms by (auto split: option.splits list.splits if_splits)

lemma p_value_step:
  assumes "p_value (Suc n) s = Some (v, r)"
  obtains c cs where "skip_ws s = c # cs"
    "length r \<le> length cs \<or> (\<exists>vs. p_elems n cs = Some (vs, r)) \<or> (\<exists>fs. p_members n cs = Some (fs, r))"
proof (cases "skip_ws s")
  case Nil
  then show ?thesis using assms by simp
next
  case (Cons c cs)
  have "length r \<le> length cs \<or> (\<exists>vs. p_elems n cs = Some (vs, r)) \<or> (\<exists>fs. p_members n cs = Some (fs, r))"
    using assms tl_skip_ws_le [of cs]
    by (auto simp: Cons split: if_splits dest!: p_string_length p_number_length)
  then show ?thesis using that Cons by blast
qed

lemma parse_length_all:
  "(\<forall>s v r. p_value n s = Some (v, r) \<longrightarrow> length r < length s) \<and>
   (\<forall>s vs r. p_elems n s = Some (vs, r) \<longrightarrow> length r < length s) \<and>
   (\<forall>s fs r. p_members n s = Some (fs, r) \<longrightarrow> length r < length s)"
proof (induction n)
  case 0
  then show ?case by simp
next
  case (Suc n)
  have v: "length r < length s" if "p_value (Suc n) s = Some (v, r)" for s v r
    using p_value_step [OF that] Suc
    by (metis le_less_trans less_trans skip_ws_Cons_length)
  have e: "length r < length s" if "p_elems (Suc n) s = Some (vs, r)" for s vs r
    using p_elems_step [OF that] Suc
    by (metis less_trans skip_ws_Cons_length)
  have m: "length r < length s" if "p_members (Suc n) s = Some (fs, r)" for s fs r
    using p_members_step [OF that] Suc
    by (metis less_trans skip_ws_Cons_length p_string_length)
  show ?case using v e m by blast
qed

lemma parse_length:
  "p_value n s = Some (v, r) \<Longrightarrow> length r < length s"
  "p_elems n s = Some (vs, r) \<Longrightarrow> length r < length s"
  "p_members n s = Some (fs, r) \<Longrightarrow> length r < length s"
  using parse_length_all by blast+

lemma json_fuel_step:
  "(\<forall>s. 2 * length s + 1 \<le> n \<longrightarrow> p_value n s = p_value (Suc n) s) \<and>
   (\<forall>s. 2 * length s + 2 \<le> n \<longrightarrow> p_elems n s = p_elems (Suc n) s) \<and>
   (\<forall>s. 2 * length s + 2 \<le> n \<longrightarrow> p_members n s = p_members (Suc n) s)"
proof (induction n)
  case 0
  then show ?case by simp
next
  case (Suc n)
  have v: "p_value (Suc n) s = p_value (Suc (Suc n)) s" if "2 * length s + 1 \<le> Suc n" for s
  proof (cases "skip_ws s")
    case (Cons c cs)
    have "2 * length cs + 2 \<le> n" using skip_ws_Cons_length [OF Cons] that by simp
    then have "p_elems n cs = p_elems (Suc n) cs" and "p_members n cs = p_members (Suc n) cs"
      using Suc by blast+
    then show ?thesis by (simp add: Cons del: p_elems.simps p_members.simps)
  qed simp
  have e: "p_elems (Suc n) s = p_elems (Suc (Suc n)) s" if l: "2 * length s + 2 \<le> Suc n" for s
  proof -
    have pv: "p_value (Suc n) s = p_value n s" using Suc l by simp
    have "p_elems n q = p_elems (Suc n) q" if "p_value n s = Some (w, r)" "skip_ws r = c # q" for w r c q
      using parse_length(1) [OF that(1)] skip_ws_Cons_length [OF that(2)] l Suc by simp
    then show ?thesis
      by (simp del: p_value.simps p_elems.simps p_members.simps
          add: p_elems.simps(2) [of n s] p_elems.simps(2) [of "Suc n" s] pv
          split: option.splits list.splits prod.splits)
  qed
  have m: "p_members (Suc n) s = p_members (Suc (Suc n)) s" if l: "2 * length s + 2 \<le> Suc n" for s
  proof -
    have pv: "p_value (Suc n) r = p_value n r" if "length r < length s" for r
      using Suc l that by simp
    have pm: "p_members (Suc n) q = p_members n q" if "length q < length s" for q
      using Suc l that by simp
    show ?thesis
    proof (cases "skip_ws s")
      case (Cons c cs)
      have 1: "length cs < length s" by (rule skip_ws_Cons_length [OF Cons])
      have 2: "p_value (Suc n) r' = p_value n r'"
        if "p_string cs = Some (k, r)" "skip_ws r = d # r'" for k r d r'
        using p_string_length [OF that(1)] skip_ws_Cons_length [OF that(2)] 1 pv by simp
      have 3: "p_members (Suc n) q = p_members n q"
        if "p_string cs = Some (k, r)" "skip_ws r = d # r'" "p_value n r' = Some (w, r'')"
          "skip_ws r'' = z # q" for k r d r' w r'' z q
        using p_string_length [OF that(1)] skip_ws_Cons_length [OF that(2)]
          parse_length(1) [OF that(3)] skip_ws_Cons_length [OF that(4)] 1 pm by simp
      show ?thesis
        using 2 3
        by (simp del: p_value.simps p_elems.simps p_members.simps
            add: p_members.simps(2) [of n s] p_members.simps(2) [of "Suc n" s] Cons
            split: option.splits list.splits prod.splits)
    qed simp
  qed
  show ?case using v e m by blast
qed

lemma json_fuel_enough: "2 * length s + 1 \<le> n \<Longrightarrow> p_value (n + k) s = p_value n s"
proof (induction k)
  case (Suc k)
  then have "p_value (n + k) s = p_value (Suc (n + k)) s"
    using json_fuel_step [of "n + k"] by simp
  then show ?case using Suc by simp
qed simp

section \<open>The round trip\<close>

text \<open>
  The values that survive: no \<open>undefined\<close>, integral numbers, objects without duplicate keys.
\<close>

fun json_ok :: "jsv \<Rightarrow> bool" where
  "json_ok Undefined = False"
| "json_ok Null = True"
| "json_ok (Bool b) = True"
| "json_ok (Num n) = is_integer n"
| "json_ok (Str s) = True"
| "json_ok (Arr xs) = list_all json_ok xs"
| "json_ok (Obj fs) = (distinct (map fst fs) \<and> list_all (\<lambda>(k, v). json_ok v) fs)"

definition closes :: "string \<Rightarrow> bool" where
  "closes s \<longleftrightarrow> s = [] \<or> hd s = CHR '','' \<or> hd s = CHR '']'' \<or> hd s = CHR ''}''"

lemma radix_digit_hex_digit [simp]: "n < 16 \<Longrightarrow> radix_digit (hex_digit n) = Some n"
  by (cases "n < 10") (auto simp: radix_digit_def hex_digit_def js_lower_char_def Let_def of_char_of)

lemma radix_digit_zero [simp]: "radix_digit CHR ''0'' = Some 0"
  by (simp add: radix_digit_def js_lower_char_def Let_def)

lemma hex4_escape: "(of_char c :: nat) < 32 \<Longrightarrow>
    hex4 CHR ''0'' CHR ''0'' (hex_digit (of_char c div 16)) (hex_digit (of_char c mod 16)) = Some c"
  by (simp add: hex4_def)

lemma p_string_escape:
  "p_string (escape_char c @ s) = map_option (\<lambda>(t, q). (c # t, q)) (p_string s)"
proof (cases "c \<in> {CHR 0x22, CHR 0x5C, CHR 0x08, CHR 0x0C, CHR 0x0A, CHR 0x0D, CHR 0x09}")
  case True
  then show ?thesis by (auto simp: escape_char_def simple_escape_def)
next
  case False
  then show ?thesis by (auto simp: escape_char_def hex4_escape)
qed

lemma p_string_quote:
  "p_string (concat (map escape_char s) @ CHR 0x22 # rest) = Some (s, rest)"
  by (induction s) (simp_all add: p_string_escape)

lemma show_nat_hd_nonzero: "10 \<le> n \<Longrightarrow> hd (show_nat n) \<noteq> CHR ''0''"
proof (induction n rule: show_nat.induct)
  case (1 n)
  have sn: "show_nat n = show_nat (n div 10) @ [char_of (48 + n mod 10)]"
    using "1.prems" by (simp add: show_nat.simps [of n])
  show ?case
  proof (cases "n div 10 < 10")
    case True
    then have "show_nat (n div 10) = [char_of (48 + n div 10)]"
      by (simp add: show_nat.simps [of "n div 10"])
    moreover have "char_of (48 + n div 10) \<noteq> CHR ''0''"
    proof
      assume "char_of (48 + n div 10) = CHR ''0''"
      then have "of_char (char_of (48 + n div 10) :: char) = (of_char CHR ''0'' :: nat)" by simp
      then show False using True "1.prems" by (simp add: of_char_of) 
    qed
    ultimately show ?thesis using sn by simp
  next
    case False
    then show ?thesis using "1" sn by simp
  qed
qed

lemma span_show_nat: "span_digits (show_nat n) = (show_nat n, [])"
  using show_nat_digits [of _ n] by (simp add: span_digits_def takeWhile_eq_all_conv dropWhile_eq_Nil_conv)

lemma unsigned_decimal_show_nat: "unsigned_decimal (show_nat n) = Some (of_nat n)"
  by (simp add: unsigned_decimal_def span_show_nat Let_def exponent_part_def pow10_def)

lemma json_unsigned_show_nat: "json_unsigned (show_nat n) = Some (of_nat n)"
proof -
  have "\<not> (hd (show_nat n) = CHR ''0'' \<and> length (show_nat n) > 1)"
    using show_nat_hd_nonzero [of n] show_nat_length_less_10 [of n] by (cases "n < 10") auto
  then show ?thesis
    by (simp add: json_unsigned_def span_show_nat Let_def unsigned_decimal_show_nat)
qed

lemma show_int_num_chars: "c \<in> set (show_int i) \<Longrightarrow> num_char c"
  using show_nat_digits by (auto simp: show_int_def num_char_def split: if_splits)

lemma span_num_chars:
  assumes "\<forall>c \<in> set s. num_char c" and "closes rest"
  shows "takeWhile num_char (s @ rest) = s" and "dropWhile num_char (s @ rest) = rest"
proof -
  have "rest = [] \<or> \<not> num_char (hd rest)"
    using assms(2) by (auto simp: closes_def num_char_def is_digit_def)
  then have "takeWhile num_char rest = []" and "dropWhile num_char rest = rest"
    by (cases rest; auto)+
  then show "takeWhile num_char (s @ rest) = s" and "dropWhile num_char (s @ rest) = rest"
    using assms(1) by (simp_all add: takeWhile_append2 dropWhile_append2)
qed

lemma p_number_show_int:
  assumes "closes rest"
  shows "p_number (show_int i @ rest) = Some (Num (Fin (of_int i)), rest)"
proof -
  have span: "takeWhile num_char (show_int i @ rest) = show_int i"
    "dropWhile num_char (show_int i @ rest) = rest"
    using span_num_chars [of "show_int i" rest] assms show_int_num_chars by blast+
  show ?thesis
  proof (cases "i < 0")
    case True
    then show ?thesis
      by (simp add: p_number_def Let_def span) (simp add: show_int_def json_unsigned_show_nat)
  next
    case False
    obtain c cs where c: "show_nat (nat i) = c # cs"
      using show_nat_nonempty [of "nat i"] by (cases "show_nat (nat i)") auto
    then have "is_digit c" using show_nat_digits [of c "nat i"] by simp
    then have "c \<noteq> CHR ''-''" by (auto simp: is_digit_def)
    then show ?thesis
      using False json_unsigned_show_nat [of "nat i"]
      by (simp add: p_number_def Let_def span) (simp add: show_int_def c)
  qed
qed

text \<open>The first character of a printed value decides the parser's branch.\<close>

lemma show_int_hd: "\<exists>c cs. show_int i = c # cs \<and> (c = CHR ''-'' \<or> is_digit c)"
proof (cases "i < 0")
  case False
  obtain c cs where c: "show_nat (nat i) = c # cs"
    using show_nat_nonempty [of "nat i"] by (cases "show_nat (nat i)") auto
  then show ?thesis using False show_nat_digits [of c "nat i"] by (simp add: show_int_def)
qed (simp add: show_int_def)

lemma p_value_show_int:
  assumes "closes rest"
  shows "p_value (Suc n) (show_int i @ rest) = Some (Num (Fin (of_int i)), rest)"
proof -
  obtain c cs where c: "show_int i = c # cs" "c = CHR ''-'' \<or> is_digit c" using show_int_hd by blast
  then have "skip_ws (show_int i @ rest) = c # cs @ rest"
    by (auto simp: skip_ws_def json_ws_def is_digit_def)
  moreover have "c \<noteq> CHR 0x22 \<and> c \<noteq> CHR ''['' \<and> c \<noteq> CHR ''{'' \<and> c \<noteq> CHR ''t'' \<and> c \<noteq> CHR ''f'' \<and> c \<noteq> CHR ''n''"
    using c(2) by (auto simp: is_digit_def)
  ultimately show ?thesis using p_number_show_int [OF assms, of i] c(1) by simp
qed

lemma skip_ws_nonws: "\<not> json_ws c \<Longrightarrow> skip_ws (c # s) = c # s"
  by (simp add: skip_ws_def)

lemma closes_punct [simp]: "closes (CHR '','' # s)" "closes (CHR '']'' # s)" "closes (CHR ''}'' # s)"
  by (simp_all add: closes_def)

lemma stringify_int: "stringify (Num (Fin (of_int i))) = show_int i"
  by (simp del: num_text.simps)

lemma stringify_hd:
  "json_ok v \<Longrightarrow> \<exists>c cs. stringify v = c # cs \<and> \<not> json_ws c \<and> c \<noteq> CHR '']'' \<and> c \<noteq> CHR ''}''"
proof (cases v)
  case (Num n)
  assume "json_ok v"
  then obtain i where "n = Fin (of_int i)" using Num is_integer_cases by auto
  then have "stringify v = show_int i" using Num stringify_int by simp
  then show ?thesis
    using show_int_hd [of i] by (auto simp: json_ws_def is_digit_def)
qed (auto simp: quote_def json_ws_def)

lemma p_elems_print:
  assumes "xs \<noteq> []" and "list_all json_ok xs"
    and "\<And>x n rest. x \<in> set xs \<Longrightarrow> closes rest \<Longrightarrow> 2 * length (stringify x @ rest) + 1 \<le> n \<Longrightarrow>
           p_value n (stringify x @ rest) = Some (x, rest)"
    and "2 * length (join_with '','' (map stringify xs) @ CHR '']'' # rest) + 2 \<le> n"
  shows "p_elems n (join_with '','' (map stringify xs) @ CHR '']'' # rest) = Some (xs, rest)"
  using assms
proof (induction xs arbitrary: n)
  case Nil
  then show ?case by simp
next
  case (Cons x xs)
  obtain m where n: "n = Suc m" using Cons.prems(4) by (cases n) auto
  show ?case
  proof (cases xs)
    case Nil
    have "p_value m (stringify x @ CHR '']'' # rest) = Some (x, CHR '']'' # rest)"
      using Cons.prems(3) [of x "CHR '']'' # rest" m] Cons.prems(4) by (simp add: Nil n)
    then show ?thesis by (simp add: n Nil skip_ws_nonws json_ws_def)
  next
    case (Cons y ys)
    let ?t = "join_with '','' (map stringify xs) @ CHR '']'' # rest"
    have jw: "join_with '','' (map stringify (x # xs)) @ CHR '']'' # rest = stringify x @ CHR '','' # ?t"
      by (simp add: Cons)
    have "p_value m (stringify x @ CHR '','' # ?t) = Some (x, CHR '','' # ?t)"
      using Cons.prems(3) [of x "CHR '','' # ?t" m] Cons.prems(4) unfolding jw n by simp
    moreover have "p_elems m ?t = Some (xs, rest)"
      using Cons.prems Cons unfolding jw n by (intro Cons.IH) (auto simp: Cons)
    ultimately show ?thesis
      unfolding jw n by (simp add: skip_ws_nonws json_ws_def)
  qed
qed

definition print_field :: "string \<times> jsv \<Rightarrow> string" where
  "print_field kv = quote (fst kv) @ '':'' @ stringify (snd kv)"

lemma p_members_print:
  assumes "fs \<noteq> []" and "list_all (\<lambda>(k, v). json_ok v) fs" and "distinct (map fst fs)"
    and "\<And>k x n rest. (k, x) \<in> set fs \<Longrightarrow> closes rest \<Longrightarrow> 2 * length (stringify x @ rest) + 1 \<le> n \<Longrightarrow>
           p_value n (stringify x @ rest) = Some (x, rest)"
    and "2 * length (join_with '','' (map print_field fs) @ CHR ''}'' # rest) + 2 \<le> n"
  shows "p_members n (join_with '','' (map print_field fs) @ CHR ''}'' # rest) = Some (fs, rest)"
  using assms
proof (induction fs arbitrary: n)
  case Nil
  then show ?case by simp
next
  case (Cons kv fs)
  obtain k x where kv: "kv = (k, x)" by (cases kv)
  obtain m where n: "n = Suc m" using Cons.prems(5) by (cases n) auto
  show ?case
  proof (cases fs)
    case Nil
    have "p_value m (stringify x @ CHR ''}'' # rest) = Some (x, CHR ''}'' # rest)"
      using Cons.prems(4) [of k x "CHR ''}'' # rest" m] Cons.prems(5)
      by (simp add: Nil n kv print_field_def quote_def)
    then show ?thesis
      by (simp add: n Nil kv print_field_def quote_def p_string_quote skip_ws_nonws json_ws_def)
  next
    case (Cons y ys)
    let ?t = "join_with '','' (map print_field fs) @ CHR ''}'' # rest"
    have jw: "join_with '','' (map print_field (kv # fs)) @ CHR ''}'' # rest
        = quote k @ CHR '':'' # stringify x @ CHR '','' # ?t"
      by (simp add: Cons kv print_field_def)
    have "p_value m (stringify x @ CHR '','' # ?t) = Some (x, CHR '','' # ?t)"
      using Cons.prems(4) [of k x "CHR '','' # ?t" m] Cons.prems(5) unfolding jw n by (simp add: kv)
    moreover have "p_members m ?t = Some (fs, rest)"
      using Cons.prems Cons unfolding jw n by (intro Cons.IH) (auto simp: Cons)
    moreover have "set_field k x fs = (k, x) # fs"
      using Cons.prems(3) by (auto simp: set_field_def kv)
    ultimately show ?thesis
      unfolding jw n by (simp add: quote_def p_string_quote skip_ws_nonws json_ws_def kv)
  qed
qed

lemma join_with_hd: "\<exists>t. join_with sep (s # ss) = s @ t"
  by (cases ss) auto

lemma p_value_print:
  "json_ok v \<Longrightarrow> closes rest \<Longrightarrow> 2 * length (stringify v @ rest) + 1 \<le> n \<Longrightarrow>
   p_value n (stringify v @ rest) = Some (v, rest)"
proof (induction v arbitrary: n rest)
  case Undefined
  then show ?case by simp
next
  case Null
  then show ?case by (cases n) (auto simp: skip_ws_def json_ws_def)
next
  case (Bool b)
  then show ?case by (cases n) (auto simp: skip_ws_def json_ws_def)
next
  case (Num x)
  then obtain i where i: "x = Fin (of_int i)" using is_integer_cases by auto
  obtain m where "n = Suc m" using Num.prems(3) by (cases n) auto
  then show ?case using p_value_show_int [OF Num.prems(2), of m i] unfolding i stringify_int by simp
next
  case (Str s)
  then show ?case
    by (cases n) (auto simp: skip_ws_def json_ws_def quote_def p_string_quote)
next
  case (Arr xs)
  obtain m where n: "n = Suc m" using Arr.prems(3) by (cases n) auto
  show ?case
  proof (cases xs)
    case Nil
    then show ?thesis by (simp add: n skip_ws_nonws json_ws_def)
  next
    case (Cons y ys)
    let ?t = "join_with '','' (map stringify xs) @ CHR '']'' # rest"
    have "p_elems m ?t = Some (xs, rest)"
      using Arr.prems Arr.IH Cons by (intro p_elems_print) (auto simp: n list_all_iff)
    moreover have "skip_ws ?t = ?t \<and> \<not> starts_with ?t '']''"
    proof -
      obtain c cs where "stringify y = c # cs" "\<not> json_ws c" "c \<noteq> CHR '']''"
        using stringify_hd [of y] Arr.prems(1) Cons by auto
      moreover obtain t where "join_with '','' (map stringify xs) = stringify y @ t"
        using join_with_hd [of "'',''" "stringify y" "map stringify ys"] Cons by auto
      ultimately show ?thesis by (simp add: skip_ws_nonws)
    qed
    ultimately show ?thesis by (simp add: n skip_ws_nonws json_ws_def)
  qed
next
  case (Obj fs)
  obtain m where n: "n = Suc m" using Obj.prems(3) by (cases n) auto
  have keep: "filter (\<lambda>(k, v). v \<noteq> Undefined) fs = fs"
    using Obj.prems(1) by (auto simp: list_all_iff filter_id_conv)
  have pf: "(\<lambda>(k, v). quote k @ '':'' @ stringify v) = print_field"
    by (auto simp: print_field_def fun_eq_iff)
  have str: "stringify (Obj fs) = CHR ''{'' # join_with '','' (map print_field fs) @ ''}''"
    by (simp only: stringify.simps keep pf)
  show ?case
  proof (cases fs)
    case Nil
    then show ?thesis unfolding str by (simp add: n skip_ws_nonws json_ws_def)
  next
    case (Cons kv ys)
    let ?t = "join_with '','' (map print_field fs) @ CHR ''}'' # rest"
    have ih: "p_value i (stringify x @ r) = Some (x, r)"
      if "(k, x) \<in> set fs" "closes r" "2 * length (stringify x @ r) + 1 \<le> i" for k x i r
      using Obj.IH [of "(k, x)" x r i] Obj.prems(1) that by (auto simp: list_all_iff)
    have "p_members m ?t = Some (fs, rest)"
    proof (rule p_members_print)
      show "2 * length (join_with '','' (map print_field fs) @ CHR ''}'' # rest) + 2 \<le> m"
        using Obj.prems(3) unfolding str n by simp
    qed (use Obj.prems(1) Cons ih in auto)
    moreover have "skip_ws ?t = ?t \<and> \<not> starts_with ?t ''}''"
    proof -
      obtain t where "join_with '','' (map print_field fs) = CHR 0x22 # t"
        using join_with_hd [of "'',''" "print_field kv" "map print_field ys"] Cons
        by (auto simp: print_field_def quote_def)
      then show ?thesis by (simp add: skip_ws_nonws json_ws_def)
    qed
    ultimately show ?thesis unfolding str by (simp add: n skip_ws_nonws json_ws_def)
  qed
qed

lemma json_round_trip: "json_ok v \<Longrightarrow> json_parse (stringify v) = Some v"
  using p_value_print [of v "[]" "2 * length (stringify v) + 2"]
  by (simp add: json_parse_def closes_def skip_ws_def)

end
