(* ===== verification/JsCollections.thy ===== *)
theory JsCollections
  imports JsValue "HOL-Library.Multiset"
begin

text \<open>
  The collections of the language that the sources use: \<open>Map\<close> (insertion order, \<open>set\<close> on a present key
  keeps its place), the bounded cache built on it, and \<open>Array.prototype.sort\<close> (stable, with a
  comparator). Each is stated as an interface (\<open>ordered_map\<close>, \<open>bounded_map\<close>, \<open>comparator\<close>) whose
  laws the clients use, and interpreted on the definitions here.
\<close>

section \<open>Insertion-ordered maps\<close>

locale ordered_map =
  fixes none :: "'m"
    and look :: "'m \<Rightarrow> 'k \<Rightarrow> 'v option"
    and put :: "'k \<Rightarrow> 'v \<Rightarrow> 'm \<Rightarrow> 'm"
    and del :: "'k \<Rightarrow> 'm \<Rightarrow> 'm"
    and keys_of :: "'m \<Rightarrow> 'k list"
    and valid :: "'m \<Rightarrow> bool"
  assumes valid_none: "valid none"
    and valid_put: "valid m \<Longrightarrow> valid (put k v m)"
    and valid_del: "valid m \<Longrightarrow> valid (del k m)"
    and keys_distinct: "valid m \<Longrightarrow> distinct (keys_of m)"
    and keys_none: "keys_of none = []"
    and look_none_iff: "look m k = None \<longleftrightarrow> k \<notin> set (keys_of m)"
    and look_put: "valid m \<Longrightarrow> look (put k v m) k' = (if k' = k then Some v else look m k')"
    and look_del: "valid m \<Longrightarrow> look (del k m) k' = (if k' = k then None else look m k')"
    and keys_put_old: "k \<in> set (keys_of m) \<Longrightarrow> keys_of (put k v m) = keys_of m"
    and keys_put_new: "k \<notin> set (keys_of m) \<Longrightarrow> keys_of (put k v m) = keys_of m @ [k]"
    and keys_del: "keys_of (del k m) = filter (\<lambda>k'. k' \<noteq> k) (keys_of m)"
begin

lemma set_keys_put: "set (keys_of (put k v m)) = insert k (set (keys_of m))"
  by (cases "k \<in> set (keys_of m)") (auto simp: keys_put_old keys_put_new)

lemma set_keys_del: "set (keys_of (del k m)) = set (keys_of m) - {k}"
  by (auto simp: keys_del)

lemma look_Some_key: "look m k = Some v \<Longrightarrow> k \<in> set (keys_of m)"
  using look_none_iff [of m k] by auto

lemma length_keys_put_le: "length (keys_of (put k v m)) \<le> Suc (length (keys_of m))"
  by (cases "k \<in> set (keys_of m)") (auto simp: keys_put_old keys_put_new)

lemma length_keys_del_mem:
  assumes "valid m" "k \<in> set (keys_of m)"
  shows "Suc (length (keys_of (del k m))) = length (keys_of m)"
proof -
  have "card (set (keys_of (del k m))) = card (set (keys_of m)) - 1"
    using assms(2) by (simp add: set_keys_del)
  moreover have "card (set (keys_of m)) > 0" using assms(2) by (auto simp: card_gt_0_iff)
  ultimately show ?thesis
    using keys_distinct [OF assms(1)] keys_distinct [OF valid_del [OF assms(1)], of k]
    by (simp add: distinct_card)
qed

end

text \<open>
  A map used as a cache of bounded size: after an insertion that overflows the bound, the key that was
  inserted first is dropped.
\<close>

locale bounded_map = ordered_map +
  fixes bound :: nat
  assumes bound_pos: "0 < bound"
begin

definition put_bounded where
  "put_bounded k v m =
     (let m' = put k v m
      in if bound < length (keys_of m') then del (hd (keys_of m')) m' else m')"

lemma put_bounded_valid: "valid m \<Longrightarrow> valid (put_bounded k v m)"
  by (simp add: put_bounded_def Let_def valid_put valid_del)

lemma put_bounded_size:
  assumes "valid m" "length (keys_of m) \<le> bound"
  shows "length (keys_of (put_bounded k v m)) \<le> bound"
proof (cases "bound < length (keys_of (put k v m))")
  case True
  then have "hd (keys_of (put k v m)) \<in> set (keys_of (put k v m))"
    by (metis hd_in_set length_greater_0_conv not_less0 neq0_conv)
  then have "Suc (length (keys_of (put_bounded k v m))) = length (keys_of (put k v m))"
    using True length_keys_del_mem [OF valid_put [OF assms(1)]]
    by (simp add: put_bounded_def Let_def)
  then show ?thesis using length_keys_put_le [of k v m] assms(2) by simp
next
  case False
  then show ?thesis by (simp add: put_bounded_def Let_def)
qed

lemma put_bounded_look:
  assumes "valid m" "length (keys_of m) \<le> bound"
  shows "look (put_bounded k v m) k = Some v"
proof (cases "bound < length (keys_of (put k v m))")
  case True
  have new: "k \<notin> set (keys_of m)"
    using True assms(2) keys_put_old [of k m v] by (metis linorder_not_le)
  then have "keys_of (put k v m) = keys_of m @ [k]" by (rule keys_put_new)
  moreover have "keys_of m \<noteq> []" using True calculation bound_pos by auto
  ultimately have "hd (keys_of (put k v m)) \<noteq> k" using new by (auto simp: hd_append)
  then show ?thesis
    using True assms(1) by (simp add: put_bounded_def Let_def look_del look_put valid_put)
next
  case False
  then show ?thesis using assms(1) by (simp add: put_bounded_def Let_def look_put)
qed

lemma put_bounded_keys: "set (keys_of (put_bounded k v m)) \<subseteq> insert k (set (keys_of m))"
  by (auto simp: put_bounded_def Let_def set_keys_put set_keys_del)

end

type_synonym ('k, 'v) jsmap = "('k \<times> 'v) list"

definition map_get :: "('k, 'v) jsmap \<Rightarrow> 'k \<Rightarrow> 'v option" where
  "map_get m k = map_of m k"

fun map_set :: "'k \<Rightarrow> 'v \<Rightarrow> ('k, 'v) jsmap \<Rightarrow> ('k, 'v) jsmap" where
  "map_set k v [] = [(k, v)]"
| "map_set k v ((k', v') # m) = (if k' = k then (k, v) # m else (k', v') # map_set k v m)"

definition map_delete :: "'k \<Rightarrow> ('k, 'v) jsmap \<Rightarrow> ('k, 'v) jsmap" where
  "map_delete k m = filter (\<lambda>(k', v). k' \<noteq> k) m"

definition map_keys :: "('k, 'v) jsmap \<Rightarrow> 'k list" where
  "map_keys m = map fst m"

definition map_wf :: "('k, 'v) jsmap \<Rightarrow> bool" where
  "map_wf m \<longleftrightarrow> distinct (map fst m)"

lemma map_set_keys:
  "map fst (map_set k v m) = (if k \<in> fst ` set m then map fst m else map fst m @ [k])"
  by (induction k v m rule: map_set.induct) auto

lemma map_get_set: "map_get (map_set k v m) k' = (if k' = k then Some v else map_get m k')"
  by (induction k v m rule: map_set.induct) (auto simp: map_get_def)

lemma map_fst_filter: "map fst (filter (\<lambda>(k', v). k' \<noteq> k) m) = filter (\<lambda>k'. k' \<noteq> k) (map fst m)"
  by (induction m) auto

lemma map_get_delete: "map_get (map_delete k m) k' = (if k' = k then None else map_get m k')"
  by (induction m) (auto simp: map_get_def map_delete_def)

interpretation js_map: ordered_map "[]" map_get map_set map_delete map_keys map_wf
  by unfold_locales
    (auto simp: map_get_def map_keys_def map_wf_def map_set_keys map_get_set [unfolded map_get_def]
      map_delete_def map_fst_filter map_get_delete [unfolded map_get_def map_delete_def] map_of_eq_None_iff)

section \<open>Sorting\<close>

text \<open>
  A comparator in the sense of \<open>Array.prototype.sort\<close>: it returns a negative number, zero or a positive
  number. The language sorts stably; for a comparator that is a total preorder there is exactly one
  stable sorted arrangement, which \<open>js_sort\<close> computes by insertion.
\<close>

fun insert_by :: "('a \<Rightarrow> 'a \<Rightarrow> int) \<Rightarrow> 'a \<Rightarrow> 'a list \<Rightarrow> 'a list" where
  "insert_by cmp x [] = [x]"
| "insert_by cmp x (y # ys) = (if cmp x y \<le> 0 then x # y # ys else y # insert_by cmp x ys)"

definition js_sort :: "('a \<Rightarrow> 'a \<Rightarrow> int) \<Rightarrow> 'a list \<Rightarrow> 'a list" where
  "js_sort cmp xs = foldr (insert_by cmp) xs []"

lemma mset_insert_by: "mset (insert_by cmp x xs) = add_mset x (mset xs)"
  by (induction xs) auto

lemma mset_js_sort [simp]: "mset (js_sort cmp xs) = mset xs"
  by (induction xs) (auto simp: js_sort_def mset_insert_by)

lemma set_js_sort [simp]: "set (js_sort cmp xs) = set xs"
  by (metis mset_js_sort set_mset_mset)

lemma length_js_sort [simp]: "length (js_sort cmp xs) = length xs"
  by (metis mset_js_sort size_mset)

lemma set_insert_by: "set (insert_by cmp x xs) = insert x (set xs)"
  by (induction xs) auto

locale comparator =
  fixes cmp :: "'a \<Rightarrow> 'a \<Rightarrow> int"
  assumes cmp_total: "cmp x y \<le> 0 \<or> cmp y x \<le> 0"
    and cmp_trans: "cmp x y \<le> 0 \<Longrightarrow> cmp y z \<le> 0 \<Longrightarrow> cmp x z \<le> 0"
begin

lemma sorted_insert_by:
  "sorted_wrt (\<lambda>x y. cmp x y \<le> 0) xs \<Longrightarrow> sorted_wrt (\<lambda>x y. cmp x y \<le> 0) (insert_by cmp x xs)"
proof (induction xs)
  case (Cons y ys)
  then show ?case
    using cmp_total cmp_trans by (auto simp: set_insert_by)
qed simp

lemma sorted_js_sort: "sorted_wrt (\<lambda>x y. cmp x y \<le> 0) (js_sort cmp xs)"
  by (induction xs) (auto simp: js_sort_def sorted_insert_by)

lemma filter_insert_by:
  "\<not> P x \<Longrightarrow> filter P (insert_by cmp x xs) = filter P xs"
  by (induction xs) auto

lemma filter_insert_by_same:
  assumes "\<And>y. y \<in> set xs \<Longrightarrow> P y \<Longrightarrow> cmp x y \<le> 0" and "P x"
  shows "filter P (insert_by cmp x xs) = x # filter P xs"
  using assms(1)
proof (induction xs)
  case Nil
  then show ?case using assms(2) by simp
next
  case (Cons y ys)
  show ?case
  proof (cases "cmp x y \<le> 0")
    case True
    then show ?thesis using assms(2) by simp
  next
    case False
    then have "\<not> P y" using Cons.prems by auto
    then show ?thesis using False Cons by simp
  qed
qed

text \<open>Stability: elements the comparator does not tell apart keep their order.\<close>

lemma js_sort_stable:
  "filter (\<lambda>y. cmp x y = 0 \<and> cmp y x = 0) (js_sort cmp xs)
   = filter (\<lambda>y. cmp x y = 0 \<and> cmp y x = 0) xs"
proof (induction xs)
  case Nil
  then show ?case by (simp add: js_sort_def)
next
  case (Cons z zs)
  let ?P = "\<lambda>y. cmp x y = 0 \<and> cmp y x = 0"
  have step: "js_sort cmp (z # zs) = insert_by cmp z (js_sort cmp zs)"
    by (simp add: js_sort_def)
  show ?case
  proof (cases "?P z")
    case True
    have "cmp z y \<le> 0" if "?P y" for y
      using cmp_trans [of z x y] True that by simp
    then have "filter ?P (insert_by cmp z (js_sort cmp zs)) = z # filter ?P (js_sort cmp zs)"
      using True by (intro filter_insert_by_same) auto
    then show ?thesis using Cons True step by simp
  next
    case False
    then show ?thesis using Cons step by (simp add: filter_insert_by)
  qed
qed

lemma js_sort_hd_minimal: "y \<in> set xs \<Longrightarrow> cmp (hd (js_sort cmp xs)) y \<le> 0"
proof -
  assume y: "y \<in> set xs"
  then obtain z zs where z: "js_sort cmp xs = z # zs"
    by (metis length_0_conv length_js_sort list.exhaust length_pos_if_in_set less_numeral_extra(3))
  have "y \<in> set (z # zs)" using y z by (metis set_js_sort)
  moreover have "sorted_wrt (\<lambda>x y. cmp x y \<le> 0) (z # zs)" using sorted_js_sort [of xs] z by simp
  moreover have "cmp z z \<le> 0" using cmp_total by blast
  ultimately show ?thesis using z by auto
qed

end

text \<open>Comparators by a numeric key, ascending and descending: the usual \<open>a.k - b.k\<close>.\<close>

definition by_key :: "('a \<Rightarrow> int) \<Rightarrow> 'a \<Rightarrow> 'a \<Rightarrow> int" where
  "by_key f a b = f a - f b"

definition by_key_desc :: "('a \<Rightarrow> int) \<Rightarrow> 'a \<Rightarrow> 'a \<Rightarrow> int" where
  "by_key_desc f a b = f b - f a"

text \<open>\<open>c1(a, b) || c2(a, b)\<close>: the second comparator breaks the first one's ties.\<close>

definition then_by :: "('a \<Rightarrow> 'a \<Rightarrow> int) \<Rightarrow> ('a \<Rightarrow> 'a \<Rightarrow> int) \<Rightarrow> 'a \<Rightarrow> 'a \<Rightarrow> int" where
  "then_by c1 c2 a b = (if c1 a b = 0 then c2 a b else c1 a b)"

interpretation key_asc: comparator "by_key f" for f
  by unfold_locales (auto simp: by_key_def)

interpretation key_desc: comparator "by_key_desc f" for f
  by unfold_locales (auto simp: by_key_desc_def)

lemma comparator_then_by_key:
  assumes "comparator c"
  shows "comparator (then_by (by_key f) c)"
proof -
  note t = comparator.cmp_total [OF assms] and tr = comparator.cmp_trans [OF assms]
  show ?thesis
  proof
    show "then_by (by_key f) c x y \<le> 0 \<or> then_by (by_key f) c y x \<le> 0" for x y
      using t [of x y] by (auto simp: then_by_def by_key_def)
    show "then_by (by_key f) c x z \<le> 0"
      if "then_by (by_key f) c x y \<le> 0" "then_by (by_key f) c y z \<le> 0" for x y z
      using that tr [of x y z] by (auto simp: then_by_def by_key_def split: if_splits)
  qed
qed

text \<open>Sorting depends only on how the elements of the list compare.\<close>

lemma insert_by_cong:
  "(\<And>y. y \<in> set ys \<Longrightarrow> c x y = c' x y) \<Longrightarrow> insert_by c x ys = insert_by c' x ys"
  by (induction ys) auto

lemma js_sort_cong:
  "(\<And>x y. x \<in> set xs \<Longrightarrow> y \<in> set xs \<Longrightarrow> c x y = c' x y) \<Longrightarrow> js_sort c xs = js_sort c' xs"
proof (induction xs)
  case (Cons x xs)
  have "js_sort c xs = js_sort c' xs" by (rule Cons.IH) (simp add: Cons.prems)
  moreover have "insert_by c x (js_sort c' xs) = insert_by c' x (js_sort c' xs)"
    by (rule insert_by_cong) (simp add: Cons.prems)
  ultimately show ?case by (simp add: js_sort_def)
qed (simp add: js_sort_def)

end
