(* ===== verification/Http.thy ===== *)
theory Http
  imports Json JsCollections
begin

text \<open>
  Effectful code: an action reads its environment (the network, the incoming request's headers, the
  configuration, the clock) and threads a world (the requests sent so far, the cookie store). A thrown
  value is an \<open>Inl\<close>. The combinators below are the statement forms of the sources: sequencing,
  \<open>throw\<close>, \<open>try/catch\<close>, \<open>fetch\<close>, reading a response body. \<open>fetch\<close> itself, the incoming headers
  and the engine's syntax error texts are fields of the environment and stay arbitrary.
\<close>

section \<open>Requests and responses\<close>

datatype form_part = TextPart string string | FilePart string string string

datatype body = NoBody | Text string | Gzip string | Form "form_part list"

record request =
  req_url :: string
  req_method :: string
  req_headers :: "(string \<times> string) list"
  req_body :: body

record response =
  rsp_status :: nat
  rsp_headers :: "(string \<times> string) list"
  rsp_body :: "exn + string"

definition rsp_ok :: "response \<Rightarrow> bool" where
  "rsp_ok r \<longleftrightarrow> 200 \<le> rsp_status r \<and> rsp_status r \<le> 299"

text \<open>
  The \<open>RequestInit\<close> argument of the fetch wrappers: method, headers, body text.
\<close>

record init =
  i_method :: "string option"
  i_headers :: "(string \<times> string) list"
  i_body :: "string option"

definition no_init :: init where
  "no_init = \<lparr>i_method = None, i_headers = [], i_body = None\<rparr>"

definition method_init :: "string \<Rightarrow> init" where
  "method_init m = \<lparr>i_method = Some m, i_headers = [], i_body = None\<rparr>"

definition json_init :: "string \<Rightarrow> jsv \<Rightarrow> init" where
  "json_init m v = \<lparr>i_method = Some m, i_headers = [], i_body = Some (stringify v)\<rparr>"

definition json_header :: "(string \<times> string) list" where
  "json_header = [(''Content-Type'', ''application/json'')]"

definition init_method :: "init \<Rightarrow> string" where
  "init_method i = (case i_method i of None \<Rightarrow> ''GET'' | Some m \<Rightarrow> m)"

section \<open>Header collections\<close>

text \<open>A \<open>Headers\<close> object compares names without case; \<open>set\<close> replaces, \<open>get\<close> reads.\<close>

definition header_set :: "string \<Rightarrow> string \<Rightarrow> (string \<times> string) list \<Rightarrow> (string \<times> string) list" where
  "header_set k v h = map_set (js_lower k) v h"

definition header_get :: "(string \<times> string) list \<Rightarrow> string \<Rightarrow> string option" where
  "header_get h k = map_get h (js_lower k)"

definition new_headers :: "(string \<times> string) list \<Rightarrow> (string \<times> string) list" where
  "new_headers kvs = foldl (\<lambda>h (k, v). header_set k v h) [] kvs"

lemma header_get_set [io_simps]:
  "header_get (header_set k v h) k' = (if js_lower k' = js_lower k then Some v else header_get h k')"
  by (simp add: header_get_def header_set_def map_get_set)

lemma header_get_Nil [io_simps]: "header_get [] k = None"
  by (simp add: header_get_def map_get_def)

section \<open>Environment, world and actions\<close>

record env =
  env_fetch :: "request list \<Rightarrow> request \<Rightarrow> exn + response"
  env_in_headers :: "exn + (string \<times> string) list"
  env_api_url :: string
  env_public_api_url :: string
  env_cookie_secure :: bool
  env_now_iso :: string
  env_syntax_text :: "string \<Rightarrow> string"

record cookie_attrs =
  ck_http_only :: bool
  ck_secure :: bool
  ck_same_site :: string
  ck_path :: string
  ck_max_age :: jsv

record world =
  sent :: "request list"
  jar :: "(string \<times> jsv) list"
  jar_attrs :: "(string \<times> cookie_attrs) list"

type_synonym 'a io = "env \<Rightarrow> world \<Rightarrow> (exn + 'a) \<times> world"

definition ret :: "'a \<Rightarrow> 'a io" where
  "ret a e w = (Inr a, w)"

definition throw :: "exn \<Rightarrow> 'a io" where
  "throw x e w = (Inl x, w)"

definition lift :: "exn + 'a \<Rightarrow> 'a io" where
  "lift r e w = (r, w)"

definition bind :: "'a io \<Rightarrow> ('a \<Rightarrow> 'b io) \<Rightarrow> 'b io" where
  "bind m f e w = (case m e w of (Inl x, w') \<Rightarrow> (Inl x, w') | (Inr a, w') \<Rightarrow> f a e w')"

definition catch :: "'a io \<Rightarrow> (exn \<Rightarrow> 'a io) \<Rightarrow> 'a io" where
  "catch m h e w = (case m e w of (Inl x, w') \<Rightarrow> h x e w' | (Inr a, w') \<Rightarrow> (Inr a, w'))"

definition asks :: "(env \<Rightarrow> 'a) \<Rightarrow> 'a io" where
  "asks f e w = (Inr (f e), w)"

text \<open>
  \<open>cookieStore.get(k)?.value\<close> is \<open>undefined\<close> for an absent cookie. A cookie that was set earlier in
  the same request holds the value it was set to.
\<close>

definition jar_value :: "(string \<times> jsv) list \<Rightarrow> string \<Rightarrow> jsv" where
  "jar_value j k = (case map_get j k of None \<Rightarrow> Undefined | Some v \<Rightarrow> v)"

definition cookie :: "string \<Rightarrow> jsv io" where
  "cookie k e w = (Inr (jar_value (jar w) k), w)"

definition set_cookie :: "string \<Rightarrow> jsv \<Rightarrow> cookie_attrs \<Rightarrow> unit io" where
  "set_cookie k v a e w =
     (Inr (), w\<lparr>jar := map_set k v (jar w), jar_attrs := map_set k a (jar_attrs w)\<rparr>)"

definition delete_cookie :: "string \<Rightarrow> unit io" where
  "delete_cookie k e w =
     (Inr (), w\<lparr>jar := map_delete k (jar w), jar_attrs := map_delete k (jar_attrs w)\<rparr>)"

definition fetch :: "request \<Rightarrow> response io" where
  "fetch q e w = (env_fetch e (sent w) q, w\<lparr>sent := sent w @ [q]\<rparr>)"

definition json_value :: "env \<Rightarrow> response \<Rightarrow> exn + jsv" where
  "json_value e r =
     (case rsp_body r of
        Inl x \<Rightarrow> Inl x
      | Inr t \<Rightarrow> (case json_parse t of None \<Rightarrow> Inl (Error (env_syntax_text e t)) | Some v \<Rightarrow> Inr v))"

definition res_json :: "response \<Rightarrow> jsv io" where
  "res_json r e w = (json_value e r, w)"

definition res_text :: "response \<Rightarrow> string io" where
  "res_text r e w = (rsp_body r, w)"

text \<open>\<open>await res.json().catch(() => ({}))\<close>\<close>

definition res_json_or_empty :: "response \<Rightarrow> jsv io" where
  "res_json_or_empty r = catch (res_json r) (\<lambda>_. ret (Obj []))"

text \<open>\<open>err instanceof Error ? err.message : fallback\<close>\<close>

fun message_or :: "exn \<Rightarrow> string \<Rightarrow> string" where
  "message_or (Error m) d = m"
| "message_or (Thrown v) d = d"

lemma run_ret [io_simps]: "ret a e w = (Inr a, w)"
  by (simp add: ret_def)

lemma run_throw [io_simps]: "throw x e w = (Inl x, w)"
  by (simp add: throw_def)

lemma run_lift [io_simps]: "lift r e w = (r, w)"
  by (simp add: lift_def)

lemma run_bind [io_simps]:
  "bind m f e w = (case m e w of (Inl x, w') \<Rightarrow> (Inl x, w') | (Inr a, w') \<Rightarrow> f a e w')"
  by (simp add: bind_def)

lemma run_catch [io_simps]:
  "catch m h e w = (case m e w of (Inl x, w') \<Rightarrow> h x e w' | (Inr a, w') \<Rightarrow> (Inr a, w'))"
  by (simp add: catch_def)

lemma run_asks [io_simps]: "asks f e w = (Inr (f e), w)"
  by (simp add: asks_def)

lemma run_cookie [io_simps]: "cookie k e w = (Inr (jar_value (jar w) k), w)"
  by (simp add: cookie_def)

lemma jar_value_set [io_simps]: "jar_value (map_set k v j) k' = (if k' = k then v else jar_value j k')"
  by (simp add: jar_value_def map_get_set)

lemma jar_value_delete [io_simps]: "jar_value (map_delete k j) k' = (if k' = k then Undefined else jar_value j k')"
  by (simp add: jar_value_def map_get_delete)

lemma run_fetch [io_simps]: "fetch q e w = (env_fetch e (sent w) q, w\<lparr>sent := sent w @ [q]\<rparr>)"
  by (simp add: fetch_def)

lemma run_res_json [io_simps]: "res_json r e w = (json_value e r, w)"
  by (simp add: res_json_def)

lemma run_res_text [io_simps]: "res_text r e w = (rsp_body r, w)"
  by (simp add: res_text_def)

lemma run_res_json_or_empty [io_simps]:
  "res_json_or_empty r e w =
     (Inr (case json_value e r of Inl x \<Rightarrow> Obj [] | Inr v \<Rightarrow> v), w)"
  by (simp add: res_json_or_empty_def io_simps split: sum.splits)

lemma bind_assoc: "bind (bind m f) g = bind m (\<lambda>a. bind (f a) g)"
  by (intro ext) (simp add: bind_def split: prod.splits sum.splits)

lemma bind_ret [simp]: "bind (ret a) f = f a"
  by (intro ext) (simp add: bind_def ret_def)

lemma bind_ret_right [simp]: "bind m ret = m"
  by (intro ext) (simp add: bind_def ret_def split: prod.splits sum.splits)

lemma bind_throw [simp]: "bind (throw x) f = throw x"
  by (intro ext) (simp add: bind_def throw_def)

lemma catch_throw [simp]: "catch (throw x) h = h x"
  by (intro ext) (simp add: catch_def throw_def)

lemma catch_ret [simp]: "catch (ret a) h = ret a"
  by (intro ext) (simp add: catch_def ret_def)

text \<open>\<open>incomingHeaders().catch(() => null)\<close>\<close>

definition in_headers_or_null :: "(string \<times> string) list option io" where
  "in_headers_or_null = asks (\<lambda>e. case env_in_headers e of Inl x \<Rightarrow> None | Inr h \<Rightarrow> Some h)"

section \<open>How much an action sends\<close>

text \<open>
  \<open>sends_at_most n m\<close>: whatever the network answers, running \<open>m\<close> appends at most \<open>n\<close> requests to the log and
  rewrites none. The lemmas follow the combinators, so a bound for an action is found by following its
  text; \<open>keeps_jar\<close> is the same for the cookie store.
\<close>

definition sends_at_most :: "nat \<Rightarrow> 'a io \<Rightarrow> bool" where
  "sends_at_most n m \<longleftrightarrow> (\<forall>e w. \<exists>qs. sent (snd (m e w)) = sent w @ qs \<and> length qs \<le> n)"

definition keeps_jar :: "'a io \<Rightarrow> bool" where
  "keeps_jar m \<longleftrightarrow> (\<forall>e w. jar (snd (m e w)) = jar w \<and> jar_attrs (snd (m e w)) = jar_attrs w)"

named_theorems sends_intros "request bounds along the combinators"

lemma sends_pure [sends_intros]:
  fixes a :: 'a and x :: exn and s :: "exn + 'b"
  shows "sends_at_most n (ret a)" and "sends_at_most n (throw x :: 'c io)" and "sends_at_most n (lift s)"
  by (auto simp: sends_at_most_def io_simps)

lemma sends_0 [sends_intros]:
  "sends_at_most n (asks g)" "sends_at_most n (cookie k)" "sends_at_most n (res_json r)"
  "sends_at_most n (res_text r)" "sends_at_most n (res_json_or_empty r)"
  "sends_at_most n in_headers_or_null" "sends_at_most n (set_cookie k v attrs)" "sends_at_most n (delete_cookie k)"
  by (auto simp: sends_at_most_def io_simps set_cookie_def delete_cookie_def in_headers_or_null_def)

lemma sends_fetch: "sends_at_most 1 (fetch q)"
  by (simp add: sends_at_most_def io_simps)

lemma sends_bind:
  assumes "sends_at_most i m" and "\<And>a. sends_at_most j (f a)"
  shows "sends_at_most (i + j) (bind m f)"
  unfolding sends_at_most_def
proof (intro allI)
  fix e w
  obtain r w1 where r: "m e w = (r, w1)" by (cases "m e w")
  then obtain qs where qs: "sent w1 = sent w @ qs" "length qs \<le> i"
    using assms(1) unfolding sends_at_most_def by (metis snd_conv)
  show "\<exists>qs. sent (snd (bind m f e w)) = sent w @ qs \<and> length qs \<le> i + j"
  proof (cases r)
    case (Inl x)
    then show ?thesis using qs r by (auto simp: bind_def)
  next
    case (Inr a)
    obtain qs' where "sent (snd (f a e w1)) = sent w1 @ qs'" "length qs' \<le> j"
      using assms(2) [of a] unfolding sends_at_most_def by blast
    then show ?thesis using qs r Inr by (auto simp: bind_def intro!: exI [of _ "qs @ qs'"])
  qed
qed

lemma sends_catch:
  assumes "sends_at_most i m" and "\<And>x. sends_at_most j (h x)"
  shows "sends_at_most (i + j) (catch m h)"
  unfolding sends_at_most_def
proof (intro allI)
  fix e w
  obtain r w1 where r: "m e w = (r, w1)" by (cases "m e w")
  then obtain qs where qs: "sent w1 = sent w @ qs" "length qs \<le> i"
    using assms(1) unfolding sends_at_most_def by (metis snd_conv)
  show "\<exists>qs. sent (snd (catch m h e w)) = sent w @ qs \<and> length qs \<le> i + j"
  proof (cases r)
    case (Inr a)
    then show ?thesis using qs r by (auto simp: catch_def)
  next
    case (Inl x)
    obtain qs' where "sent (snd (h x e w1)) = sent w1 @ qs'" "length qs' \<le> j"
      using assms(2) [of x] unfolding sends_at_most_def by blast
    then show ?thesis using qs r Inl by (auto simp: catch_def intro!: exI [of _ "qs @ qs'"])
  qed
qed

lemma sends_mono: "sends_at_most i m \<Longrightarrow> i \<le> j \<Longrightarrow> sends_at_most j m"
  by (fastforce simp: sends_at_most_def)

lemma sends_bind_0: "sends_at_most 0 m \<Longrightarrow> (\<And>a. sends_at_most n (f a)) \<Longrightarrow> sends_at_most n (bind m f)"
  using sends_bind [of 0 m n f] by simp

lemma sends_bind_after: "sends_at_most n m \<Longrightarrow> (\<And>a. sends_at_most 0 (f a)) \<Longrightarrow> sends_at_most n (bind m f)"
  using sends_bind [of n m 0 f] by simp

lemma sends_catch_after: "sends_at_most n m \<Longrightarrow> (\<And>x. sends_at_most 0 (h x)) \<Longrightarrow> sends_at_most n (catch m h)"
  using sends_catch [of n m 0 h] by simp

lemma sends_fetch_then: "(\<And>r. sends_at_most 0 (f r)) \<Longrightarrow> sends_at_most 1 (bind (fetch q) f)"
  using sends_bind_after [OF sends_fetch] by blast

lemma sends_bind_pure:
  "(\<And>a. sends_at_most n (f a)) \<Longrightarrow> sends_at_most n (bind (lift s) f)"
  "(\<And>a. sends_at_most n (g a)) \<Longrightarrow> sends_at_most n (bind (asks h) g)"
  "(\<And>a. sends_at_most n (j a)) \<Longrightarrow> sends_at_most n (bind (cookie k) j)"
  "(\<And>a. sends_at_most n (j a)) \<Longrightarrow> sends_at_most n (bind (res_json r) j)"
  "(\<And>a. sends_at_most n (j a)) \<Longrightarrow> sends_at_most n (bind (res_json_or_empty r) j)"
  "(\<And>a. sends_at_most n (t a)) \<Longrightarrow> sends_at_most n (bind (res_text r) t)"
  "(\<And>a. sends_at_most n (i a)) \<Longrightarrow> sends_at_most n (bind in_headers_or_null i)"
  "(\<And>a. sends_at_most n (u a)) \<Longrightarrow> sends_at_most n (bind (set_cookie k v attrs) u)"
  by (rule sends_bind_0, rule sends_intros, blast)+

lemma sends_branch:
  "sends_at_most n m \<Longrightarrow> sends_at_most n m' \<Longrightarrow> sends_at_most n (if b then m else m')"
  "(\<And>x. sends_at_most n (l x)) \<Longrightarrow> (\<And>y. sends_at_most n (r y)) \<Longrightarrow>
     sends_at_most n (case s of Inl x \<Rightarrow> l x | Inr y \<Rightarrow> r y)"
  "sends_at_most n m \<Longrightarrow> (\<And>z. sends_at_most n (p z)) \<Longrightarrow>
     sends_at_most n (case q of None \<Rightarrow> m | Some z \<Rightarrow> p z)"
  "sends_at_most n (c d) \<Longrightarrow> sends_at_most n (Let d c)"
  by (auto split: sum.split option.split)

lemmas sends_rules = sends_branch sends_catch_after sends_fetch_then sends_bind_pure sends_intros

lemma keeps_jar_simps [simp]:
  "keeps_jar (ret a)" "keeps_jar (throw x)" "keeps_jar (lift s)" "keeps_jar (asks g)"
  "keeps_jar (cookie k)" "keeps_jar (res_json r)" "keeps_jar (res_text r)"
  "keeps_jar (res_json_or_empty r)" "keeps_jar (fetch q)" "keeps_jar in_headers_or_null"
  by (auto simp: keeps_jar_def io_simps in_headers_or_null_def)

lemma keeps_jar_bind: "keeps_jar m \<Longrightarrow> (\<And>a. keeps_jar (f a)) \<Longrightarrow> keeps_jar (bind m f)"
  unfolding keeps_jar_def bind_def by (auto split: prod.splits sum.splits) (metis snd_conv)+

lemma keeps_jar_catch: "keeps_jar m \<Longrightarrow> (\<And>x. keeps_jar (h x)) \<Longrightarrow> keeps_jar (catch m h)"
  unfolding keeps_jar_def catch_def by (auto split: prod.splits sum.splits) (metis snd_conv)+

text \<open>\<open>sends_one P m\<close>: running \<open>m\<close> sends nothing, or one request that satisfies \<open>P\<close>.\<close>

definition sends_one :: "(env \<Rightarrow> request \<Rightarrow> bool) \<Rightarrow> 'a io \<Rightarrow> bool" where
  "sends_one P m \<longleftrightarrow>
     (\<forall>e w. sent (snd (m e w)) = sent w \<or> (\<exists>q. sent (snd (m e w)) = sent w @ [q] \<and> P e q))"

lemma sends_none: "sends_at_most 0 m \<Longrightarrow> sent (snd (m e w)) = sent w"
  by (fastforce simp: sends_at_most_def)

lemma sends_one_none: "sends_at_most 0 m \<Longrightarrow> sends_one P m"
  by (simp add: sends_one_def sends_none)

lemma sends_one_bind_pure:
  assumes "sends_at_most 0 m" "\<And>a. sends_one P (f a)"
  shows "sends_one P (bind m f)"
  unfolding sends_one_def
proof (intro allI)
  fix e w
  obtain r w1 where r: "m e w = (r, w1)" by (cases "m e w")
  then have "sent w1 = sent w" using sends_none [OF assms(1), of e w] by simp
  then show "sent (snd (bind m f e w)) = sent w \<or> (\<exists>q. sent (snd (bind m f e w)) = sent w @ [q] \<and> P e q)"
    using r assms(2) [unfolded sends_one_def, rule_format, of _ e w1]
    by (cases r) (auto simp: bind_def)
qed

lemma sends_one_bind_after:
  assumes "sends_one P m" "\<And>a. sends_at_most 0 (f a)"
  shows "sends_one P (bind m f)"
  unfolding sends_one_def
proof (intro allI)
  fix e w
  obtain r w1 where r: "m e w = (r, w1)" by (cases "m e w")
  then show "sent (snd (bind m f e w)) = sent w \<or> (\<exists>q. sent (snd (bind m f e w)) = sent w @ [q] \<and> P e q)"
    using assms(1) [unfolded sends_one_def, rule_format, of e w] sends_none [OF assms(2)]
    by (cases r) (auto simp: bind_def)
qed

lemma sends_one_catch:
  assumes "sends_one P m" "\<And>x. sends_at_most 0 (h x)"
  shows "sends_one P (catch m h)"
  unfolding sends_one_def
proof (intro allI)
  fix e w
  obtain r w1 where r: "m e w = (r, w1)" by (cases "m e w")
  then show "sent (snd (catch m h e w)) = sent w \<or> (\<exists>q. sent (snd (catch m h e w)) = sent w @ [q] \<and> P e q)"
    using assms(1) [unfolded sends_one_def, rule_format, of e w] sends_none [OF assms(2)]
    by (cases r) (auto simp: catch_def)
qed

lemma sends_one_branch:
  "sends_one P m \<Longrightarrow> sends_one P m' \<Longrightarrow> sends_one P (if b then m else m')"
  "(\<And>x. sends_one P (l x)) \<Longrightarrow> (\<And>y. sends_one P (r y)) \<Longrightarrow>
     sends_one P (case s of Inl x \<Rightarrow> l x | Inr y \<Rightarrow> r y)"
  "sends_one P (c d) \<Longrightarrow> sends_one P (Let d c)"
  by (auto split: sum.split)

section \<open>Weakest preconditions\<close>

text \<open>
  \<open>wp m Q e w\<close>: running \<open>m\<close> ends in a result and a world that satisfy \<open>Q\<close>. The equations push it through the
  combinators, so the proof of a contract follows the action's text.
\<close>

definition wp :: "'a io \<Rightarrow> (exn + 'a \<Rightarrow> world \<Rightarrow> bool) \<Rightarrow> env \<Rightarrow> world \<Rightarrow> bool" where
  "wp m Q e w = (case m e w of (r, w') \<Rightarrow> Q r w')"

named_theorems wp_simps "weakest preconditions along the combinators"

lemma wpI: "wp m Q e w \<Longrightarrow> m e w = (r, w') \<Longrightarrow> Q r w'"
  by (simp add: wp_def)

lemma wp_mono: "wp m P e w \<Longrightarrow> (\<And>r w'. P r w' \<Longrightarrow> Q r w') \<Longrightarrow> wp m Q e w"
  by (auto simp: wp_def)

lemma wp_bind [wp_simps]:
  "wp (bind m f) Q e w = wp m (\<lambda>r w'. case r of Inl x \<Rightarrow> Q (Inl x) w' | Inr a \<Rightarrow> wp (f a) Q e w') e w"
  by (auto simp: wp_def bind_def split: prod.splits sum.splits)

lemma wp_catch [wp_simps]:
  "wp (catch m h) Q e w = wp m (\<lambda>r w'. case r of Inl x \<Rightarrow> wp (h x) Q e w' | Inr a \<Rightarrow> Q (Inr a) w') e w"
  by (auto simp: wp_def catch_def split: prod.splits sum.splits)

lemma wp_pure [wp_simps]:
  fixes a :: 'a and x :: exn and s :: "exn + 'b" and g :: "env \<Rightarrow> 'c"
  shows "wp (ret a) Q1 e w = Q1 (Inr a) w" and "wp (throw x) Q2 e w = Q2 (Inl x) w"
    and "wp (lift s) Q3 e w = Q3 s w" and "wp (asks g) Q4 e w = Q4 (Inr (g e)) w"
    and "wp (cookie k) Q5 e w = Q5 (Inr (jar_value (jar w) k)) w"
  by (simp_all add: wp_def io_simps)

lemma wp_effects [wp_simps]:
  "wp (fetch q) P e w = P (env_fetch e (sent w) q) (w\<lparr>sent := sent w @ [q]\<rparr>)"
  "wp (res_json r) J e w = J (json_value e r) w"
  "wp (res_text r) T e w = T (rsp_body r) w"
  "wp (res_json_or_empty r) J e w = J (Inr (case json_value e r of Inl x \<Rightarrow> Obj [] | Inr v \<Rightarrow> v)) w"
  "wp (set_cookie k v a) U e w =
     U (Inr ()) (w\<lparr>jar := map_set k v (jar w), jar_attrs := map_set k a (jar_attrs w)\<rparr>)"
  "wp (delete_cookie k) U e w =
     U (Inr ()) (w\<lparr>jar := map_delete k (jar w), jar_attrs := map_delete k (jar_attrs w)\<rparr>)"
  "wp in_headers_or_null H e w =
     H (Inr (case env_in_headers e of Inl x \<Rightarrow> None | Inr h \<Rightarrow> Some h)) w"
  by (simp_all add: wp_def io_simps set_cookie_def delete_cookie_def in_headers_or_null_def)

lemma wp_if [wp_simps]: "wp (if b then m else m') Q e w = (if b then wp m Q e w else wp m' Q e w)"
  by simp

lemma wp_case_sum [wp_simps]:
  "wp (case s of Inl x \<Rightarrow> l x | Inr y \<Rightarrow> r y) Q e w =
     (case s of Inl x \<Rightarrow> wp (l x) Q e w | Inr y \<Rightarrow> wp (r y) Q e w)"
  by (simp split: sum.split)

lemma wp_case_option [wp_simps]:
  "wp (case q of None \<Rightarrow> m | Some z \<Rightarrow> p z) Q e w =
     (case q of None \<Rightarrow> wp m Q e w | Some z \<Rightarrow> wp (p z) Q e w)"
  by (simp split: option.split)

text \<open>
  The same equations as introduction rules, with one rule per case analysis: \<open>intro wp_rules\<close> walks through
  an action and leaves one goal per outcome.
\<close>

lemma case_intros:
  "P a \<Longrightarrow> (case Inl a of Inl x \<Rightarrow> P x | Inr y \<Rightarrow> R y)"
  "R b \<Longrightarrow> (case Inr b of Inl x \<Rightarrow> P x | Inr y \<Rightarrow> R y)"
  by simp_all

lemma split_intros:
  "(\<And>x. s = Inl x \<Longrightarrow> P x) \<Longrightarrow> (\<And>y. s = Inr y \<Longrightarrow> R y) \<Longrightarrow> (case s of Inl x \<Rightarrow> P x | Inr y \<Rightarrow> R y)"
  "(q = None \<Longrightarrow> A) \<Longrightarrow> (\<And>z. q = Some z \<Longrightarrow> B z) \<Longrightarrow> (case q of None \<Rightarrow> A | Some z \<Rightarrow> B z)"
  by (auto split: sum.split option.split)

lemma wp_ifI: "(b \<Longrightarrow> wp m Q e w) \<Longrightarrow> (\<not> b \<Longrightarrow> wp m' Q e w) \<Longrightarrow> wp (if b then m else m') Q e w"
  by simp

lemma wp_LetI: "wp (f x) Q e w \<Longrightarrow> wp (Let x f) Q e w"
  by simp

lemmas wp_rules = wp_ifI wp_LetI wp_bind [THEN iffD2] wp_catch [THEN iffD2] wp_pure [THEN iffD2]
  wp_effects [THEN iffD2] wp_case_sum [THEN iffD2] wp_case_option [THEN iffD2] case_intros split_intros

section \<open>A concrete environment\<close>

text \<open>One backend that answers every request with the same text, and a world with one cookie.\<close>

definition answering :: "nat \<Rightarrow> string \<Rightarrow> env" where
  "answering status t =
     \<lparr>env_fetch = (\<lambda>_ _. Inr \<lparr>rsp_status = status, rsp_headers = [], rsp_body = Inr t\<rparr>),
      env_in_headers = Inr [(''x-forwarded-for'', ''1.1.1.1, 10.0.0.7'')],
      env_api_url = ''http://api'', env_public_api_url = ''http://api'', env_cookie_secure = True,
      env_now_iso = ''2025-01-01T00:00:00.000Z'', env_syntax_text = (\<lambda>_. ''Unexpected token'')\<rparr>"

definition offline :: env where
  "offline = (answering 200 [])\<lparr>env_fetch := \<lambda>_ _. Inl (Error ''fetch failed'')\<rparr>"

definition with_cookie :: "string \<Rightarrow> string \<Rightarrow> world" where
  "with_cookie k v = \<lparr>sent = [], jar = [(k, Str v)], jar_attrs = []\<rparr>"

section \<open>URL text\<close>

definition uri_hex :: "nat \<Rightarrow> char" where
  "uri_hex n = ''0123456789ABCDEF'' ! (n mod 16)"

definition percent :: "nat \<Rightarrow> string" where
  "percent n = [CHR ''%'', uri_hex (n div 16), uri_hex (n mod 16)]"

definition utf8_percent :: "nat \<Rightarrow> string" where
  "utf8_percent n =
     (if n < 128 then percent n else percent (192 + n div 64) @ percent (128 + n mod 64))"

definition is_alnum :: "char \<Rightarrow> bool" where
  "is_alnum c \<longleftrightarrow> (let n = of_char c :: nat in
     (48 \<le> n \<and> n \<le> 57) \<or> (65 \<le> n \<and> n \<le> 90) \<or> (97 \<le> n \<and> n \<le> 122))"

definition uri_unreserved :: "char \<Rightarrow> bool" where
  "uri_unreserved c \<longleftrightarrow> is_alnum c \<or> c \<in> {CHR ''-'', CHR ''_'', CHR ''.'', CHR ''!'', CHR ''~'',
     CHR ''*'', CHR 0x27, CHR ''('', CHR '')''}"

definition encode_char :: "char \<Rightarrow> string" where
  "encode_char c = (if uri_unreserved c then [c] else utf8_percent (of_char c))"

definition encodeURIComponent :: "string \<Rightarrow> string" where
  "encodeURIComponent s = concat (map encode_char s)"

definition form_char :: "char \<Rightarrow> string" where
  "form_char c =
     (if is_alnum c \<or> c \<in> {CHR ''*'', CHR ''-'', CHR ''.'', CHR ''_''} then [c]
      else if c = CHR '' '' then ''+'' else utf8_percent (of_char c))"

definition form_encode :: "string \<Rightarrow> string" where
  "form_encode s = concat (map form_char s)"

text \<open>\<open>URLSearchParams.toString()\<close> over the pairs set so far.\<close>

definition query_text :: "(string \<times> string) list \<Rightarrow> string" where
  "query_text ps = join_with ''&'' (map (\<lambda>(k, v). form_encode k @ ''='' @ form_encode v) ps)"

definition with_query :: "string \<Rightarrow> (string \<times> string) list \<Rightarrow> string" where
  "with_query path ps = (if query_text ps = [] then path else path @ ''?'' @ query_text ps)"

lemma uri_hex_alnum: "is_alnum (uri_hex k)"
proof -
  have "list_all is_alnum ''0123456789ABCDEF''" by (simp add: is_alnum_def Let_def)
  moreover have "k mod 16 < length ''0123456789ABCDEF''" by simp
  ultimately show ?thesis unfolding uri_hex_def list_all_length by blast
qed

lemma percent_chars: "c \<in> set (percent k) \<Longrightarrow> c = CHR ''%'' \<or> is_alnum c"
  using uri_hex_alnum by (auto simp: percent_def)

lemma utf8_percent_chars: "c \<in> set (utf8_percent n) \<Longrightarrow> c = CHR ''%'' \<or> is_alnum c"
  using percent_chars by (auto simp: utf8_percent_def split: if_splits)

lemma encode_char_chars: "x \<in> set (encode_char c) \<Longrightarrow> x = CHR ''%'' \<or> uri_unreserved x"
  using utf8_percent_chars [of x "of_char c"]
  by (auto simp: encode_char_def uri_unreserved_def split: if_splits)

lemma encodeURIComponent_chars:
  "c \<in> set (encodeURIComponent s) \<Longrightarrow> c = CHR ''%'' \<or> uri_unreserved c"
  using encode_char_chars by (auto simp: encodeURIComponent_def)

lemma not_alnum_punct: "\<not> is_alnum CHR ''/''" "\<not> is_alnum CHR ''?''" "\<not> is_alnum CHR ''#''" "\<not> is_alnum CHR ''&''"
  "\<not> is_alnum CHR ''%''"
  by (simp_all add: is_alnum_def Let_def)

lemma encodeURIComponent_no_delimiter:
  "CHR ''/'' \<notin> set (encodeURIComponent s)" "CHR ''?'' \<notin> set (encodeURIComponent s)"
  "CHR ''#'' \<notin> set (encodeURIComponent s)"
  by (auto dest!: encodeURIComponent_chars simp: uri_unreserved_def not_alnum_punct)

end
