(* ===== verification/Zod.thy ===== *)
theory Zod
  imports Http
begin

text \<open>
  The schema library the sources validate with (\<open>zod\<close>, not part of the repository). Schemas are data
  here, written as the sources write them; \<open>zod_eval\<close> is the documented meaning of the combinators
  used: which values a schema accepts and what it turns them into. The parser itself is a parameter
  \<open>safe_parse\<close> of every action; \<open>zod_parser\<close> is its documented contract (success with the schema's
  value, or a non-empty list of issues, given by their messages), and \<open>zod_reference\<close> shows that the contract
  can be met.
\<close>

section \<open>Schemas\<close>

datatype str_check =
    Trim
  | ToLowerCase
  | MinLength nat string
  | MaxLength nat string
  | Pattern "string \<Rightarrow> bool" string
  | StrRefine "string \<Rightarrow> bool" string

datatype num_check =
    IntOnly string
  | MinValue int string
  | MaxValue int string

datatype schema =
    ZString "str_check list"
  | ZNumber "num_check list"
  | ZCoerceNumber "num_check list"
  | ZBoolean
  | ZEnum "string list"
  | ZLiteral jsv
  | ZOptional schema
  | ZNullable schema
  | ZDefault schema jsv
  | ZUnion schema schema
  | ZArray schema nat "nat option"
  | ZRecord "str_check list" schema
  | ZObject "(string \<times> schema) list"
  | ZRefine schema "jsv \<Rightarrow> bool" string

text \<open>\<open>.positive()\<close> and \<open>.nonnegative()\<close> on integers.\<close>

abbreviation NonNegative :: "string \<Rightarrow> num_check" where
  "NonNegative m \<equiv> MinValue 0 m"

abbreviation Positive :: "string \<Rightarrow> num_check" where
  "Positive m \<equiv> MinValue 1 m"

section \<open>Meaning\<close>

fun str_eval :: "str_check list \<Rightarrow> string \<Rightarrow> string option" where
  "str_eval [] s = Some s"
| "str_eval (Trim # cs) s = str_eval cs (js_trim s)"
| "str_eval (ToLowerCase # cs) s = str_eval cs (js_lower s)"
| "str_eval (MinLength n m # cs) s = (if n \<le> length s then str_eval cs s else None)"
| "str_eval (MaxLength n m # cs) s = (if length s \<le> n then str_eval cs s else None)"
| "str_eval (Pattern p m # cs) s = (if p s then str_eval cs s else None)"
| "str_eval (StrRefine p m # cs) s = (if p s then str_eval cs s else None)"

fun num_check_ok :: "num_check \<Rightarrow> rat \<Rightarrow> bool" where
  "num_check_ok (IntOnly m) r = (of_int \<lfloor>r\<rfloor> = r \<and> - 9007199254740991 \<le> r \<and> r \<le> 9007199254740991)"
| "num_check_ok (MinValue n m) r = (of_int n \<le> r)"
| "num_check_ok (MaxValue n m) r = (r \<le> of_int n)"

fun num_eval :: "num_check list \<Rightarrow> jsnum \<Rightarrow> jsv option" where
  "num_eval cs (Fin r) = (if list_all (\<lambda>c. num_check_ok c r) cs then Some (Num (Fin r)) else None)"
| "num_eval cs n = None"

definition drop_undefined :: "(string \<times> jsv) list \<Rightarrow> (string \<times> jsv) list" where
  "drop_undefined fs = filter (\<lambda>(k, v). v \<noteq> Undefined) fs"

function zod_eval :: "schema \<Rightarrow> jsv \<Rightarrow> jsv option" where
  "zod_eval (ZString cs) v = (case v of Str s \<Rightarrow> map_option Str (str_eval cs s) | _ \<Rightarrow> None)"
| "zod_eval (ZNumber cs) v = (case v of Num n \<Rightarrow> num_eval cs n | _ \<Rightarrow> None)"
| "zod_eval (ZCoerceNumber cs) v = num_eval cs (js_Number v)"
| "zod_eval ZBoolean v = (case v of Bool b \<Rightarrow> Some v | _ \<Rightarrow> None)"
| "zod_eval (ZEnum ss) v = (case v of Str s \<Rightarrow> (if s \<in> set ss then Some v else None) | _ \<Rightarrow> None)"
| "zod_eval (ZLiteral w) v = (if v = w then Some v else None)"
| "zod_eval (ZOptional s) v = (if v = Undefined then Some Undefined else zod_eval s v)"
| "zod_eval (ZNullable s) v = (if v = Null then Some Null else zod_eval s v)"
| "zod_eval (ZDefault s d) v = (if v = Undefined then Some d else zod_eval s v)"
| "zod_eval (ZUnion s t) v = (case zod_eval s v of None \<Rightarrow> zod_eval t v | Some d \<Rightarrow> Some d)"
| "zod_eval (ZArray s lo hi) v =
     (case v of
        Arr xs \<Rightarrow>
          if lo \<le> length xs \<and> (case hi of None \<Rightarrow> True | Some h \<Rightarrow> length xs \<le> h)
          then map_option Arr (traverse (zod_eval s) xs) else None
      | _ \<Rightarrow> None)"
| "zod_eval (ZRecord cs s) v =
     (case v of
        Obj fs \<Rightarrow>
          map_option Obj (traverse (\<lambda>(k, x).
            (case str_eval cs k of None \<Rightarrow> None | Some k' \<Rightarrow> map_option (Pair k') (zod_eval s x))) fs)
      | _ \<Rightarrow> None)"
| "zod_eval (ZObject shape) v =
     (case v of
        Obj fs \<Rightarrow>
          map_option (\<lambda>gs. Obj (drop_undefined gs))
            (traverse (\<lambda>ks. map_option (Pair (fst ks)) (zod_eval (snd ks) (field fs (fst ks)))) shape)
      | _ \<Rightarrow> None)"
| "zod_eval (ZRefine s p m) v =
     (case zod_eval s v of None \<Rightarrow> None | Some d \<Rightarrow> if p d then Some d else None)"
  by pat_completeness auto

lemma schema_field_size: "ks \<in> set shape \<Longrightarrow> size (snd ks) < size (ZObject shape)"
  by (induction shape) (auto simp: less_Suc_eq_le trans_le_add1 trans_le_add2)

termination zod_eval
  by (relation "measure (\<lambda>(s, v). size s)") (use schema_field_size in auto)

section \<open>The parser as an interface\<close>

type_synonym parser = "schema \<Rightarrow> jsv \<Rightarrow> string list + jsv"

locale zod_parser =
  fixes safe_parse :: parser
  assumes parse_accepts: "zod_eval s v = Some d \<Longrightarrow> safe_parse s v = Inr d"
    and parse_rejects: "zod_eval s v = None \<Longrightarrow> \<exists>m ms. safe_parse s v = Inl (m # ms)"
begin

lemma parse_Inr_iff: "safe_parse s v = Inr d \<longleftrightarrow> zod_eval s v = Some d"
  using parse_accepts [of s v] parse_rejects [of s v] by (cases "zod_eval s v") auto

lemma parse_Inl_iff: "(\<exists>ms. safe_parse s v = Inl ms) \<longleftrightarrow> zod_eval s v = None"
  using parse_accepts [of s v] parse_rejects [of s v] by (cases "zod_eval s v") auto

lemma parse_InlD: "safe_parse s v = Inl ms \<Longrightarrow> zod_eval s v = None \<and> ms \<noteq> []"
  using parse_accepts [of s v] parse_rejects [of s v] by (cases "zod_eval s v") auto

end

definition zod_ref :: parser where
  "zod_ref s v = (case zod_eval s v of Some d \<Rightarrow> Inr d | None \<Rightarrow> Inl [''Invalid input''])"

interpretation zod_reference: zod_parser zod_ref
  by unfold_locales (auto simp: zod_ref_def)

text \<open>
  \<open>issues[0]?.message || d\<close> and \<open>issues[0]?.message ?? d\<close>.
\<close>

definition issue_or :: "string list \<Rightarrow> string \<Rightarrow> string" where
  "issue_or ms d = (case ms of [] \<Rightarrow> d | m # _ \<Rightarrow> if m = [] then d else m)"

definition issue_nn :: "string list \<Rightarrow> string \<Rightarrow> string" where
  "issue_nn ms d = (case ms of [] \<Rightarrow> d | m # _ \<Rightarrow> m)"

section \<open>Facts about accepted values\<close>

lemma str_eval_append: "str_eval (cs @ ds) s =
  (case str_eval cs s of None \<Rightarrow> None | Some t \<Rightarrow> str_eval ds t)"
  by (induction cs s rule: str_eval.induct) auto

lemma zod_string_accepts:
  "zod_eval (ZString cs) v = Some d \<longleftrightarrow> (\<exists>s t. v = Str s \<and> str_eval cs s = Some t \<and> d = Str t)"
  by (cases v) auto

lemma zod_number_accepts:
  "zod_eval (ZNumber cs) v = Some d \<longleftrightarrow>
     (\<exists>r. v = Num (Fin r) \<and> list_all (\<lambda>c. num_check_ok c r) cs \<and> d = v)"
proof (cases v)
  case (Num n)
  then show ?thesis by (cases n) auto
qed auto

lemma zod_int_accepts:
  assumes "zod_eval (ZNumber cs) v = Some d" and "IntOnly m \<in> set cs"
  shows "\<exists>i. v = IntV i \<and> d = IntV i \<and> list_all (\<lambda>c. num_check_ok c (of_int i)) cs"
proof -
  obtain r where r: "v = Num (Fin r)" "list_all (\<lambda>c. num_check_ok c r) cs" "d = v"
    using assms(1) zod_number_accepts by blast
  then have "num_check_ok (IntOnly m) r" using assms(2) by (auto simp: list_all_iff)
  then obtain i where "r = of_int i" by auto
  then show ?thesis using r by auto
qed

lemma zod_object_accepts:
  "zod_eval (ZObject shape) v = Some d \<longleftrightarrow>
     (\<exists>fs gs. v = Obj fs \<and> d = Obj (drop_undefined gs) \<and>
        list_all2 (\<lambda>ks kd. fst kd = fst ks \<and> zod_eval (snd ks) (field fs (fst ks)) = Some (snd kd)) shape gs)"
proof (cases v)
  case (Obj fs)
  have "map_option (Pair (fst ks)) (zod_eval (snd ks) (field fs (fst ks))) = Some kd \<longleftrightarrow>
      fst kd = fst ks \<and> zod_eval (snd ks) (field fs (fst ks)) = Some (snd kd)" for ks kd
    by (cases kd) auto
  then show ?thesis by (auto simp: Obj traverse_Some_iff)
qed auto

lemma zod_array_accepts:
  "zod_eval (ZArray s lo hi) v = Some d \<longleftrightarrow>
     (\<exists>xs ys. v = Arr xs \<and> d = Arr ys \<and> lo \<le> length xs \<and>
        (case hi of None \<Rightarrow> True | Some h \<Rightarrow> length xs \<le> h) \<and>
        list_all2 (\<lambda>x y. zod_eval s x = Some y) xs ys)"
  by (cases v) (auto simp: traverse_Some_iff)

lemma field_drop_undefined: "distinct (map fst gs) \<Longrightarrow> field (drop_undefined gs) k = field gs k"
proof (induction gs)
  case Nil
  then show ?case by (simp add: drop_undefined_def)
next
  case (Cons kv gs)
  obtain k' v where kv: "kv = (k', v)" by (cases kv)
  have absent: "k \<notin> fst ` set gs \<Longrightarrow> field gs k = Undefined"
    by (simp add: field_def map_of_eq_None_iff split: option.split) (metis map_of_eq_None_iff option.distinct(1))
  show ?case
    using Cons absent by (auto simp: kv drop_undefined_def)
qed

lemma list_all2_fields:
  assumes "list_all2 (\<lambda>ks kd. fst kd = fst ks \<and> zod_eval (snd ks) (field fs (fst ks)) = Some (snd kd)) shape gs"
  shows "map fst gs = map fst shape"
    and "map_of shape k = Some s \<Longrightarrow> \<exists>d. map_of gs k = Some d \<and> zod_eval s (field fs k) = Some d"
proof -
  show "map fst gs = map fst shape"
    using assms by (induction shape gs rule: list_all2_induct) simp_all
  show "\<exists>d. map_of gs k = Some d \<and> zod_eval s (field fs k) = Some d" if "map_of shape k = Some s"
    using assms that
  proof (induction shape gs rule: list_all2_induct)
    case Nil
    then show ?case by simp
  next
    case (Cons ks shape kd gs)
    show ?case
    proof (cases "fst ks = k")
      case True
      then show ?thesis using Cons.hyps(1) Cons.prems by (cases ks, cases kd) (simp del: zod_eval.simps)
    next
      case False
      then show ?thesis using Cons by (cases ks, cases kd) (simp del: zod_eval.simps)
    qed
  qed
qed

text \<open>The value an object schema accepts, field by field.\<close>

lemma zod_object_field:
  assumes "zod_eval (ZObject shape) v = Some d" "distinct (map fst shape)" "map_of shape k = Some s"
  shows "zod_eval s (get_opt v k) = Some (get_opt d k)"
proof -
  obtain fs gs where gs: "v = Obj fs" "d = Obj (drop_undefined gs)"
      "list_all2 (\<lambda>ks kd. fst kd = fst ks \<and> zod_eval (snd ks) (field fs (fst ks)) = Some (snd kd)) shape gs"
    using assms(1) unfolding zod_object_accepts by (elim exE conjE)
  obtain x where "map_of gs k = Some x" "zod_eval s (field fs k) = Some x"
    using list_all2_fields(2) [OF gs(3) assms(3)] by (elim exE conjE)
  moreover have "distinct (map fst gs)" using assms(2) unfolding list_all2_fields(1) [OF gs(3)] .
  ultimately have "field (drop_undefined gs) k = x" by (simp add: field_drop_undefined) (simp add: field_def)
  with \<open>zod_eval s (field fs k) = Some x\<close> show ?thesis unfolding gs get_opt_simps by (simp only:)
qed

lemma zod_object_is_obj: "zod_eval (ZObject shape) v = Some d \<Longrightarrow> \<exists>gs. d = Obj gs"
  unfolding zod_object_accepts by (elim exE conjE) (rule exI)

lemma zod_refine_accepts:
  "zod_eval (ZRefine s p m) v = Some d \<longleftrightarrow> zod_eval s v = Some d \<and> p d"
  by (auto split: option.splits)

lemma zod_int_range:
  assumes "zod_eval (ZNumber [IntOnly m, MinValue lo m1, MaxValue hi m2]) v = Some d"
  shows "\<exists>i. d = IntV i \<and> lo \<le> i \<and> i \<le> hi"
  using zod_int_accepts [OF assms, of m] by auto

lemma zod_string_D:
  "zod_eval (ZString cs) v = Some d \<Longrightarrow> \<exists>s t. v = Str s \<and> str_eval cs s = Some t \<and> d = Str t"
  by (rule zod_string_accepts [THEN iffD1])

lemma zod_array_D:
  assumes "zod_eval (ZArray s lo hi) v = Some d"
  shows "\<exists>xs ys. v = Arr xs \<and> d = Arr ys \<and> lo \<le> length ys \<and>
           (case hi of None \<Rightarrow> True | Some h \<Rightarrow> length ys \<le> h) \<and> (\<forall>y\<in>set ys. \<exists>x\<in>set xs. zod_eval s x = Some y)"
proof -
  obtain xs ys where xy: "v = Arr xs" "d = Arr ys" "lo \<le> length xs"
      "case hi of None \<Rightarrow> True | Some h \<Rightarrow> length xs \<le> h" "list_all2 (\<lambda>x y. zod_eval s x = Some y) xs ys"
    using zod_array_accepts [THEN iffD1, OF assms] by (elim exE conjE)
  have "length ys = length xs" using xy(5) by (simp add: list_all2_lengthD)
  moreover have "\<forall>y\<in>set ys. \<exists>x\<in>set xs. zod_eval s x = Some y"
    using xy(5) by (fastforce simp: list_all2_conv_all_nth in_set_conv_nth simp del: zod_eval.simps)
  ultimately show ?thesis using xy by (cases hi) auto
qed

lemma zod_optional_D: "zod_eval (ZOptional s) v = Some d \<Longrightarrow> d = Undefined \<or> zod_eval s v = Some d"
  unfolding zod_eval.simps(7) by (split if_split_asm) auto

lemma zod_default_D: "zod_eval (ZDefault s d0) v = Some d \<Longrightarrow> d = d0 \<or> zod_eval s v = Some d"
  unfolding zod_eval.simps(9) by (split if_split_asm) auto

section \<open>Accepted values travel\<close>

text \<open>
  A schema whose accepted values are text that JSON carries: its numbers are integers, its object keys are
  distinct, its array elements are never \<open>undefined\<close>.
\<close>

function never_undefined :: "schema \<Rightarrow> bool" where
  "never_undefined (ZOptional s) = False"
| "never_undefined (ZLiteral w) = (w \<noteq> Undefined)"
| "never_undefined (ZUnion s t) = (never_undefined s \<and> never_undefined t)"
| "never_undefined (ZDefault s d) = (d \<noteq> Undefined \<and> never_undefined s)"
| "never_undefined (ZNullable s) = never_undefined s"
| "never_undefined (ZRefine s p m) = never_undefined s"
| "never_undefined (ZString cs) = True"
| "never_undefined (ZNumber ns) = True"
| "never_undefined (ZCoerceNumber ns) = True"
| "never_undefined ZBoolean = True"
| "never_undefined (ZEnum ss) = True"
| "never_undefined (ZArray s lo hi) = True"
| "never_undefined (ZRecord cs s) = True"
| "never_undefined (ZObject shape) = True"
  by pat_completeness auto

termination never_undefined
  by (relation "measure size") auto

definition int_checks :: "num_check list \<Rightarrow> bool" where
  "int_checks ns \<longleftrightarrow> (\<exists>c\<in>set ns. case c of IntOnly m \<Rightarrow> True | _ \<Rightarrow> False)"

function json_schema :: "schema \<Rightarrow> bool" where
  "json_schema (ZString cs) = True"
| "json_schema (ZNumber ns) = int_checks ns"
| "json_schema (ZCoerceNumber ns) = int_checks ns"
| "json_schema ZBoolean = True"
| "json_schema (ZEnum ss) = True"
| "json_schema (ZLiteral w) = json_ok w"
| "json_schema (ZOptional s) = json_schema s"
| "json_schema (ZNullable s) = json_schema s"
| "json_schema (ZDefault s d) = (json_ok d \<and> json_schema s)"
| "json_schema (ZUnion s t) = (json_schema s \<and> json_schema t)"
| "json_schema (ZArray s lo hi) = (json_schema s \<and> never_undefined s)"
| "json_schema (ZRecord cs s) = False"
| "json_schema (ZObject shape) = (distinct (map fst shape) \<and> (\<forall>ks\<in>set shape. json_schema (snd ks)))"
| "json_schema (ZRefine s p m) = json_schema s"
  by pat_completeness auto

termination json_schema
  by (relation "measure size") (use schema_field_size in auto)

lemma num_eval_int:
  assumes "num_eval ns n = Some d" "int_checks ns"
  shows "d \<noteq> Undefined \<and> json_ok d"
proof (cases n)
  case (Fin r)
  with assms(1) have all: "\<forall>c\<in>set ns. num_check_ok c r" and d: "d = Num (Fin r)"
    by (auto simp: list_all_iff split: if_splits)
  obtain m where "IntOnly m \<in> set ns" using assms(2) unfolding int_checks_def by (metis num_check.case(2,3) num_check.exhaust)
  then have "of_int \<lfloor>r\<rfloor> = r" using all by fastforce
  then show ?thesis by (simp add: d)
qed (use assms in auto)

lemma never_undefined_eval: "zod_eval s v = Some d \<Longrightarrow> never_undefined s \<Longrightarrow> d \<noteq> Undefined"
proof (induction s arbitrary: v d rule: never_undefined.induct)
  case (8 ns)
  then show ?case by (cases "case v of Num n \<Rightarrow> n | _ \<Rightarrow> NaN") (auto split: jsv.splits if_splits)
next
  case (9 ns)
  then show ?case by (cases "js_Number v") (auto split: if_splits)
qed (auto split: jsv.splits if_splits option.splits)

lemma drop_undefined_ok:
  assumes "distinct (map fst gs)" "\<forall>kv\<in>set gs. snd kv = Undefined \<or> json_ok (snd kv)"
  shows "json_ok (Obj (drop_undefined gs))"
  using assms by (auto simp: drop_undefined_def list_all_iff distinct_map_filter split: prod.splits)

lemma json_schema_object:
  assumes "zod_eval (ZObject shape) v = Some d" "json_schema (ZObject shape)"
    and IH: "\<And>ks x y. ks \<in> set shape \<Longrightarrow> zod_eval (snd ks) x = Some y \<Longrightarrow> y = Undefined \<or> json_ok y"
  shows "json_ok d"
proof -
  obtain fs gs where gs: "v = Obj fs" "d = Obj (drop_undefined gs)"
      "list_all2 (\<lambda>ks kd. fst kd = fst ks \<and> zod_eval (snd ks) (field fs (fst ks)) = Some (snd kd)) shape gs"
    using assms(1) unfolding zod_object_accepts by (elim exE conjE)
  have "\<exists>ks\<in>set shape. zod_eval (snd ks) (field fs (fst ks)) = Some (snd kd)" if "kd \<in> set gs" for kd
    using gs(3) that by (fastforce simp: list_all2_conv_all_nth in_set_conv_nth simp del: zod_eval.simps)
  then have "\<forall>kd\<in>set gs. snd kd = Undefined \<or> json_ok (snd kd)" using IH by blast
  moreover have "distinct (map fst gs)"
    unfolding list_all2_fields(1) [OF gs(3)] using assms(2) by simp
  ultimately show ?thesis unfolding gs(2) by (rule drop_undefined_ok [rotated])
qed

lemma json_schema_eval: "zod_eval s v = Some d \<Longrightarrow> json_schema s \<Longrightarrow> d = Undefined \<or> json_ok d"
proof (induction s arbitrary: v d rule: json_schema.induct)
  case (2 ns)
  then show ?case using num_eval_int by (auto split: jsv.splits)
next
  case (3 ns)
  then show ?case using num_eval_int by auto
next
  case (11 s lo hi)
  obtain xs ys where y: "d = Arr ys" "\<forall>y\<in>set ys. \<exists>x\<in>set xs. zod_eval s x = Some y"
    using zod_array_D [OF 11(2)] by (elim exE conjE)
  have "json_ok y" if elem: "y \<in> set ys" for y
  proof -
    obtain x where "zod_eval s x = Some y" using bspec [OF y(2) elem] by (elim bexE)
    then show ?thesis using 11(1) [of x y] 11(3) never_undefined_eval [of s x y] by simp
  qed
  then show ?case by (simp add: y list_all_iff)
next
  case (13 shape)
  have "json_ok d" by (rule json_schema_object [OF 13(2,3)]) (use 13(1,3) in auto)
  then show ?case by blast
next
  case (7 s)
  then show ?case by (auto split: if_splits)
next
  case (9 s d0)
  then show ?case by (auto split: if_splits)
next
  case (14 s p m)
  then show ?case using 14(1) [of v d] by (simp del: zod_eval.simps add: zod_refine_accepts)
qed (auto split: jsv.splits if_splits option.splits)

text \<open>What the schema accepts is what the backend reads.\<close>

lemma accepted_round_trip:
  assumes "zod_eval s v = Some d" "json_schema s" "never_undefined s"
  shows "json_parse (stringify d) = Some d"
  using json_round_trip json_schema_eval [OF assms(1,2)] never_undefined_eval [OF assms(1,3)] by blast

end
