(* ===== verification/AuthPackage.thy ===== *)
theory AuthPackage
  imports Zod
begin

text \<open>
  \<open>packages/auth\<close>: the address a request is attributed to (\<open>client-ip.ts\<close>), the credential schemas
  (\<open>validation.ts\<close>), and the session actions both portals share (\<open>actions.ts\<close>): sign in, sign out,
  read the session's user, change the password. The schema parser is the argument \<open>sp\<close>.
  React's per-request \<open>cache\<close> around \<open>fetchSessionUser\<close> is not modelled: the function is.
\<close>

section \<open>Constants and the client address\<close>

definition SESSION_COOKIE :: string where
  "SESSION_COOKIE = ''session''"

definition ADMIN_SESSION_COOKIE :: string where
  "ADMIN_SESSION_COOKIE = ''admin_session''"

definition hops :: "string \<Rightarrow> string list" where
  "hops forwarded = filter (\<lambda>h. h \<noteq> []) (map js_trim (split_char CHR '','' forwarded))"

definition clientAddress :: "(string \<times> string) list \<Rightarrow> string" where
  "clientAddress h =
     (let real = (case header_get h ''x-real-ip'' of None \<Rightarrow> [] | Some v \<Rightarrow> js_trim v)
      in if real \<noteq> [] then real
         else (case header_get h ''x-forwarded-for'' of
                 None \<Rightarrow> []
               | Some forwarded \<Rightarrow>
                   if forwarded = [] then []
                   else (case rev (hops forwarded) of [] \<Rightarrow> [] | nearest # _ \<Rightarrow> nearest)))"

lemma hops_snoc:
  assumes "CHR '','' \<notin> set hop" "js_trim hop \<noteq> []"
  shows "hops (p @ CHR '','' # hop) = hops p @ [js_trim hop]"
proof -
  have "split_char CHR '','' (p @ CHR '','' # hop) = split_char CHR '','' p @ [hop]"
  proof (induction p)
    case Nil
    then show ?case using assms(1) by (simp add: split_char_atom)
  next
    case (Cons c p)
    then show ?case by (auto split: list.splits)
  qed
  then show ?thesis using assms(2) by (simp add: hops_def)
qed

section \<open>Credential schemas\<close>

definition loginCredentialsSchema :: schema where
  "loginCredentialsSchema = ZObject
     [(''username'', ZString [Trim, MinLength 1 ''Username is required'']),
      (''password'', ZString [MinLength 1 ''Password is required''])]"

definition changePasswordSchema :: schema where
  "changePasswordSchema =
     ZRefine (ZObject
       [(''currentPassword'', ZString [MinLength 1 ''Current password is required'']),
        (''newPassword'', ZString [MinLength 8 ''New password must be at least 8 characters'']),
        (''confirmPassword'', ZOptional (ZString []))])
     (\<lambda>data. if get_opt data ''confirmPassword'' \<noteq> Undefined
             then get_opt data ''newPassword'' = get_opt data ''confirmPassword'' else True)
     ''New passwords do not match''"

section \<open>Signing in\<close>

record auth_result =
  ar_success :: bool
  ar_error :: jsv
  ar_user :: jsv

definition auth_failed :: "jsv \<Rightarrow> auth_result" where
  "auth_failed m = \<lparr>ar_success = False, ar_error = m, ar_user = Undefined\<rparr>"

definition json_post :: "string \<Rightarrow> (string \<times> string) list \<Rightarrow> jsv \<Rightarrow> request" where
  "json_post url h v =
     \<lparr>req_url = url, req_method = ''POST'', req_headers = h, req_body = Text (stringify v)\<rparr>"

definition accept_session :: "string \<Rightarrow> jsv \<Rightarrow> jsv \<Rightarrow> auth_result io" where
  "accept_session cookieName responseData user =
     bind (lift (get responseData ''sessionToken'')) (\<lambda>token.
     bind (lift (get responseData ''expiresInSeconds'')) (\<lambda>expires.
     bind (asks env_cookie_secure) (\<lambda>secure.
     bind (set_cookie cookieName token
             \<lparr>ck_http_only = True, ck_secure = secure, ck_same_site = ''lax'', ck_path = ''/'',
              ck_max_age = js_or expires (IntV 604800)\<rparr>) (\<lambda>_.
     ret \<lparr>ar_success = True, ar_error = Undefined, ar_user = user\<rparr>))))"

definition authenticateUser ::
    "parser \<Rightarrow> jsv \<Rightarrow> string option \<Rightarrow> string \<Rightarrow> auth_result io" where
  "authenticateUser sp credentials expectedRole cookieName =
     (case sp loginCredentialsSchema credentials of
        Inl ms \<Rightarrow> ret (auth_failed (Str (issue_or ms ''Invalid credentials'')))
      | Inr d \<Rightarrow>
          catch
            (bind (asks env_in_headers) (\<lambda>hs. bind (lift hs) (\<lambda>incoming.
             bind (asks env_api_url) (\<lambda>api.
             let forwardedFor = clientAddress incoming;
                 h0 = new_headers json_header;
                 h = (if forwardedFor \<noteq> [] then header_set ''X-Forwarded-For'' forwardedFor h0 else h0)
             in bind (fetch (json_post (api @ ''/api/v1/auth/login'') h
                       (Obj [(''username'', get_opt d ''username''), (''password'', get_opt d ''password'')]))) (\<lambda>res.
                if \<not> rsp_ok res then
                  bind (res_json_or_empty res) (\<lambda>errorData. bind (lift (get errorData ''error'')) (\<lambda>m.
                  ret (auth_failed (js_or m (Str ''Invalid username or password'')))))
                else
                  bind (res_json res) (\<lambda>responseData. bind (lift (get responseData ''user'')) (\<lambda>user.
                  (case expectedRole of
                     None \<Rightarrow> accept_session cookieName responseData user
                   | Some role \<Rightarrow>
                       bind (lift (get user ''role'')) (\<lambda>r.
                       if r \<noteq> Str role
                       then ret (auth_failed (Str (''Access denied: '' @ role @ '' role required'')))
                       else accept_session cookieName responseData user)))))))))
            (\<lambda>x. ret (auth_failed (Str (message_or x ''Authentication request failed'')))))"

section \<open>The session's own requests\<close>

text \<open>The block that forwards the caller's address and browser, common to the session actions.\<close>

definition forward_headers :: "(string \<times> string) list option \<Rightarrow> (string \<times> string) list \<Rightarrow> (string \<times> string) list" where
  "forward_headers rh h =
     (case rh of
        None \<Rightarrow> h
      | Some incoming \<Rightarrow>
          (let fwd = clientAddress incoming;
               h1 = (if fwd \<noteq> [] then header_set ''X-Forwarded-For'' fwd h else h)
           in (case header_get incoming ''user-agent'' of
                 None \<Rightarrow> h1
               | Some ua \<Rightarrow> if ua \<noteq> [] then header_set ''User-Agent'' ua h1 else h1)))"

definition session_headers :: "jsv \<Rightarrow> (string \<times> string) list" where
  "session_headers token =
     [(''Cookie'', SESSION_COOKIE @ ''='' @ js_String token),
      (''Authorization'', ''Bearer '' @ js_String token)]"

definition revokeUserSession :: "string \<Rightarrow> unit io" where
  "revokeUserSession cookieName =
     bind in_headers_or_null (\<lambda>rh.
     bind (cookie cookieName) (\<lambda>token.
     if truthy token then
       bind (catch
         (bind (asks env_api_url) (\<lambda>api.
          bind (fetch \<lparr>req_url = api @ ''/api/v1/auth/logout'', req_method = ''POST'',
                       req_headers = forward_headers rh (new_headers (session_headers token)),
                       req_body = NoBody\<rparr>) (\<lambda>_. ret ())))
         (\<lambda>_. ret ())) (\<lambda>_.
       delete_cookie cookieName)
     else ret ()))"

definition fetchSessionUser :: "string \<Rightarrow> jsv io" where
  "fetchSessionUser cookieName =
     bind in_headers_or_null (\<lambda>rh.
     bind (cookie cookieName) (\<lambda>token.
     if \<not> truthy token then ret Null
     else catch
       (bind (asks env_api_url) (\<lambda>api.
        bind (fetch \<lparr>req_url = api @ ''/api/v1/me'', req_method = ''GET'',
                     req_headers = forward_headers rh (new_headers (session_headers token)),
                     req_body = NoBody\<rparr>) (\<lambda>res.
        if \<not> rsp_ok res then ret Null else res_json res)))
       (\<lambda>_. ret Null)))"

record ok_result =
  ok_success :: bool
  ok_error :: jsv

definition ok_failed :: "jsv \<Rightarrow> ok_result" where
  "ok_failed m = \<lparr>ok_success = False, ok_error = m\<rparr>"

definition ok_done :: ok_result where
  "ok_done = \<lparr>ok_success = True, ok_error = Undefined\<rparr>"

definition changeUserPassword :: "parser \<Rightarrow> jsv \<Rightarrow> jsv \<Rightarrow> string \<Rightarrow> ok_result io" where
  "changeUserPassword sp currentPassword newPassword cookieName =
     (case sp changePasswordSchema
             (Obj [(''currentPassword'', currentPassword), (''newPassword'', newPassword)]) of
        Inl ms \<Rightarrow> ret (ok_failed (Str (issue_or ms ''Invalid password data'')))
      | Inr _ \<Rightarrow>
          bind in_headers_or_null (\<lambda>rh.
          bind (cookie cookieName) (\<lambda>token.
          if \<not> truthy token then ret (ok_failed (Str ''Unauthenticated''))
          else catch
            (bind (asks env_api_url) (\<lambda>api.
             bind (fetch (json_post (api @ ''/api/v1/me/password'')
                     (forward_headers rh (new_headers (json_header @ session_headers token)))
                     (Obj [(''currentPassword'', currentPassword), (''newPassword'', newPassword)]))) (\<lambda>res.
             if \<not> rsp_ok res then
               bind (res_json_or_empty res) (\<lambda>errorData. bind (lift (get errorData ''error'')) (\<lambda>m.
               ret (ok_failed (js_or m (Str ''Failed to update password'')))))
             else ret ok_done)))
            (\<lambda>x. ret (ok_failed (Str (message_or x ''Password update request failed'')))))))"

section \<open>Bounds on what they send\<close>

lemma accept_session_sends: "sends_at_most n (accept_session ck d u)"
  unfolding accept_session_def by (intro sends_rules)

lemma authenticateUser_sends: "sends_at_most 1 (authenticateUser sp c role ck)"
  unfolding authenticateUser_def by (intro sends_rules accept_session_sends)

lemma revokeUserSession_sends: "sends_at_most 1 (revokeUserSession ck)"
  unfolding revokeUserSession_def by (intro sends_rules sends_bind_after [where n = 1])

lemma fetchSessionUser_sends: "sends_at_most 1 (fetchSessionUser ck)"
  unfolding fetchSessionUser_def by (intro sends_rules)

lemma changeUserPassword_sends: "sends_at_most 1 (changeUserPassword sp a b ck)"
  unfolding changeUserPassword_def by (intro sends_rules)

section \<open>What the session actions guarantee\<close>

text \<open>A cookie granted by an accepted login: readable by the server only, for the whole site.\<close>

definition session_granted :: "string \<Rightarrow> bool \<Rightarrow> world \<Rightarrow> world \<Rightarrow> bool" where
  "session_granted ck secure w w' \<longleftrightarrow>
     (\<exists>token age. jar w' = map_set ck token (jar w) \<and>
        jar_attrs w' = map_set ck \<lparr>ck_http_only = True, ck_secure = secure, ck_same_site = ''lax'',
                                     ck_path = ''/'', ck_max_age = age\<rparr> (jar_attrs w))"

lemma jar_sent_update [simp]: "jar (w\<lparr>sent := q\<rparr>) = jar w" "jar_attrs (w\<lparr>sent := q\<rparr>) = jar_attrs w"
  by simp_all

lemma session_grantedI:
  assumes "jar w0 = jar w" "jar_attrs w0 = jar_attrs w"
  shows "session_granted ck s w (w0\<lparr>jar := map_set ck t (jar w0),
           jar_attrs := map_set ck \<lparr>ck_http_only = True, ck_secure = s, ck_same_site = ''lax'',
                                     ck_path = ''/'', ck_max_age = age\<rparr> (jar_attrs w0)\<rparr>)"
  using assms by (auto simp: session_granted_def)

lemma accept_session_wp:
  assumes "jar w0 = jar w" "jar_attrs w0 = jar_attrs w"
    and "\<And>x. Q (Inl x) w0"
    and "\<And>w'. session_granted ck (env_cookie_secure e) w w' \<Longrightarrow>
           Q (Inr \<lparr>ar_success = True, ar_error = Undefined, ar_user = u\<rparr>) w'"
  shows "wp (accept_session ck d u) Q e w0"
  unfolding accept_session_def
  by (intro wp_rules assms(3) assms(4) session_grantedI assms(1,2))

lemma get_Inr_get_opt: "get v k = Inr x \<Longrightarrow> get_opt v k = x"
  by (simp add: get_opt_def)

text \<open>
  C1: Signing in never throws. It grants the session cookie exactly when it reports success, the user it
  reports then has the required role, and the cookie is HttpOnly, SameSite lax, for the whole site, and secure
  as configured; on every failure (invalid input, unreachable backend, wrong role, malformed answer) the
  cookie store is left as it was.
\<close>

theorem authenticateUser_session:
  assumes "authenticateUser sp credentials (Some role) ck e w = (r, w')"
  shows "\<exists>a. r = Inr a \<and>
           (if ar_success a
            then get_opt (ar_user a) ''role'' = Str role \<and> session_granted ck (env_cookie_secure e) w w'
            else jar w' = jar w \<and> jar_attrs w' = jar_attrs w)"
  using _ assms
proof (rule wpI)
  show "wp (authenticateUser sp credentials (Some role) ck)
          (\<lambda>r w'. \<exists>a. r = Inr a \<and>
             (if ar_success a
              then get_opt (ar_user a) ''role'' = Str role \<and> session_granted ck (env_cookie_secure e) w w'
              else jar w' = jar w \<and> jar_attrs w' = jar_attrs w)) e w"
    unfolding authenticateUser_def option.case
    by (intro accept_session_wp wp_rules) (auto simp: auth_failed_def dest!: get_Inr_get_opt)
qed

theorem authenticateUser_session_witness:
  "\<exists>a w'. authenticateUser zod_ref (Obj [(''username'', Str ''ann''), (''password'', Str ''pw'')]) (Some ''admin'')
            ADMIN_SESSION_COOKIE
            (answering 200 ''{\"sessionToken\":\"t\",\"expiresInSeconds\":60,\"user\":{\"role\":\"admin\"}}'')
            (with_cookie ''x'' ''y'') = (Inr a, w') \<and>
          (if ar_success a
            then get_opt (ar_user a) ''role'' = Str ''admin'' \<and>
                 session_granted ADMIN_SESSION_COOKIE True (with_cookie ''x'' ''y'') w'
            else jar w' = jar (with_cookie ''x'' ''y'') \<and> jar_attrs w' = jar_attrs (with_cookie ''x'' ''y''))"
proof -
  let ?e = "answering 200 ''{\"sessionToken\":\"t\",\"expiresInSeconds\":60,\"user\":{\"role\":\"admin\"}}''"
  obtain r w' where run: "authenticateUser zod_ref (Obj [(''username'', Str ''ann''), (''password'', Str ''pw'')])
      (Some ''admin'') ADMIN_SESSION_COOKIE ?e (with_cookie ''x'' ''y'') = (r, w')"
    by fastforce
  have "env_cookie_secure ?e" by (simp add: answering_def)
  then show ?thesis using authenticateUser_session [OF run] run by auto
qed

text \<open>
  Signing out removes the session cookie whatever the backend does (refused, unreachable or answering),
  never throws, and leaves every other cookie alone.
\<close>

theorem revokeUserSession_clears:
  "\<exists>w'. revokeUserSession ck e w = (Inr (), w') \<and> \<not> truthy (jar_value (jar w') ck) \<and>
        (\<forall>k. k \<noteq> ck \<longrightarrow> jar_value (jar w') k = jar_value (jar w) k)"
proof -
  have "wp (revokeUserSession ck)
          (\<lambda>r w'. r = Inr () \<and> \<not> truthy (jar_value (jar w') ck) \<and>
             (\<forall>k. k \<noteq> ck \<longrightarrow> jar_value (jar w') k = jar_value (jar w) k)) e w"
    unfolding revokeUserSession_def by (intro wp_rules) (auto simp: jar_value_delete)
  then show ?thesis by (auto simp: wp_def)
qed

theorem revokeUserSession_clears_witness:
  "\<exists>w'. revokeUserSession ''s'' (answering 500 ''down'') (with_cookie ''s'' ''tok'') = (Inr (), w') \<and>
        \<not> truthy (jar_value (jar w') ''s'')"
  using revokeUserSession_clears [of "''s''" "answering 500 ''down''" "with_cookie ''s'' ''tok''"] by blast

text \<open>
  The address a request is attributed to: X-Real-IP when the proxy sent one; otherwise the last hop of
  X-Forwarded-For, the one the nearest proxy appended, whatever prefix the client supplied.
\<close>

theorem clientAddress_trusted:
  "(header_get h ''x-real-ip'' = Some ip \<longrightarrow> js_trim ip \<noteq> [] \<longrightarrow> clientAddress h = js_trim ip) \<and>
   (header_get h ''x-real-ip'' = None \<longrightarrow>
    header_get h ''x-forwarded-for'' = Some (client_supplied @ CHR '','' # hop) \<longrightarrow>
    CHR '','' \<notin> set hop \<longrightarrow> js_trim hop \<noteq> [] \<longrightarrow> clientAddress h = js_trim hop)"
  by (auto simp: clientAddress_def Let_def hops_snoc)

theorem clientAddress_trusted_witness:
  "clientAddress [(''x-forwarded-for'', ''6.6.6.6, 10.0.0.7'')] = ''10.0.0.7'' \<and>
   clientAddress [(''x-forwarded-for'', ''6.6.6.6''), (''x-real-ip'', '' 10.0.0.9 '')] = ''10.0.0.9''"
proof -
  let ?h = "[(''x-forwarded-for'', ''6.6.6.6, 10.0.0.7'')]"
  let ?g = "[(''x-forwarded-for'', ''6.6.6.6''), (''x-real-ip'', '' 10.0.0.9 '')]"
  have "header_get ?h ''x-real-ip'' = None" by code_simp
  moreover have "header_get ?h ''x-forwarded-for'' = Some (''6.6.6.6'' @ CHR '','' # '' 10.0.0.7'')" by code_simp
  moreover have "header_get ?g ''x-real-ip'' = Some '' 10.0.0.9 ''" by code_simp
  moreover have "js_trim '' 10.0.0.7'' = ''10.0.0.7''" "js_trim '' 10.0.0.9 '' = ''10.0.0.9''" by code_simp+
  ultimately show ?thesis
    using clientAddress_trusted [of ?h "[]" "''6.6.6.6''" "'' 10.0.0.7''"]
      clientAddress_trusted [of ?g "'' 10.0.0.9 ''" "[]" "[]"]
    by simp
qed

end
