(* ===== verification/AdminApi.thy ===== *)
theory AdminApi
  imports AuthPackage
begin

text \<open>
  The admin portal's server side plumbing: the authenticated request to the backend
  (\<open>admin-frontend/src/lib/api/server.ts\<close>), error values read from its responses (\<open>lib/errors.ts\<close>), the
  cookie gate in front of every page (\<open>proxy.ts\<close>) and the session actions (\<open>lib/actions/auth.ts\<close>).
  Compression is \<open>zlib\<close>'s; a \<open>Gzip\<close> body keeps the text it encodes.
\<close>

section \<open>Requests to the backend\<close>

definition auth_headers :: "string \<Rightarrow> jsv \<Rightarrow> (string \<times> string) list \<Rightarrow> (string \<times> string) list" where
  "auth_headers cookie_name token h =
     (if truthy token
      then header_set ''Authorization'' (''Bearer '' @ js_String token)
             (header_set ''Cookie'' (cookie_name @ ''='' @ js_String token) h)
      else h)"

definition GZIP_THRESHOLD :: nat where
  "GZIP_THRESHOLD = 128 * 1024"

definition backendFetch :: "string \<Rightarrow> init \<Rightarrow> response io" where
  "backendFetch path i =
     bind in_headers_or_null (\<lambda>rh.
     bind (cookie ADMIN_SESSION_COOKIE) (\<lambda>sessionToken.
     bind (asks env_api_url) (\<lambda>api.
     let h0 = header_set ''Content-Type'' ''application/json'' (new_headers (i_headers i));
         h1 = forward_headers rh (auth_headers SESSION_COOKIE sessionToken h0);
         (h2, b) = (case i_body i of
                      None \<Rightarrow> (h1, NoBody)
                    | Some t \<Rightarrow> if length t > GZIP_THRESHOLD
                                then (header_set ''Content-Encoding'' ''gzip'' h1, Gzip t)
                                else (h1, Text t))
     in fetch \<lparr>req_url = api @ path, req_method = init_method i, req_headers = h2, req_body = b\<rparr>)))"

text \<open>The one request a call sends, given what it reads.\<close>

definition backend_request :: "env \<Rightarrow> world \<Rightarrow> string \<Rightarrow> init \<Rightarrow> request" where
  "backend_request e w path i =
     (let rh = (case env_in_headers e of Inl x \<Rightarrow> None | Inr h \<Rightarrow> Some h);
          h0 = header_set ''Content-Type'' ''application/json'' (new_headers (i_headers i));
          h1 = forward_headers rh (auth_headers SESSION_COOKIE (jar_value (jar w) ADMIN_SESSION_COOKIE) h0);
          (h2, b) = (case i_body i of
                       None \<Rightarrow> (h1, NoBody)
                     | Some t \<Rightarrow> if length t > GZIP_THRESHOLD
                                 then (header_set ''Content-Encoding'' ''gzip'' h1, Gzip t)
                                 else (h1, Text t))
      in \<lparr>req_url = env_api_url e @ path, req_method = init_method i, req_headers = h2, req_body = b\<rparr>)"

lemma backendFetch_run [io_simps]:
  "backendFetch path i e w =
     (env_fetch e (sent w) (backend_request e w path i), w\<lparr>sent := sent w @ [backend_request e w path i]\<rparr>)"
  by (simp add: backendFetch_def backend_request_def io_simps in_headers_or_null_def Let_def
           split: prod.split option.split)

lemma backend_request_url [simp]: "req_url (backend_request e w path i) = env_api_url e @ path"
  and backend_request_method [simp]: "req_method (backend_request e w path i) = init_method i"
  by (simp_all add: backend_request_def Let_def split: prod.split)

text \<open>What the server reads from the body, compressed or not.\<close>

definition body_text :: "body \<Rightarrow> string option" where
  "body_text b = (case b of Text t \<Rightarrow> Some t | Gzip t \<Rightarrow> Some t | _ \<Rightarrow> None)"

lemma backend_request_body [simp]: "body_text (req_body (backend_request e w path i)) = i_body i"
  by (simp add: backend_request_def Let_def body_text_def split: prod.split option.split)

lemma backendFetch_sends [sends_intros]: "sends_at_most 1 (backendFetch path i)"
  by (simp add: sends_at_most_def io_simps)

lemma sends_backendFetch_then:
  "(\<And>r. sends_at_most 0 (f r)) \<Longrightarrow> sends_at_most 1 (bind (backendFetch path i) f)"
  using sends_bind_after [OF backendFetch_sends] by blast

lemma keeps_jar_backendFetch [simp]: "keeps_jar (backendFetch path i)"
  by (simp add: keeps_jar_def io_simps)

lemma wp_backendFetch:
  "wp (backendFetch path i) P e w =
     P (env_fetch e (sent w) (backend_request e w path i)) (w\<lparr>sent := sent w @ [backend_request e w path i]\<rparr>)"
  by (simp add: wp_def io_simps)

lemmas admin_sends_rules = sends_branch sends_catch_after sends_backendFetch_then sends_bind_pure sends_intros

lemmas admin_wp_rules = wp_rules wp_backendFetch [THEN iffD2]

lemma sends_one_backend:
  assumes "\<And>e w. P e (backend_request e w path i)" "\<And>r. sends_at_most 0 (f r)"
  shows "sends_one P (bind (backendFetch path i) f)"
  by (rule sends_one_bind_after) (simp_all add: sends_one_def io_simps assms)

lemmas sends_one_rules = sends_one_branch sends_one_catch sends_one_backend

section \<open>Error values\<close>

record ApiError =
  ae_message :: string
  ae_request_id :: "string option"
  ae_status :: nat

definition new_ApiError :: "string \<Rightarrow> string option \<Rightarrow> nat \<Rightarrow> ApiError" where
  "new_ApiError message requestId statusCode =
     \<lparr>ae_message = (case requestId of
                      Some i \<Rightarrow> if i \<noteq> [] then message @ '' (Request ID: '' @ i @ '')'' else message
                    | None \<Rightarrow> message),
      ae_request_id = requestId, ae_status = statusCode\<rparr>"

text \<open>\<open>lib/errors.ts\<close>; the actions that do not import it have the weaker \<open>message_or\<close> of \<open>Http\<close>.\<close>

fun getErrorMessage :: "exn \<Rightarrow> string \<Rightarrow> string" where
  "getErrorMessage (Error m) fallback = (if js_trim m \<noteq> [] then m else fallback)"
| "getErrorMessage (Thrown (Str s)) fallback = (if js_trim s \<noteq> [] then s else fallback)"
| "getErrorMessage (Thrown v) fallback = fallback"

definition trimmed_text :: "jsv \<Rightarrow> string option" where
  "trimmed_text v = (case v of Str s \<Rightarrow> if js_trim s \<noteq> [] then Some (js_trim s) else None | _ \<Rightarrow> None)"

definition parseApiError :: "response \<Rightarrow> string \<Rightarrow> ApiError io" where
  "parseApiError res fallbackMessage =
     (let headerRequestId = (case header_get (rsp_headers res) ''x-request-id'' of
                               Some v \<Rightarrow> if v \<noteq> [] then Some v else None | None \<Rightarrow> None)
      in catch
           (bind (res_json res) (\<lambda>body.
            let message = (case trimmed_text (get_opt body ''error'') of Some m \<Rightarrow> m | None \<Rightarrow> fallbackMessage);
                bodyRequestId = trimmed_text (get_opt body ''requestId'')
            in ret (new_ApiError message
                     (case bodyRequestId of Some i \<Rightarrow> Some i | None \<Rightarrow> headerRequestId) (rsp_status res))))
           (\<lambda>_. ret (new_ApiError fallbackMessage headerRequestId (rsp_status res))))"

text \<open>\<open>throw await parseApiError(res, m)\<close>\<close>

definition throw_api_error :: "response \<Rightarrow> string \<Rightarrow> 'a io" where
  "throw_api_error res m = bind (parseApiError res m) (\<lambda>a. throw (Error (ae_message a)))"

lemma parseApiError_sends [sends_intros]: "sends_at_most n (parseApiError res m)"
  unfolding parseApiError_def by (intro sends_rules)

lemma throw_api_error_sends [sends_intros]: "sends_at_most n (throw_api_error res m)"
  unfolding throw_api_error_def by (rule sends_bind_0) (intro sends_intros)+

lemma parseApiError_wp:
  assumes "\<And>a. ae_status a = rsp_status res \<Longrightarrow> ae_message a \<noteq> [] \<or> m = [] \<Longrightarrow> Q (Inr a) w"
  shows "wp (parseApiError res m) Q e w"
  unfolding parseApiError_def
  by (intro wp_rules assms)
     (auto simp: new_ApiError_def trimmed_text_def split: option.splits jsv.splits if_splits)

lemma throw_api_error_wp [intro]:
  assumes "\<And>s. Q (Inl (Error s)) w"
  shows "wp (throw_api_error res m) Q e w"
  unfolding throw_api_error_def
  by (intro wp_rules parseApiError_wp assms)

section \<open>The gate and the session actions\<close>

datatype gate_decision = Next | Redirect string

definition admin_proxy :: "(string \<times> jsv) list \<Rightarrow> string \<Rightarrow> gate_decision" where
  "admin_proxy cookies origin =
     (if truthy (jar_value cookies ADMIN_SESSION_COOKIE) then Next else Redirect (origin @ ''/login''))"

definition loginAction :: "parser \<Rightarrow> jsv \<Rightarrow> jsv \<Rightarrow> auth_result io" where
  "loginAction sp username password =
     authenticateUser sp (Obj [(''username'', username), (''password'', password)]) (Some ''admin'') ADMIN_SESSION_COOKIE"

definition logoutAction :: "unit io" where
  "logoutAction = revokeUserSession ADMIN_SESSION_COOKIE"

definition getSessionUserAction :: "jsv io" where
  "getSessionUserAction =
     bind (fetchSessionUser ADMIN_SESSION_COOKIE) (\<lambda>user.
     ret (if \<not> truthy user \<or> get_opt user ''role'' \<noteq> Str ''admin'' then Null else user))"

definition changePasswordAction :: "parser \<Rightarrow> jsv \<Rightarrow> jsv \<Rightarrow> ok_result io" where
  "changePasswordAction sp currentPassword newPassword =
     changeUserPassword sp currentPassword newPassword ADMIN_SESSION_COOKIE"

definition getAdminUploadConfigAction :: "jsv io" where
  "getAdminUploadConfigAction =
     bind getSessionUserAction (\<lambda>user.
     if \<not> truthy user then ret Null
     else bind (cookie ADMIN_SESSION_COOKIE) (\<lambda>token.
          if \<not> truthy token then ret Null
          else bind (asks env_public_api_url) (\<lambda>url. ret (Obj [(''token'', token), (''apiUrl'', Str url)]))))"

lemma fetchSessionUser_no_cookie:
  "\<not> truthy (jar_value (jar w) ck) \<Longrightarrow> fetchSessionUser ck e w = (Inr Null, w)"
  by (simp add: fetchSessionUser_def io_simps in_headers_or_null_def)



end
