(* ===== verification/AdminValidation.thy ===== *)
theory AdminValidation
  imports Zod
begin

text \<open>
  The schemas of \<open>admin-frontend/src/lib/validation\<close>, in the combinators of \<open>Zod\<close>. A regular expression
  is the predicate it denotes. What an accepted problem or settings form satisfies is proved at the end.
\<close>

section \<open>Contest\<close>

definition startContestSchema :: schema where
  "startContestSchema = ZObject [(''durationMinutes'', ZOptional (ZNumber
     [IntOnly ''Invalid input'', MinValue 0 ''Duration cannot be negative'',
      MaxValue 525600 ''Duration cannot exceed 525,600 minutes (1 year)'']))]"

definition extendContestSchema :: schema where
  "extendContestSchema = ZObject [(''minutes'', ZNumber
     [IntOnly ''Invalid input'', MinValue 1 ''Must extend by at least 1 minute'',
      MaxValue 43200 ''Cannot extend by more than 30 days''])]"

fun num_of :: "jsv \<Rightarrow> jsnum" where
  "num_of (Num n) = n"
| "num_of v = NaN"

definition settings_shape :: "(string \<times> schema) list" where
  "settings_shape =
     [(''title'', ZString [Trim, MinLength 1 ''Contest title is required'',
                        MaxLength 100 ''Contest title must be 100 characters or less'']),
      (''durationMinutes'', ZNumber [IntOnly ''Invalid input'',
                        MinValue 1 ''Contest duration must be at least 1 minute'',
                        MaxValue 525600 ''Contest duration cannot exceed 525,600 minutes (1 year)'']),
      (''freezeMinutes'', ZNumber [IntOnly ''Invalid input'',
                        MinValue 0 ''Freeze minutes cannot be negative'',
                        MaxValue 525600 ''Freeze window cannot exceed contest duration'']),
      (''requireFullscreen'', ZOptional ZBoolean),
      (''minClientVersion'', ZOptional (ZString [])),
      (''enforceBinaryHash'', ZOptional ZBoolean),
      (''authorizedBinaryHashes'', ZOptional (ZString [])),
      (''downloadEnabled'', ZOptional ZBoolean)]"

definition updateContestSettingsSchema :: schema where
  "updateContestSettingsSchema = ZRefine (ZObject settings_shape)
     (\<lambda>data. num_le (num_of (get_opt data ''freezeMinutes'')) (num_of (get_opt data ''durationMinutes'')))
     ''Freeze window cannot be longer than total contest duration''"

section \<open>Monitoring\<close>

definition proctorAccessSchema :: schema where
  "proctorAccessSchema = ZObject
     [(''userId'', ZString [MinLength 1 ''User ID is required'']),
      (''webOnly'', ZBoolean),
      (''reason'', ZDefault (ZString [MaxLength 500 ''Reason must be 500 characters or less'']) (Str [])),
      (''hoursValid'', ZDefault (ZNumber [IntOnly ''Invalid input'', MinValue 0 ''Too small'', MaxValue 72 ''Too big'']) (IntV 0))]"

definition revokeAgentSchema :: schema where
  "revokeAgentSchema = ZObject
     [(''agentId'', ZString [MinLength 1 ''Agent ID is required'']),
      (''reason'', ZString [MinLength 1 ''Revocation reason is required'',
                         MaxLength 500 ''Reason must be 500 characters or less''])]"

definition toggleProctorExemptionSchema :: schema where
  "toggleProctorExemptionSchema = ZObject
     [(''userId'', ZString [MinLength 1 ''User ID is required'']),
      (''exempt'', ZBoolean),
      (''reason'', ZOptional (ZString [MaxLength 500 ''Reason must be 500 characters or less'']))]"

definition proctorUserQuerySchema :: schema where
  "proctorUserQuerySchema = ZObject [(''userId'', ZString [MinLength 1 ''User ID is required''])]"

section \<open>Submissions\<close>

definition reviewSubmissionSchema :: schema where
  "reviewSubmissionSchema = ZObject
     [(''status'', ZEnum [''accepted'', ''rejected'']),
      (''reason'', ZOptional (ZString [MaxLength 500 ''Review reason must be 500 characters or less'']))]"

definition rejudgeSubmissionSchema :: schema where
  "rejudgeSubmissionSchema = ZObject [(''submissionId'', ZString [MinLength 1 ''Submission ID is required''])]"

definition rejudgeProblemSchema :: schema where
  "rejudgeProblemSchema = ZObject [(''problemId'', ZString [MinLength 1 ''Problem ID is required''])]"

definition cancelSubmissionSchema :: schema where
  "cancelSubmissionSchema = ZObject [(''submissionId'', ZString [MinLength 1 ''Submission ID is required''])]"

section \<open>Teams and users\<close>

definition password_schema :: schema where
  "password_schema = ZUnion (ZOptional (ZString
     [MinLength 8 ''Password must be at least 8 characters'',
      MaxLength 128 ''Password must be 128 characters or less''])) (ZLiteral (Str []))"

definition username_schema :: schema where
  "username_schema = ZString [Trim, MinLength 3 ''Username must be at least 3 characters'',
     MaxLength 50 ''Username must be 50 characters or less'']"

definition display_name_schema :: schema where
  "display_name_schema = ZOptional (ZString [Trim, MaxLength 100 ''Display name must be 100 characters or less''])"

definition teamMemberInputSchema :: schema where
  "teamMemberInputSchema = ZObject
     [(''username'', username_schema), (''displayName'', display_name_schema), (''password'', password_schema)]"

definition team_name_schema :: schema where
  "team_name_schema = ZString [Trim, MinLength 1 ''Team name is required'',
     MaxLength 100 ''Team name must be 100 characters or less'']"

definition createTeamInputSchema :: schema where
  "createTeamInputSchema = ZObject
     [(''name'', team_name_schema), (''members'', ZOptional (ZArray teamMemberInputSchema 0 (Some 3)))]"

definition updateTeamInputSchema :: schema where
  "updateTeamInputSchema = ZObject [(''name'', team_name_schema)]"

definition addTeamMemberPayloadSchema :: schema where
  "addTeamMemberPayloadSchema = ZUnion
     (ZObject [(''userId'', ZString [MinLength 1 ''User ID is required'', MaxLength 100 ''User ID too long''])])
     teamMemberInputSchema"

definition bulkCreateTeamsSchema :: schema where
  "bulkCreateTeamsSchema = ZObject [(''teams'', ZArray createTeamInputSchema 1 (Some 500))]"

definition createUserInputSchema :: schema where
  "createUserInputSchema = ZObject
     [(''username'', username_schema), (''displayName'', display_name_schema), (''password'', password_schema),
      (''role'', ZDefault (ZEnum [''competitor'', ''admin'']) (Str ''competitor'')),
      (''teamId'', ZUnion (ZOptional (ZString [MaxLength 100 ''Team ID too long''])) (ZLiteral (Str []))),
      (''teamName'', ZUnion (ZOptional (ZString [Trim, MaxLength 100 ''Team name must be 100 characters or less'']))
                    (ZLiteral (Str [])))]"

definition bulkCreateUsersSchema :: schema where
  "bulkCreateUsersSchema = ZObject
     [(''users'', ZArray createUserInputSchema 1 (Some 1000)),
      (''defaultTeamId'', ZOptional (ZString [MaxLength 100 ''Too big''])),
      (''defaultTeamName'', ZOptional (ZString [MaxLength 100 ''Too big'']))]"

definition suspendUserSchema :: schema where
  "suspendUserSchema = ZObject
     [(''suspended'', ZBoolean),
      (''reason'', ZOptional (ZString [Trim, MaxLength 255 ''Suspension reason must be 255 characters or less'']))]"

definition updateRoleSchema :: schema where
  "updateRoleSchema = ZObject [(''role'', ZEnum [''competitor'', ''admin''])]"

section \<open>Problems\<close>

definition MAX_SINGLE_TEST_FILE_BYTES :: nat where
  "MAX_SINGLE_TEST_FILE_BYTES = 20 * 1024 * 1024"

definition ordinal_schema :: schema where
  "ordinal_schema = ZOptional (ZNumber [IntOnly ''Invalid input'', Positive ''Too small''])"

definition sampleSchema :: schema where
  "sampleSchema = ZObject
     [(''id'', ZOptional (ZString [])),
      (''ordinal'', ordinal_schema),
      (''input'', ZString [MinLength 1 ''Sample input is required'', MaxLength 1000000 ''Sample input cannot exceed 1 MB'']),
      (''output'', ZString [MinLength 1 ''Sample output is required'', MaxLength 1000000 ''Sample output cannot exceed 1 MB'']),
      (''explanation'', ZOptional (ZString [MaxLength 5000 ''Explanation cannot exceed 5,000 characters'']))]"

definition points_schema :: schema where
  "points_schema = ZNumber [IntOnly ''Points must be an integer'', NonNegative ''Points must be 0 or positive'',
     MaxValue 10000 ''Points cannot exceed 10,000'']"

definition testCaseInputSchema :: schema where
  "testCaseInputSchema = ZObject
     [(''ordinal'', ordinal_schema),
      (''input'', ZString [MinLength 1 ''Test input is required'',
                        MaxLength MAX_SINGLE_TEST_FILE_BYTES ''Test input cannot exceed 20 MB'']),
      (''expected'', ZString [MinLength 1 ''Expected output is required'',
                        MaxLength MAX_SINGLE_TEST_FILE_BYTES ''Expected output cannot exceed 20 MB'']),
      (''points'', points_schema)]"

definition numeric_key :: "string \<Rightarrow> bool" where
  "numeric_key k \<longleftrightarrow> k \<noteq> [] \<and> list_all is_digit k"

definition updatePointsMapSchema :: schema where
  "updatePointsMapSchema = ZRecord [Pattern numeric_key ''Key must be numeric test ordinal''] points_schema"

text \<open>The slug pattern: groups of lower case letters and digits, joined by single hyphens.\<close>

definition slug_char :: "char \<Rightarrow> bool" where
  "slug_char c \<longleftrightarrow> is_digit c \<or> (97 \<le> (of_char c :: nat) \<and> (of_char c :: nat) \<le> 122)"

definition slug_pattern :: "string \<Rightarrow> bool" where
  "slug_pattern s \<longleftrightarrow> list_all (\<lambda>g. g \<noteq> [] \<and> list_all slug_char g) (split_char CHR ''-'' s)"

definition arr_of :: "jsv \<Rightarrow> jsv list" where
  "arr_of v = (case v of Arr xs \<Rightarrow> xs | _ \<Rightarrow> [])"

definition trimmed_field :: "jsv \<Rightarrow> string \<Rightarrow> string" where
  "trimmed_field v k = (case get_opt v k of Str s \<Rightarrow> js_trim s | _ \<Rightarrow> [])"

definition leaks_sample :: "jsv \<Rightarrow> jsv \<Rightarrow> bool" where
  "leaks_sample t s \<longleftrightarrow> trimmed_field t ''input'' = trimmed_field s ''input'' \<and>
                      trimmed_field t ''expected'' = trimmed_field s ''output''"

definition points_of :: "jsv \<Rightarrow> rat" where
  "points_of t = (case get_opt t ''points'' of Num (Fin r) \<Rightarrow> r | _ \<Rightarrow> 0)"

definition problem_issues :: "jsv \<Rightarrow> string list" where
  "problem_issues data =
     (let tests = arr_of (get_opt data ''tests''); samples = arr_of (get_opt data ''samples'');
          leaks = concat (map (\<lambda>t. concat (map (\<lambda>s. if leaks_sample t s
                     then [''Evaluation test case cannot be identical to sample case ''
                           @ js_String (js_coalesce (get_opt s ''ordinal'') (Str []))] else []) samples)) tests);
          total = sum_list (map points_of tests)
      in leaks @ (if (\<exists>t\<in>set tests. points_of t > 0) \<and> Num (Fin total) \<noteq> get_opt data ''maxScore''
                  then [''Evaluation test points sum ('' @ num_text (Fin total) @ '') must match problem max score (''
                        @ js_String (get_opt data ''maxScore'') @ '')''] else []))"

definition problem_shape :: "(string \<times> schema) list" where
  "problem_shape =
     [(''slug'', ZString [Trim, ToLowerCase, MinLength 1 ''Slug is required'',
                       MaxLength 64 ''Slug cannot exceed 64 characters'',
                       Pattern slug_pattern ''Slug must be lowercase alphanumeric and hyphens only'']),
      (''title'', ZString [Trim, MinLength 1 ''Title is required'', MaxLength 120 ''Title must be 120 characters or less'']),
      (''difficulty'', ZEnum [''Easy'', ''Medium'', ''Hard'']),
      (''statement'', ZString [Trim, MinLength 1 ''Problem statement is required'',
                       MaxLength 500000 ''Problem statement cannot exceed 500,000 characters'']),
      (''constraints'', ZDefault (ZString [MaxLength 50000 ''Constraints cannot exceed 50,000 characters'']) (Str [])),
      (''timeLimitMs'', ZDefault (ZNumber [IntOnly ''Time limit must be an integer'',
                       MinValue 100 ''Time limit must be at least 100ms'',
                       MaxValue 10000 ''Time limit cannot exceed 10,000ms'']) (IntV 4000)),
      (''memoryLimitMb'', ZDefault (ZNumber [IntOnly ''Memory limit must be an integer'',
                       MinValue 16 ''Memory limit must be at least 16MB'',
                       MaxValue 1024 ''Memory limit cannot exceed 1024MB'']) (IntV 256)),
      (''maxScore'', ZDefault (ZNumber [IntOnly ''Max score must be an integer'',
                       MinValue 1 ''Max score must be at least 1'',
                       MaxValue 10000 ''Max score cannot exceed 10,000'']) (IntV 100)),
      (''published'', ZDefault ZBoolean (Bool False)),
      (''samples'', ZArray sampleSchema 1 (Some 20)),
      (''tests'', ZOptional (ZArray testCaseInputSchema 0 (Some 500)))]"

definition problemInputSchema :: schema where
  "problemInputSchema = ZRefine (ZObject problem_shape) (\<lambda>data. problem_issues data = [])
     ''Evaluation tests conflict with the samples or the max score''"

definition replaceTestsSchema :: schema where
  "replaceTestsSchema = ZObject [(''tests'', ZArray testCaseInputSchema 1 (Some 500))]"

section \<open>What acceptance guarantees\<close>

lemma js_trimmed_trim: "js_trim (js_trim s) = js_trim s"
  by (rule js_trim_idem)

definition valid_settings :: "jsv \<Rightarrow> bool" where
  "valid_settings d \<longleftrightarrow>
     (\<exists>title dur freeze. get_opt d ''title'' = Str title \<and> js_trim title = title \<and>
        1 \<le> length title \<and> length title \<le> 100 \<and>
        get_opt d ''durationMinutes'' = IntV dur \<and> get_opt d ''freezeMinutes'' = IntV freeze \<and>
        0 \<le> freeze \<and> freeze \<le> dur \<and> 1 \<le> dur \<and> dur \<le> 525600)"

lemma settings_accepted:
  assumes "zod_eval updateContestSettingsSchema v = Some d"
  shows "valid_settings d"
proof -
  have obj: "zod_eval (ZObject settings_shape) v = Some d"
    and le: "num_le (num_of (get_opt d ''freezeMinutes'')) (num_of (get_opt d ''durationMinutes''))"
    using assms unfolding updateContestSettingsSchema_def zod_refine_accepts by auto
  note fld = zod_object_field [OF obj]
  have shape: "distinct (map fst settings_shape)" by (simp add: settings_shape_def)
  have "zod_eval (ZString [Trim, MinLength 1 ''Contest title is required'',
      MaxLength 100 ''Contest title must be 100 characters or less'']) (get_opt v ''title'') = Some (get_opt d ''title'')"
    by (rule fld [OF shape]) (simp add: settings_shape_def)
  then obtain title where t: "get_opt d ''title'' = Str title" "js_trim title = title" "1 \<le> length title" "length title \<le> 100"
    by (auto dest!: zod_string_D simp: js_trimmed_trim split: if_splits simp del: zod_eval.simps)
  have "zod_eval (ZNumber [IntOnly ''Invalid input'', MinValue 1 ''Contest duration must be at least 1 minute'',
      MaxValue 525600 ''Contest duration cannot exceed 525,600 minutes (1 year)''])
      (get_opt v ''durationMinutes'') = Some (get_opt d ''durationMinutes'')"
    by (rule fld [OF shape]) (simp add: settings_shape_def)
  then obtain dur where dur: "get_opt d ''durationMinutes'' = IntV dur" "1 \<le> dur" "dur \<le> 525600"
    using zod_int_range by blast
  have "zod_eval (ZNumber [IntOnly ''Invalid input'', MinValue 0 ''Freeze minutes cannot be negative'',
      MaxValue 525600 ''Freeze window cannot exceed contest duration''])
      (get_opt v ''freezeMinutes'') = Some (get_opt d ''freezeMinutes'')"
    by (rule fld [OF shape]) (simp add: settings_shape_def)
  then obtain freeze where fr: "get_opt d ''freezeMinutes'' = IntV freeze" "0 \<le> freeze"
    using zod_int_range by blast
  have "freeze \<le> dur" using le dur fr by simp
  then show ?thesis using t dur fr unfolding valid_settings_def by blast
qed

text \<open>
  A stored problem is well formed: its slug is one, the awarded points add up to its score, and no
  evaluation test gives away a published sample.
\<close>

definition valid_problem :: "jsv \<Rightarrow> bool" where
  "valid_problem d \<longleftrightarrow>
     (\<exists>slug. get_opt d ''slug'' = Str slug \<and> slug_pattern slug \<and> length slug \<le> 64) \<and>
     1 \<le> length (arr_of (get_opt d ''samples'')) \<and> length (arr_of (get_opt d ''samples'')) \<le> 20 \<and>
     length (arr_of (get_opt d ''tests'')) \<le> 500 \<and>
     (\<forall>t\<in>set (arr_of (get_opt d ''tests'')). \<exists>p. get_opt t ''points'' = IntV p \<and> 0 \<le> p \<and> p \<le> 10000) \<and>
     (\<forall>t\<in>set (arr_of (get_opt d ''tests'')). \<forall>s\<in>set (arr_of (get_opt d ''samples'')). \<not> leaks_sample t s) \<and>
     ((\<exists>t\<in>set (arr_of (get_opt d ''tests'')). points_of t > 0) \<longrightarrow>
        get_opt d ''maxScore'' = Num (Fin (sum_list (map points_of (arr_of (get_opt d ''tests''))))))"

lemma test_case_points:
  assumes "zod_eval testCaseInputSchema v = Some t"
  shows "\<exists>p. get_opt t ''points'' = IntV p \<and> 0 \<le> p \<and> p \<le> 10000"
proof -
  have "zod_eval points_schema (get_opt v ''points'') = Some (get_opt t ''points'')"
    by (rule zod_object_field [OF assms [unfolded testCaseInputSchema_def]]) simp_all
  then show ?thesis unfolding points_schema_def by (rule zod_int_range)
qed

lemma problem_no_issues:
  assumes "problem_issues d = []"
  shows "\<forall>t\<in>set (arr_of (get_opt d ''tests'')). \<forall>s\<in>set (arr_of (get_opt d ''samples'')). \<not> leaks_sample t s"
    and "(\<exists>t\<in>set (arr_of (get_opt d ''tests'')). points_of t > 0) \<longrightarrow>
        get_opt d ''maxScore'' = Num (Fin (sum_list (map points_of (arr_of (get_opt d ''tests'')))))"
  using assms by (auto simp: problem_issues_def Let_def split: if_splits)

lemma problem_accepted:
  assumes "zod_eval problemInputSchema v = Some d"
  shows "valid_problem d"
proof -
  have obj: "zod_eval (ZObject problem_shape) v = Some d" and no: "problem_issues d = []"
    using assms unfolding problemInputSchema_def zod_refine_accepts by auto
  note fld = zod_object_field [OF obj]
  have shape: "distinct (map fst problem_shape)" by (simp add: problem_shape_def)
  have "zod_eval (ZString [Trim, ToLowerCase, MinLength 1 ''Slug is required'',
      MaxLength 64 ''Slug cannot exceed 64 characters'',
      Pattern slug_pattern ''Slug must be lowercase alphanumeric and hyphens only'']) (get_opt v ''slug'') = Some (get_opt d ''slug'')"
    by (rule fld [OF shape]) (simp add: problem_shape_def)
  then obtain slug where slug: "get_opt d ''slug'' = Str slug" "slug_pattern slug" "length slug \<le> 64"
    by (auto dest!: zod_string_D split: if_splits simp del: zod_eval.simps)
  have "zod_eval (ZArray sampleSchema 1 (Some 20)) (get_opt v ''samples'') = Some (get_opt d ''samples'')"
    by (rule fld [OF shape]) (simp add: problem_shape_def)
  then have samples: "1 \<le> length (arr_of (get_opt d ''samples''))" "length (arr_of (get_opt d ''samples'')) \<le> 20"
    by (auto dest!: zod_array_D simp: arr_of_def simp del: zod_eval.simps)
  have "zod_eval (ZOptional (ZArray testCaseInputSchema 0 (Some 500))) (get_opt v ''tests'') = Some (get_opt d ''tests'')"
    by (rule fld [OF shape]) (simp add: problem_shape_def)
  then have "get_opt d ''tests'' = Undefined \<or>
      zod_eval (ZArray testCaseInputSchema 0 (Some 500)) (get_opt v ''tests'') = Some (get_opt d ''tests'')"
    by (rule zod_optional_D)
  then have "get_opt d ''tests'' = Undefined \<or>
      (\<exists>xs ys. get_opt d ''tests'' = Arr ys \<and> length ys \<le> 500 \<and>
         (\<forall>y\<in>set ys. \<exists>x\<in>set xs. zod_eval testCaseInputSchema x = Some y))"
    by (elim disjE) (auto dest!: zod_array_D simp del: zod_eval.simps)
  then have tests: "length (arr_of (get_opt d ''tests'')) \<le> 500"
    "\<forall>t\<in>set (arr_of (get_opt d ''tests'')). \<exists>p. get_opt t ''points'' = IntV p \<and> 0 \<le> p \<and> p \<le> 10000"
    using test_case_points by (auto simp: arr_of_def) blast
  show ?thesis
    unfolding valid_problem_def using slug samples tests problem_no_issues [OF no] by blast
qed

section \<open>Accepted forms are JSON\<close>

lemma validation_json [simp]:
  "json_schema updateContestSettingsSchema" "never_undefined updateContestSettingsSchema"
  "json_schema problemInputSchema" "never_undefined problemInputSchema"
  "json_schema createTeamInputSchema" "never_undefined createTeamInputSchema"
  "json_schema createUserInputSchema" "never_undefined createUserInputSchema"
  "json_schema suspendUserSchema" "never_undefined suspendUserSchema"
  "json_schema reviewSubmissionSchema" "never_undefined reviewSubmissionSchema"
  by (simp_all add: updateContestSettingsSchema_def settings_shape_def problemInputSchema_def problem_shape_def
      sampleSchema_def testCaseInputSchema_def ordinal_schema_def points_schema_def createTeamInputSchema_def
      team_name_schema_def teamMemberInputSchema_def username_schema_def display_name_schema_def password_schema_def
      createUserInputSchema_def suspendUserSchema_def reviewSubmissionSchema_def int_checks_def)

end
