(* ===== verification/AdminContest.thy ===== *)
theory AdminContest
  imports AdminApi AdminValidation
begin

text \<open>
  Contest control (\<open>admin-frontend/src/lib/actions/contest.ts\<close>) and monitoring
  (\<open>lib/actions/monitoring.ts\<close>). Every action has the form of the source: validate, one backend call, read
  the answer, turn whatever is thrown into the action's own error.
\<close>

section \<open>Contest state\<close>

record contest_state =
  cs_title :: jsv
  cs_status :: jsv
  cs_start_time :: jsv
  cs_end_time :: jsv
  cs_duration_seconds :: jsnum
  cs_freeze_minutes :: jsnum
  cs_paused_at :: jsv
  cs_remaining_seconds :: jsnum
  cs_elapsed_seconds :: jsnum
  cs_is_frozen :: bool
  cs_require_fullscreen :: bool
  cs_min_client_version :: jsv
  cs_enforce_binary_hash :: bool
  cs_authorized_binary_hashes :: jsv
  cs_download_enabled :: bool
  cs_server_time :: jsv

definition normalizeState :: "string \<Rightarrow> jsv \<Rightarrow> exn + contest_state" where
  "normalizeState now data =
     (case get data ''title'' of
        Inl x \<Rightarrow> Inl x
      | Inr title \<Rightarrow>
          let f = get_opt data in Inr
          \<lparr>cs_title = js_or title (Str ''Labyrithm Session''),
           cs_status = js_or (f ''status'') (Str ''NOT_STARTED''),
           cs_start_time = js_or (f ''startTime'') Null,
           cs_end_time = js_or (f ''endTime'') Null,
           cs_duration_seconds = num_or (js_Number (f ''durationSeconds'')) (Fin 7200),
           cs_freeze_minutes = num_or (js_Number (f ''freezeMinutes'')) (Fin 30),
           cs_paused_at = js_or (f ''pausedAt'') Null,
           cs_remaining_seconds = num_or (js_Number (f ''remainingSeconds'')) (Fin 0),
           cs_elapsed_seconds = num_or (js_Number (f ''elapsedSeconds'')) (Fin 0),
           cs_is_frozen = truthy (f ''isFrozen''),
           cs_require_fullscreen = truthy (f ''requireFullscreen''),
           cs_min_client_version = js_or (f ''minClientVersion'') (Str ''0.2.0''),
           cs_enforce_binary_hash = truthy (f ''enforceBinaryHash''),
           cs_authorized_binary_hashes = js_or (f ''authorizedBinaryHashes'') (Str []),
           cs_download_enabled = (if f ''downloadEnabled'' = Undefined then False else truthy (f ''downloadEnabled'')),
           cs_server_time = js_or (f ''serverTime'') (Str now)\<rparr>)"

text \<open>The \<open>try\<close> block every contest action has.\<close>

definition contest_request :: "string \<Rightarrow> init \<Rightarrow> string \<Rightarrow> contest_state io" where
  "contest_request path i fallback =
     catch
       (bind (backendFetch path i) (\<lambda>res.
        if \<not> rsp_ok res then
          bind (res_json_or_empty res) (\<lambda>errBody. bind (lift (get errBody ''error'')) (\<lambda>m.
          throw (Error (js_String (js_or m (Str fallback))))))
        else
          bind (res_json res) (\<lambda>data. bind (asks env_now_iso) (\<lambda>now. lift (normalizeState now data)))))
       (\<lambda>err. throw (Error (message_or err fallback)))"

definition getAdminContestStateAction :: "contest_state io" where
  "getAdminContestStateAction =
     contest_request ''/api/v1/admin/contest/state'' no_init ''Failed to fetch contest state''"

definition startContestAction :: "parser \<Rightarrow> jsv \<Rightarrow> contest_state io" where
  "startContestAction sp durationMinutes =
     (case sp startContestSchema (Obj [(''durationMinutes'', durationMinutes)]) of
        Inl ms \<Rightarrow> throw (Error (issue_or ms ''Invalid start contest parameters''))
      | Inr d \<Rightarrow> contest_request ''/api/v1/admin/contest/start''
          (json_init ''POST'' (Obj [(''durationMinutes'', js_or (get_opt d ''durationMinutes'') (IntV 0))]))
          ''Failed to start contest'')"

definition pauseContestAction :: "contest_state io" where
  "pauseContestAction =
     contest_request ''/api/v1/admin/contest/pause'' (method_init ''POST'') ''Failed to pause contest''"

definition resumeContestAction :: "contest_state io" where
  "resumeContestAction =
     contest_request ''/api/v1/admin/contest/resume'' (method_init ''POST'') ''Failed to resume contest''"

definition extendContestAction :: "parser \<Rightarrow> jsv \<Rightarrow> contest_state io" where
  "extendContestAction sp minutes =
     (case sp extendContestSchema (Obj [(''minutes'', minutes)]) of
        Inl ms \<Rightarrow> throw (Error (issue_or ms ''Invalid extend contest parameters''))
      | Inr d \<Rightarrow> contest_request ''/api/v1/admin/contest/extend''
          (json_init ''POST'' (Obj [(''minutes'', get_opt d ''minutes'')]))
          ''Failed to extend contest duration'')"

definition resetContestAction :: "contest_state io" where
  "resetContestAction =
     contest_request ''/api/v1/admin/contest/reset'' (method_init ''POST'') ''Failed to reset contest''"

definition endContestAction :: "contest_state io" where
  "endContestAction =
     contest_request ''/api/v1/admin/contest/end'' (method_init ''POST'') ''Failed to end contest''"

definition freezeContestAction :: "contest_state io" where
  "freezeContestAction =
     contest_request ''/api/v1/admin/contest/freeze'' (method_init ''POST'') ''Failed to freeze contest scoreboard''"

definition unfreezeContestAction :: "contest_state io" where
  "unfreezeContestAction =
     contest_request ''/api/v1/admin/contest/unfreeze'' (method_init ''POST'') ''Failed to unfreeze contest scoreboard''"

definition updateContestSettingsAction :: "parser \<Rightarrow> jsv \<Rightarrow> contest_state io" where
  "updateContestSettingsAction sp settings =
     (case sp updateContestSettingsSchema settings of
        Inl ms \<Rightarrow> throw (Error (issue_or ms ''Invalid contest settings''))
      | Inr d \<Rightarrow> contest_request ''/api/v1/admin/contest/settings'' (json_init ''PUT'' d)
          ''Failed to update contest settings'')"

lemma contest_request_sends [sends_intros]: "sends_at_most 1 (contest_request path i m)"
  unfolding contest_request_def by (intro admin_sends_rules)

lemma contest_request_log:
  "sent (snd (contest_request path i m e w)) = sent w @ [backend_request e w path i]"
proof -
  have "wp (contest_request path i m) (\<lambda>_ w'. sent w' = sent w @ [backend_request e w path i]) e w"
    unfolding contest_request_def by (intro admin_wp_rules) simp_all
  then show ?thesis by (simp add: wp_def split: prod.splits)
qed

text \<open>A failing contest request is an \<open>Error\<close>, never another thrown value.\<close>

lemma contest_request_throws: "contest_request path i m e w = (Inl x, w') \<Longrightarrow> \<exists>s. x = Error s"
  by (auto simp: contest_request_def io_simps split: sum.splits if_splits prod.splits)

section \<open>Monitoring\<close>

definition MONITORING_SECTIONS :: "string list" where
  "MONITORING_SECTIONS = [''overview'', ''telemetry'', ''risk'', ''agents'']"

record status_result =
  sr_status :: jsv
  sr_warning :: jsv
  sr_error :: jsv

definition sr_failed :: "jsv \<Rightarrow> status_result" where
  "sr_failed m = \<lparr>sr_status = Undefined, sr_warning = Undefined, sr_error = m\<rparr>"

definition sr_ok :: "string \<Rightarrow> jsv \<Rightarrow> status_result" where
  "sr_ok s warning = \<lparr>sr_status = Str s, sr_warning = warning, sr_error = Undefined\<rparr>"

record snapshot_result =
  sn_snapshot :: jsv
  sn_unauthenticated :: bool
  sn_error :: jsv

definition getMonitoringSnapshotAction :: "string list \<Rightarrow> snapshot_result io" where
  "getMonitoringSnapshotAction sections =
     (let incl = filter (\<lambda>s. s \<in> set sections) MONITORING_SECTIONS;
          query = (if length incl > 0 then ''?include='' @ join_with '','' incl else [])
      in catch
        (bind (backendFetch (''/api/v1/admin/monitoring'' @ query) (method_init ''GET'')) (\<lambda>res.
         if rsp_status res = 401 \<or> rsp_status res = 403
         then ret \<lparr>sn_snapshot = Undefined, sn_unauthenticated = True, sn_error = Undefined\<rparr>
         else if \<not> rsp_ok res
         then ret \<lparr>sn_snapshot = Undefined, sn_unauthenticated = False,
                   sn_error = Str ''Monitoring overview unavailable''\<rparr>
         else bind (res_json res) (\<lambda>data.
              ret \<lparr>sn_snapshot = data, sn_unauthenticated = False, sn_error = Undefined\<rparr>)))
        (\<lambda>err. ret \<lparr>sn_snapshot = Undefined, sn_unauthenticated = False,
                    sn_error = Str (message_or err ''Monitoring service unreachable'')\<rparr>))"

text \<open>An id taken from the validated data, as a path segment.\<close>

definition id_segment :: "jsv \<Rightarrow> string \<Rightarrow> string" where
  "id_segment d k = encodeURIComponent (js_String (get_opt d k))"

definition setProctorAccessAction :: "parser \<Rightarrow> jsv \<Rightarrow> jsv \<Rightarrow> jsv \<Rightarrow> jsv \<Rightarrow> status_result io" where
  "setProctorAccessAction sp userId webOnly reason hoursValid =
     (case sp proctorAccessSchema (Obj [(''userId'', userId), (''webOnly'', webOnly), (''reason'', reason),
             (''hoursValid'', hoursValid)]) of
        Inl ms \<Rightarrow> ret (sr_failed (Str (issue_or ms ''Invalid proctor access parameters'')))
      | Inr d \<Rightarrow> catch
          (bind (backendFetch (''/api/v1/admin/users/'' @ id_segment d ''userId'' @ ''/access'')
             \<lparr>i_method = Some ''PATCH'', i_headers = json_header,
              i_body = Some (stringify (Obj [(''webOnly'', get_opt d ''webOnly''), (''reason'', get_opt d ''reason''),
                                        (''hoursValid'', get_opt d ''hoursValid'')]))\<rparr>) (\<lambda>res.
           if \<not> rsp_ok res then
             bind (res_json_or_empty res) (\<lambda>err. bind (lift (get err ''error'')) (\<lambda>m.
             ret (sr_failed (js_or m (Str ''Failed to update proctor access'')))))
           else
             bind (res_json_or_empty res) (\<lambda>data. bind (lift (get data ''warning'')) (\<lambda>warning.
             ret (sr_ok ''updated'' warning)))))
          (\<lambda>err. ret (sr_failed (Str (message_or err ''Network error'')))))"

definition revokeAgentAction :: "parser \<Rightarrow> jsv \<Rightarrow> jsv \<Rightarrow> status_result io" where
  "revokeAgentAction sp agentId reason =
     (case sp revokeAgentSchema (Obj [(''agentId'', agentId), (''reason'', reason)]) of
        Inl ms \<Rightarrow> ret (sr_failed (Str (issue_or ms ''Invalid revocation parameters'')))
      | Inr d \<Rightarrow> catch
          (bind (backendFetch (''/api/v1/admin/proctor/agents/'' @ id_segment d ''agentId'' @ ''/revoke'')
             \<lparr>i_method = Some ''POST'', i_headers = json_header,
              i_body = Some (stringify (Obj [(''reason'', get_opt d ''reason'')]))\<rparr>) (\<lambda>res.
           ret (if \<not> rsp_ok res then sr_failed (Str ''Failed to revoke agent enrolment'')
                else sr_ok ''revoked'' Undefined)))
          (\<lambda>err. ret (sr_failed (Str (message_or err ''Network error'')))))"

definition readmitContestantAction :: "parser \<Rightarrow> jsv \<Rightarrow> status_result io" where
  "readmitContestantAction sp userId =
     (case sp proctorUserQuerySchema (Obj [(''userId'', userId)]) of
        Inl ms \<Rightarrow> ret (sr_failed (Str (issue_or ms ''Invalid user ID'')))
      | Inr d \<Rightarrow> catch
          (bind (backendFetch (''/api/v1/admin/proctor/users/'' @ id_segment d ''userId'' @ ''/readmit'')
             (method_init ''POST'')) (\<lambda>res.
           if \<not> rsp_ok res then
             bind (res_json_or_empty res) (\<lambda>err. bind (lift (get err ''error'')) (\<lambda>m.
             ret (sr_failed (js_or m (Str ''Failed to re-admit contestant'')))))
           else ret (sr_ok ''readmitted'' Undefined)))
          (\<lambda>err. ret (sr_failed (Str (message_or err ''Network error'')))))"

record findings_result =
  fr_findings :: jsv
  fr_error :: jsv

definition getAdminProctorFindingsAction :: "parser \<Rightarrow> jsv \<Rightarrow> findings_result io" where
  "getAdminProctorFindingsAction sp userId =
     (case sp proctorUserQuerySchema (Obj [(''userId'', userId)]) of
        Inl ms \<Rightarrow> ret \<lparr>fr_findings = Arr [], fr_error = Str (issue_or ms ''Invalid user ID'')\<rparr>
      | Inr d \<Rightarrow> catch
          (bind (backendFetch (''/api/v1/admin/proctor/findings/'' @ id_segment d ''userId'') (method_init ''GET'')) (\<lambda>res.
           if \<not> rsp_ok res then ret \<lparr>fr_findings = Arr [], fr_error = Str ''Failed to fetch findings''\<rparr>
           else bind (res_json res) (\<lambda>data. bind (lift (get data ''findings'')) (\<lambda>findings.
                ret \<lparr>fr_findings = js_or findings (Arr []), fr_error = Undefined\<rparr>))))
          (\<lambda>err. ret \<lparr>fr_findings = Arr [], fr_error = Str (message_or err ''Network error'')\<rparr>))"

definition toggleProctorExemptionAction :: "parser \<Rightarrow> jsv \<Rightarrow> jsv \<Rightarrow> jsv \<Rightarrow> status_result io" where
  "toggleProctorExemptionAction sp userId exempt reason =
     (case sp toggleProctorExemptionSchema (Obj [(''userId'', userId), (''exempt'', exempt), (''reason'', reason)]) of
        Inl ms \<Rightarrow> ret (sr_failed (Str (issue_or ms ''Invalid exemption parameters'')))
      | Inr d \<Rightarrow> catch
          (bind (backendFetch (''/api/v1/admin/users/'' @ id_segment d ''userId'' @ ''/exemption'')
             \<lparr>i_method = Some ''PATCH'', i_headers = json_header,
              i_body = Some (stringify (Obj [(''exempt'', get_opt d ''exempt''),
                (''reason'', js_or (get_opt d ''reason'')
                   (Str (if truthy (get_opt d ''exempt'') then ''Granted by administrator'' else [])))]))\<rparr>) (\<lambda>res.
           if \<not> rsp_ok res then
             bind (res_json_or_empty res) (\<lambda>errBody. bind (lift (get errBody ''error'')) (\<lambda>m.
             ret (sr_failed (js_or m (Str ''Failed to update exemption status'')))))
           else ret (sr_ok ''updated'' Undefined)))
          (\<lambda>err. ret (sr_failed (Str (message_or err ''Network error'')))))"

record timeline_result =
  tl_timeline :: jsv
  tl_error :: jsv

definition is_object :: "jsv \<Rightarrow> bool" where
  "is_object v = (case v of Obj _ \<Rightarrow> True | Arr _ \<Rightarrow> True | _ \<Rightarrow> False)"

definition getAdminProctorTimelineAction :: "parser \<Rightarrow> jsv \<Rightarrow> timeline_result io" where
  "getAdminProctorTimelineAction sp userId =
     (case sp proctorUserQuerySchema (Obj [(''userId'', userId)]) of
        Inl ms \<Rightarrow> ret \<lparr>tl_timeline = Undefined, tl_error = Str (issue_or ms ''Invalid user ID'')\<rparr>
      | Inr d \<Rightarrow> catch
          (bind (backendFetch (''/api/v1/admin/proctor/timeline/'' @ id_segment d ''userId'') (method_init ''GET'')) (\<lambda>res.
           if \<not> rsp_ok res
           then ret \<lparr>tl_timeline = Undefined, tl_error = Str ''Failed to load contestant evidence timeline''\<rparr>
           else bind (res_json res) (\<lambda>data.
                ret \<lparr>tl_timeline = (if is_object data
                        then js_coalesce (get_opt data ''timeline'')
                               (if truthy (get_opt data ''userId'') then data else Undefined)
                        else Undefined), tl_error = Undefined\<rparr>)))
          (\<lambda>err. ret \<lparr>tl_timeline = Undefined, tl_error = Str (message_or err ''Telemetry service unreachable'')\<rparr>))"

lemma monitoring_sends:
  "sends_at_most 1 (getMonitoringSnapshotAction ss)"
  "sends_at_most 1 (setProctorAccessAction sp u b r h)"
  "sends_at_most 1 (revokeAgentAction sp a r)"
  "sends_at_most 1 (readmitContestantAction sp u)"
  "sends_at_most 1 (getAdminProctorFindingsAction sp u)"
  "sends_at_most 1 (toggleProctorExemptionAction sp u x r)"
  "sends_at_most 1 (getAdminProctorTimelineAction sp u)"
  unfolding getMonitoringSnapshotAction_def setProctorAccessAction_def revokeAgentAction_def
    readmitContestantAction_def getAdminProctorFindingsAction_def toggleProctorExemptionAction_def
    getAdminProctorTimelineAction_def
  by (intro admin_sends_rules)+

section \<open>What the contest actions guarantee\<close>

text \<open>
  C14: Saving the contest settings sends either nothing (the form was rejected and the action threw) or exactly
  one PUT to the settings endpoint whose JSON body reads back as settings that are valid: a trimmed title of
  1 to 100 characters, a duration of 1 minute to a year, and a freeze window no longer than the contest.
\<close>

theorem contest_settings_sent:
  assumes "zod_parser sp"
  shows "(sent (snd (updateContestSettingsAction sp settings e w)) = sent w \<and>
            (\<exists>m. fst (updateContestSettingsAction sp settings e w) = Inl (Error m))) \<or>
         (\<exists>q d t. sent (snd (updateContestSettingsAction sp settings e w)) = sent w @ [q] \<and>
            req_method q = ''PUT'' \<and> req_url q = env_api_url e @ ''/api/v1/admin/contest/settings'' \<and>
            body_text (req_body q) = Some t \<and> json_parse t = Some d \<and> valid_settings d)"
proof (cases "sp updateContestSettingsSchema settings")
  case (Inl ms)
  then show ?thesis by (simp add: updateContestSettingsAction_def io_simps)
next
  case (Inr d)
  then have acc: "zod_eval updateContestSettingsSchema settings = Some d"
    using zod_parser.parse_Inr_iff [OF assms] by blast
  have "json_parse (stringify d) = Some d" by (rule accepted_round_trip [OF acc]) simp_all
  moreover have "valid_settings d" by (rule settings_accepted [OF acc])
  ultimately show ?thesis
    by (simp add: updateContestSettingsAction_def Inr contest_request_log json_init_def init_method_def)
qed

theorem contest_settings_sent_witness:
  "let s = Obj [(''title'', Str '' Final ''), (''durationMinutes'', IntV 90), (''freezeMinutes'', IntV 30)];
       e = answering 200 ''{}''; w = with_cookie ''admin_session'' ''t''; r = updateContestSettingsAction zod_ref s e w
   in (sent (snd r) = sent w \<and> (\<exists>m. fst r = Inl (Error m))) \<or>
      (\<exists>q d t. sent (snd r) = sent w @ [q] \<and> req_method q = ''PUT'' \<and>
         req_url q = env_api_url e @ ''/api/v1/admin/contest/settings'' \<and>
         body_text (req_body q) = Some t \<and> json_parse t = Some d \<and> valid_settings d)"
  unfolding Let_def by (rule contest_settings_sent [OF zod_reference.zod_parser_axioms])

lemma truthy_js_or [simp]: "truthy (js_or a b) \<longleftrightarrow> truthy a \<or> truthy b"
  by (simp add: js_or_def)

lemma num_or_facts [simp]:
  "d \<noteq> NaN \<Longrightarrow> num_or n d \<noteq> NaN" "d \<noteq> NaN \<Longrightarrow> d \<noteq> Fin 0 \<Longrightarrow> num_or n d \<noteq> Fin 0"
  by (auto simp: num_or_def)

lemma num_or_zero: "num_or (Fin 0) d = d"
  by (simp add: num_or_def)

text \<open>
  A contest state read from the backend never carries a missing value: the two counters are numbers that
  are not NaN, title, status, client version and server time are non-empty, and a backend that reports a
  freeze window of 0 minutes is shown as 30 (and a duration of 0 seconds as 7200).
\<close>

theorem normalizeState_defaults:
  assumes "normalizeState now d = Inr s" and "now \<noteq> []"
  shows "truthy (cs_title s) \<and> truthy (cs_status s) \<and> truthy (cs_min_client_version s) \<and> truthy (cs_server_time s) \<and>
         cs_remaining_seconds s \<noteq> NaN \<and> cs_elapsed_seconds s \<noteq> NaN \<and>
         cs_freeze_minutes s \<notin> {NaN, Fin 0} \<and> cs_duration_seconds s \<notin> {NaN, Fin 0} \<and>
         (get_opt d ''freezeMinutes'' = IntV 0 \<longrightarrow> cs_freeze_minutes s = Fin 30)"
  using assms
  by (auto simp: normalizeState_def Let_def num_or_zero split: sum.splits)

theorem normalizeState_defaults_witness:
  "\<exists>s. normalizeState ''now'' (Obj [(''freezeMinutes'', IntV 0)]) = Inr s \<and> truthy (cs_title s) \<and>
       cs_freeze_minutes s = Fin 30"
proof -
  obtain s where s: "normalizeState ''now'' (Obj [(''freezeMinutes'', IntV 0)]) = Inr s"
    by (simp add: normalizeState_def Let_def)
  then show ?thesis using normalizeState_defaults [OF s] by simp
qed

text \<open>
  An id taken from a validated form stays one path segment: the three proctoring calls that change a
  contestant's access send at most one request, and its path has exactly the slashes of the endpoint, so no id
  can reach another endpoint.
\<close>

theorem proctor_actions_stay_on_endpoint:
  "sends_one (\<lambda>e q. req_method q = ''PATCH'' \<and> (\<exists>seg. CHR ''/'' \<notin> set seg \<and> CHR ''?'' \<notin> set seg \<and>
      req_url q = env_api_url e @ ''/api/v1/admin/users/'' @ seg @ ''/access'')) (setProctorAccessAction sp u b r h) \<and>
   sends_one (\<lambda>e q. req_method q = ''POST'' \<and> (\<exists>seg. CHR ''/'' \<notin> set seg \<and> CHR ''?'' \<notin> set seg \<and>
      req_url q = env_api_url e @ ''/api/v1/admin/proctor/agents/'' @ seg @ ''/revoke'')) (revokeAgentAction sp a r) \<and>
   sends_one (\<lambda>e q. req_method q = ''POST'' \<and> (\<exists>seg. CHR ''/'' \<notin> set seg \<and> CHR ''?'' \<notin> set seg \<and>
      req_url q = env_api_url e @ ''/api/v1/admin/proctor/users/'' @ seg @ ''/readmit'')) (readmitContestantAction sp u)"
proof (intro conjI)
  show "sends_one (\<lambda>e q. req_method q = ''PATCH'' \<and> (\<exists>seg. CHR ''/'' \<notin> set seg \<and> CHR ''?'' \<notin> set seg \<and>
      req_url q = env_api_url e @ ''/api/v1/admin/users/'' @ seg @ ''/access'')) (setProctorAccessAction sp u b r h)"
    unfolding setProctorAccessAction_def
    by (intro sends_one_rules sends_rules sends_one_none) (auto simp: init_method_def id_segment_def intro!: encodeURIComponent_no_delimiter)
  show "sends_one (\<lambda>e q. req_method q = ''POST'' \<and> (\<exists>seg. CHR ''/'' \<notin> set seg \<and> CHR ''?'' \<notin> set seg \<and>
      req_url q = env_api_url e @ ''/api/v1/admin/proctor/agents/'' @ seg @ ''/revoke'')) (revokeAgentAction sp a r)"
    unfolding revokeAgentAction_def
    by (intro sends_one_rules sends_rules sends_one_none) (auto simp: init_method_def id_segment_def intro!: encodeURIComponent_no_delimiter)
  show "sends_one (\<lambda>e q. req_method q = ''POST'' \<and> (\<exists>seg. CHR ''/'' \<notin> set seg \<and> CHR ''?'' \<notin> set seg \<and>
      req_url q = env_api_url e @ ''/api/v1/admin/proctor/users/'' @ seg @ ''/readmit'')) (readmitContestantAction sp u)"
    unfolding readmitContestantAction_def
    by (intro sends_one_rules sends_rules sends_one_none)
       (auto simp: init_method_def method_init_def id_segment_def intro!: encodeURIComponent_no_delimiter)
qed

end
