(* ===== verification/AdminProblems.thy ===== *)
theory AdminProblems
  imports AdminApi AdminValidation
begin

text \<open>
  Problem management (\<open>admin-frontend/src/lib/actions/problems.ts\<close>) and submission review
  (\<open>lib/actions/submissions.ts\<close>). The error text of a failed response is taken from its JSON, from an HTML
  error page, or from its first characters; the regular expressions of the source are written out as the
  scanners they denote.
\<close>

section \<open>Reading an error out of a response\<close>

text \<open>\<open>/<tag[^>]*>([^<]+)<\/tag>/i\<close> at the head of the text, and its leftmost match.\<close>

definition drop_prefix_ci :: "string \<Rightarrow> string \<Rightarrow> string option" where
  "drop_prefix_ci p s =
     (if length p \<le> length s \<and> js_lower (take (length p) s) = p then Some (drop (length p) s) else None)"

definition element_at :: "string \<Rightarrow> string \<Rightarrow> string option" where
  "element_at tag s =
     (case drop_prefix_ci (CHR ''<'' # tag) s of
        None \<Rightarrow> None
      | Some r \<Rightarrow>
          (case dropWhile (\<lambda>c. c \<noteq> CHR ''>'') r of
             [] \<Rightarrow> None
           | _ # inner \<Rightarrow>
               let content = takeWhile (\<lambda>c. c \<noteq> CHR ''<'') inner
               in if content = [] then None
                  else (case drop_prefix_ci (''</'' @ tag @ ''>'') (dropWhile (\<lambda>c. c \<noteq> CHR ''<'') inner) of
                          None \<Rightarrow> None | Some _ \<Rightarrow> Some content)))"

fun element_text :: "string \<Rightarrow> string \<Rightarrow> string option" where
  "element_text tag [] = None"
| "element_text tag (c # cs) =
     (case element_at tag (c # cs) of Some t \<Rightarrow> Some t | None \<Rightarrow> element_text tag cs)"

text \<open>\<open>replace(/<[^>]+>/g, '' '')\<close> and \<open>replace(/\s+/g, '' '')\<close>\<close>

function strip_tags :: "string \<Rightarrow> string" where
  "strip_tags [] = []"
| "strip_tags (c # cs) =
     (if c = CHR ''<'' \<and> takeWhile (\<lambda>d. d \<noteq> CHR ''>'') cs \<noteq> [] \<and> dropWhile (\<lambda>d. d \<noteq> CHR ''>'') cs \<noteq> []
      then CHR '' '' # strip_tags (tl (dropWhile (\<lambda>d. d \<noteq> CHR ''>'') cs))
      else c # strip_tags cs)"
  by pat_completeness auto

termination strip_tags
proof (relation "measure length", simp_all)
  fix cs :: string
  have "length (dropWhile (\<lambda>d. d \<noteq> CHR ''>'') cs) \<le> length cs" by (rule length_dropWhile_le)
  then show "length (dropWhile (\<lambda>d. d \<noteq> CHR ''>'') cs) - Suc 0 < Suc (length cs)" by linarith
qed

definition extractHtmlError :: "string \<Rightarrow> string" where
  "extractHtmlError html =
     (case element_text ''title'' html of
        Some t \<Rightarrow> js_trim t
      | None \<Rightarrow> (case element_text ''h1'' html of
                   Some t \<Rightarrow> js_trim t
                 | None \<Rightarrow> take 200 (js_trim (collapse_ws (strip_tags html)))))"

definition error_detail :: "string \<Rightarrow> jsv" where
  "error_detail errText =
     (case json_parse errText of
        Some j \<Rightarrow>
          (case get j ''error'' of
             Inr x \<Rightarrow> js_or x (js_or (get_opt j ''message'') (js_or (get_opt j ''detail'') (Str [])))
           | Inl _ \<Rightarrow>
               if str_includes errText ''<html'' \<or> str_includes errText ''<!DOCTYPE''
               then Str (extractHtmlError errText) else Str (js_trim (take 300 errText)))
      | None \<Rightarrow>
          if str_includes errText ''<html'' \<or> str_includes errText ''<!DOCTYPE''
          then Str (extractHtmlError errText) else Str (js_trim (take 300 errText)))"

definition status_message :: "nat \<Rightarrow> string \<Rightarrow> jsv \<Rightarrow> string" where
  "status_message status fallback detail =
     (if status = 413 then
        js_trim (''Payload Too Large (HTTP 413): The problem or test cases exceed the server upload buffer. ''
                 @ js_String detail)
      else if status = 502 then
        js_trim (''Bad Gateway (HTTP 502): The backend API server is unreachable. '' @ js_String detail)
      else if status = 504 then
        js_trim (''Gateway Timeout (HTTP 504): The server timed out processing the request. '' @ js_String detail)
      else if truthy detail then fallback @ '' ('' @ show_nat status @ ''): '' @ js_String detail
      else fallback @ '' (HTTP '' @ show_nat status @ '')'')"

definition extractResponseErrorMessage :: "response \<Rightarrow> string \<Rightarrow> string io" where
  "extractResponseErrorMessage res fallback =
     bind (catch (res_text res) (\<lambda>_. ret [])) (\<lambda>errText.
     let errDetail = (if errText \<noteq> [] then error_detail errText else Str [])
     in ret (status_message (rsp_status res) fallback errDetail))"

definition handleResponseError :: "response \<Rightarrow> string \<Rightarrow> 'a io" where
  "handleResponseError res fallback =
     bind (extractResponseErrorMessage res fallback) (\<lambda>m. throw (Error m))"

lemma extractResponseErrorMessage_sends [sends_intros]: "sends_at_most n (extractResponseErrorMessage res m)"
  unfolding extractResponseErrorMessage_def
  by (rule sends_bind_0, rule sends_catch_after) (intro sends_rules)+

lemma handleResponseError_sends [sends_intros]: "sends_at_most n (handleResponseError res m)"
  unfolding handleResponseError_def by (rule sends_bind_0) (intro sends_intros)+

lemma sends_message_then [sends_intros]:
  "(\<And>m. sends_at_most n (f m)) \<Longrightarrow> sends_at_most n (bind (extractResponseErrorMessage res fb) f)"
  by (rule sends_bind_0) (intro sends_intros)

section \<open>Problems\<close>

text \<open>
  The read actions return \<open>handleResponseError(...)\<close> without awaiting it, so its rejection passes their
  own \<open>catch\<close>; \<open>pending\<close> is the promise the \<open>try\<close> block returned.
\<close>

definition read_action :: "string \<Rightarrow> string \<Rightarrow> (jsv \<Rightarrow> jsv io) \<Rightarrow> jsv io" where
  "read_action path fallback pick =
     bind (catch
       (bind (backendFetch path no_init) (\<lambda>res.
        if \<not> rsp_ok res then ret (handleResponseError res fallback)
        else bind (res_json res) (\<lambda>data. bind (pick data) (\<lambda>v. ret (ret v)))))
       (\<lambda>err. throw (Error (message_or err fallback)))) (\<lambda>pending. pending)"

definition listProblemsAction :: "jsv io" where
  "listProblemsAction = read_action ''/api/v1/admin/problems'' ''Failed to fetch problems''
     (\<lambda>data. bind (lift (get data ''problems'')) (\<lambda>v. ret (js_coalesce v (Arr []))))"

definition getProblemDetailAction :: "string \<Rightarrow> jsv io" where
  "getProblemDetailAction pid = read_action (''/api/v1/admin/problems/'' @ pid) ''Failed to fetch problem detail''
     (\<lambda>data. lift (get data ''problem''))"

record problem_result =
  pr_success :: bool
  pr_problem :: jsv
  pr_error :: jsv

definition pr_failed :: "string \<Rightarrow> problem_result" where
  "pr_failed m = \<lparr>pr_success = False, pr_problem = Undefined, pr_error = Str m\<rparr>"

definition pr_ok :: "jsv \<Rightarrow> problem_result" where
  "pr_ok p = \<lparr>pr_success = True, pr_problem = p, pr_error = Undefined\<rparr>"

text \<open>The \<open>try\<close> block of the two actions that save a problem, and of the two that return only success.\<close>

definition save_problem :: "string \<Rightarrow> init \<Rightarrow> string \<Rightarrow> problem_result io" where
  "save_problem path i fallback =
     catch
       (bind (backendFetch path i) (\<lambda>res.
        if \<not> rsp_ok res then bind (extractResponseErrorMessage res fallback) (\<lambda>m. ret (pr_failed m))
        else bind (res_json res) (\<lambda>data. bind (lift (get data ''problem'')) (\<lambda>p. ret (pr_ok p)))))
       (\<lambda>err. ret (pr_failed (message_or err fallback)))"

definition createProblemAction :: "parser \<Rightarrow> jsv \<Rightarrow> problem_result io" where
  "createProblemAction sp inp =
     (case sp problemInputSchema inp of
        Inl ms \<Rightarrow> ret (pr_failed (issue_nn ms ''Invalid problem input data''))
      | Inr d \<Rightarrow> save_problem ''/api/v1/admin/problems'' (json_init ''POST'' d) ''Failed to create problem'')"

definition updateProblemAction :: "parser \<Rightarrow> string \<Rightarrow> jsv \<Rightarrow> problem_result io" where
  "updateProblemAction sp pid inp =
     (case sp problemInputSchema inp of
        Inl ms \<Rightarrow> ret (pr_failed (issue_nn ms ''Invalid problem input data''))
      | Inr d \<Rightarrow> save_problem (''/api/v1/admin/problems/'' @ pid) (json_init ''PUT'' d) ''Failed to update problem'')"

definition acknowledge :: "string \<Rightarrow> init \<Rightarrow> string \<Rightarrow> ok_result io" where
  "acknowledge path i fallback =
     catch
       (bind (backendFetch path i) (\<lambda>res.
        if \<not> rsp_ok res then bind (extractResponseErrorMessage res fallback) (\<lambda>m. ret (ok_failed (Str m)))
        else ret ok_done))
       (\<lambda>err. ret (ok_failed (Str (message_or err fallback))))"

definition togglePublishAction :: "string \<Rightarrow> bool \<Rightarrow> ok_result io" where
  "togglePublishAction pid published =
     acknowledge (''/api/v1/admin/problems/'' @ pid @ ''/publish'')
       (json_init ''PATCH'' (Obj [(''published'', Bool published)])) ''Failed to update published status''"

definition deleteProblemAction :: "string \<Rightarrow> ok_result io" where
  "deleteProblemAction pid =
     acknowledge (''/api/v1/admin/problems/'' @ pid) (method_init ''DELETE'') ''Failed to delete problem''"

definition getProblemTestsAction :: "string \<Rightarrow> jsv io" where
  "getProblemTestsAction pid =
     read_action (''/api/v1/admin/problems/'' @ pid @ ''/tests'') ''Failed to fetch test cases''
     (\<lambda>data. bind (lift (get data ''tests'')) (\<lambda>v. ret (js_coalesce v (Arr []))))"

definition replaceTestCasesAction :: "parser \<Rightarrow> string \<Rightarrow> jsv \<Rightarrow> unit io" where
  "replaceTestCasesAction sp pid tests =
     (case sp replaceTestsSchema (Obj [(''tests'', tests)]) of
        Inl ms \<Rightarrow> throw (Error (issue_nn ms ''Invalid test case input data''))
      | Inr d \<Rightarrow>
          bind (catch
            (bind (backendFetch (''/api/v1/admin/problems/'' @ pid @ ''/tests'')
               (json_init ''PUT'' (Obj [(''tests'', get_opt d ''tests'')]))) (\<lambda>res.
             ret (if \<not> rsp_ok res then handleResponseError res ''Failed to update test cases'' else ret ())))
            (\<lambda>err. throw (Error (message_or err ''Failed to update test cases'')))) (\<lambda>pending. pending))"

section \<open>Submissions\<close>

definition submission_params :: "string \<Rightarrow> string \<Rightarrow> string \<Rightarrow> jsv \<Rightarrow> jsv \<Rightarrow> (string \<times> string) list" where
  "submission_params statusFilter problemId teamId limit offset =
     (if statusFilter \<noteq> [] then [(''status'', statusFilter)] else []) @
     (if problemId \<noteq> [] then [(''problem_id'', problemId)] else []) @
     (if teamId \<noteq> [] then [(''team_id'', teamId)] else []) @
     (case limit of Num n \<Rightarrow> [(''limit'', num_text n)] | _ \<Rightarrow> []) @
     (case offset of Num n \<Rightarrow> [(''offset'', num_text n)] | _ \<Rightarrow> [])"

definition listAdminSubmissionsAction :: "string \<Rightarrow> string \<Rightarrow> string \<Rightarrow> jsv \<Rightarrow> jsv \<Rightarrow> jsv io" where
  "listAdminSubmissionsAction statusFilter problemId teamId limit offset =
     (let params = submission_params statusFilter problemId teamId limit offset;
          empty = Obj [(''submissions'', Arr []), (''total'', IntV 0)]
      in bind (catch
           (bind (backendFetch (with_query ''/api/v1/admin/submissions'' params) (method_init ''GET'')) (\<lambda>res.
            ret (if rsp_ok res then res_json res else ret empty)))
           (\<lambda>_. ret (ret empty))) (\<lambda>pending. pending))"

definition getAdminSubmissionAction :: "string \<Rightarrow> jsv io" where
  "getAdminSubmissionAction submissionId =
     catch
       (bind (backendFetch (''/api/v1/admin/submissions/'' @ encodeURIComponent submissionId) (method_init ''GET'')) (\<lambda>res.
        if rsp_ok res then
          bind (res_json res) (\<lambda>data. bind (lift (get data ''submission'')) (\<lambda>s. ret (js_coalesce s Null)))
        else ret Null))
       (\<lambda>_. ret Null)"

text \<open>POST without a body, answered by success or by the backend's error text.\<close>

definition post_command :: "string \<Rightarrow> string \<Rightarrow> ok_result io" where
  "post_command path fallback =
     catch
       (bind (backendFetch path (method_init ''POST'')) (\<lambda>res.
        if rsp_ok res then ret ok_done
        else bind (res_json_or_empty res) (\<lambda>data. bind (lift (get data ''error'')) (\<lambda>m.
             ret (ok_failed (js_or m (Str fallback)))))))
       (\<lambda>err. ret (ok_failed (Str (message_or err ''Network error''))))"

definition rejudgeSubmissionAction :: "parser \<Rightarrow> jsv \<Rightarrow> ok_result io" where
  "rejudgeSubmissionAction sp submissionId =
     (case sp rejudgeSubmissionSchema (Obj [(''submissionId'', submissionId)]) of
        Inl ms \<Rightarrow> ret (ok_failed (Str (issue_or ms ''Invalid submission ID'')))
      | Inr d \<Rightarrow> post_command (''/api/v1/admin/submissions/'' @
            encodeURIComponent (js_String (get_opt d ''submissionId'')) @ ''/rejudge'') ''Failed to re-judge submission'')"

record requeue_result =
  rq_success :: bool
  rq_requeued :: jsv
  rq_error :: jsv

definition rejudgeProblemSubmissionsAction :: "parser \<Rightarrow> jsv \<Rightarrow> requeue_result io" where
  "rejudgeProblemSubmissionsAction sp problemId =
     (let failed = (\<lambda>m. \<lparr>rq_success = False, rq_requeued = Undefined, rq_error = m\<rparr>)
      in (case sp rejudgeProblemSchema (Obj [(''problemId'', problemId)]) of
        Inl ms \<Rightarrow> ret (failed (Str (issue_or ms ''Invalid problem ID'')))
      | Inr d \<Rightarrow> catch
          (bind (backendFetch (''/api/v1/admin/problems/'' @
              encodeURIComponent (js_String (get_opt d ''problemId'')) @ ''/rejudge'') (method_init ''POST'')) (\<lambda>res.
           if rsp_ok res then
             bind (res_json_or_empty res) (\<lambda>data. bind (lift (get data ''requeued'')) (\<lambda>n.
             ret \<lparr>rq_success = True, rq_requeued = n, rq_error = Undefined\<rparr>))
           else bind (res_json_or_empty res) (\<lambda>data. bind (lift (get data ''error'')) (\<lambda>m.
             ret (failed (js_or m (Str ''Failed to re-judge problem submissions'')))))))
          (\<lambda>err. ret (failed (Str (message_or err ''Network error''))))))"

definition cancelSubmissionAction :: "parser \<Rightarrow> jsv \<Rightarrow> ok_result io" where
  "cancelSubmissionAction sp submissionId =
     (case sp cancelSubmissionSchema (Obj [(''submissionId'', submissionId)]) of
        Inl ms \<Rightarrow> ret (ok_failed (Str (issue_or ms ''Invalid submission ID'')))
      | Inr d \<Rightarrow> post_command (''/api/v1/admin/submissions/'' @
            encodeURIComponent (js_String (get_opt d ''submissionId'')) @ ''/cancel'') ''Failed to cancel submission'')"

record review_result =
  rv_success :: bool
  rv_submission :: jsv
  rv_error :: jsv

definition reviewSubmissionAction :: "parser \<Rightarrow> string \<Rightarrow> jsv \<Rightarrow> jsv \<Rightarrow> review_result io" where
  "reviewSubmissionAction sp submissionId status reason =
     (let failed = (\<lambda>m. \<lparr>rv_success = False, rv_submission = Undefined, rv_error = m\<rparr>)
      in (case sp reviewSubmissionSchema (Obj [(''status'', status), (''reason'', reason)]) of
        Inl ms \<Rightarrow> ret (failed (Str (issue_or ms ''Invalid review parameters'')))
      | Inr d \<Rightarrow> catch
          (bind (backendFetch (''/api/v1/admin/submissions/'' @ encodeURIComponent submissionId @ ''/review'')
             (json_init ''POST'' d)) (\<lambda>res.
           if rsp_ok res then
             bind (res_json res) (\<lambda>data. bind (lift (get data ''submission'')) (\<lambda>s.
             ret \<lparr>rv_success = True, rv_submission = s, rv_error = Undefined\<rparr>))
           else bind (res_json_or_empty res) (\<lambda>data. bind (lift (get data ''error'')) (\<lambda>m.
             ret (failed (js_or m (Str ''Failed to review submission'')))))))
          (\<lambda>err. ret (failed (Str (message_or err ''Network error''))))))"

definition unstickTeamAction :: "string \<Rightarrow> ok_result io" where
  "unstickTeamAction teamId =
     post_command (''/api/v1/admin/teams/'' @ encodeURIComponent teamId @ ''/unstick'')
       ''Failed to clear team submission locks''"

section \<open>What saving a problem guarantees\<close>

lemma save_problem_log: "sent (snd (save_problem path i m e w)) = sent w @ [backend_request e w path i]"
proof -
  have "wp (save_problem path i m) (\<lambda>_ w'. sent w' = sent w @ [backend_request e w path i]) e w"
    unfolding save_problem_def extractResponseErrorMessage_def by (intro admin_wp_rules) simp_all
  then show ?thesis by (simp add: wp_def split: prod.splits)
qed

lemma save_problem_total: "\<exists>r. fst (save_problem path i m e w) = Inr r"
proof -
  have "wp (save_problem path i m) (\<lambda>r w'. \<exists>a. r = Inr a) e w"
    unfolding save_problem_def extractResponseErrorMessage_def by (intro admin_wp_rules) simp_all
  then show ?thesis by (simp add: wp_def split: prod.splits)
qed

text \<open>
  C7: Creating or updating a problem never throws, and sends either nothing (the form was rejected) or exactly one
  request whose JSON body reads back as a valid problem: a proper slug, 1 to 20 samples, at most 500 tests with
  integer points, no evaluation test identical to a published sample, and, once any test carries points, points
  that add up to the problem's maximum score.
\<close>

theorem saved_problem_valid:
  assumes "zod_parser sp"
  shows "\<exists>r1 r2. fst (createProblemAction sp v e w) = Inr r1 \<and> fst (updateProblemAction sp pid v e w) = Inr r2 \<and>
           (if zod_eval problemInputSchema v = None
            then sent (snd (createProblemAction sp v e w)) = sent w \<and> sent (snd (updateProblemAction sp pid v e w)) = sent w
            else (\<exists>q q' t d. json_parse t = Some d \<and> valid_problem d \<and>
              sent (snd (createProblemAction sp v e w)) = sent w @ [q] \<and> body_text (req_body q) = Some t \<and>
              req_method q = ''POST'' \<and> req_url q = env_api_url e @ ''/api/v1/admin/problems'' \<and>
              sent (snd (updateProblemAction sp pid v e w)) = sent w @ [q'] \<and> body_text (req_body q') = Some t \<and>
              req_method q' = ''PUT''))"
proof (cases "zod_eval problemInputSchema v")
  case None
  then obtain ms where "sp problemInputSchema v = Inl ms" using zod_parser.parse_rejects [OF assms None] by blast
  then show ?thesis using None by (simp add: createProblemAction_def updateProblemAction_def io_simps)
next
  case (Some d)
  have sp: "sp problemInputSchema v = Inr d" by (rule zod_parser.parse_accepts [OF assms Some])
  have "json_parse (stringify d) = Some d" by (rule accepted_round_trip [OF Some]) simp_all
  then show ?thesis
    using problem_accepted [OF Some] save_problem_total
    by (simp add: createProblemAction_def updateProblemAction_def sp Some save_problem_log json_init_def init_method_def)
qed

definition sample_problem :: jsv where
  "sample_problem = Obj [(''slug'', Str ''two-sum''), (''title'', Str ''Two sum''), (''difficulty'', Str ''Easy''),
     (''statement'', Str ''Add.''), (''maxScore'', IntV 10),
     (''samples'', Arr [Obj [(''input'', Str ''1 2''), (''output'', Str ''3'')]]),
     (''tests'', Arr [Obj [(''input'', Str ''2 2''), (''expected'', Str ''4''), (''points'', IntV 10)]])]"

theorem saved_problem_valid_witness:
  "\<exists>r. fst (createProblemAction zod_ref sample_problem (answering 200 ''{}'') (with_cookie ''admin_session'' ''t'')) = Inr r"
  using saved_problem_valid [OF zod_reference.zod_parser_axioms, of sample_problem "answering 200 ''{}''"
      "with_cookie ''admin_session'' ''t''" "''7''"] by blast

text \<open>
  Listing submissions answers with the empty page when the backend is unreachable or refuses, but its
  \<open>catch\<close> does not cover reading the body: the promise of \<open>res.json()\<close> is returned, not awaited, so a 2xx answer
  whose body is not JSON makes the action throw.
\<close>

theorem listAdminSubmissions_result:
  "fst (listAdminSubmissionsAction s p t n off e w) =
     (case env_fetch e (sent w) (backend_request e w
             (with_query ''/api/v1/admin/submissions'' (submission_params s p t n off)) (method_init ''GET'')) of
        Inl _ \<Rightarrow> Inr (Obj [(''submissions'', Arr []), (''total'', IntV 0)])
      | Inr r \<Rightarrow> if rsp_ok r then json_value e r else Inr (Obj [(''submissions'', Arr []), (''total'', IntV 0)]))"
  by (simp add: listAdminSubmissionsAction_def Let_def io_simps split: sum.split)

end
