(* ===== verification/AdminPeople.thy ===== *)
theory AdminPeople
  imports AdminApi AdminValidation
begin

text \<open>
  Teams (\<open>admin-frontend/src/lib/actions/teams.ts\<close>), users (\<open>lib/actions/users.ts\<close>) and the audit log
  (\<open>lib/actions/audit.ts\<close>).
\<close>

text \<open>
  The \<open>try\<close> block these actions share: one call, \<open>throw await parseApiError\<close> on a refusal, the result
  picked from the answer, and whatever is thrown rethrown under the action's own fallback.
\<close>

definition api_call :: "string \<Rightarrow> init \<Rightarrow> string \<Rightarrow> string \<Rightarrow> (response \<Rightarrow> 'a io) \<Rightarrow> 'a io" where
  "api_call path i refused fallback pick =
     catch
       (bind (backendFetch path i) (\<lambda>res.
        if \<not> rsp_ok res then throw_api_error res refused else pick res))
       (\<lambda>err. throw (Error (getErrorMessage err fallback)))"

definition pick_field :: "string \<Rightarrow> response \<Rightarrow> jsv io" where
  "pick_field k res = bind (res_json res) (\<lambda>data. lift (get data k))"

definition pick_list :: "string \<Rightarrow> response \<Rightarrow> jsv io" where
  "pick_list k res = bind (pick_field k res) (\<lambda>v. ret (js_coalesce v (Arr [])))"

section \<open>Teams\<close>

definition listTeamsAction :: "jsv io" where
  "listTeamsAction = api_call ''/api/v1/admin/teams'' no_init ''Failed to fetch teams'' ''Failed to fetch teams''
     (pick_list ''teams'')"

definition createTeamAction :: "parser \<Rightarrow> jsv \<Rightarrow> jsv io" where
  "createTeamAction sp inp =
     (case sp createTeamInputSchema inp of
        Inl ms \<Rightarrow> throw (Error (issue_nn ms ''Invalid team input data''))
      | Inr d \<Rightarrow> api_call ''/api/v1/admin/teams'' (json_init ''POST'' d) ''Failed to create team''
          ''Failed to create team'' res_json)"

record bulk_team_result =
  bt_created :: "(jsv \<times> jsv) list"
  bt_errors :: "(jsv \<times> jsv) list"

text \<open>The loop over the results: one item appends to one of the two lists.\<close>

definition sort_result :: "bulk_team_result \<Rightarrow> jsv \<Rightarrow> exn + bulk_team_result" where
  "sort_result acc item =
     (case get item ''status'' of
        Inl x \<Rightarrow> Inl x
      | Inr status \<Rightarrow>
          if status = Str ''created'' \<and> truthy (get_opt item ''team'')
          then Inr (acc\<lparr>bt_created := bt_created acc @ [(get_opt item ''team'', get_opt item ''members'')]\<rparr>)
          else Inr (acc\<lparr>bt_errors := bt_errors acc @
                 [(get_opt item ''name'', js_coalesce (get_opt item ''error'') (Str ''Failed to create team''))]\<rparr>))"

fun sort_results :: "bulk_team_result \<Rightarrow> jsv list \<Rightarrow> exn + bulk_team_result" where
  "sort_results acc [] = Inr acc"
| "sort_results acc (item # items) =
     (case sort_result acc item of Inl x \<Rightarrow> Inl x | Inr acc' \<Rightarrow> sort_results acc' items)"

text \<open>\<open>for (const item of results)\<close> over a value that need not be an array.\<close>

definition iterate_over :: "jsv \<Rightarrow> exn + jsv list" where
  "iterate_over v =
     (case v of
        Arr xs \<Rightarrow> Inr xs
      | Str s \<Rightarrow> Inr (map (\<lambda>c. Str [c]) s)
      | _ \<Rightarrow> Inl (Error ''results is not iterable''))"

definition no_teams :: bulk_team_result where
  "no_teams = \<lparr>bt_created = [], bt_errors = []\<rparr>"

definition bulkCreateTeamsAction :: "parser \<Rightarrow> jsv list \<Rightarrow> bulk_team_result io" where
  "bulkCreateTeamsAction sp teamInputs =
     (if teamInputs = [] then ret no_teams
      else (case sp bulkCreateTeamsSchema (Obj [(''teams'', Arr teamInputs)]) of
        Inl ms \<Rightarrow> throw (Error (issue_nn ms ''Invalid bulk team input data''))
      | Inr d \<Rightarrow> api_call ''/api/v1/admin/teams/bulk'' (json_init ''POST'' (Obj [(''teams'', get_opt d ''teams'')]))
          ''Failed to bulk create teams'' ''Failed to bulk create teams'' (\<lambda>res.
          bind (pick_list ''results'' res) (\<lambda>results.
          bind (lift (iterate_over results)) (\<lambda>items. lift (sort_results no_teams items))))))"

definition updateTeamAction :: "parser \<Rightarrow> string \<Rightarrow> jsv \<Rightarrow> jsv io" where
  "updateTeamAction sp tid name =
     (case sp updateTeamInputSchema (Obj [(''name'', name)]) of
        Inl ms \<Rightarrow> throw (Error (issue_nn ms ''Invalid team name''))
      | Inr d \<Rightarrow> api_call (''/api/v1/admin/teams/'' @ tid) (json_init ''PUT'' d) ''Failed to update team''
          ''Failed to update team'' (pick_field ''team''))"

definition deleteTeamAction :: "string \<Rightarrow> unit io" where
  "deleteTeamAction tid = api_call (''/api/v1/admin/teams/'' @ tid) (method_init ''DELETE'')
     ''Failed to delete team'' ''Failed to delete team'' (\<lambda>_. ret ())"

definition addTeamMemberAction :: "parser \<Rightarrow> string \<Rightarrow> jsv \<Rightarrow> jsv io" where
  "addTeamMemberAction sp teamId payload =
     (case sp addTeamMemberPayloadSchema payload of
        Inl ms \<Rightarrow> throw (Error (issue_nn ms ''Invalid team member data''))
      | Inr d \<Rightarrow> api_call (''/api/v1/admin/teams/'' @ teamId @ ''/members'') (json_init ''POST'' d)
          ''Failed to add team member'' ''Failed to add team member'' res_json)"

definition removeTeamMemberAction :: "string \<Rightarrow> string \<Rightarrow> jsv io" where
  "removeTeamMemberAction teamId userId =
     api_call (''/api/v1/admin/teams/'' @ teamId @ ''/members/'' @ userId) (method_init ''DELETE'')
       ''Failed to remove team member'' ''Failed to remove team member'' (pick_field ''team'')"

section \<open>Users\<close>

definition listUsersAction :: "jsv io" where
  "listUsersAction = api_call ''/api/v1/admin/users'' no_init ''Failed to fetch users'' ''Failed to fetch users''
     (pick_list ''users'')"

definition createUserAction :: "parser \<Rightarrow> jsv \<Rightarrow> jsv io" where
  "createUserAction sp inp =
     (case sp createUserInputSchema inp of
        Inl ms \<Rightarrow> throw (Error (issue_nn ms ''Invalid user input data''))
      | Inr d \<Rightarrow> api_call ''/api/v1/admin/users'' (json_init ''POST'' d) ''Failed to create user''
          ''Failed to create user'' res_json)"

definition bulkCreateUsersAction :: "parser \<Rightarrow> jsv \<Rightarrow> jsv \<Rightarrow> jsv \<Rightarrow> jsv io" where
  "bulkCreateUsersAction sp users defaultTeamId defaultTeamName =
     (case sp bulkCreateUsersSchema (Obj [(''users'', users), (''defaultTeamId'', defaultTeamId),
             (''defaultTeamName'', defaultTeamName)]) of
        Inl ms \<Rightarrow> throw (Error (issue_nn ms ''Invalid bulk user input data''))
      | Inr d \<Rightarrow> api_call ''/api/v1/admin/users/bulk'' (json_init ''POST'' (Obj
            [(''users'', get_opt d ''users''),
             (''teamId'', js_or (get_opt d ''defaultTeamId'') Undefined),
             (''teamName'', js_or (get_opt d ''defaultTeamName'') Undefined)]))
          ''Bulk import failed'' ''Bulk user creation failed'' res_json)"

definition resetPasswordAction :: "string \<Rightarrow> jsv io" where
  "resetPasswordAction userId = api_call (''/api/v1/admin/users/'' @ userId @ ''/reset-password'')
     \<lparr>i_method = Some ''POST'', i_headers = json_header, i_body = Some (stringify (Obj []))\<rparr>
     ''Failed to reset password'' ''Failed to reset password'' res_json"

definition updateRoleAction :: "parser \<Rightarrow> string \<Rightarrow> jsv \<Rightarrow> unit io" where
  "updateRoleAction sp userId role =
     (case sp updateRoleSchema (Obj [(''role'', role)]) of
        Inl ms \<Rightarrow> throw (Error (issue_nn ms ''Invalid role''))
      | Inr d \<Rightarrow> api_call (''/api/v1/admin/users/'' @ userId @ ''/role'')
          (json_init ''PATCH'' (Obj [(''role'', get_opt d ''role'')]))
          ''Failed to update role'' ''Failed to update user role'' (\<lambda>_. ret ()))"

definition deleteUserAction :: "string \<Rightarrow> unit io" where
  "deleteUserAction userId = api_call (''/api/v1/admin/users/'' @ userId) (method_init ''DELETE'')
     ''Failed to delete user'' ''Failed to delete user'' (\<lambda>_. ret ())"

definition suspendUserAction :: "parser \<Rightarrow> string \<Rightarrow> bool \<Rightarrow> jsv \<Rightarrow> unit io" where
  "suspendUserAction sp userId suspended reason =
     (case sp suspendUserSchema (Obj [(''suspended'', Bool suspended), (''reason'', reason)]) of
        Inl ms \<Rightarrow> throw (Error (issue_nn ms ''Invalid suspension data''))
      | Inr d \<Rightarrow> api_call (''/api/v1/admin/users/'' @ userId @ ''/suspend'') (json_init ''PATCH'' d)
          ''Failed to update user suspension'' ''Failed to update user suspension'' (\<lambda>_. ret ()))"

definition bulkUserAction :: "jsv \<Rightarrow> jsv io" where
  "bulkUserAction inp = api_call ''/api/v1/admin/users/bulk-action'' (json_init ''POST'' inp)
     ''Bulk action failed'' ''Bulk user action failed'' res_json"

section \<open>Audit log\<close>

record audit_logs =
  al_logs :: jsv
  al_total :: jsv
  al_limit :: jsv
  al_offset :: jsv

definition audit_query :: "jsv \<Rightarrow> (string \<times> string) list" where
  "audit_query flt =
     concat (map (\<lambda>k. if get_opt flt k \<noteq> Undefined then [(k, js_String (get_opt flt k))] else [])
        [''limit'', ''offset'']) @
     concat (map (\<lambda>k. if truthy (get_opt flt k) then [(k, js_String (get_opt flt k))] else [])
        [''action'', ''status'', ''actorUsername'', ''targetType''])"

definition getAuditLogsAction :: "jsv \<Rightarrow> audit_logs io" where
  "getAuditLogsAction flt =
     catch
       (bind (backendFetch (with_query ''/api/v1/admin/audit-logs'' (audit_query flt)) no_init) (\<lambda>res.
        if \<not> rsp_ok res then
          bind (res_json_or_empty res) (\<lambda>errBody. bind (lift (get errBody ''error'')) (\<lambda>m.
          throw (Error (js_String (js_or m (Str ''Failed to fetch audit logs''))))))
        else
          bind (res_json res) (\<lambda>data. bind (lift (get data ''logs'')) (\<lambda>logs.
          ret \<lparr>al_logs = js_or logs (Arr []), al_total = js_or (get_opt data ''total'') (IntV 0),
               al_limit = js_or (get_opt data ''limit'') (IntV 50),
               al_offset = js_or (get_opt data ''offset'') (IntV 0)\<rparr>))))
       (\<lambda>err. throw (Error (message_or err ''Failed to fetch audit logs'')))"

section \<open>What they guarantee\<close>

lemma pick_sends [sends_intros]: "sends_at_most n (pick_field k res)" "sends_at_most n (pick_list k res)"
proof -
  show "sends_at_most n (pick_field k res)" for n
    unfolding pick_field_def by (intro sends_rules)
  then show "sends_at_most n (pick_list k res)"
    unfolding pick_list_def by (intro sends_bind_0 sends_pure)
qed

lemma api_call_sends:
  "(\<And>res. sends_at_most 0 (pick res)) \<Longrightarrow> sends_at_most 1 (api_call path i r f pick)"
  unfolding api_call_def by (intro admin_sends_rules sends_intros)

lemma wp_api_call:
  assumes "\<And>m w'. sent w' = sent w @ [backend_request e w path i] \<Longrightarrow> jar w' = jar w \<Longrightarrow> Q (Inl (Error m)) w'"
    and "\<And>res w'. sent w' = sent w @ [backend_request e w path i] \<Longrightarrow> jar w' = jar w \<Longrightarrow> rsp_ok res \<Longrightarrow>
           wp (pick res) (\<lambda>r w''. case r of Inl x \<Rightarrow> Q (Inl (Error (getErrorMessage x fallback))) w''
                                          | Inr a \<Rightarrow> Q (Inr a) w'') e w'"
  shows "wp (api_call path i refused fallback pick) Q e w"
proof -
  have "wp (pick res) (\<lambda>r w''. case r of Inl x \<Rightarrow> wp (throw (Error (getErrorMessage x fallback))) Q e w''
                                          | Inr a \<Rightarrow> Q (Inr a) w'') e (w\<lparr>sent := sent w @ [backend_request e w path i]\<rparr>)"
    if "rsp_ok res" for res
    by (rule wp_mono [OF assms(2)]) (use that in \<open>simp_all add: wp_pure split: sum.splits\<close>)
  then show ?thesis
    unfolding api_call_def
    by (intro admin_wp_rules throw_api_error_wp) (auto intro: assms(1))
qed

text \<open>Every result of the batch lands in exactly one of the two lists, in the order of the answer.\<close>

definition is_created :: "jsv \<Rightarrow> bool" where
  "is_created item \<longleftrightarrow> get_opt item ''status'' = Str ''created'' \<and> truthy (get_opt item ''team'')"

lemma sort_results_partition:
  assumes "sort_results acc items = Inr r"
  shows "map fst (bt_created r) = map fst (bt_created acc) @ map (\<lambda>i. get_opt i ''team'') (filter is_created items)"
    and "map fst (bt_errors r) = map fst (bt_errors acc) @ map (\<lambda>i. get_opt i ''name'') (filter (\<lambda>i. \<not> is_created i) items)"
  using assms
  by (induction acc items rule: sort_results.induct)
     (auto simp: sort_result_def is_created_def split: sum.splits if_splits dest: get_Inr_get_opt)

lemma is_created_none: "length (filter is_created items) + length (filter (\<lambda>i. \<not> is_created i) items) = length items"
  by (rule sum_length_filter_compl)

text \<open>
  Bulk team creation loses nothing: an empty batch sends nothing and reports nothing; otherwise the action
  reports exactly the results the backend answered to its one request, the created teams in one list and every
  other item, under its name, in the other, both in the order of the answer.
\<close>

theorem bulkCreateTeams_partition:
  assumes "bulkCreateTeamsAction sp ts e w = (Inr r, w')"
  shows "(ts = [] \<and> w' = w \<and> bt_created r = [] \<and> bt_errors r = []) \<or>
         (ts \<noteq> [] \<and> (\<exists>q rsp v items. sent w' = sent w @ [q] \<and> env_fetch e (sent w) q = Inr rsp \<and> rsp_ok rsp \<and>
            json_value e rsp = Inr v \<and> iterate_over (js_coalesce (get_opt v ''results'') (Arr [])) = Inr items \<and>
            map fst (bt_created r) = map (\<lambda>i. get_opt i ''team'') (filter is_created items) \<and>
            map fst (bt_errors r) = map (\<lambda>i. get_opt i ''name'') (filter (\<lambda>i. \<not> is_created i) items) \<and>
            length (bt_created r) + length (bt_errors r) = length items))"
proof (cases "ts = []")
  case True
  then show ?thesis using assms by (auto simp: bulkCreateTeamsAction_def io_simps no_teams_def)
next
  case False
  then obtain q rsp v items where run: "w' = w\<lparr>sent := sent w @ [q]\<rparr>" "env_fetch e (sent w) q = Inr rsp" "rsp_ok rsp"
      "json_value e rsp = Inr v" "iterate_over (js_coalesce (get_opt v ''results'') (Arr [])) = Inr items"
      "sort_results no_teams items = Inr r"
    using assms
    by (auto simp: bulkCreateTeamsAction_def api_call_def throw_api_error_def parseApiError_def Let_def
        pick_list_def pick_field_def io_simps split: sum.splits if_splits dest!: get_Inr_get_opt)
  note part = sort_results_partition [OF run(6)]
  have "length (bt_created r) = length (filter is_created items)"
    using arg_cong [OF part(1), of length] by (simp add: no_teams_def)
  moreover have "length (bt_errors r) = length (filter (\<lambda>i. \<not> is_created i) items)"
    using arg_cong [OF part(2), of length] by (simp add: no_teams_def)
  ultimately show ?thesis using False run part is_created_none [of items] by (auto simp: no_teams_def)
qed

theorem bulkCreateTeams_partition_witness:
  "\<exists>r. bulkCreateTeamsAction zod_ref [] (answering 200 ''{}'') (with_cookie ''admin_session'' ''t'') =
         (Inr r, with_cookie ''admin_session'' ''t'') \<and> bt_created r = [] \<and> bt_errors r = []"
proof -
  obtain r where run: "bulkCreateTeamsAction zod_ref [] (answering 200 ''{}'') (with_cookie ''admin_session'' ''t'') =
      (Inr r, with_cookie ''admin_session'' ''t'')"
    by (simp add: bulkCreateTeamsAction_def io_simps)
  then show ?thesis using bulkCreateTeams_partition [OF run] by blast
qed

lemma getErrorMessage_readable: "js_trim fallback \<noteq> [] \<Longrightarrow> js_trim (getErrorMessage err fallback) \<noteq> []"
  by (cases "(err, fallback)" rule: getErrorMessage.cases) auto

lemma api_call_error:
  assumes "js_trim fallback \<noteq> []" "api_call path i refused fallback pick e w = (Inl x, w')"
  shows "\<exists>m. x = Error m \<and> js_trim m \<noteq> []"
  using assms(2) getErrorMessage_readable [OF assms(1)]
  by (auto simp: api_call_def run_catch run_throw split: prod.splits sum.splits)

text \<open>
  Whatever fails in the user and team commands that take no form (listing, deleting, removing a member, resetting
  a password, acting on a selection), what they throw is an \<open>Error\<close> with a readable, non-blank message, even
  when the backend or the network gave a blank one.
\<close>

theorem people_errors_readable:
  "(fst (listTeamsAction e w) = Inl x1 \<longrightarrow> (\<exists>m. x1 = Error m \<and> js_trim m \<noteq> [])) \<and>
   (fst (deleteTeamAction tid e w) = Inl x2 \<longrightarrow> (\<exists>m. x2 = Error m \<and> js_trim m \<noteq> [])) \<and>
   (fst (removeTeamMemberAction tid uid e w) = Inl x3 \<longrightarrow> (\<exists>m. x3 = Error m \<and> js_trim m \<noteq> [])) \<and>
   (fst (listUsersAction e w) = Inl x4 \<longrightarrow> (\<exists>m. x4 = Error m \<and> js_trim m \<noteq> [])) \<and>
   (fst (deleteUserAction uid e w) = Inl x5 \<longrightarrow> (\<exists>m. x5 = Error m \<and> js_trim m \<noteq> [])) \<and>
   (fst (resetPasswordAction uid e w) = Inl x6 \<longrightarrow> (\<exists>m. x6 = Error m \<and> js_trim m \<noteq> [])) \<and>
   (fst (bulkUserAction inp e w) = Inl x7 \<longrightarrow> (\<exists>m. x7 = Error m \<and> js_trim m \<noteq> []))"
proof -
  have readable: "js_trim ''Failed to fetch teams'' \<noteq> []" "js_trim ''Failed to delete team'' \<noteq> []"
    "js_trim ''Failed to remove team member'' \<noteq> []" "js_trim ''Failed to fetch users'' \<noteq> []"
    "js_trim ''Failed to delete user'' \<noteq> []" "js_trim ''Failed to reset password'' \<noteq> []"
    "js_trim ''Bulk user action failed'' \<noteq> []"
    by code_simp+
  show ?thesis
  proof (intro conjI)
    show "fst (listTeamsAction e w) = Inl x1 \<longrightarrow> (\<exists>m. x1 = Error m \<and> js_trim m \<noteq> [])"
      using api_call_error [OF readable(1)] by (metis listTeamsAction_def prod.collapse)
    show "fst (deleteTeamAction tid e w) = Inl x2 \<longrightarrow> (\<exists>m. x2 = Error m \<and> js_trim m \<noteq> [])"
      using api_call_error [OF readable(2)] by (metis deleteTeamAction_def prod.collapse)
    show "fst (removeTeamMemberAction tid uid e w) = Inl x3 \<longrightarrow> (\<exists>m. x3 = Error m \<and> js_trim m \<noteq> [])"
      using api_call_error [OF readable(3)] by (metis removeTeamMemberAction_def prod.collapse)
    show "fst (listUsersAction e w) = Inl x4 \<longrightarrow> (\<exists>m. x4 = Error m \<and> js_trim m \<noteq> [])"
      using api_call_error [OF readable(4)] by (metis listUsersAction_def prod.collapse)
    show "fst (deleteUserAction uid e w) = Inl x5 \<longrightarrow> (\<exists>m. x5 = Error m \<and> js_trim m \<noteq> [])"
      using api_call_error [OF readable(5)] by (metis deleteUserAction_def prod.collapse)
    show "fst (resetPasswordAction uid e w) = Inl x6 \<longrightarrow> (\<exists>m. x6 = Error m \<and> js_trim m \<noteq> [])"
      using api_call_error [OF readable(6)] by (metis resetPasswordAction_def prod.collapse)
    show "fst (bulkUserAction inp e w) = Inl x7 \<longrightarrow> (\<exists>m. x7 = Error m \<and> js_trim m \<noteq> [])"
      using api_call_error [OF readable(7)] by (metis bulkUserAction_def prod.collapse)
  qed
qed

theorem people_errors_readable_witness:
  "\<exists>m. fst (deleteTeamAction ''7'' offline (with_cookie ''admin_session'' ''t'')) = Inl (Error m) \<and> js_trim m \<noteq> []"
proof -
  obtain x where "fst (deleteTeamAction ''7'' offline (with_cookie ''admin_session'' ''t'')) = Inl x"
    by (simp add: deleteTeamAction_def api_call_def io_simps offline_def)
  then show ?thesis using people_errors_readable by blast
qed

end
