(* ===== verification/TestcaseUtils.thy ===== *)
theory TestcaseUtils
  imports AdminValidation
begin

text \<open>
  \<open>admin-frontend/src/lib/testcase-utils.ts\<close>: reading test cases from pasted text, distributing points,
  pairing uploaded files, previews. \<open>localeCompare\<close> is the parameter \<open>collate\<close>; a \<open>File\<close> is its name and its
  bytes. The regular expressions are written out as scanners.
\<close>

section \<open>Reading pasted test cases\<close>

record TestCaseInput =
  tc_ordinal :: int
  tc_input :: string
  tc_expected :: string
  tc_points :: jsnum

record Sample =
  sm_input :: string
  sm_output :: string

definition findMatchingSample :: "TestCaseInput \<Rightarrow> Sample list \<Rightarrow> Sample option" where
  "findMatchingSample testCase samples =
     (let testInput = js_trim (tc_input testCase); testExpected = js_trim (tc_expected testCase)
      in if testInput = [] \<or> testExpected = [] then None
         else find (\<lambda>s. js_trim (sm_input s) = testInput \<and> js_trim (sm_output s) = testExpected) samples)"

text \<open>One item of a JSON array.\<close>

definition json_test_case :: "int \<Rightarrow> jsv \<Rightarrow> exn + TestCaseInput" where
  "json_test_case ordinal item =
     (case get item ''input'' of
        Inl x \<Rightarrow> Inl x
      | Inr v \<Rightarrow> Inr
          \<lparr>tc_ordinal = ordinal,
           tc_input = js_String (js_coalesce v (js_coalesce (get_opt item ''in'') (Str []))),
           tc_expected = js_String (js_coalesce (get_opt item ''expected'')
              (js_coalesce (get_opt item ''output'') (js_coalesce (get_opt item ''out'') (Str [])))),
           tc_points = num_or (js_Number (get_opt item ''points'')) (Fin 0)\<rparr>)"

fun json_test_cases :: "int \<Rightarrow> jsv list \<Rightarrow> exn + TestCaseInput list" where
  "json_test_cases n [] = Inr []"
| "json_test_cases n (item # items) =
     (case json_test_case n item of
        Inl x \<Rightarrow> Inl x
      | Inr t \<Rightarrow> (case json_test_cases (n + 1) items of Inl x \<Rightarrow> Inl x | Inr ts \<Rightarrow> Inr (t # ts)))"

text \<open>The separator \<open>===\s*(INPUT|OUTPUT|EXPECTED)\s*===\<close>, without case: the rest behind it.\<close>

definition marker_words :: "string list" where
  "marker_words = [''input'', ''output'', ''expected'']"

definition marker :: "string \<Rightarrow> string option" where
  "marker s =
     (if take 3 s \<noteq> ''==='' then None
      else let r = dropWhile js_ws (drop 3 s)
           in (case find (\<lambda>k. js_lower (take (length k) r) = k) marker_words of
                 None \<Rightarrow> None
               | Some k \<Rightarrow>
                   let r' = dropWhile js_ws (drop (length k) r)
                   in if take 3 r' = ''==='' then Some (drop 3 r') else None))"

lemma length_drop3: "take 3 s = ''==='' \<Longrightarrow> length (drop 3 s) < length s"
  by (cases s) auto

lemma marker_shorter: "marker s = Some r \<Longrightarrow> length r < length s"
proof -
  assume m: "marker s = Some r"
  then have s3: "take 3 s = ''===''" by (auto simp: marker_def split: if_splits)
  from m obtain k :: string where r: "r = drop 3 (dropWhile js_ws (drop (length k) (dropWhile js_ws (drop 3 s))))"
    by (simp add: marker_def Let_def split: if_splits option.splits) blast
  have "length (drop n (dropWhile js_ws t)) \<le> length t" for n t
    using length_dropWhile_le [of js_ws t] by simp
  then have "length r \<le> length (drop 3 s)" unfolding r by (meson le_trans)
  then show ?thesis using length_drop3 [OF s3] by simp
qed

text \<open>\<open>split(/(?:^|\n)...marker.../i)\<close>: \<open>start\<close> says that nothing has been read yet.\<close>

definition marker_here :: "bool \<Rightarrow> string \<Rightarrow> string option" where
  "marker_here start s =
     (case (if start then marker s else None) of
        Some r \<Rightarrow> Some r
      | None \<Rightarrow> (case s of [] \<Rightarrow> None | c # cs \<Rightarrow> if c = CHR 0x0A then marker cs else None))"

lemma marker_here_shorter: "marker_here start s = Some r \<Longrightarrow> length r < length s"
  by (auto simp: marker_here_def split: option.splits if_splits list.splits dest!: marker_shorter)

function split_segments :: "string \<Rightarrow> bool \<Rightarrow> string \<Rightarrow> string list" where
  "split_segments cur start s =
     (case marker_here start s of
        Some r \<Rightarrow> cur # split_segments [] False r
      | None \<Rightarrow> (case s of [] \<Rightarrow> [cur] | c # cs \<Rightarrow> split_segments (cur @ [c]) False cs))"
  by pat_completeness auto

termination split_segments
  by (relation "measure (\<lambda>(cur, start, s). length s)") (auto dest: marker_here_shorter)

declare split_segments.simps [simp del]

fun segment_pairs :: "int \<Rightarrow> string list \<Rightarrow> TestCaseInput list" where
  "segment_pairs n (a # b # rest) =
     (if a \<noteq> [] \<and> b \<noteq> []
      then \<lparr>tc_ordinal = n + 1, tc_input = a, tc_expected = b, tc_points = Fin 0\<rparr> # segment_pairs (n + 1) rest
      else segment_pairs n rest)"
| "segment_pairs n rest = []"

definition delimiter_cases :: "string \<Rightarrow> int \<Rightarrow> TestCaseInput list" where
  "delimiter_cases trimmed existingCount =
     (let cleaned = filter (\<lambda>s. s \<noteq> []) (map js_trim (split_segments [] True trimmed))
      in if length cleaned \<ge> 2 then segment_pairs existingCount cleaned else [])"

definition parse_failure :: string where
  "parse_failure = ''Could not parse test cases. Please provide a valid JSON array (e.g. [{'' @
     [CHR 0x22] @ ''input'' @ [CHR 0x22] @ '':'' @ [CHR 0x22] @ ''5'' @ [CHR 0x22] @ '','' @
     [CHR 0x22] @ ''expected'' @ [CHR 0x22] @ '':'' @ [CHR 0x22] @ ''15'' @ [CHR 0x22] @
     ''}]) or use delimiter blocks.''"

definition parseBulkTestCases :: "string \<Rightarrow> int \<Rightarrow> TestCaseInput list \<times> string option" where
  "parseBulkTestCases rawText existingCount =
     (let trimmed = js_trim rawText;
          blocks = delimiter_cases trimmed existingCount;
          from_blocks = (if blocks \<noteq> [] then (blocks, None) else ([], Some parse_failure))
      in if trimmed = [] then ([], None)
         else (case json_parse trimmed of
                 Some (Arr items) \<Rightarrow>
                   (case json_test_cases (existingCount + 1) items of
                      Inr ts \<Rightarrow> (ts, None) | Inl _ \<Rightarrow> from_blocks)
               | Some _ \<Rightarrow> ([], Some parse_failure)
               | None \<Rightarrow> from_blocks))"

section \<open>Points\<close>

definition generateEvenPoints :: "int \<Rightarrow> int \<Rightarrow> int list" where
  "generateEvenPoints cnt maxScore =
     (if cnt \<le> 0 \<or> maxScore \<le> 0 then []
      else let base = maxScore div cnt; remainder = maxScore mod cnt
           in map (\<lambda>i. base + (if i < remainder then 1 else 0)) [0..cnt - 1])"

record scoring_summary =
  ss_customPointsSum :: jsnum
  ss_hasCustomPoints :: bool
  ss_autoPointPerTest :: int
  ss_hasMinimumCases :: bool

definition MIN_EVALUATION_TEST_CASES :: nat where
  "MIN_EVALUATION_TEST_CASES = 5"

fun num_add :: "jsnum \<Rightarrow> jsnum \<Rightarrow> jsnum" where
  "num_add (Fin a) (Fin b) = Fin (a + b)"
| "num_add NaN b = NaN"
| "num_add a NaN = NaN"
| "num_add PosInf NegInf = NaN"
| "num_add NegInf PosInf = NaN"
| "num_add PosInf b = PosInf"
| "num_add NegInf b = NegInf"
| "num_add a b = b"

text \<open>JavaScript's \<open>%\<close> takes the sign of the dividend.\<close>

definition js_rem :: "int \<Rightarrow> int \<Rightarrow> int" where
  "js_rem a b = sgn a * (\<bar>a\<bar> mod \<bar>b\<bar>)"

definition expected_share :: "nat \<Rightarrow> int \<Rightarrow> nat \<Rightarrow> int" where
  "expected_share n maxScore i = maxScore div int n + (if int i < js_rem maxScore (int n) then 1 else 0)"

definition is_even_distribution :: "jsv list \<Rightarrow> int \<Rightarrow> bool" where
  "is_even_distribution points maxScore \<longleftrightarrow>
     points = [] \<or> list_all (\<lambda>p. js_Number p = Fin 0) points \<or>
     (foldl (\<lambda>sum p. num_add sum (num_or (js_Number p) (Fin 0))) (Fin 0) points = Fin (of_int maxScore) \<and>
      list_all (\<lambda>(i, p). js_Number p = Fin (of_int (expected_share (length points) maxScore i)))
        (zip [0..<length points] points))"

definition calculateScoringSummary :: "jsv list \<Rightarrow> int \<Rightarrow> scoring_summary" where
  "calculateScoringSummary points maxScore =
     \<lparr>ss_customPointsSum = foldl (\<lambda>sum p. num_add sum (num_or (js_Number p) (Fin 0))) (Fin 0) points,
      ss_hasCustomPoints = (\<not> is_even_distribution points maxScore),
      ss_autoPointPerTest = (if points \<noteq> [] then maxScore div int (length points) else 0),
      ss_hasMinimumCases = (length points \<ge> MIN_EVALUATION_TEST_CASES)\<rparr>"

section \<open>Sizes and previews\<close>

text \<open>\<open>(bytes / unit).toFixed(1)\<close> for a power of two \<open>unit\<close>: the quotient is exact and a tie rounds up.\<close>

definition fixed1 :: "nat \<Rightarrow> nat \<Rightarrow> string" where
  "fixed1 bytes unit =
     (let tenths = (20 * bytes + unit) div (2 * unit)
      in show_nat (tenths div 10) @ ''.'' @ show_nat (tenths mod 10))"

definition formatByteSize :: "nat \<Rightarrow> string" where
  "formatByteSize bytes =
     (if bytes \<ge> 1024 * 1024 then fixed1 bytes (1024 * 1024) @ '' MB''
      else if bytes \<ge> 1024 then fixed1 bytes 1024 @ '' KB''
      else show_nat bytes @ '' B'')"

text \<open>The UTF-8 size of a text of Latin-1 characters.\<close>

definition utf8_size :: "string \<Rightarrow> nat" where
  "utf8_size s = sum_list (map (\<lambda>c. if (of_char c :: nat) < 128 then 1 else 2) s)"

record text_stats =
  ts_lines :: nat
  ts_bytes :: nat
  ts_formattedSize :: string

definition getTextStats :: "string \<Rightarrow> text_stats" where
  "getTextStats str =
     (let bytes = utf8_size str
      in \<lparr>ts_lines = (if str \<noteq> [] then length (split_char CHR 0x0A str) else 0),
          ts_bytes = bytes,
          ts_formattedSize =
            (if bytes > 1024 * 1024 then fixed1 bytes (1024 * 1024) @ '' MB''
             else if bytes > 1024 then fixed1 bytes 1024 @ '' KB''
             else show_nat bytes @ '' B'')\<rparr>)"

definition getTextSnippet :: "string \<Rightarrow> nat \<Rightarrow> string" where
  "getTextSnippet text maxLength =
     (if text = [] \<or> js_trim text = [] then ''(empty)''
      else let singleLine = js_trim (collapse_ws text)
           in if length singleLine \<le> maxLength then singleLine else take maxLength singleLine @ ''...'')"

record HeadTailPreview =
  ht_isTruncated :: bool
  ht_totalLines :: nat
  ht_totalBytes :: nat
  ht_headLinesCount :: nat
  ht_tailLinesCount :: nat
  ht_omittedLines :: nat
  ht_headText :: string
  ht_tailText :: string
  ht_fullText :: string

definition formatHeadTailPreview :: "string \<Rightarrow> nat \<Rightarrow> nat \<Rightarrow> HeadTailPreview" where
  "formatHeadTailPreview str headLines tailLines =
     (let lines = split_char CHR 0x0A str; totalLines = length lines; totalBytes = utf8_size str
      in if totalLines \<le> headLines + tailLines \<and> totalBytes \<le> 4096 then
           \<lparr>ht_isTruncated = False, ht_totalLines = totalLines, ht_totalBytes = totalBytes,
            ht_headLinesCount = totalLines, ht_tailLinesCount = 0, ht_omittedLines = 0,
            ht_headText = str, ht_tailText = [], ht_fullText = str\<rparr>
         else
           let headSlice = take headLines lines;
               tailSlice = drop (max headLines (totalLines - tailLines)) lines
           in \<lparr>ht_isTruncated = True, ht_totalLines = totalLines, ht_totalBytes = totalBytes,
               ht_headLinesCount = length headSlice, ht_tailLinesCount = length tailSlice,
               ht_omittedLines = totalLines - length headSlice - length tailSlice,
               ht_headText = join_with [CHR 0x0A] headSlice, ht_tailText = join_with [CHR 0x0A] tailSlice,
               ht_fullText = str\<rparr>)"

text \<open>A file is read through the decoder \<open>decode\<close> of the platform.\<close>

record head_tail =
  hd_headText :: string
  hd_tailText :: string
  hd_isTruncated :: bool
  hd_totalSize :: nat

definition readFileHeadTail :: "(string \<Rightarrow> string) \<Rightarrow> string \<Rightarrow> nat \<Rightarrow> nat \<Rightarrow> head_tail" where
  "readFileHeadTail decode bytes headBytes tailBytes =
     (let size = length bytes
      in if size \<le> headBytes + tailBytes
         then \<lparr>hd_headText = decode bytes, hd_tailText = [], hd_isTruncated = False, hd_totalSize = size\<rparr>
         else \<lparr>hd_headText = decode (take headBytes bytes),
               hd_tailText = decode (drop (size - tailBytes) bytes),
               hd_isTruncated = True, hd_totalSize = size\<rparr>)"

section \<open>Pairing uploaded files\<close>

record upload_file =
  f_name :: string
  f_bytes :: string

definition f_size :: "upload_file \<Rightarrow> nat" where
  "f_size f = length (f_bytes f)"

definition name_sep :: "char \<Rightarrow> bool" where
  "name_sep c \<longleftrightarrow> c = CHR ''.'' \<or> c = CHR ''_'' \<or> c = CHR ''-''"

definition file_keywords :: "string list" where
  "file_keywords = [''input'', ''output'', ''expected'', ''answer'', ''in'', ''out'', ''ans'']"

text \<open>A keyword that ends at a separator or at the end of the name; the separator is consumed.\<close>

definition keyword_at :: "string \<Rightarrow> string option" where
  "keyword_at s =
     (case find (\<lambda>k. starts_with s k \<and> (case drop (length k) s of [] \<Rightarrow> True | c # _ \<Rightarrow> name_sep c)) file_keywords of
        None \<Rightarrow> None | Some k \<Rightarrow> Some (drop (Suc (length k)) s))"

lemma keyword_at_shorter: "keyword_at s = Some r \<Longrightarrow> length r < length s"
  by (auto simp: keyword_at_def file_keywords_def starts_with_iff split: option.splits if_splits)

function replace_keywords :: "bool \<Rightarrow> string \<Rightarrow> string" where
  "replace_keywords start s =
     (case (if start then keyword_at s else None) of
        Some r \<Rightarrow> CHR ''_'' # replace_keywords False r
      | None \<Rightarrow> (case s of
            [] \<Rightarrow> []
          | c # cs \<Rightarrow> (case (if name_sep c then keyword_at cs else None) of
                Some r \<Rightarrow> CHR ''_'' # replace_keywords False r
              | None \<Rightarrow> c # replace_keywords False cs)))"
  by pat_completeness auto

termination replace_keywords
  by (relation "measure (\<lambda>(start, s). length s)")
     (auto split: if_splits dest: keyword_at_shorter intro: less_SucI)

declare replace_keywords.simps [simp del]

fun collapse_underscores :: "string \<Rightarrow> string" where
  "collapse_underscores (a # b # cs) =
     (if a = CHR ''_'' \<and> b = CHR ''_'' then collapse_underscores (b # cs) else a # collapse_underscores (b # cs))"
| "collapse_underscores cs = cs"

definition trim_underscores :: "string \<Rightarrow> string" where
  "trim_underscores s =
     rev (dropWhile (\<lambda>c. c = CHR ''_'') (rev (dropWhile (\<lambda>c. c = CHR ''_'') s)))"

definition strip_extension :: "string \<Rightarrow> string" where
  "strip_extension s =
     (case find (\<lambda>e. ends_with s e) [''.txt'', ''.in'', ''.out'', ''.ans'', ''.dat''] of
        None \<Rightarrow> s | Some e \<Rightarrow> take (length s - length e) s)"

record file_key =
  fk_base :: string
  fk_isInput :: bool
  fk_isOutput :: bool
  fk_num :: int

definition normalizeKey :: "string \<Rightarrow> file_key" where
  "normalizeKey filename =
     (let lower = js_lower filename;
          digits = takeWhile is_digit (dropWhile (\<lambda>c. \<not> is_digit c) lower);
          base = trim_underscores (collapse_underscores (replace_keywords True (strip_extension lower)))
      in \<lparr>fk_base = (if base = [] \<and> digits \<noteq> [] then ''case_'' @ digits
                    else if base = [] then filename else base),
          fk_isInput = (str_includes lower ''in'' \<and> \<not> str_includes lower ''out'' \<and> \<not> str_includes lower ''ans''),
          fk_isOutput = (str_includes lower ''out'' \<or> str_includes lower ''ans'' \<or> str_includes lower ''expected''),
          fk_num = (if digits \<noteq> [] then int (read_nat digits) else 999999)\<rparr>)"

record file_group =
  fg_key :: string
  fg_input :: "upload_file option"
  fg_expected :: "upload_file option"
  fg_sortKey :: int

definition place_file :: "bool \<Rightarrow> bool \<Rightarrow> upload_file \<Rightarrow> file_group \<Rightarrow> file_group" where
  "place_file isInput isOutput f g =
     (if isInput \<and> fg_input g = None then g\<lparr>fg_input := Some f\<rparr>
      else if isOutput \<and> fg_expected g = None then g\<lparr>fg_expected := Some f\<rparr>
      else if fg_input g = None then g\<lparr>fg_input := Some f\<rparr>
      else if fg_expected g = None then g\<lparr>fg_expected := Some f\<rparr>
      else g)"

definition add_file :: "(string, file_group) jsmap \<Rightarrow> upload_file \<Rightarrow> (string, file_group) jsmap" where
  "add_file groups f =
     (let k = normalizeKey (f_name f);
          entry = (case map_get groups (fk_base k) of
                     Some g \<Rightarrow> g
                   | None \<Rightarrow> \<lparr>fg_key = fk_base k, fg_input = None, fg_expected = None, fg_sortKey = fk_num k\<rparr>)
      in map_set (fk_base k) (place_file (fk_isInput k) (fk_isOutput k) f entry) groups)"

record PairedTestFiles =
  pf_baseName :: string
  pf_inputFile :: upload_file
  pf_expectedFile :: upload_file
  pf_totalSize :: nat

definition report_group :: "PairedTestFiles list \<times> string list \<Rightarrow> file_group \<Rightarrow> PairedTestFiles list \<times> string list" where
  "report_group acc g =
     (case (fg_input g, fg_expected g) of
        (Some a, Some b) \<Rightarrow>
          (fst acc @ [\<lparr>pf_baseName = fg_key g, pf_inputFile = a, pf_expectedFile = b, pf_totalSize = f_size a + f_size b\<rparr>],
           snd acc)
      | (ia, ob) \<Rightarrow>
          (fst acc,
           snd acc @ (case ia of Some a \<Rightarrow> [f_name a] | None \<Rightarrow> []) @ (case ob of Some b \<Rightarrow> [f_name b] | None \<Rightarrow> [])))"

definition sorted_groups :: "(string \<Rightarrow> string \<Rightarrow> int) \<Rightarrow> upload_file list \<Rightarrow> file_group list" where
  "sorted_groups collate files =
     js_sort (then_by (by_key fg_sortKey) (\<lambda>a b. collate (fg_key a) (fg_key b)))
       (map snd (foldl add_file [] files))"

definition matchTestFilePairs :: "(string \<Rightarrow> string \<Rightarrow> int) \<Rightarrow> upload_file list \<Rightarrow> PairedTestFiles list \<times> string list" where
  "matchTestFilePairs collate files =
     (if files = [] then ([], []) else foldl report_group ([], []) (sorted_groups collate files))"

section \<open>Points: the distribution is fair and complete\<close>

lemma length_even [simp]: "0 < n \<Longrightarrow> 0 < m \<Longrightarrow> length (generateEvenPoints n m) = nat n"
  by (simp add: generateEvenPoints_def Let_def)

lemma sum_indicator:
  fixes r n :: int
  assumes "0 \<le> r" "r \<le> n"
  shows "(\<Sum>i\<leftarrow>[0..n - 1]. if i < r then 1 else 0) = r"
proof -
  have "[0..n - 1] = [0..r - 1] @ [r..n - 1]"
    using upto_split1 [of 0 r "n - 1"] assms by (cases "r = n") (auto simp: upto_empty)
  moreover have "(\<Sum>i\<leftarrow>[0..r - 1]. if i < r then 1 else (0::int)) = (\<Sum>i\<leftarrow>[0..r - 1]. 1)"
    by (rule arg_cong [of _ _ sum_list], rule map_cong) auto
  moreover have "(\<Sum>i\<leftarrow>[r..n - 1]. if i < r then 1 else (0::int)) = (\<Sum>i\<leftarrow>[r..n - 1]. 0)"
    by (rule arg_cong [of _ _ sum_list], rule map_cong) auto
  ultimately show ?thesis using assms by (simp add: sum_list_triv)
qed

lemma sum_even: "0 < n \<Longrightarrow> 0 < m \<Longrightarrow> sum_list (generateEvenPoints n m) = m"
proof -
  assume pos: "0 < n" "0 < m"
  have "sum_list (generateEvenPoints n m) =
      (\<Sum>i\<leftarrow>[0..n - 1]. m div n) + (\<Sum>i\<leftarrow>[0..n - 1]. if i < m mod n then 1 else 0)"
    using pos by (simp add: generateEvenPoints_def Let_def sum_list_addf)
  moreover have "(\<Sum>i\<leftarrow>[0..n - 1]. if i < m mod n then 1 else 0) = m mod n"
    by (rule sum_indicator) (use pos pos_mod_bound [of n m] in \<open>auto intro: less_imp_le\<close>)
  moreover have "(\<Sum>i\<leftarrow>[0..n - 1]. m div n) = n * (m div n)"
    using pos by (simp add: sum_list_triv)
  ultimately show ?thesis by simp
qed

text \<open>
  The even distribution gives every test a share, the shares add up to the maximum score exactly, no two
  shares differ by more than one point, and earlier tests never get less than later ones.
\<close>

theorem generateEvenPoints_fair:
  assumes "0 < n" "0 < m"
  shows "length (generateEvenPoints n m) = nat n \<and> sum_list (generateEvenPoints n m) = m \<and>
         (\<forall>p\<in>set (generateEvenPoints n m). m div n \<le> p \<and> p \<le> m div n + 1) \<and>
         sorted (rev (generateEvenPoints n m))"
proof -
  have "sorted_wrt (\<lambda>i j. i < j) [0..n - 1]" by (rule sorted_wrt_upto)
  then have "sorted_wrt (\<lambda>i j. j < m mod n \<longrightarrow> i < m mod n) [0..n - 1]"
    by (rule sorted_wrt_mono_rel [rotated]) simp
  then have "sorted_wrt (\<ge>) (generateEvenPoints n m)"
    using assms by (simp add: generateEvenPoints_def Let_def sorted_wrt_map)
  then show ?thesis using assms sum_even by (auto simp: generateEvenPoints_def Let_def sorted_wrt_rev)
qed

theorem generateEvenPoints_fair_witness:
  "sum_list (generateEvenPoints 3 100) = 100 \<and> sorted (rev (generateEvenPoints 3 100))"
  using generateEvenPoints_fair [of 3 100] by simp

lemma foldl_points:
  "foldl (\<lambda>sum p. num_add sum (num_or (js_Number p) (Fin 0))) (Fin a) (map IntV ps) = Fin (a + of_int (sum_list ps))"
proof (induction ps arbitrary: a)
  case (Cons p ps)
  have "num_or (Fin (of_int p)) (Fin 0) = Fin (of_int p)" by (simp add: num_or_def)
  then show ?case using Cons [of "a + of_int p"] by (simp add: add.assoc)
qed simp

text \<open>
  The scoring summary recognises the generated distribution: points that \<open>generateEvenPoints\<close> produced for as
  many tests are never reported as custom, and their sum is the maximum score; integer points that are
  reported as not custom are either all zero or exactly the even distribution.
\<close>

theorem scoring_summary_even:
  assumes "ps \<noteq> []" "0 < m"
  shows "(\<not> ss_hasCustomPoints (calculateScoringSummary (map IntV (generateEvenPoints (int (length ps)) m)) m) \<and>
          ss_customPointsSum (calculateScoringSummary (map IntV (generateEvenPoints (int (length ps)) m)) m) = Fin (of_int m)) \<and>
         (\<not> ss_hasCustomPoints (calculateScoringSummary (map IntV ps) m) \<longrightarrow>
            (\<forall>p\<in>set ps. p = 0) \<or> ps = generateEvenPoints (int (length ps)) m)"
proof
  let ?n = "int (length ps)" and ?g = "generateEvenPoints (int (length ps)) m"
  have n: "0 < ?n" using assms(1) by simp
  have len: "length ?g = length ps" using n assms(2) by simp
  have rem: "js_rem m ?n = m mod ?n" using assms(2) by (simp add: js_rem_def)
  have nth: "?g ! i = expected_share (length ps) m i" if "i < length ps" for i
    using that n assms(2) unfolding generateEvenPoints_def Let_def expected_share_def rem by simp
  have sum: "foldl (\<lambda>sum p. num_add sum (num_or (js_Number p) (Fin 0))) (Fin 0) (map IntV ?g) = Fin (of_int m)"
    using foldl_points [of 0 ?g] sum_even [OF n assms(2)] by simp
  have "list_all (\<lambda>(i, p). js_Number p = Fin (of_int (expected_share (length (map IntV ?g)) m i)))
      (zip [0..<length (map IntV ?g)] (map IntV ?g))"
    by (auto simp: list_all_length nth len)
  then show "\<not> ss_hasCustomPoints (calculateScoringSummary (map IntV ?g) m) \<and>
      ss_customPointsSum (calculateScoringSummary (map IntV ?g) m) = Fin (of_int m)"
    using sum by (simp add: calculateScoringSummary_def is_even_distribution_def)
  show "\<not> ss_hasCustomPoints (calculateScoringSummary (map IntV ps) m) \<longrightarrow>
      (\<forall>p\<in>set ps. p = 0) \<or> ps = ?g"
  proof
    assume "\<not> ss_hasCustomPoints (calculateScoringSummary (map IntV ps) m)"
    then have "list_all (\<lambda>p. js_Number p = Fin 0) (map IntV ps) \<or>
        list_all (\<lambda>(i, p). js_Number p = Fin (of_int (expected_share (length ps) m i))) (zip [0..<length ps] (map IntV ps))"
      using assms(1) by (auto simp: calculateScoringSummary_def is_even_distribution_def)
    then show "(\<forall>p\<in>set ps. p = 0) \<or> ps = ?g"
    proof
      assume "list_all (\<lambda>p. js_Number p = Fin 0) (map IntV ps)"
      then show ?thesis by (auto simp: list_all_iff)
    next
      assume "list_all (\<lambda>(i, p). js_Number p = Fin (of_int (expected_share (length ps) m i))) (zip [0..<length ps] (map IntV ps))"
      then have "ps ! i = expected_share (length ps) m i" if "i < length ps" for i
        using that by (auto simp: list_all_length)
      then have "ps = ?g" by (intro nth_equalityI) (simp_all add: len nth)
      then show ?thesis ..
    qed
  qed
qed

theorem scoring_summary_even_witness:
  "\<not> ss_hasCustomPoints (calculateScoringSummary (map IntV (generateEvenPoints 3 100)) 100)"
  using scoring_summary_even [of "[0, 0, 0]" 100] by simp

section \<open>Pasted test cases\<close>

text \<open>A test case as the editor's own JSON export writes it.\<close>

definition case_json :: "string \<times> string \<times> int \<Rightarrow> jsv" where
  "case_json c = Obj [(''input'', Str (fst c)), (''expected'', Str (fst (snd c))), (''points'', IntV (snd (snd c)))]"

definition numbered :: "int \<Rightarrow> (string \<times> string \<times> int) list \<Rightarrow> TestCaseInput list" where
  "numbered n cs = map (\<lambda>(i, a, b, p). \<lparr>tc_ordinal = n + 1 + int i, tc_input = a, tc_expected = b, tc_points = Fin (of_int p)\<rparr>)
     (zip [0..<length cs] cs)"

lemma num_or_int: "num_or (Fin (of_int p)) (Fin 0) = Fin (of_int p)"
  by (simp add: num_or_def)

lemma json_test_cases_export:
  "json_test_cases (n + 1) (map case_json cs) = Inr (numbered n cs)"
proof (induction cs arbitrary: n)
  case Nil
  then show ?case by (simp add: numbered_def)
next
  case (Cons c cs)
  obtain a b p where c: "c = (a, b, p)" by (cases c)
  have "[0..<length (c # cs)] = 0 # map Suc [0..<length cs]"
    by (metis upt_conv_Cons map_Suc_upt length_Cons zero_less_Suc)
  moreover have "zip (map Suc [0..<length cs]) cs = map (\<lambda>(i, d). (Suc i, d)) (zip [0..<length cs] cs)"
    by (simp add: zip_map1)
  ultimately have "numbered n (c # cs) =
      \<lparr>tc_ordinal = n + 1, tc_input = a, tc_expected = b, tc_points = Fin (of_int p)\<rparr> # numbered (n + 1) cs"
    by (simp add: numbered_def c algebra_simps split_def)
  then show ?case
    using Cons [of "n + 1"] by (simp add: c case_json_def json_test_case_def js_simps num_or_int)
qed

lemma trim_array_text: "js_trim (stringify (Arr xs)) = stringify (Arr xs)"
  by (rule js_trim_id) (simp_all add: js_ws_def)

text \<open>
  Exported test cases read back: pasting the JSON array of any list of cases (input, expected output, integer
  points) yields exactly those cases, without an error, numbered consecutively after the existing ones.
\<close>

theorem parse_bulk_json_round_trip:
  "parseBulkTestCases (stringify (Arr (map case_json cs))) existing = (numbered existing cs, None)"
proof -
  have "json_ok (Arr (map case_json cs))" by (auto simp: list_all_iff case_json_def)
  then have parse: "json_parse (stringify (Arr (map case_json cs))) = Some (Arr (map case_json cs))"
    by (rule json_round_trip)
  have "stringify (Arr (map case_json cs)) \<noteq> []" by simp
  then show ?thesis
    unfolding parseBulkTestCases_def Let_def trim_array_text parse
    by (simp add: json_test_cases_export [of existing cs])
qed

section \<open>Previews\<close>

lemma three_parts:
  assumes "h \<le> m"
  shows "take h xs @ drop h (take m xs) @ drop m xs = xs"
proof -
  have "take h xs = take h (take m xs)" using assms by (simp add: min_def)
  then have whole: "take h xs @ drop h (take m xs) = take m xs" by (simp only: append_take_drop_id)
  show ?thesis unfolding append.assoc [symmetric] whole by (rule append_take_drop_id)
qed

lemma middle_length:
  assumes "h \<le> m"
  shows "length (drop h (take m xs)) = length xs - length (take h xs) - length (drop m xs)"
  using assms by simp

text \<open>
  The head and tail preview accounts for every line: the lines shown at the head, the lines counted as omitted
  and the lines shown at the tail are, in this order, the lines of the text; nothing is shown twice, and a
  text that is not truncated is shown whole.
\<close>

theorem preview_accounts_for_lines:
  "ht_headLinesCount (formatHeadTailPreview str h t) + ht_omittedLines (formatHeadTailPreview str h t)
     + ht_tailLinesCount (formatHeadTailPreview str h t) = ht_totalLines (formatHeadTailPreview str h t) \<and>
   (if ht_isTruncated (formatHeadTailPreview str h t)
    then \<exists>hd_lines mid tl_lines. split_char CHR 0x0A str = hd_lines @ mid @ tl_lines \<and>
           length mid = ht_omittedLines (formatHeadTailPreview str h t) \<and>
           ht_headText (formatHeadTailPreview str h t) = join_with [CHR 0x0A] hd_lines \<and>
           ht_tailText (formatHeadTailPreview str h t) = join_with [CHR 0x0A] tl_lines \<and>
           length hd_lines \<le> h \<and> length tl_lines \<le> t
    else ht_headText (formatHeadTailPreview str h t) = str)"
proof (cases "length (split_char CHR 0x0A str) \<le> h + t \<and> utf8_size str \<le> 4096")
  case True
  then show ?thesis by (simp add: formatHeadTailPreview_def Let_def)
next
  case False
  let ?l = "split_char CHR 0x0A str"
  let ?m = "max h (length ?l - t)"
  have parts: "?l = take h ?l @ drop h (take ?m ?l) @ drop ?m ?l"
    by (rule three_parts [symmetric]) simp
  have lens: "length (drop h (take ?m ?l)) = length ?l - length (take h ?l) - length (drop ?m ?l)"
    by (rule middle_length) simp
  let ?r = "formatHeadTailPreview str h t"
  have r: "ht_isTruncated ?r" "ht_totalLines ?r = length ?l" "ht_headLinesCount ?r = length (take h ?l)"
    "ht_tailLinesCount ?r = length (drop ?m ?l)" "ht_omittedLines ?r = length ?l - length (take h ?l) - length (drop ?m ?l)"
    "ht_headText ?r = join_with [CHR 0x0A] (take h ?l)" "ht_tailText ?r = join_with [CHR 0x0A] (drop ?m ?l)"
    unfolding formatHeadTailPreview_def Let_def if_not_P [OF False] by (simp_all only: HeadTailPreview.simps)
  have total: "length (take h ?l) + (length (drop h (take ?m ?l)) + length (drop ?m ?l)) = length ?l"
    using arg_cong [OF parts, of length] by (simp only: length_append)
  have "length (take h ?l) \<le> h" "length (drop ?m ?l) \<le> t" by (simp_all del: length_split_char)
  then show ?thesis
    using parts total unfolding if_P [OF r(1)] r(2-) lens [symmetric] by (simp only: add.assoc) blast
qed

section \<open>Pairing keeps count\<close>

definition base_of :: "upload_file \<Rightarrow> string" where
  "base_of f = fk_base (normalizeKey (f_name f))"

definition fill :: "file_group \<Rightarrow> nat" where
  "fill g = (if fg_input g = None then 0 else 1) + (if fg_expected g = None then 0 else 1)"

definition group_ok :: "upload_file list \<Rightarrow> string \<Rightarrow> file_group \<Rightarrow> bool" where
  "group_ok files k g \<longleftrightarrow>
     fg_key g = k \<and> fill g = min 2 (length (filter (\<lambda>f. base_of f = k) files)) \<and>
     (\<forall>f. fg_input g = Some f \<or> fg_expected g = Some f \<longrightarrow> f \<in> set files \<and> base_of f = k)"

definition groups_ok :: "upload_file list \<Rightarrow> (string, file_group) jsmap \<Rightarrow> bool" where
  "groups_ok files m \<longleftrightarrow> map_wf m \<and> set (map_keys m) = set (map base_of files) \<and>
     (\<forall>k g. map_get m k = Some g \<longrightarrow> group_ok files k g)"

lemma place_file_fill: "fill (place_file i ob f g) = min 2 (Suc (fill g))"
  by (auto simp: place_file_def fill_def)

lemma place_file_ok:
  assumes "group_ok files k g" "base_of f = k"
  shows "group_ok (files @ [f]) k (place_file i ob f g)"
proof -
  have "fill (place_file i ob f g) = min 2 (length (filter (\<lambda>f. base_of f = k) (files @ [f])))"
    using assms by (simp add: place_file_fill group_ok_def min_def)
  then show ?thesis
    using assms by (auto simp: group_ok_def place_file_def)
qed

lemma group_ok_other: "group_ok files k g \<Longrightarrow> base_of f \<noteq> k \<Longrightarrow> group_ok (files @ [f]) k g"
  by (auto simp: group_ok_def)

lemma add_file_ok:
  assumes "groups_ok files m"
  shows "groups_ok (files @ [f]) (add_file m f)"
proof -
  let ?b = "base_of f"
  define g where "g = (case map_get m ?b of Some g \<Rightarrow> g
     | None \<Rightarrow> \<lparr>fg_key = ?b, fg_input = None, fg_expected = None, fg_sortKey = fk_num (normalizeKey (f_name f))\<rparr>)"
  have g: "group_ok files ?b g"
  proof (cases "map_get m ?b")
    case None
    then have "?b \<notin> set (map base_of files)"
      using assms js_map.look_none_iff [of m ?b] unfolding groups_ok_def by metis
    then have "filter (\<lambda>f'. base_of f' = ?b) files = []"
      by (auto simp: filter_empty_conv) (metis imageI)
    then show ?thesis using None by (simp add: g_def group_ok_def fill_def)
  next
    case (Some g')
    then show ?thesis using assms by (simp add: g_def groups_ok_def)
  qed
  have add: "add_file m f = map_set ?b (place_file (fk_isInput (normalizeKey (f_name f))) (fk_isOutput (normalizeKey (f_name f))) f g) m"
    unfolding add_file_def Let_def g_def base_of_def ..
  have "group_ok (files @ [f]) k g'" if "map_get (add_file m f) k = Some g'" for k g'
    using that assms place_file_ok [OF g refl] group_ok_other [of files k g' f]
    by (auto simp: add map_get_set groups_ok_def split: if_splits)
  moreover have "map_wf (add_file m f)" "set (map_keys (add_file m f)) = set (map base_of (files @ [f]))"
    using assms by (simp_all add: add groups_ok_def js_map.valid_put js_map.set_keys_put)
  ultimately show ?thesis by (simp add: groups_ok_def)
qed

lemma groups_of_files: "groups_ok files (foldl add_file [] files)"
proof (induction files rule: rev_induct)
  case Nil
  then show ?case by (simp add: groups_ok_def map_wf_def map_keys_def map_get_def)
next
  case (snoc f files)
  then show ?case using add_file_ok by simp
qed

lemma report_counts:
  "2 * length (fst (foldl report_group acc gs)) + length (snd (foldl report_group acc gs)) =
     2 * length (fst acc) + length (snd acc) + sum_list (map fill gs)"
proof (induction gs arbitrary: acc)
  case (Cons g gs)
  have "2 * length (fst (report_group acc g)) + length (snd (report_group acc g)) =
      2 * length (fst acc) + length (snd acc) + fill g"
    by (auto simp: report_group_def fill_def split: option.splits)
  then show ?case using Cons [of "report_group acc g"] by simp
qed simp

lemma sum_fill_groups:
  assumes "groups_ok files m"
  shows "sum_list (map fill (map snd m)) =
           (\<Sum>b\<in>set (map base_of files). min 2 (length (filter (\<lambda>f. base_of f = b) files)))"
proof -
  have get: "map_get m k = Some g" if "(k, g) \<in> set m" for k g
    using that assms by (auto simp: groups_ok_def map_wf_def map_get_def)
  have "map fill (map snd m) = map (\<lambda>b. min 2 (length (filter (\<lambda>f. base_of f = b) files))) (map fst m)"
    using get assms by (force simp: groups_ok_def group_ok_def)
  then have "sum_list (map fill (map snd m)) = (\<Sum>b\<in>set (map fst m). min 2 (length (filter (\<lambda>f. base_of f = b) files)))"
    using assms by (simp add: groups_ok_def map_wf_def sum_list_distinct_conv_sum_set del: map_map)
  then show ?thesis using assms by (simp add: groups_ok_def map_keys_def)
qed

lemma report_pairs:
  assumes "p \<in> set (fst (foldl report_group acc gs))" "p \<notin> set (fst acc)"
  shows "\<exists>g\<in>set gs. fg_input g = Some (pf_inputFile p) \<and> fg_expected g = Some (pf_expectedFile p) \<and>
           pf_baseName p = fg_key g \<and> pf_totalSize p = f_size (pf_inputFile p) + f_size (pf_expectedFile p)"
  using assms
proof (induction gs arbitrary: acc)
  case (Cons g gs)
  show ?case
  proof (cases "p \<in> set (fst (report_group acc g))")
    case True
    then show ?thesis using Cons.prems(2) by (auto simp: report_group_def split: option.splits)
  next
    case False
    then show ?thesis using Cons.IH [of "report_group acc g"] Cons.prems(1) by auto
  qed
qed simp

text \<open>
  Pairing uploaded files is exact up to a silent drop: of the files that share a base name the first two that fit
  are kept, as a pair or as an unmatched name, and every further one disappears from the report. The two files
  of a pair are uploaded files with the pair's base name, and its size is theirs together.
\<close>

theorem pairing_counts_files:
  "2 * length (fst (matchTestFilePairs collate files)) + length (snd (matchTestFilePairs collate files)) =
     (\<Sum>b\<in>set (map base_of files). min 2 (length (filter (\<lambda>f. base_of f = b) files))) \<and>
   (\<forall>p\<in>set (fst (matchTestFilePairs collate files)).
      pf_inputFile p \<in> set files \<and> pf_expectedFile p \<in> set files \<and>
      base_of (pf_inputFile p) = pf_baseName p \<and> base_of (pf_expectedFile p) = pf_baseName p \<and>
      pf_totalSize p = f_size (pf_inputFile p) + f_size (pf_expectedFile p))"
proof -
  let ?m = "foldl add_file [] files"
  have run: "matchTestFilePairs collate files = foldl report_group ([], []) (sorted_groups collate files)"
    by (simp add: matchTestFilePairs_def sorted_groups_def js_sort_def)
  have "mset (sorted_groups collate files) = mset (map snd ?m)" by (simp add: sorted_groups_def)
  then have "sum_list (map fill (sorted_groups collate files)) = sum_list (map fill (map snd ?m))"
    by (metis mset_map sum_mset_sum_list)
  then have "2 * length (fst (matchTestFilePairs collate files)) + length (snd (matchTestFilePairs collate files)) =
     (\<Sum>b\<in>set (map base_of files). min 2 (length (filter (\<lambda>f. base_of f = b) files)))"
    using report_counts [of "([], [])" "sorted_groups collate files"] sum_fill_groups [OF groups_of_files] by (simp add: run)
  moreover have "\<exists>k. map_get ?m k = Some g" if "g \<in> set (sorted_groups collate files)" for g
    using that groups_of_files [of files] by (auto simp: sorted_groups_def groups_ok_def map_wf_def map_get_def)
  ultimately show ?thesis
    using groups_of_files [of files] report_pairs [of _ "([], [])" "sorted_groups collate files"]
    by (fastforce simp: run groups_ok_def group_ok_def)
qed

definition sample_files :: "upload_file list" where
  "sample_files = map (\<lambda>n. \<lparr>f_name = n, f_bytes = ''1''\<rparr>) [''1.in'', ''1.out'', ''1.ans'']"

theorem pairing_counts_files_witness:
  "2 * length (fst (matchTestFilePairs (\<lambda>a b. 0) sample_files)) + length (snd (matchTestFilePairs (\<lambda>a b. 0) sample_files)) =
     (\<Sum>b\<in>set (map base_of sample_files). min 2 (length (filter (\<lambda>f. base_of f = b) sample_files)))"
  using pairing_counts_files by blast

end
