(* ===== verification/CsvImport.thy ===== *)
theory CsvImport
  imports Http "HOL-Library.While_Combinator"
begin

text \<open>
  Importing contestants from delimited text: \<open>admin-frontend/src/lib/csv-utils.ts\<close> and
  \<open>components/users/csv-utils.ts\<close>.
\<close>

section \<open>One line\<close>

abbreviation quote_char :: char where
  "quote_char \<equiv> CHR 0x22"

text \<open>The loop: the field read so far, whether a quote is open, the rest of the line.\<close>

function split_fields :: "char \<Rightarrow> string \<Rightarrow> bool \<Rightarrow> string \<Rightarrow> string list" where
  "split_fields delimiter currentField insideQuotes [] = [js_trim currentField]"
| "split_fields delimiter currentField insideQuotes (c # rest) =
     (if c = quote_char then
        (if insideQuotes \<and> rest \<noteq> [] \<and> hd rest = quote_char
         then split_fields delimiter (currentField @ [quote_char]) insideQuotes (tl rest)
         else split_fields delimiter currentField (\<not> insideQuotes) rest)
      else if c = delimiter \<and> \<not> insideQuotes
      then js_trim currentField # split_fields delimiter [] insideQuotes rest
      else split_fields delimiter (currentField @ [c]) insideQuotes rest)"
  by pat_completeness auto

termination split_fields
  by (relation "measure (\<lambda>(d, cur, q, s). length s)") (auto simp: less_Suc_eq_le)

definition splitDelimitedLine :: "string \<Rightarrow> string list" where
  "splitDelimitedLine line =
     split_fields (if CHR 0x09 \<in> set line then CHR 0x09 else CHR '','') [] False line"

text \<open>
  The loop as it is written, over an index into the line: the index, the field read so far, whether a quote is open, the
  fields pushed. A doubled quote advances the index by two.
\<close>

type_synonym line_state = "nat \<times> string \<times> bool \<times> string list"

definition line_turn :: "char \<Rightarrow> string \<Rightarrow> line_state \<Rightarrow> line_state" where
  "line_turn delimiter line s =
     (case s of (i, currentField, insideQuotes, result) \<Rightarrow>
        if line ! i = quote_char then
          if insideQuotes \<and> i + 1 < length line \<and> line ! (i + 1) = quote_char
          then (i + 2, currentField @ [quote_char], insideQuotes, result)
          else (i + 1, currentField, \<not> insideQuotes, result)
        else if line ! i = delimiter \<and> \<not> insideQuotes
        then (i + 1, [], insideQuotes, result @ [js_trim currentField])
        else (i + 1, currentField @ [line ! i], insideQuotes, result))"

definition line_loop :: "string \<Rightarrow> line_state option" where
  "line_loop line =
     while_option (\<lambda>(i, _). i < length line)
       (line_turn (if CHR 0x09 \<in> set line then CHR 0x09 else CHR '','') line) (0, [], False, [])"

lemma line_loop_from:
  "\<exists>i' cur' q' res'. while_option (\<lambda>(i, _). i < length line) (line_turn d line) (i, cur, q, res) = Some (i', cur', q', res') \<and>
     res' @ [js_trim cur'] = res @ split_fields d cur q (drop i line)"
proof (induction "length line - i" arbitrary: i cur q res rule: less_induct)
  case less
  show ?case
  proof (cases "i < length line")
    case False
    then show ?thesis by (subst while_option_unfold) simp
  next
    case True
    then have rest: "drop i line = line ! i # drop (i + 1) line" by (simp add: Cons_nth_drop_Suc)
    have next_is: "drop (i + 1) line \<noteq> [] \<and> hd (drop (i + 1) line) = quote_char \<longleftrightarrow>
        i + 1 < length line \<and> line ! (i + 1) = quote_char" by (auto simp: hd_drop_conv_nth)
    obtain i1 cur1 q1 res1 where turn: "line_turn d line (i, cur, q, res) = (i1, cur1, q1, res1)"
      by (cases "line_turn d line (i, cur, q, res)")
    then have "i < i1" by (auto simp: line_turn_def split: if_splits)
    then have "length line - i1 < length line - i" using True by linarith
    from less.hyps [OF this, of cur1 q1 res1] obtain i' cur' q' res' where
      IH: "while_option (\<lambda>(i, _). i < length line) (line_turn d line) (i1, cur1, q1, res1) = Some (i', cur', q', res')"
        "res' @ [js_trim cur'] = res1 @ split_fields d cur1 q1 (drop i1 line)" by blast
    have "res1 @ split_fields d cur1 q1 (drop i1 line) = res @ split_fields d cur q (drop i line)"
      using turn next_is unfolding rest by (auto simp: line_turn_def tl_drop drop_Suc split: if_splits)
    then show ?thesis using IH True turn by (subst while_option_unfold) simp
  qed
qed

text \<open>
  C31: Splitting a line always ends: the index loop, which skips a character at a doubled quote, returns for every line, open
  quotes and quotes at the very end included, and the fields it has pushed together with the last one are those of the
  recursive reading the other theorems use.
\<close>

theorem line_loop_ends:
  "\<exists>i cur q res. line_loop line = Some (i, cur, q, res) \<and> res @ [js_trim cur] = splitDelimitedLine line"
  using line_loop_from [of line "if CHR 0x09 \<in> set line then CHR 0x09 else CHR '',''" 0 "[]" False "[]"]
  by (simp add: line_loop_def splitDelimitedLine_def)

section \<open>The whole text\<close>

record ParsedCsvRow =
  row_username :: string
  row_displayName :: "string option"
  row_teamName :: "string option"
  row_password :: "string option"
  row_isValid :: bool
  row_validationError :: "string option"

text \<open>\<open>split(/\r?\n/)\<close>: a carriage return directly in front of the line feed belongs to the separator.\<close>

definition drop_cr :: "string \<Rightarrow> string" where
  "drop_cr l = (if l \<noteq> [] \<and> last l = CHR 0x0D then butlast l else l)"

definition csv_lines :: "string \<Rightarrow> string list" where
  "csv_lines text =
     (let ls = split_char CHR 0x0A text
      in map drop_cr (butlast ls) @ [last ls])"

text \<open>\<open>parts[i] || undefined\<close>\<close>

definition part :: "string list \<Rightarrow> nat \<Rightarrow> string option" where
  "part parts i = (if i < length parts \<and> parts ! i \<noteq> [] then Some (parts ! i) else None)"

definition is_header :: "string \<Rightarrow> bool" where
  "is_header line =
     (let firstLine = js_lower line
      in str_includes firstLine ''username'' \<or> str_includes firstLine ''team'' \<or>
         str_includes firstLine ''display_name'' \<or> str_includes firstLine ''name'')"

text \<open>The columns behind the user name: display name, team and password, by the number of columns.\<close>

definition row_columns :: "bool \<Rightarrow> string option \<Rightarrow> string list \<Rightarrow> string option \<times> string option \<times> string option" where
  "row_columns isSingleTeamMode singleTeamName parts =
     (if isSingleTeamMode then
        (part parts 1, (if singleTeamName = Some [] then None else singleTeamName), part parts 2)
      else if length parts \<ge> 4 then (part parts 1, part parts 2, part parts 3)
      else if length parts = 3 then (part parts 1, part parts 2, None)
      else if length parts = 2 then (None, part parts 1, None)
      else (None, None, None))"

definition parse_row :: "bool \<Rightarrow> string option \<Rightarrow> string \<Rightarrow> ParsedCsvRow" where
  "parse_row isSingleTeamMode singleTeamName line =
     (let parts = splitDelimitedLine line;
          username = (case part parts 0 of Some u \<Rightarrow> u | None \<Rightarrow> []);
          (displayName, teamName, password) = row_columns isSingleTeamMode singleTeamName parts
      in \<lparr>row_username = username, row_displayName = displayName, row_teamName = teamName,
          row_password = password, row_isValid = (username \<noteq> [] \<and> teamName \<noteq> None),
          row_validationError = (if username = [] then Some ''Missing username''
                                 else if teamName = None then Some ''Missing team name'' else None)\<rparr>)"

definition parseCsvInput :: "string \<Rightarrow> bool \<Rightarrow> string option \<Rightarrow> ParsedCsvRow list" where
  "parseCsvInput text isSingleTeamMode singleTeamName =
     (let lines = filter (\<lambda>l. l \<noteq> []) (map js_trim (csv_lines text))
      in case lines of
           [] \<Rightarrow> []
         | l # ls \<Rightarrow> map (parse_row isSingleTeamMode singleTeamName) (if is_header l then ls else l # ls))"

definition getUserSampleCsvContent :: "bool \<Rightarrow> string" where
  "getUserSampleCsvContent isSingleTeamMode =
     join_with [CHR 0x0A]
       (if isSingleTeamMode then
          [''username,display_name,password'', ''alice_walker,Alice Walker,'', ''bob_smith,Bob Smith,TempPass123'',
           ''charlie_brown,Charlie Brown,'']
        else
          [''username,display_name,team_name,password'', ''alice_walker,Alice Walker,Team Alpha,'',
           ''bob_smith,Bob Smith,Team Alpha,TempPass123'', ''charlie_brown,Charlie Brown,Team Beta,'',
           ''david_clark,David Clark,Team Beta,SecretPass456''])"

section \<open>Quoting\<close>

text \<open>The standard quoting of a field, which the parser must undo.\<close>

fun escape_quotes :: "string \<Rightarrow> string" where
  "escape_quotes [] = []"
| "escape_quotes (c # cs) = (if c = quote_char then [quote_char, quote_char] else [c]) @ escape_quotes cs"

definition quote_field :: "string \<Rightarrow> string" where
  "quote_field s = quote_char # escape_quotes s @ [quote_char]"

lemma split_quoted_body:
  assumes "rest = [] \<or> hd rest \<noteq> quote_char"
  shows "split_fields d cur True (escape_quotes s @ quote_char # rest) = split_fields d (cur @ s) False rest"
  using assms by (induction s arbitrary: cur) auto

lemma split_quoted_fields:
  assumes "d \<noteq> quote_char" "fs \<noteq> []" "\<forall>f\<in>set fs. js_trim f = f"
  shows "split_fields d [] False (join_with [d] (map quote_field fs)) = fs"
  using assms(2,3)
proof (induction fs)
  case (Cons f fs)
  have q: "split_fields d [] False (quote_field f @ rest) = split_fields d f False rest"
    if "rest = [] \<or> hd rest \<noteq> quote_char" for rest
    using split_quoted_body [OF that, of d "[]" f] by (simp add: quote_field_def)
  show ?case
  proof (cases "fs = []")
    case True
    then show ?thesis using q [of "[]"] Cons.prems by simp
  next
    case False
    then have "join_with [d] (map quote_field (f # fs)) = quote_field f @ d # join_with [d] (map quote_field fs)"
      by (cases fs) simp_all
    then show ?thesis using q [of "d # join_with [d] (map quote_field fs)"] Cons False assms(1) by simp
  qed
qed simp

lemma escape_quotes_set: "set (escape_quotes s) \<subseteq> insert quote_char (set s)"
  by (induction s) auto

lemma join_with_set: "set (join_with sep xs) \<subseteq> set sep \<union> (\<Union>x\<in>set xs. set x)"
  by (induction sep xs rule: join_with.induct) auto

text \<open>
  Quoting round trip: any list of trimmed, tab-free fields, commas, quotes and line breaks included, written as
  quoted comma-separated text is read back field by field.
\<close>

theorem splitDelimitedLine_quoted:
  assumes "fs \<noteq> []" and "\<forall>f\<in>set fs. js_trim f = f \<and> CHR 0x09 \<notin> set f"
  shows "splitDelimitedLine (join_with '','' (map quote_field fs)) = fs"
proof -
  have "CHR 0x09 \<notin> set (join_with '','' (map quote_field fs))"
  proof
    assume "CHR 0x09 \<in> set (join_with '','' (map quote_field fs))"
    then obtain f where "f \<in> set fs" "CHR 0x09 \<in> set (quote_field f)"
      using join_with_set [of "'',''" "map quote_field fs"] by auto
    then show False using assms(2) escape_quotes_set [of f] by (auto simp: quote_field_def)
  qed
  then show ?thesis
    using split_quoted_fields [of "CHR '',''" fs] assms by (simp add: splitDelimitedLine_def)
qed

theorem splitDelimitedLine_quoted_witness:
  "splitDelimitedLine (join_with '','' (map quote_field [''a,b'', ''say '' @ [quote_char] @ ''hi'' @ [quote_char]]))
     = [''a,b'', ''say '' @ [quote_char] @ ''hi'' @ [quote_char]]"
proof (rule splitDelimitedLine_quoted)
  show "[''a,b'', ''say '' @ [quote_char] @ ''hi'' @ [quote_char]] \<noteq> []" by simp
  show "\<forall>f\<in>set [''a,b'', ''say '' @ [quote_char] @ ''hi'' @ [quote_char]]. js_trim f = f \<and> CHR 0x09 \<notin> set f"
    by code_simp
qed

lemma part_nonempty: "part ps i \<noteq> Some []"
  by (simp add: part_def)

lemma row_columns_facts:
  assumes "row_columns single team ps = (d, t, p)"
  shows "d \<noteq> Some []" "t \<noteq> Some []" "p \<noteq> Some []" "single \<Longrightarrow> t = (if team = Some [] then None else team)"
  using assms part_nonempty by (auto simp: row_columns_def split: if_splits)

lemma parse_row_facts:
  "(row_isValid (parse_row single team l) \<longleftrightarrow> row_validationError (parse_row single team l) = None) \<and>
   (row_isValid (parse_row single team l) \<longleftrightarrow> row_username (parse_row single team l) \<noteq> [] \<and> row_teamName (parse_row single team l) \<noteq> None) \<and>
   (single \<longrightarrow> row_teamName (parse_row single team l) = (if team = Some [] then None else team)) \<and>
   row_displayName (parse_row single team l) \<noteq> Some [] \<and> row_teamName (parse_row single team l) \<noteq> Some [] \<and>
   row_password (parse_row single team l) \<noteq> Some []"
proof -
  obtain d t p where cols: "row_columns single team (splitDelimitedLine l) = (d, t, p)" by (metis prod_cases3)
  show ?thesis
    unfolding parse_row_def Let_def cols prod.case using row_columns_facts [OF cols] by auto
qed

text \<open>
  An imported row is valid exactly when it carries no error message, that is when it has a user name and a team;
  in single team mode every row is given that team, and a row never has an empty optional field.
\<close>

theorem csv_row_validity:
  "\<forall>r\<in>set (parseCsvInput text single team).
     (row_isValid r \<longleftrightarrow> row_validationError r = None) \<and>
     (row_isValid r \<longleftrightarrow> row_username r \<noteq> [] \<and> row_teamName r \<noteq> None) \<and>
     (single \<longrightarrow> row_teamName r = (if team = Some [] then None else team)) \<and>
     row_displayName r \<noteq> Some [] \<and> row_teamName r \<noteq> Some [] \<and> row_password r \<noteq> Some []"
proof
  fix r
  assume "r \<in> set (parseCsvInput text single team)"
  then obtain l where r: "r = parse_row single team l"
    by (auto simp: parseCsvInput_def Let_def split: list.splits if_splits)
  show "(row_isValid r \<longleftrightarrow> row_validationError r = None) \<and>
     (row_isValid r \<longleftrightarrow> row_username r \<noteq> [] \<and> row_teamName r \<noteq> None) \<and>
     (single \<longrightarrow> row_teamName r = (if team = Some [] then None else team)) \<and>
     row_displayName r \<noteq> Some [] \<and> row_teamName r \<noteq> Some [] \<and> row_password r \<noteq> Some []"
    unfolding r by (rule parse_row_facts)
qed

theorem csv_row_validity_witness:
  "list_all (\<lambda>r. row_teamName r = Some ''Blue'') (parseCsvInput ''ann,Ann,Red'' True (Some ''Blue''))"
  using csv_row_validity [of "''ann,Ann,Red''" True "Some ''Blue''"] by (simp add: list_all_iff)

text \<open>
  Header detection looks for the words anywhere in the first line, so a file without a header whose first row
  mentions a team loses that row: a lone contestant of "Team Alpha" imports as nothing.
\<close>

theorem headerless_first_row_lost:
  "parseCsvInput ''ann,,Team,p'' False None = [] \<and>
   map row_username (parseCsvInput ''ann,,Red,p'' False None) = [''ann'']"
  by (intro conjI) code_simp+

end
