(* ===== verification/TestUploader.thy ===== *)
theory TestUploader
  imports AdminApi AdminValidation
begin

text \<open>
  \<open>admin-frontend/src/lib/api/test-uploader.ts\<close>: the browser talks to the backend directly with the token the
  server hands out. The module keeps the credentials in \<open>cachedConfig\<close>, which every operation here threads.
  An \<open>XMLHttpRequest\<close> is the environment's \<open>fetch\<close>: an answer runs \<open>onload\<close>, a failure \<open>onerror\<close> (the
  sources never set a timeout, so \<open>ontimeout\<close> does not run). A \<open>Blob\<close> is its text.
\<close>

section \<open>Credentials\<close>

type_synonym 'a cached = "jsv option \<Rightarrow> ((exn + 'a) \<times> jsv option) io"

definition getUploadConfig :: "jsv option \<Rightarrow> jsv io" where
  "getUploadConfig cachedConfig =
     (case cachedConfig of
        Some c \<Rightarrow> ret c
      | None \<Rightarrow>
          bind getAdminUploadConfigAction (\<lambda>config.
          if \<not> truthy config
          then throw (Error ''You must be logged in as an administrator to manage test cases.'')
          else ret config))"

definition resetUploadConfigCache :: "jsv option \<Rightarrow> jsv option" where
  "resetUploadConfigCache cachedConfig = None"

definition attempt :: "'a io \<Rightarrow> (exn + 'a) io" where
  "attempt m e w = (case m e w of (r, w') \<Rightarrow> (Inr r, w'))"

text \<open>\<open>const config = await getUploadConfig()\<close> followed by the rest of the operation.\<close>

definition with_config :: "(jsv \<Rightarrow> 'a io) \<Rightarrow> 'a cached" where
  "with_config rest cachedConfig =
     bind (attempt (getUploadConfig cachedConfig)) (\<lambda>r.
     case r of
       Inl x \<Rightarrow> ret (Inl x, cachedConfig)
     | Inr config \<Rightarrow> bind (attempt (rest config)) (\<lambda>r'. ret (r', Some config)))"

definition tests_url :: "jsv \<Rightarrow> string \<Rightarrow> string" where
  "tests_url config problemId =
     js_String (get_opt config ''apiUrl'') @ ''/api/v1/admin/problems/'' @ encodeURIComponent problemId @ ''/tests''"

definition bearer :: "jsv \<Rightarrow> (string \<times> string) list" where
  "bearer config = [(''authorization'', ''Bearer '' @ js_String (get_opt config ''token''))]"

section \<open>Uploads\<close>

datatype upload_body = TextBody string | FileBody string

definition form_field :: "string \<Rightarrow> upload_body \<Rightarrow> string \<Rightarrow> form_part" where
  "form_field name b filename =
     (case b of TextBody s \<Rightarrow> TextPart name s | FileBody content \<Rightarrow> FilePart name filename content)"

record SingleTestUploadItem =
  ui_input :: upload_body
  ui_inputFileName :: "string option"
  ui_expected :: upload_body
  ui_expectedFileName :: "string option"
  ui_points :: "int option"

definition name_or :: "string option \<Rightarrow> string \<Rightarrow> string" where
  "name_or v d = (case v of Some s \<Rightarrow> s | None \<Rightarrow> d)"

text \<open>\<open>Math.round((loaded / total) * 100)\<close>\<close>

definition upload_percent :: "nat \<Rightarrow> nat \<Rightarrow> jsnum" where
  "upload_percent loaded whole =
     (if whole = 0 then NaN
      else Fin (of_int \<lfloor>rat_of_nat loaded / rat_of_nat whole * 100 + 1 / 2\<rfloor>))"

text \<open>\<open>result.allTests = data.tests\<close> on a truthy value: assigning a property of a primitive throws.\<close>

definition set_all_tests :: "jsv \<Rightarrow> jsv \<Rightarrow> exn + jsv" where
  "set_all_tests result tests =
     (case result of
        Obj fs \<Rightarrow> Inr (Obj (map_set ''allTests'' tests fs))
      | Arr xs \<Rightarrow> Inr (Arr xs)
      | _ \<Rightarrow> Inl (Error ''Cannot create property''))"

definition is_array :: "jsv \<Rightarrow> bool" where
  "is_array v = (case v of Arr _ \<Rightarrow> True | _ \<Rightarrow> False)"

definition upload_result :: "jsv \<Rightarrow> exn + jsv" where
  "upload_result data =
     (case get data ''test'' of
        Inl x \<Rightarrow> Inl x
      | Inr result \<Rightarrow>
          if truthy result \<and> is_array (get_opt data ''tests'')
          then set_all_tests result (get_opt data ''tests'') else Inr result)"

text \<open>The two arms of \<open>onload\<close>; the body text is always readable.\<close>

definition xhr_loaded :: "response \<Rightarrow> (jsv \<Rightarrow> exn + jsv) \<Rightarrow> string \<Rightarrow> string \<Rightarrow> jsv io" where
  "xhr_loaded res pick invalid failed =
     (let http = failed @ '' with HTTP '' @ show_nat (rsp_status res)
      in if rsp_ok res
         then catch (bind (res_json res) (\<lambda>data. lift (pick data))) (\<lambda>_. throw (Error invalid))
         else bind (catch (bind (res_json res) (\<lambda>errData. bind (lift (get errData ''error'')) (\<lambda>m.
                 ret (js_String (js_coalesce m (Str http)))))) (\<lambda>_. ret http)) (\<lambda>m. throw (Error m)))"

definition uploadSingleTestCase :: "string \<Rightarrow> SingleTestUploadItem \<Rightarrow> jsv cached" where
  "uploadSingleTestCase problemId item = with_config (\<lambda>config.
     bind (catch (fetch \<lparr>req_url = tests_url config problemId, req_method = ''POST'', req_headers = bearer config,
       req_body = Form
         [form_field ''input'' (ui_input item) (name_or (ui_inputFileName item) ''input.txt''),
          form_field ''expected'' (ui_expected item) (name_or (ui_expectedFileName item) ''output.txt''),
          TextPart ''points'' (show_int (case ui_points item of Some p \<Rightarrow> p | None \<Rightarrow> 0))]\<rparr>)
       (\<lambda>_. throw (Error ''Network connection error during test case upload''))) (\<lambda>res.
     xhr_loaded res upload_result ''Invalid response from test upload server'' ''Upload failed''))"

definition updateSingleTestCase ::
    "string \<Rightarrow> int \<Rightarrow> upload_body option \<Rightarrow> upload_body option \<Rightarrow> int option \<Rightarrow> jsv cached" where
  "updateSingleTestCase problemId ordinal inp expected points = with_config (\<lambda>config.
     bind (catch (fetch \<lparr>req_url = tests_url config problemId @ ''/'' @ show_int ordinal, req_method = ''PUT'',
       req_headers = bearer config,
       req_body = Form
         ((case inp of Some b \<Rightarrow> [form_field ''input'' b ''input.txt''] | None \<Rightarrow> []) @
          (case expected of Some b \<Rightarrow> [form_field ''expected'' b ''output.txt''] | None \<Rightarrow> []) @
          (case points of Some p \<Rightarrow> [TextPart ''points'' (show_int p)] | None \<Rightarrow> []))\<rparr>)
       (\<lambda>_. throw (Error ''Network connection error''))) (\<lambda>res.
     xhr_loaded res (\<lambda>data. get data ''test'') ''Invalid response from server'' ''Update failed''))"

section \<open>The other operations\<close>

definition deleteSingleTestCase :: "string \<Rightarrow> int \<Rightarrow> unit cached" where
  "deleteSingleTestCase problemId ordinal = with_config (\<lambda>config.
     bind (fetch \<lparr>req_url = tests_url config problemId @ ''/'' @ show_int ordinal, req_method = ''DELETE'',
                  req_headers = bearer config, req_body = NoBody\<rparr>) (\<lambda>res.
     if \<not> rsp_ok res then
       bind (res_json_or_empty res) (\<lambda>data. bind (lift (get data ''error'')) (\<lambda>m.
       throw (Error (js_String (js_coalesce m (Str (''Failed to delete test case #'' @ show_int ordinal)))))))
     else ret ()))"

definition numeric_map :: "jsv \<Rightarrow> jsv" where
  "numeric_map d = Obj (case d of Obj fs \<Rightarrow> map (\<lambda>(k, v). (k, Num (js_Number v))) fs | _ \<Rightarrow> [])"

definition updateTestPoints :: "parser \<Rightarrow> string \<Rightarrow> jsv \<Rightarrow> unit cached" where
  "updateTestPoints sp problemId pointsMap =
     (case sp updatePointsMapSchema pointsMap of
        Inl ms \<Rightarrow> (\<lambda>cachedConfig. ret (Inl (Error (issue_nn ms ''Invalid points mapping'')), cachedConfig))
      | Inr d \<Rightarrow> with_config (\<lambda>config.
          bind (fetch \<lparr>req_url = tests_url config problemId @ ''/points'', req_method = ''PATCH'',
                       req_headers = bearer config @ [(''content-type'', ''application/json'')],
                       req_body = Text (stringify (Obj [(''points'', numeric_map d)]))\<rparr>) (\<lambda>res.
          if \<not> rsp_ok res then
            bind (res_json_or_empty res) (\<lambda>data. bind (lift (get data ''error'')) (\<lambda>m.
            throw (Error (js_String (js_coalesce m (Str ''Failed to update test points''))))))
          else ret ())))"

datatype content_field = InputField | ExpectedField

definition field_name :: "content_field \<Rightarrow> string" where
  "field_name f = (case f of InputField \<Rightarrow> ''input'' | ExpectedField \<Rightarrow> ''expected'')"

definition content_request :: "jsv \<Rightarrow> string \<Rightarrow> int \<Rightarrow> content_field \<Rightarrow> request" where
  "content_request config problemId ordinal f =
     \<lparr>req_url = tests_url config problemId @ ''/'' @ show_int ordinal @ ''/'' @ field_name f,
      req_method = ''GET'', req_headers = bearer config, req_body = NoBody\<rparr>"

definition fetchTestCaseContent :: "string \<Rightarrow> int \<Rightarrow> content_field \<Rightarrow> string cached" where
  "fetchTestCaseContent problemId ordinal f = with_config (\<lambda>config.
     bind (fetch (content_request config problemId ordinal f)) (\<lambda>res.
     if \<not> rsp_ok res then throw (Error (''Failed to load test case '' @ field_name f)) else res_text res))"

text \<open>A download is the file name and the content handed to the browser.\<close>

definition downloadTestCaseFile :: "string \<Rightarrow> int \<Rightarrow> content_field \<Rightarrow> (string \<times> string) cached" where
  "downloadTestCaseFile problemId ordinal f = with_config (\<lambda>config.
     bind (fetch (content_request config problemId ordinal f)) (\<lambda>res.
     if \<not> rsp_ok res then throw (Error (''Failed to download test case '' @ field_name f))
     else bind (res_text res) (\<lambda>blob.
          ret (''case_'' @ show_int ordinal @ ''.'' @ (if f = InputField then ''in'' else ''out''), blob))))"

definition downloadTestCasesZip :: "string \<Rightarrow> string \<Rightarrow> (string \<times> string) cached" where
  "downloadTestCasesZip problemId problemSlug = with_config (\<lambda>config.
     bind (fetch \<lparr>req_url = tests_url config problemId @ ''/export'', req_method = ''GET'',
                  req_headers = bearer config, req_body = NoBody\<rparr>) (\<lambda>res.
     if \<not> rsp_ok res then throw (Error ''Failed to export test cases ZIP'')
     else bind (res_text res) (\<lambda>blob.
          ret ((if problemSlug \<noteq> [] then problemSlug else ''problem'') @ ''_tests.zip'', blob))))"

section \<open>What the cache guarantees\<close>

lemma run_attempt [io_simps]: "attempt m e w = (case m e w of (r, w') \<Rightarrow> (Inr r, w'))"
  by (simp add: attempt_def)

lemma with_config_cached:
  "with_config rest (Some c) e w = (case rest c e w of (r, w') \<Rightarrow> (Inr (r, Some c), w'))"
  by (simp add: with_config_def getUploadConfig_def io_simps split: prod.splits)

lemma with_config_fresh:
  "with_config rest None e w =
     (case getAdminUploadConfigAction e w of
        (Inl x, w1) \<Rightarrow> (Inr (Inl x, None), w1)
      | (Inr c, w1) \<Rightarrow>
          if truthy c then (case rest c e w1 of (r, w2) \<Rightarrow> (Inr (r, Some c), w2))
          else (Inr (Inl (Error ''You must be logged in as an administrator to manage test cases.''), None), w1))"
  by (simp add: with_config_def getUploadConfig_def io_simps split: prod.splits sum.splits)

text \<open>
  A test case operation without usable credentials stops before it touches the test cases: with nothing cached
  and no session cookie, deleting, reading or exporting sends no request at all, reports that an administrator
  login is required, and leaves the cache empty.
\<close>

theorem uploader_needs_login:
  assumes "\<not> truthy (jar_value (jar w) ADMIN_SESSION_COOKIE)"
  shows "deleteSingleTestCase p n None e w =
           (Inr (Inl (Error ''You must be logged in as an administrator to manage test cases.''), None), w) \<and>
         fetchTestCaseContent p n f None e w =
           (Inr (Inl (Error ''You must be logged in as an administrator to manage test cases.''), None), w) \<and>
         downloadTestCasesZip p slug None e w =
           (Inr (Inl (Error ''You must be logged in as an administrator to manage test cases.''), None), w) \<and>
         uploadSingleTestCase p item None e w =
           (Inr (Inl (Error ''You must be logged in as an administrator to manage test cases.''), None), w)"
proof -
  have "getAdminUploadConfigAction e w = (Inr Null, w)"
    using assms by (simp add: getAdminUploadConfigAction_def getSessionUserAction_def run_bind run_ret fetchSessionUser_no_cookie)
  then show ?thesis
    by (simp add: deleteSingleTestCase_def fetchTestCaseContent_def downloadTestCasesZip_def uploadSingleTestCase_def
        with_config_fresh)
qed

theorem uploader_needs_login_witness:
  "deleteSingleTestCase ''p'' 1 None offline (with_cookie ''x'' ''y'') =
     (Inr (Inl (Error ''You must be logged in as an administrator to manage test cases.''), None), with_cookie ''x'' ''y'')"
proof -
  have "\<not> truthy (jar_value (jar (with_cookie ''x'' ''y'')) ADMIN_SESSION_COOKIE)"
    by (simp add: with_cookie_def jar_value_def map_get_def ADMIN_SESSION_COOKIE_def)
  from uploader_needs_login [OF this] show ?thesis by blast
qed

text \<open>
  Once cached, the credentials are reused without asking again: an upload sends exactly one request, a POST
  to the problem's own test collection (its id one path segment) that carries the cached token, a file under its
  name and a text as text, and the cache still holds the same credentials afterwards.
\<close>

theorem upload_uses_cached_credentials:
  "\<exists>q r seg. uploadSingleTestCase p item (Some c) e w = (Inr (r, Some c), w\<lparr>sent := sent w @ [q]\<rparr>) \<and>
     req_method q = ''POST'' \<and> req_headers q = bearer c \<and> CHR ''/'' \<notin> set seg \<and>
     req_url q = js_String (get_opt c ''apiUrl'') @ ''/api/v1/admin/problems/'' @ seg @ ''/tests''"
proof -
  let ?q = "\<lparr>req_url = tests_url c p, req_method = ''POST'', req_headers = bearer c,
       req_body = Form
         [form_field ''input'' (ui_input item) (name_or (ui_inputFileName item) ''input.txt''),
          form_field ''expected'' (ui_expected item) (name_or (ui_expectedFileName item) ''output.txt''),
          TextPart ''points'' (show_int (case ui_points item of Some p \<Rightarrow> p | None \<Rightarrow> 0))]\<rparr>"
  have "snd (xhr_loaded res pick invalid failed e w') = w'" for res pick invalid failed w'
    by (simp add: xhr_loaded_def Let_def io_simps split: sum.split)
  then have "\<exists>r. uploadSingleTestCase p item (Some c) e w = (Inr (r, Some c), w\<lparr>sent := sent w @ [?q]\<rparr>)"
    by (auto simp: uploadSingleTestCase_def with_config_cached io_simps split: sum.split prod.split)
       (metis snd_conv)
  moreover have "CHR ''/'' \<notin> set (encodeURIComponent p)" by (rule encodeURIComponent_no_delimiter)
  ultimately show ?thesis by (fastforce simp: tests_url_def)
qed

text \<open>
  The upload progress is a percentage: for a transfer with a known size, loaded parts give whole numbers between
  0 and 100, never decreasing as more is loaded, and 100 for a complete one.
\<close>

theorem upload_percent_bounds:
  assumes "0 < whole" "a \<le> b" "b \<le> whole"
  shows "\<exists>i j. upload_percent a whole = Fin (of_int i) \<and> upload_percent b whole = Fin (of_int j) \<and>
           0 \<le> i \<and> i \<le> j \<and> j \<le> 100 \<and> upload_percent whole whole = Fin 100"
proof -
  let ?p = "\<lambda>n. \<lfloor>rat_of_nat n / rat_of_nat whole * 100 + 1 / 2\<rfloor>"
  have le: "rat_of_nat a / rat_of_nat whole \<le> rat_of_nat b / rat_of_nat whole"
    "rat_of_nat b / rat_of_nat whole \<le> 1" using assms by (simp_all add: divide_right_mono)
  have "0 \<le> ?p a" using assms by (simp add: le_floor_iff)
  moreover have "?p a \<le> ?p b" 
    by (intro floor_mono add_right_mono mult_right_mono le(1)) simp
  moreover have "?p b \<le> 100" using le(2) by linarith
  moreover have "?p whole = 100" using assms by (simp add: floor_unique)
  ultimately show ?thesis using assms by (auto simp: upload_percent_def)
qed

theorem upload_percent_bounds_witness:
  "\<exists>i j. upload_percent 1 3 = Fin (of_int i) \<and> upload_percent 2 3 = Fin (of_int j) \<and> 0 \<le> i \<and> i \<le> j \<and> j \<le> 100"
  using upload_percent_bounds [of 3 1 2] by auto

end
