(* ===== verification/BrowserStorage.thy ===== *)
theory BrowserStorage
  imports Http
begin

text \<open>
  \<open>localStorage\<close> as the sources use it: a map from keys to texts whose \<open>setItem\<close> throws when the quota is
  exceeded. \<open>key_value_store\<close> is the interface the components rely on; saving a value as JSON and loading it back
  is proved inside it and used through the interpretation \<open>local_storage\<close>.
\<close>

locale key_value_store =
  fixes get_item :: "'s \<Rightarrow> string \<Rightarrow> string option"
    and set_item :: "string \<Rightarrow> string \<Rightarrow> 's \<Rightarrow> exn + 's"
    and remove_item :: "string \<Rightarrow> 's \<Rightarrow> 's"
  assumes get_set: "set_item k v s = Inr s' \<Longrightarrow> get_item s' k' = (if k' = k then Some v else get_item s k')"
    and get_remove: "get_item (remove_item k s) k' = (if k' = k then None else get_item s k')"
begin

text \<open>\<open>try { setItem(k, JSON.stringify(v)) } catch {}\<close>\<close>

definition save_json :: "string \<Rightarrow> jsv \<Rightarrow> 's \<Rightarrow> 's" where
  "save_json k v s = (case set_item k (stringify v) s of Inr s' \<Rightarrow> s' | Inl x \<Rightarrow> s)"

text \<open>\<open>const raw = getItem(k); raw ? JSON.parse(raw) : nothing\<close>, a syntax error being nothing too.\<close>

definition load_json :: "string \<Rightarrow> 's \<Rightarrow> jsv option" where
  "load_json k s = (case get_item s k of None \<Rightarrow> None | Some t \<Rightarrow> if t = [] then None else json_parse t)"

lemma stringify_nonempty: "json_ok v \<Longrightarrow> stringify v \<noteq> []"
  using stringify_hd by fastforce

lemma load_save:
  assumes "json_ok v" "set_item k (stringify v) s = Inr s'"
  shows "load_json k (save_json k v s) = Some v"
  using assms by (simp add: save_json_def load_json_def get_set stringify_nonempty json_round_trip)

lemma save_other: "k' \<noteq> k \<Longrightarrow> load_json k' (save_json k v s) = load_json k' s"
  by (auto simp: save_json_def load_json_def get_set split: sum.split)

lemma load_remove: "load_json k (remove_item k s) = None"
  by (simp add: load_json_def get_remove)

lemma save_full:
  "set_item k (stringify v) s = Inl x \<Longrightarrow> save_json k v s = s"
  by (simp add: save_json_def)

end

type_synonym storage = "(string, string) jsmap"

definition storage_get :: "storage \<Rightarrow> string \<Rightarrow> string option" where
  "storage_get s k = map_get s k"

text \<open>\<open>fits\<close> says which contents stay within the quota.\<close>

definition storage_set :: "(storage \<Rightarrow> bool) \<Rightarrow> string \<Rightarrow> string \<Rightarrow> storage \<Rightarrow> exn + storage" where
  "storage_set fits k v s =
     (let s' = map_set k v s in if fits s' then Inr s' else Inl (Error ''QuotaExceededError''))"

definition storage_remove :: "string \<Rightarrow> storage \<Rightarrow> storage" where
  "storage_remove k s = map_delete k s"

interpretation local_storage: key_value_store storage_get "storage_set fits" storage_remove for fits
  by unfold_locales
     (auto simp: storage_get_def storage_set_def storage_remove_def Let_def map_get_set map_get_delete split: if_splits)

abbreviation save_json :: "(storage \<Rightarrow> bool) \<Rightarrow> string \<Rightarrow> jsv \<Rightarrow> storage \<Rightarrow> storage" where
  "save_json fits \<equiv> local_storage.save_json fits"

abbreviation load_json :: "string \<Rightarrow> storage \<Rightarrow> jsv option" where
  "load_json \<equiv> local_storage.load_json"

lemmas storage_simps = storage_get_def storage_set_def storage_remove_def Let_def map_get_set map_get_delete

end
