(* ===== verification/AdminHooks.thy ===== *)
theory AdminHooks
  imports AdminApi BrowserStorage
begin

text \<open>
  Pagination of the admin tables (\<open>admin-frontend/src/hooks/use-pagination.ts\<close>): the page shown of a list held by
  the client or served in pages, and the window of page buttons. Pages count from 1, and a page size is positive.
\<close>

section \<open>Pagination\<close>

definition PAGE_SIZE_OPTIONS :: "nat list" where
  "PAGE_SIZE_OPTIONS = [10, 25, 50, 100]"

record 'a PaginationState =
  pg_page :: nat
  pg_pageSize :: nat
  pg_pageCount :: nat
  pg_totalItems :: nat
  pg_firstItem :: nat
  pg_lastItem :: nat
  pg_items :: "'a list"

definition page_count :: "nat \<Rightarrow> nat \<Rightarrow> nat" where
  "page_count total_items pageSize = max 1 ((total_items + pageSize - 1) div pageSize)"

text \<open>What the hook returns for the stored page and page size; the stored page is at least 1.\<close>

definition usePagination :: "'a list \<Rightarrow> nat \<Rightarrow> nat \<Rightarrow> 'a PaginationState" where
  "usePagination items page pageSize =
     (let totalItems = length items;
          pageCount = page_count totalItems pageSize;
          safePage = min page pageCount;
          start = (safePage - 1) * pageSize
      in \<lparr>pg_page = safePage, pg_pageSize = pageSize, pg_pageCount = pageCount, pg_totalItems = totalItems,
          pg_firstItem = (if totalItems = 0 then 0 else (safePage - 1) * pageSize + 1),
          pg_lastItem = min (safePage * pageSize) totalItems,
          pg_items = take pageSize (drop start items)\<rparr>)"

text \<open>\<open>setPage\<close> and \<open>setPageSize\<close> on the stored pair.\<close>

definition set_page :: "'a list \<Rightarrow> int \<Rightarrow> nat \<times> nat \<Rightarrow> nat \<times> nat" where
  "set_page items next st = (nat (min (max 1 next) (int (page_count (length items) (snd st)))), snd st)"

definition set_page_size :: "nat \<Rightarrow> nat \<times> nat \<Rightarrow> nat \<times> nat" where
  "set_page_size n st = (1, n)"

definition clamp_effect :: "'a list \<Rightarrow> nat \<times> nat \<Rightarrow> nat \<times> nat" where
  "clamp_effect items st = (min (fst st) (page_count (length items) (snd st)), snd st)"

definition useServerPagination :: "'a list \<Rightarrow> nat \<Rightarrow> int \<Rightarrow> nat \<Rightarrow> 'a PaginationState" where
  "useServerPagination items total_items page pageSize =
     (let pageCount = page_count total_items pageSize;
          safePage = nat (min (max 1 page) (int pageCount))
      in \<lparr>pg_page = safePage, pg_pageSize = pageSize, pg_pageCount = pageCount, pg_totalItems = total_items,
          pg_firstItem = (if total_items = 0 then 0 else (safePage - 1) * pageSize + 1),
          pg_lastItem = min (safePage * pageSize) total_items,
          pg_items = items\<rparr>)"

lemma page_count_covers: "0 < s \<Longrightarrow> n \<le> page_count n s * s"
proof -
  assume s: "0 < s"
  have "n \<le> ((n + s - 1) div s) * s"
    using s div_mult_mod_eq [of "n + s - 1" s] mod_less_divisor [OF s, of "n + s - 1"] by linarith
  also have "\<dots> \<le> page_count n s * s" by (simp add: page_count_def)
  finally show ?thesis .
qed

lemma page_count_least:
  assumes "0 < s" "0 < n"
  shows "(page_count n s - 1) * s < n"
proof -
  define q where "q = (n + s - 1) div s"
  have qs: "q * s \<le> n + s - 1" unfolding q_def by (rule div_times_less_eq_dividend)
  have "0 < q" using assms by (simp add: q_def div_greater_zero_iff)
  then have "page_count n s = q" by (simp add: page_count_def q_def)
  moreover have "(q - 1) * s = q * s - s" by (simp add: diff_mult_distrib)
  moreover have "q * s - s < n" using qs assms by linarith
  ultimately show ?thesis by simp
qed

lemma concat_pages: "concat (map (\<lambda>k. take s (drop (k * s) xs)) [0..<n]) = take (n * s) xs"
proof (induction n)
  case (Suc n)
  then show ?case using take_add [of "n * s" s xs] by (simp add: add.commute)
qed simp

lemma usePagination_concat:
  assumes "0 < sz"
  shows "concat (map (\<lambda>p. pg_items (usePagination xs p sz)) [1..<Suc (page_count (length xs) sz)]) = xs"
proof -
  let ?n = "page_count (length xs) sz"
  have "map (\<lambda>p. pg_items (usePagination xs p sz)) [1..<Suc ?n] = map (\<lambda>k. take sz (drop (k * sz) xs)) [0..<?n]"
    unfolding One_nat_def map_Suc_upt [symmetric] map_map
    by (rule map_cong) (auto simp: usePagination_def Let_def min_def)
  then show ?thesis
    using page_count_covers [OF assms, of "length xs"] by (simp add: concat_pages)
qed

text \<open>
  Paging shows every row exactly once: going through the pages 1 to \<open>pageCount\<close> in order and putting their rows
  together gives the list itself; each page but the last is full, and the labels "first - last of total" are the
  positions of the rows shown.
\<close>

theorem pages_partition:
  assumes "0 < sz"
  shows "concat (map (\<lambda>p. pg_items (usePagination xs p sz)) [1..<Suc (page_count (length xs) sz)]) = xs \<and>
         (\<forall>p\<in>{1..page_count (length xs) sz}.
            length (pg_items (usePagination xs p sz)) \<le> sz \<and>
            (p < page_count (length xs) sz \<longrightarrow> length (pg_items (usePagination xs p sz)) = sz) \<and>
            (xs \<noteq> [] \<longrightarrow> pg_items (usePagination xs p sz) \<noteq> [] \<and>
               pg_lastItem (usePagination xs p sz) + 1
                 = pg_firstItem (usePagination xs p sz) + length (pg_items (usePagination xs p sz))))"
proof
  let ?n = "page_count (length xs) sz"
  show "concat (map (\<lambda>p. pg_items (usePagination xs p sz)) [1..<Suc ?n]) = xs"
    by (rule usePagination_concat [OF assms])
  show "\<forall>p\<in>{1..?n}. length (pg_items (usePagination xs p sz)) \<le> sz \<and>
      (p < ?n \<longrightarrow> length (pg_items (usePagination xs p sz)) = sz) \<and>
      (xs \<noteq> [] \<longrightarrow> pg_items (usePagination xs p sz) \<noteq> [] \<and>
         pg_lastItem (usePagination xs p sz) + 1
           = pg_firstItem (usePagination xs p sz) + length (pg_items (usePagination xs p sz)))"
  proof
    fix p assume p: "p \<in> {1..?n}"
    have start: "(p - 1) * sz < length xs" if "xs \<noteq> []"
    proof -
      have "(p - 1) * sz \<le> (?n - 1) * sz" by (rule mult_le_mono1) (use p in auto)
      moreover have "(?n - 1) * sz < length xs" by (rule page_count_least [OF assms]) (use that in simp)
      ultimately show ?thesis by (rule le_less_trans)
    qed
    have full: "p * sz \<le> length xs" if "p < ?n"
    proof -
      have xs: "xs \<noteq> []" using that p assms by (auto simp: page_count_def)
      have "p * sz \<le> (?n - 1) * sz" by (rule mult_le_mono1) (use that in auto)
      moreover have "(?n - 1) * sz < length xs" by (rule page_count_least [OF assms]) (use xs in simp)
      ultimately show ?thesis by (rule order_trans [OF _ less_imp_le])
    qed
    have psize: "p * sz = (p - 1) * sz + sz" using p by (cases p) auto
    have items: "pg_items (usePagination xs p sz) = take sz (drop ((p - 1) * sz) xs)"
      "pg_firstItem (usePagination xs p sz) = (if xs = [] then 0 else (p - 1) * sz + 1)"
      "pg_lastItem (usePagination xs p sz) = min (p * sz) (length xs)"
      using p by (simp_all add: usePagination_def Let_def min_def)
    show "length (pg_items (usePagination xs p sz)) \<le> sz \<and>
      (p < ?n \<longrightarrow> length (pg_items (usePagination xs p sz)) = sz) \<and>
      (xs \<noteq> [] \<longrightarrow> pg_items (usePagination xs p sz) \<noteq> [] \<and>
         pg_lastItem (usePagination xs p sz) + 1
           = pg_firstItem (usePagination xs p sz) + length (pg_items (usePagination xs p sz)))"
      unfolding items using start full psize assms by (auto simp: min_def)
  qed
qed

theorem pages_partition_witness:
  "concat (map (\<lambda>p. pg_items (usePagination ''abcde'' p 2)) [1..<Suc (page_count (length ''abcde'') 2)]) = ''abcde''"
  by (rule pages_partition [THEN conjunct1]) simp

section \<open>The page window\<close>

definition set_add :: "nat \<Rightarrow> nat list \<Rightarrow> nat list" where
  "set_add x slots = (if x \<in> set slots then slots else slots @ [x])"

definition widen :: "nat \<Rightarrow> nat \<Rightarrow> nat \<Rightarrow> nat \<Rightarrow> nat list \<Rightarrow> nat list" where
  "widen page pageCount maxSlots offset slots =
     (let slots1 = (if page - offset > 1 then set_add (page - offset) slots else slots)
      in if length slots1 < maxSlots - 2 \<and> page + offset < pageCount then set_add (page + offset) slots1 else slots1)"

function window_slots :: "nat \<Rightarrow> nat \<Rightarrow> nat \<Rightarrow> nat \<Rightarrow> nat list \<Rightarrow> nat list" where
  "window_slots page pageCount maxSlots offset slots =
     (if length slots < maxSlots - 2 \<and> offset \<le> pageCount
      then window_slots page pageCount maxSlots (offset + 1) (widen page pageCount maxSlots offset slots)
      else slots)"
  by pat_completeness auto

termination window_slots
  by (relation "measure (\<lambda>(page, pageCount, maxSlots, offset, slots). Suc pageCount - offset)") auto

declare window_slots.simps [simp del]

fun with_gaps :: "nat option \<Rightarrow> nat list \<Rightarrow> nat option list" where
  "with_gaps prev [] = []"
| "with_gaps prev (n # ns) =
     (case prev of Some m \<Rightarrow> (if n - m > 1 then [None] else []) | None \<Rightarrow> []) @ Some n # with_gaps (Some n) ns"

definition pageWindow :: "nat \<Rightarrow> nat \<Rightarrow> nat \<Rightarrow> nat option list" where
  "pageWindow page pageCount maxSlots =
     (if pageCount \<le> maxSlots then map Some [1..<Suc pageCount]
      else with_gaps None (js_sort (by_key int)
             (window_slots page pageCount maxSlots 1 (set_add page (set_add pageCount [1])))))"

text \<open>The slots are the first page, the last page and a block of neighbours around the current one.\<close>

definition window_ok :: "nat \<Rightarrow> nat \<Rightarrow> nat \<Rightarrow> nat list \<Rightarrow> bool" where
  "window_ok page pageCount maxSlots slots \<longleftrightarrow>
     distinct slots \<and> length slots \<le> max 3 (maxSlots - 2) \<and>
     (\<exists>lo hi. 1 \<le> lo \<and> lo \<le> page \<and> page \<le> hi \<and> hi \<le> pageCount \<and> set slots = {1, pageCount} \<union> {lo..hi})"

definition window_inv :: "nat \<Rightarrow> nat \<Rightarrow> nat \<Rightarrow> nat \<Rightarrow> nat list \<Rightarrow> bool" where
  "window_inv page pageCount maxSlots offset slots \<longleftrightarrow>
     1 \<le> offset \<and> distinct slots \<and> length slots \<le> max 3 (maxSlots - 2) \<and>
     set slots = {1, pageCount} \<union> {max 1 (page - (offset - 1))..min pageCount (page + (offset - 1))}"

lemma set_add_facts [simp]:
  "set (set_add x s) = insert x (set s)" "distinct (set_add x s) \<longleftrightarrow> distinct s"
  "length (set_add x s) \<le> Suc (length s)"
  by (auto simp: set_add_def)

lemma extend_left:
  fixes page offset h n :: nat
  assumes "1 \<le> offset" "1 \<le> page" "page \<le> h"
  shows "(if page - offset > 1 then insert (page - offset) ({1, n} \<union> {max 1 (page - (offset - 1))..h})
          else {1, n} \<union> {max 1 (page - (offset - 1))..h}) = {1, n} \<union> {max 1 (page - offset)..h}"
proof (cases "page - offset > 1")
  case True
  then have "max 1 (page - (offset - 1)) = Suc (page - offset)" "max 1 (page - offset) = page - offset" using assms by auto
  moreover have "{page - offset..h} = insert (page - offset) {Suc (page - offset)..h}"
    using assms by (intro atLeastAtMost_insertL [symmetric]) simp
  ultimately show ?thesis using True by auto
next
  case False
  have "x \<in> {max 1 (page - (offset - 1))..h} \<or> x = 1" if "x \<in> {max 1 (page - offset)..h}" for x
    using that False assms by auto
  moreover have "{max 1 (page - (offset - 1))..h} \<subseteq> {max 1 (page - offset)..h}" by auto
  ultimately show ?thesis using False by auto
qed

lemma extend_right:
  fixes page offset l n :: nat
  assumes "1 \<le> offset" "l \<le> page" "page \<le> n"
  shows "(if page + offset < n then insert (page + offset) ({1, n} \<union> {l..min n (page + (offset - 1))})
          else {1, n} \<union> {l..min n (page + (offset - 1))}) = {1, n} \<union> {l..min n (page + offset)}"
proof (cases "page + offset < n")
  case True
  then have "min n (page + offset) = Suc (page + (offset - 1))" "min n (page + (offset - 1)) = page + (offset - 1)"
    using assms by auto
  moreover have "{l..Suc (page + (offset - 1))} = insert (Suc (page + (offset - 1))) {l..page + (offset - 1)}"
    using assms by (intro atLeastAtMostSuc_conv) simp
  ultimately show ?thesis using True assms by auto
next
  case False
  have "x \<in> {l..min n (page + (offset - 1))} \<or> x = n" if "x \<in> {l..min n (page + offset)}" for x
    using that False assms by auto
  moreover have "{l..min n (page + (offset - 1))} \<subseteq> {l..min n (page + offset)}" by auto
  ultimately show ?thesis using False by auto
qed

lemma window_okI:
  assumes "distinct s" "length s \<le> max 3 (m - 2)" "1 \<le> page" "page \<le> n"
    and "set s = {1, n} \<union> {max 1 (page - a)..min n (page + b)}"
  shows "window_ok page n m s"
proof -
  have "1 \<le> max 1 (page - a)" "max 1 (page - a) \<le> page" "page \<le> min n (page + b)" "min n (page + b) \<le> n"
    using assms(3,4) by simp_all
  then show ?thesis unfolding window_ok_def using assms(1,2,5) by blast
qed

lemma widen_inv:
  assumes inv: "window_inv page n m offset s" and room: "length s < m - 2" and page: "1 \<le> page" "page \<le> n"
  shows "window_ok page n m (widen page n m offset s)"
    and "length (widen page n m offset s) < m - 2 \<Longrightarrow> window_inv page n m (offset + 1) (widen page n m offset s)"
proof -
  define s1 where "s1 = (if page - offset > 1 then set_add (page - offset) s else s)"
  have off: "1 \<le> offset" using inv by (simp add: window_inv_def)
  have s1: "distinct s1" "length s1 \<le> m - 2" "set s1 = {1, n} \<union> {max 1 (page - offset)..min n (page + (offset - 1))}"
  proof -
    have s: "distinct s" "set s = {1, n} \<union> {max 1 (page - (offset - 1))..min n (page + (offset - 1))}"
      using inv by (simp_all only: window_inv_def)
    show "distinct s1" using s(1) by (simp add: s1_def)
    have "length s1 \<le> Suc (length s)" by (simp add: s1_def)
    then show "length s1 \<le> m - 2" using room by linarith
    have "set s1 = (if page - offset > 1 then insert (page - offset) (set s) else set s)" by (simp add: s1_def)
    then show "set s1 = {1, n} \<union> {max 1 (page - offset)..min n (page + (offset - 1))}"
      unfolding s(2) using extend_left [OF off page(1), of "min n (page + (offset - 1))" n] page by simp
  qed
  define s2 where "s2 = (if page + offset < n then set_add (page + offset) s1 else s1)"
  have w: "widen page n m offset s = (if length s1 < m - 2 then s2 else s1)"
    by (simp add: widen_def s1_def s2_def Let_def)
  have "set s2 = {1, n} \<union> {max 1 (page - offset)..min n (page + offset)}"
  proof -
    have "set s2 = (if page + offset < n then insert (page + offset) (set s1) else set s1)" by (simp add: s2_def)
    then show ?thesis unfolding s1(3) using extend_right [OF off, of "max 1 (page - offset)" page n] page by simp
  qed
  moreover have "distinct s2" "length s2 \<le> Suc (length s1)"
    using s1(1) set_add_facts(3) [of "page + offset" s1] by (auto simp: s2_def)
  ultimately have s2: "distinct s2" "length s2 \<le> Suc (length s1)"
    "set s2 = {1, n} \<union> {max 1 (page - offset)..min n (page + offset)}" by auto
  show "window_ok page n m (widen page n m offset s)"
  proof (cases "length s1 < m - 2")
    case True
    then show ?thesis unfolding w using s2 page by (simp add: window_okI [where a = offset and b = offset])
  next
    case False
    then show ?thesis unfolding w using s1 page by (simp add: window_okI [where a = offset and b = "offset - 1"])
  qed
  show "window_inv page n m (offset + 1) (widen page n m offset s)"
    if "length (widen page n m offset s) < m - 2"
    using that s1 s2 unfolding w by (auto simp: window_inv_def split: if_splits)
qed

lemma window_slots_ok:
  assumes "window_inv page n m offset s \<or> (window_ok page n m s \<and> m - 2 \<le> length s)" "1 \<le> page" "page \<le> n"
  shows "window_ok page n m (window_slots page n m offset s)"
  using assms
proof (induction page n m offset s rule: window_slots.induct)
  case (1 page n m offset s)
  show ?case
  proof (cases "length s < m - 2 \<and> offset \<le> n")
    case True
    then have inv: "window_inv page n m offset s" using 1(2) by auto
    have "window_inv page n m (offset + 1) (widen page n m offset s) \<or>
        (window_ok page n m (widen page n m offset s) \<and> m - 2 \<le> length (widen page n m offset s))"
      using widen_inv [OF inv _ 1(3,4)] True by (meson not_le)
    then show ?thesis using 1(1) [OF True] 1(3,4) True by (simp add: window_slots.simps [of page n m offset s])
  next
    case False
    have "window_ok page n m s"
      using 1(2)
    proof
      assume "window_inv page n m offset s"
      then show ?thesis using 1(3,4) by (intro window_okI [where a = "offset - 1" and b = "offset - 1"]) (auto simp: window_inv_def)
    qed simp
    then show ?thesis unfolding window_slots.simps [of page n m offset s] if_not_P [OF False] .
  qed
qed

lemma with_gaps_block:
  "k \<le> h \<Longrightarrow> with_gaps (Some k) ([Suc k..<Suc h] @ rest) = map Some [Suc k..<Suc h] @ with_gaps (Some h) rest"
proof (induction "h - k" arbitrary: k)
  case 0
  then show ?case by simp
next
  case (Suc d)
  then have "[Suc k..<Suc h] = Suc k # [Suc (Suc k)..<Suc h]" by (intro upt_conv_Cons) simp
  then show ?case using Suc(1) [of "Suc k"] Suc(2,3) by simp
qed

definition window_list :: "nat \<Rightarrow> nat \<Rightarrow> nat \<Rightarrow> nat list" where
  "window_list lo hi n = (if lo = 1 then [] else [1]) @ [lo..<Suc hi] @ (if hi = n then [] else [n])"

definition window_shape :: "nat \<Rightarrow> nat \<Rightarrow> nat \<Rightarrow> nat option list" where
  "window_shape lo hi n =
     (if lo = 1 then [] else Some 1 # (if lo = 2 then [] else [None])) @ map Some [lo..<Suc hi] @
     (if hi = n then [] else (if Suc hi = n then [] else [None]) @ [Some n])"

lemma with_gaps_window:
  assumes "1 \<le> lo" "lo \<le> hi" "hi \<le> n"
  shows "with_gaps None (window_list lo hi n) = window_shape lo hi n"
proof -
  have block: "[lo..<Suc hi] = lo # [Suc lo..<Suc hi]" using assms(2) by (intro upt_conv_Cons) simp
  have tail: "with_gaps (Some hi) (if hi = n then [] else [n]) =
      (if hi = n then [] else (if Suc hi = n then [] else [None]) @ [Some n])"
    using assms(3) by auto
  have "with_gaps prev ([lo..<Suc hi] @ (if hi = n then [] else [n])) =
      (case prev of Some m \<Rightarrow> (if lo - m > 1 then [None] else []) | None \<Rightarrow> []) @ map Some [lo..<Suc hi] @
      (if hi = n then [] else (if Suc hi = n then [] else [None]) @ [Some n])" for prev
    unfolding block tail [symmetric] using with_gaps_block [OF assms(2)] by simp
  then show ?thesis using assms by (auto simp: window_list_def window_shape_def)
qed

lemma sorted_slots:
  assumes "distinct s" "set s = {1, n} \<union> {lo..hi}" "1 \<le> lo" "lo \<le> hi" "hi \<le> n"
  shows "js_sort (by_key int) s = window_list lo hi n"
proof (rule sorted_distinct_set_unique)
  show "sorted (js_sort (by_key int) s)"
    using key_asc.sorted_js_sort [of int s] by (simp add: by_key_def)
  show "distinct (js_sort (by_key int) s)" using assms(1) by (metis mset_js_sort mset_eq_imp_distinct_iff)
  show "sorted (window_list lo hi n)" "distinct (window_list lo hi n)"
    using assms(3-5) by (auto simp: window_list_def sorted_append)
  show "set (js_sort (by_key int) s) = set (window_list lo hi n)"
  proof -
    have block: "set [lo..<Suc hi] = {lo..hi}" by (simp only: set_upt atLeastLessThanSuc_atLeastAtMost)
    have "1 \<in> {lo..hi}" if "lo = 1" using that assms(4) by simp
    moreover have "n \<in> {lo..hi}" if "hi = n" using that assms(4) by simp
    ultimately have "{1, n} \<union> {lo..hi} = (if lo = 1 then {} else {1}) \<union> {lo..hi} \<union> (if hi = n then {} else {n})"
      by (cases "lo = 1"; cases "hi = n") (simp_all add: insert_absorb insert_commute)
    then show ?thesis unfolding window_list_def set_append block set_js_sort assms(2) by (simp split: if_split)
  qed
qed

text \<open>
  The page window always has the same shape and never outgrows its slots: with few pages it lists them all; with
  more it is the first page, a block of neighbours that contains the current page, and the last page, with a gap
  mark exactly where numbers are skipped, and it has at most \<open>maxSlots\<close> entries.
\<close>

theorem pageWindow_shape:
  assumes "1 \<le> page" "page \<le> n" "5 \<le> m"
  shows "length (pageWindow page n m) \<le> m \<and>
         (if n \<le> m then pageWindow page n m = map Some [1..<Suc n]
          else \<exists>lo hi. 1 \<le> lo \<and> lo \<le> page \<and> page \<le> hi \<and> hi \<le> n \<and> pageWindow page n m = window_shape lo hi n)"
proof (cases "n \<le> m")
  case True
  then show ?thesis by (simp add: pageWindow_def)
next
  case False
  let ?s = "window_slots page n m 1 (set_add page (set_add n [1]))"
  have "length (set_add page (set_add n [1])) \<le> 3" by (simp add: set_add_def)
  then have "window_inv page n m 1 (set_add page (set_add n [1]))"
    using assms by (auto simp: window_inv_def)
  then have "window_ok page n m ?s" using window_slots_ok assms by blast
  then obtain lo hi where ok: "distinct ?s" "length ?s \<le> m - 2" "1 \<le> lo" "lo \<le> page" "page \<le> hi" "hi \<le> n"
      "set ?s = {1, n} \<union> {lo..hi}"
  proof -
    have "max 3 (m - 2) = m - 2" using assms(3) by simp
    then show ?thesis using \<open>window_ok page n m ?s\<close> that unfolding window_ok_def by (elim conjE exE) simp
  qed
  have sorted: "js_sort (by_key int) ?s = window_list lo hi n"
    using ok by (intro sorted_slots) auto
  then have shape: "pageWindow page n m = window_shape lo hi n"
    using False ok with_gaps_window [of lo hi n] by (simp add: pageWindow_def)
  have "length (window_list lo hi n) \<le> m - 2" using ok(2) sorted by (metis length_js_sort)
  then have "length (window_shape lo hi n) \<le> m"
    using assms(3) by (auto simp: window_list_def window_shape_def split: if_splits)
  then show ?thesis using False ok shape by auto
qed

theorem pageWindow_shape_witness: "length (pageWindow 10 40 7) \<le> 7"
  using pageWindow_shape [of 10 40 7] by simp

end
