(* ===== verification/AdminState.thy ===== *)
theory AdminState
  imports AdminApi BrowserStorage
begin

text \<open>
  State of the admin pages: loading data with superseded requests dropped (\<open>admin-frontend/src/hooks/use-async-data.ts\<close>),
  as a state machine over starting, settling, unmounting and mounting, and the draft of a problem
  (\<open>components/problem-editor/use-problem-draft.ts\<close>) over the browser's storage.
\<close>

section \<open>Loading\<close>

record 'a loading =
  ld_data :: 'a
  ld_error :: "string option"
  ld_loading :: bool
  ld_refreshing :: bool
  ld_mounted :: bool
  ld_request :: nat
  ld_pending :: "nat set"

text \<open>
  \<open>run(isRefresh)\<close> up to its \<open>await\<close>; the rest of \<open>run\<close> when the loader settles; the mount effect with its cleanup.
  \<open>ld_pending\<close> is the set of requests whose loader has not settled.
\<close>

definition start_request :: "bool \<Rightarrow> 'a loading \<Rightarrow> 'a loading" where
  "start_request isRefresh s =
     (let k = Suc (ld_request s); s1 = s\<lparr>ld_request := k, ld_pending := insert k (ld_pending s)\<rparr>
      in if isRefresh then s1\<lparr>ld_refreshing := True\<rparr> else s1\<lparr>ld_loading := True\<rparr>)"

definition settle_request :: "string \<Rightarrow> nat \<Rightarrow> exn + 'a \<Rightarrow> 'a loading \<Rightarrow> 'a loading" where
  "settle_request fallback k result s =
     (let s1 = s\<lparr>ld_pending := ld_pending s - {k}\<rparr>
      in if \<not> ld_mounted s \<or> k \<noteq> ld_request s then s1
         else (case result of
                 Inr d \<Rightarrow> s1\<lparr>ld_data := d, ld_error := None, ld_loading := False, ld_refreshing := False\<rparr>
               | Inl x \<Rightarrow> s1\<lparr>ld_error := Some (getErrorMessage x fallback), ld_loading := False, ld_refreshing := False\<rparr>))"

definition unmount :: "'a loading \<Rightarrow> 'a loading" where
  "unmount s = s\<lparr>ld_mounted := False\<rparr>"

definition remount :: "'a loading \<Rightarrow> 'a loading" where
  "remount s = start_request False (s\<lparr>ld_mounted := True\<rparr>)"

definition first_render :: "'a \<Rightarrow> 'a loading" where
  "first_render initial =
     remount \<lparr>ld_data = initial, ld_error = None, ld_loading = True, ld_refreshing = False,
              ld_mounted = True, ld_request = 0, ld_pending = {}\<rparr>"

inductive async_step :: "string \<Rightarrow> 'a loading \<Rightarrow> 'a loading \<Rightarrow> bool" for fallback :: string where
  Reload: "ld_mounted s \<Longrightarrow> async_step fallback s (start_request isRefresh s)"
| Settle: "k \<in> ld_pending s \<Longrightarrow> async_step fallback s (settle_request fallback k result s)"
| Unmount: "ld_mounted s \<Longrightarrow> async_step fallback s (unmount s)"
| Remount: "\<not> ld_mounted s \<Longrightarrow> async_step fallback s (remount s)"

definition loading_inv :: "'a loading \<Rightarrow> bool" where
  "loading_inv s \<longleftrightarrow>
     (\<forall>k\<in>ld_pending s. 1 \<le> k \<and> k \<le> ld_request s) \<and>
     (ld_mounted s \<longrightarrow> (ld_loading s \<or> ld_refreshing s \<longleftrightarrow> ld_request s \<in> ld_pending s))"

lemma start_request_inv: "\<forall>k\<in>ld_pending s. 1 \<le> k \<and> k \<le> ld_request s \<Longrightarrow> loading_inv (start_request r s)"
  by (fastforce simp: loading_inv_def start_request_def Let_def le_Suc_eq)

lemma settle_request_inv: "loading_inv s \<Longrightarrow> loading_inv (settle_request fallback k result s)"
  by (auto simp: loading_inv_def settle_request_def Let_def split: sum.split)

lemma async_step_inv:
  assumes "loading_inv s" "async_step fallback s s'"
  shows "loading_inv s'"
proof -
  have pending: "\<forall>k\<in>ld_pending s. 1 \<le> k \<and> k \<le> ld_request s" using assms(1) by (simp add: loading_inv_def)
  from assms(2) show ?thesis
  proof (cases rule: async_step.cases)
    case (Reload isRefresh)
    then show ?thesis using start_request_inv [OF pending] by simp
  next
    case (Settle k result)
    then show ?thesis using settle_request_inv [OF assms(1)] by simp
  next
    case Unmount
    then show ?thesis using pending by (simp add: loading_inv_def unmount_def)
  next
    case Remount
    then show ?thesis using start_request_inv [of "s\<lparr>ld_mounted := True\<rparr>" False] pending by (simp add: remount_def)
  qed
qed

lemma first_render_inv: "loading_inv (first_render initial)"
  unfolding first_render_def remount_def by (intro start_request_inv) simp

interpretation async_data: state_machine "\<lambda>s. \<exists>initial. s = first_render initial" "async_step fallback" loading_inv
  for fallback
  by unfold_locales (auto intro: first_render_inv async_step_inv)

text \<open>
  The spinner tells the truth: in every reachable state of a mounted page, some indicator (loading or refreshing)
  is on exactly while the most recent request is outstanding, so it can never stay on after that request has
  settled, and never disappears early because an older one did.
\<close>

theorem async_indicator_truthful:
  assumes "reaches (\<lambda>s. \<exists>initial. s = first_render initial) (async_step fallback) s" "ld_mounted s"
  shows "ld_loading s \<or> ld_refreshing s \<longleftrightarrow> ld_request s \<in> ld_pending s"
  using async_data.reaches_inv [OF assms(1)] assms(2) by (simp add: loading_inv_def)

theorem async_indicator_truthful_witness:
  "ld_loading (first_render ''x'') \<or> ld_refreshing (first_render ''x'') \<longleftrightarrow>
     ld_request (first_render ''x'') \<in> ld_pending (first_render ''x'')"
proof (rule async_indicator_truthful)
  show "reaches (\<lambda>s. \<exists>initial. s = first_render initial) (async_step ''failed'') (first_render ''x'')"
    by (rule reaches_init) blast
  show "ld_mounted (first_render ''x'')" by (simp add: first_render_def remount_def start_request_def)
qed



section \<open>The problem draft\<close>

definition DRAFT_STORAGE_KEY :: string where
  "DRAFT_STORAGE_KEY = ''mini_labyrithm_new_problem_draft''"

record draft_view =
  dv_storage :: storage
  dv_hasSavedDraft :: bool
  dv_draftRestored :: bool
  dv_applied :: "jsv option"

definition use_problem_draft :: "bool \<Rightarrow> storage \<Rightarrow> draft_view" where
  "use_problem_draft isEditing st =
     \<lparr>dv_storage = st,
      dv_hasSavedDraft = (\<not> isEditing \<and> (case storage_get st DRAFT_STORAGE_KEY of Some t \<Rightarrow> t \<noteq> [] | None \<Rightarrow> False)),
      dv_draftRestored = False, dv_applied = None\<rparr>"

definition draft_fields :: "string list" where
  "draft_fields = [''slug'', ''title'', ''difficulty'', ''maxScore'', ''timeLimitMs'', ''memoryLimitMb'', ''statement'',
     ''constraints'', ''samples'', ''published'']"

text \<open>The debounced save: only these fields, absent ones are left out of the JSON.\<close>

definition safe_payload :: "jsv \<Rightarrow> jsv" where
  "safe_payload current = Obj (filter (\<lambda>(k, v). v \<noteq> Undefined) (map (\<lambda>k. (k, get_opt current k)) draft_fields))"

definition autosave_draft :: "(storage \<Rightarrow> bool) \<Rightarrow> bool \<Rightarrow> jsv \<Rightarrow> draft_view \<Rightarrow> draft_view" where
  "autosave_draft fits isEditing current v =
     (if isEditing then v
      else v\<lparr>dv_storage := save_json fits DRAFT_STORAGE_KEY (safe_payload current) (dv_storage v)\<rparr>)"

definition restoreDraft :: "draft_view \<Rightarrow> draft_view" where
  "restoreDraft v =
     (case load_json DRAFT_STORAGE_KEY (dv_storage v) of
        None \<Rightarrow> v
      | Some parsed \<Rightarrow> v\<lparr>dv_applied := Some parsed, dv_draftRestored := True, dv_hasSavedDraft := False\<rparr>)"

definition discardDraft :: "draft_view \<Rightarrow> draft_view" where
  "discardDraft v = v\<lparr>dv_storage := storage_remove DRAFT_STORAGE_KEY (dv_storage v), dv_hasSavedDraft := False\<rparr>"

definition clearDraftOnSuccess :: "draft_view \<Rightarrow> draft_view" where
  "clearDraftOnSuccess v = v\<lparr>dv_storage := storage_remove DRAFT_STORAGE_KEY (dv_storage v)\<rparr>"

lemma safe_payload_field: "k \<in> set draft_fields \<Longrightarrow> get_opt (safe_payload current) k = get_opt current k"
proof -
  have field: "field (filter (\<lambda>(k, v). v \<noteq> Undefined) (map (\<lambda>k. (k, get_opt current k)) ks)) k =
      (if k \<in> set ks then get_opt current k else Undefined)" for ks
    by (induction ks) (auto simp: field_def)
  show "k \<in> set draft_fields \<Longrightarrow> ?thesis" by (simp add: safe_payload_def field)
qed

lemma safe_payload_ok:
  assumes "\<And>k. get_opt current k = Undefined \<or> json_ok (get_opt current k)"
  shows "json_ok (safe_payload current)"
proof -
  have "distinct draft_fields" by (simp add: draft_fields_def)
  then show ?thesis using assms
    by (auto simp: safe_payload_def list_all_iff filter_map o_def distinct_map)
qed

text \<open>
  A draft survives a reload: after the autosave of a new problem whose fields are JSON values, within the quota,
  restoring on a fresh page applies a draft that agrees with the form in every saved field; while an existing
  problem is edited nothing is ever saved, and discarding leaves nothing to restore.
\<close>

theorem draft_round_trip:
  assumes "\<And>k. get_opt current k = Undefined \<or> json_ok (get_opt current k)"
    and "storage_set fits DRAFT_STORAGE_KEY (stringify (safe_payload current)) st = Inr st'"
  shows "(\<exists>d. dv_applied (restoreDraft (use_problem_draft False
              (dv_storage (autosave_draft fits False current (use_problem_draft False st))))) = Some d \<and>
            (\<forall>k\<in>set draft_fields. get_opt d k = get_opt current k)) \<and>
         autosave_draft fits True current v = v \<and> restoreDraft (discardDraft v) = discardDraft v"
  using local_storage.load_save [OF safe_payload_ok [OF assms(1)] assms(2)]
  by (simp add: restoreDraft_def autosave_draft_def use_problem_draft_def safe_payload_field discardDraft_def
      local_storage.load_remove)

theorem draft_round_trip_witness:
  "\<exists>d. dv_applied (restoreDraft (use_problem_draft False (dv_storage (autosave_draft (\<lambda>_. True) False
         (Obj [(''title'', Str ''Two sum'')]) (use_problem_draft False []))))) = Some d \<and>
       get_opt d ''title'' = Str ''Two sum''"
proof -
  let ?c = "Obj [(''title'', Str ''Two sum'')]"
  have "get_opt ?c k = Undefined \<or> json_ok (get_opt ?c k)" for k by simp
  moreover have "\<exists>st'. storage_set (\<lambda>_. True) DRAFT_STORAGE_KEY (stringify (safe_payload ?c)) [] = Inr st'"
    by (simp add: storage_set_def Let_def)
  ultimately obtain d where "dv_applied (restoreDraft (use_problem_draft False (dv_storage (autosave_draft (\<lambda>_. True) False
         ?c (use_problem_draft False []))))) = Some d" "\<forall>k\<in>set draft_fields. get_opt d k = get_opt ?c k"
    using draft_round_trip [of ?c "\<lambda>_. True" "[]"] by blast
  moreover have "''title'' \<in> set draft_fields" by (simp add: draft_fields_def)
  ultimately show ?thesis by (auto intro!: exI [of _ d] dest: bspec)
qed

end
