(* ===== verification/CompetitorApi.thy ===== *)
theory CompetitorApi
  imports AdminApi
begin

text \<open>
  The competitor portal's edge: which window a request comes from (\<open>competitor-frontend/src/lib/desktop.ts\<close>),
  the authenticated request to the backend (\<open>lib/api/server.ts\<close>), the page gate (\<open>proxy.ts\<close>), the session
  actions (\<open>actions/auth.ts\<close>) and the same-origin proxy of the live submission feed
  (\<open>app/api/v1/submissions/stream/route.ts\<close>). Query strings and cookie headers are the pairs and texts the
  platform hands over; whether an upstream answer carries a body stream is the argument \<open>has_body\<close>.
\<close>

section \<open>The desktop client\<close>

definition DESKTOP_CLIENT_COOKIE :: string where
  "DESKTOP_CLIENT_COOKIE = ''labyrithm-client''"

definition DESKTOP_CLIENT_VALUE :: string where
  "DESKTOP_CLIENT_VALUE = ''desktop''"

definition CLIENT_HEADER :: string where
  "CLIENT_HEADER = ''X-Proctor-Client''"

definition WEB_CLIENT_VALUE :: string where
  "WEB_CLIENT_VALUE = ''web''"

lemmas desktop_constants = DESKTOP_CLIENT_COOKIE_def DESKTOP_CLIENT_VALUE_def CLIENT_HEADER_def WEB_CLIENT_VALUE_def

text \<open>What a page can see of its window: no document on the server, the client's global flag, the cookie text.\<close>

record page_window =
  pw_document :: "string option"
  pw_desktop_flag :: bool
  pw_search :: "(string \<times> string) list"

definition isDesktopClient :: "page_window \<Rightarrow> bool" where
  "isDesktopClient p =
     (case pw_document p of
        None \<Rightarrow> False
      | Some cookies \<Rightarrow>
          if pw_desktop_flag p then True
          else list_ex (\<lambda>entry. js_trim entry = DESKTOP_CLIENT_COOKIE @ ''='' @ DESKTOP_CLIENT_VALUE)
                 (split_char CHR '';'' cookies))"

text \<open>\<open>URLSearchParams\<close>: \<open>get\<close> reads the first pair of the name, \<open>set\<close> keeps one.\<close>

definition param_get :: "(string \<times> string) list \<Rightarrow> string \<Rightarrow> string option" where
  "param_get ps k = map_of ps k"

fun param_set :: "string \<Rightarrow> string \<Rightarrow> (string \<times> string) list \<Rightarrow> (string \<times> string) list" where
  "param_set k v [] = [(k, v)]"
| "param_set k v ((k', v') # ps) =
     (if k' = k then (k, v) # filter (\<lambda>(k'', v''). k'' \<noteq> k) ps else (k', v') # param_set k v ps)"

lemma param_get_filter: "k' \<noteq> k \<Longrightarrow> param_get (filter (\<lambda>(k'', v''). k'' \<noteq> k) ps) k' = param_get ps k'"
  by (induction ps) (auto simp: param_get_def)

lemma param_get_set: "param_get (param_set k v ps) k' = (if k' = k then Some v else param_get ps k')"
  using param_get_filter [of k' k]
  by (induction k v ps rule: param_set.induct) (auto simp: param_get_def)

text \<open>The text assigned to \<open>document.cookie\<close>, if any.\<close>

definition ensureDesktopClientCookie :: "page_window \<Rightarrow> string option" where
  "ensureDesktopClientCookie p =
     (if pw_document p = None then None
      else if param_get (pw_search p) ''client'' = Some DESKTOP_CLIENT_VALUE
      then Some (DESKTOP_CLIENT_COOKIE @ ''='' @ DESKTOP_CLIENT_VALUE @ ''; path=/; max-age=2592000; SameSite=Lax'')
      else None)"

definition closeDesktopApp :: "bool \<Rightarrow> unit io" where
  "closeDesktopApp has_window =
     (if \<not> has_window then ret ()
      else catch
        (bind (fetch \<lparr>req_url = ''http://127.0.0.1:47620/quit'', req_method = ''POST'', req_headers = [],
                      req_body = NoBody\<rparr>) (\<lambda>_. ret ()))
        (\<lambda>_. ret ()))"

section \<open>Requests to the backend\<close>

definition portal_headers :: "jsv \<Rightarrow> jsv \<Rightarrow> (string \<times> string) list \<Rightarrow> (string \<times> string) list \<Rightarrow> (string \<times> string) list" where
  "portal_headers session marker incoming h =
     (let h1 = auth_headers SESSION_COOKIE session h;
          desktop = (marker = Str DESKTOP_CLIENT_VALUE);
          h2 = header_set CLIENT_HEADER (if desktop then DESKTOP_CLIENT_VALUE else WEB_CLIENT_VALUE) h1
      in forward_headers (Some incoming) h2)"

definition portal_backendFetch :: "string \<Rightarrow> init \<Rightarrow> response io" where
  "portal_backendFetch path i =
     bind (asks env_in_headers) (\<lambda>hs. bind (lift hs) (\<lambda>incoming.
     bind (cookie SESSION_COOKIE) (\<lambda>session.
     bind (cookie DESKTOP_CLIENT_COOKIE) (\<lambda>marker.
     bind (asks env_api_url) (\<lambda>api.
     fetch \<lparr>req_url = api @ path, req_method = init_method i,
            req_headers = portal_headers session marker incoming (new_headers (i_headers i)),
            req_body = (case i_body i of None \<Rightarrow> NoBody | Some t \<Rightarrow> Text t)\<rparr>)))))"

text \<open>The request a call sends once the incoming headers were read.\<close>

definition portal_request :: "env \<Rightarrow> world \<Rightarrow> (string \<times> string) list \<Rightarrow> string \<Rightarrow> init \<Rightarrow> request" where
  "portal_request e w incoming path i =
     \<lparr>req_url = env_api_url e @ path, req_method = init_method i,
      req_headers = portal_headers (jar_value (jar w) SESSION_COOKIE) (jar_value (jar w) DESKTOP_CLIENT_COOKIE)
                      incoming (new_headers (i_headers i)),
      req_body = (case i_body i of None \<Rightarrow> NoBody | Some t \<Rightarrow> Text t)\<rparr>"

lemma portal_backendFetch_run [io_simps]:
  "portal_backendFetch path i e w =
     (case env_in_headers e of
        Inl x \<Rightarrow> (Inl x, w)
      | Inr incoming \<Rightarrow>
          (env_fetch e (sent w) (portal_request e w incoming path i), w\<lparr>sent := sent w @ [portal_request e w incoming path i]\<rparr>))"
  by (simp add: portal_backendFetch_def portal_request_def io_simps split: sum.split)

lemma portal_request_simps [simp]:
  "req_url (portal_request e w incoming path i) = env_api_url e @ path"
  "req_method (portal_request e w incoming path i) = init_method i"
  "body_text (req_body (portal_request e w incoming path i)) = i_body i"
  by (simp_all add: portal_request_def body_text_def split: option.split)

lemma portal_backendFetch_sends [sends_intros]: "sends_at_most 1 (portal_backendFetch path i)"
  by (auto simp: sends_at_most_def io_simps split: sum.split)

lemma sends_portal_then:
  "(\<And>r. sends_at_most 0 (f r)) \<Longrightarrow> sends_at_most 1 (bind (portal_backendFetch path i) f)"
  using sends_bind_after [OF portal_backendFetch_sends] by blast

lemma wp_portal_backendFetch:
  assumes "\<And>x. env_in_headers e = Inl x \<Longrightarrow> P (Inl x) w"
    and "\<And>incoming. env_in_headers e = Inr incoming \<Longrightarrow>
           P (env_fetch e (sent w) (portal_request e w incoming path i))
             (w\<lparr>sent := sent w @ [portal_request e w incoming path i]\<rparr>)"
  shows "wp (portal_backendFetch path i) P e w"
  using assms by (simp add: wp_def io_simps split: sum.split)

lemmas portal_sends_rules = sends_branch sends_catch_after sends_portal_then sends_bind_pure sends_intros

lemmas portal_wp_rules = wp_rules wp_portal_backendFetch

section \<open>The page gate\<close>

record page_request =
  pg_pathname :: string
  pg_params :: "(string \<times> string) list"
  pg_cookies :: "(string \<times> jsv) list"

datatype page_answer = Continue | RedirectTo string "(string \<times> string) list"

record page_response =
  pa_answer :: page_answer
  pa_cookies :: "(string \<times> string \<times> cookie_attrs) list"

definition GUARDED_PREFIXES :: "string list" where
  "GUARDED_PREFIXES = [''/challenges'', ''/leaderboard'', ''/submissions'']"

definition DESKTOP_COOKIE_MAX_AGE :: int where
  "DESKTOP_COOKIE_MAX_AGE = 60 * 60 * 24 * 30"

definition is_desktop_request :: "page_request \<Rightarrow> bool" where
  "is_desktop_request q \<longleftrightarrow>
     param_get (pg_params q) ''client'' = Some DESKTOP_CLIENT_VALUE \<or>
     jar_value (pg_cookies q) DESKTOP_CLIENT_COOKIE = Str DESKTOP_CLIENT_VALUE"

text \<open>\<open>cookies.set\<close> names no \<open>secure\<close>, so it is off; \<open>httpOnly\<close> is off explicitly.\<close>

definition portal_proxy :: "page_request \<Rightarrow> page_response" where
  "portal_proxy q =
     (let requiresSession = list_ex (\<lambda>prefix. starts_with (pg_pathname q) prefix) GUARDED_PREFIXES;
          sessionToken = jar_value (pg_cookies q) SESSION_COOKIE;
          isDesktop = is_desktop_request q
      in \<lparr>pa_answer =
            (if requiresSession \<and> \<not> truthy sessionToken
             then RedirectTo ''/login''
                    (if isDesktop then param_set ''client'' DESKTOP_CLIENT_VALUE (pg_params q) else pg_params q)
             else Continue),
          pa_cookies =
            (if isDesktop
             then [(DESKTOP_CLIENT_COOKIE, DESKTOP_CLIENT_VALUE,
                    \<lparr>ck_http_only = False, ck_secure = False, ck_same_site = ''lax'', ck_path = ''/'',
                     ck_max_age = IntV DESKTOP_COOKIE_MAX_AGE\<rparr>)]
             else [])\<rparr>)"

text \<open>The request a browser makes when it follows a redirect, with the cookies the answer set.\<close>

definition follow :: "page_request \<Rightarrow> page_response \<Rightarrow> page_request option" where
  "follow q a =
     (case pa_answer a of
        Continue \<Rightarrow> None
      | RedirectTo path ps \<Rightarrow>
          Some \<lparr>pg_pathname = path, pg_params = ps,
                pg_cookies = foldl (\<lambda>j (k, v, _). map_set k (Str v) j) (pg_cookies q) (pa_cookies a)\<rparr>)"

lemma login_unguarded: "\<not> list_ex (\<lambda>prefix. starts_with ''/login'' prefix) GUARDED_PREFIXES"
  by (simp add: GUARDED_PREFIXES_def)

text \<open>
  C3: The gate of the competitor portal: a page that needs a session is never served without the session cookie.
  The redirect goes to the login page, where following it always ends (no redirect loop), keeps every query parameter
  other than \<open>client\<close>, and a desktop window stays a desktop window across it; the marker cookie is set exactly
  for desktop windows.
\<close>

theorem portal_gate:
  "(pa_answer (portal_proxy q) = Continue \<longleftrightarrow>
      truthy (jar_value (pg_cookies q) SESSION_COOKIE) \<or>
      (\<forall>p\<in>set GUARDED_PREFIXES. \<not> starts_with (pg_pathname q) p)) \<and>
   (pa_cookies (portal_proxy q) \<noteq> [] \<longleftrightarrow> is_desktop_request q) \<and>
   (\<forall>q'. follow q (portal_proxy q) = Some q' \<longrightarrow>
      pg_pathname q' = ''/login'' \<and> pa_answer (portal_proxy q') = Continue \<and>
      is_desktop_request q' = is_desktop_request q \<and>
      (\<forall>k. k \<noteq> ''client'' \<longrightarrow> param_get (pg_params q') k = param_get (pg_params q) k))"
proof -
  have follow: "pg_pathname q' = ''/login'' \<and> is_desktop_request q' = is_desktop_request q \<and>
      (\<forall>k. k \<noteq> ''client'' \<longrightarrow> param_get (pg_params q') k = param_get (pg_params q) k)"
    if "follow q (portal_proxy q) = Some q'" for q'
    using that
    by (auto simp: follow_def portal_proxy_def Let_def is_desktop_request_def param_get_set jar_value_set
        split: if_splits)
  have login: "pa_answer (portal_proxy q') = Continue" if "pg_pathname q' = ''/login''" for q'
    using that login_unguarded by (simp add: portal_proxy_def Let_def)
  have "pa_answer (portal_proxy q) = Continue \<longleftrightarrow>
      truthy (jar_value (pg_cookies q) SESSION_COOKIE) \<or>
      (\<forall>p\<in>set GUARDED_PREFIXES. \<not> starts_with (pg_pathname q) p)"
    by (auto simp: portal_proxy_def Let_def list_ex_iff)
  moreover have "pa_cookies (portal_proxy q) \<noteq> [] \<longleftrightarrow> is_desktop_request q"
    by (simp add: portal_proxy_def Let_def)
  ultimately show ?thesis using follow login by blast
qed

theorem portal_gate_witness:
  "is_desktop_request (the (follow \<lparr>pg_pathname = ''/challenges/two-sum'', pg_params = [(''client'', ''desktop'')], pg_cookies = []\<rparr>
      (portal_proxy \<lparr>pg_pathname = ''/challenges/two-sum'', pg_params = [(''client'', ''desktop'')], pg_cookies = []\<rparr>)))"
proof -
  let ?q = "\<lparr>pg_pathname = ''/challenges/two-sum'', pg_params = [(''client'', ''desktop'')], pg_cookies = []\<rparr>"
  have "is_desktop_request ?q" by (simp add: is_desktop_request_def param_get_def DESKTOP_CLIENT_VALUE_def)
  moreover have "follow ?q (portal_proxy ?q) = Some (the (follow ?q (portal_proxy ?q)))"
    by (simp add: follow_def portal_proxy_def Let_def GUARDED_PREFIXES_def jar_value_def map_get_def)
  ultimately show ?thesis using portal_gate [of ?q] by blast
qed

section \<open>The session actions\<close>

definition portal_loginAction :: "parser \<Rightarrow> jsv \<Rightarrow> auth_result io" where
  "portal_loginAction sp credentials = authenticateUser sp credentials (Some ''competitor'') SESSION_COOKIE"

definition portal_logoutAction :: "unit io" where
  "portal_logoutAction = revokeUserSession SESSION_COOKIE"

definition portal_getSessionUserAction :: "jsv io" where
  "portal_getSessionUserAction = fetchSessionUser SESSION_COOKIE"

definition portal_changePasswordAction :: "parser \<Rightarrow> jsv \<Rightarrow> jsv \<Rightarrow> ok_result io" where
  "portal_changePasswordAction sp currentPassword newPassword =
     changeUserPassword sp currentPassword newPassword SESSION_COOKIE"

end
