(* ===== verification/StreamProxy.thy ===== *)
theory StreamProxy
  imports CompetitorApi
begin

text \<open>
  The same-origin proxy of the live submission feed
  (\<open>competitor-frontend/src/app/api/v1/submissions/stream/route.ts\<close>): cookies read from the raw header, the
  request that subscribes upstream, and the pump that copies the upstream stream to the browser, one turn of its
  loop at a time. Whether an upstream answer carries a body stream is the argument \<open>has_body\<close>; the turns of the
  pump are driven by what the platform reports (aborted, read, written).
\<close>

section \<open>Cookies of the raw header\<close>

fun find_cookie :: "string list \<Rightarrow> string \<Rightarrow> string option" where
  "find_cookie [] name = None"
| "find_cookie (part # parts) name =
     (case split_char CHR ''='' (js_trim part) of
        [] \<Rightarrow> find_cookie parts name
      | k # rest \<Rightarrow>
          if k = name
          then (let v = join_with ''='' rest in if v = [] then None else Some v)
          else find_cookie parts name)"

definition readCookie :: "string \<Rightarrow> string \<Rightarrow> string option" where
  "readCookie header name = find_cookie (split_char CHR '';'' header) name"

text \<open>The header a browser sends for these cookies.\<close>

definition cookie_header :: "(string \<times> string) list \<Rightarrow> string" where
  "cookie_header ps = join_with ''; '' (map (\<lambda>(k, v). k @ ''='' @ v) ps)"

definition cookie_pair_ok :: "string \<times> string \<Rightarrow> bool" where
  "cookie_pair_ok = (\<lambda>(k, v).
     k \<noteq> [] \<and> v \<noteq> [] \<and> CHR ''='' \<notin> set k \<and> CHR '';'' \<notin> set k \<and> CHR '';'' \<notin> set v \<and>
     list_all (\<lambda>c. \<not> js_ws c) k \<and> list_all (\<lambda>c. \<not> js_ws c) v)"

lemma split_cookie_header:
  assumes "ps \<noteq> []" "list_all cookie_pair_ok ps"
  shows "split_char CHR '';'' (cookie_header ps) =
           (case map (\<lambda>(k, v). k @ ''='' @ v) ps of [] \<Rightarrow> [] | t # ts \<Rightarrow> t # map (\<lambda>t. CHR '' '' # t) ts)"
  using assms
proof (induction ps rule: induct_list012)
  case (3 p q ps)
  obtain k v where p: "p = (k, v)" by (cases p)
  have semi: "CHR '';'' \<notin> set (k @ ''='' @ v)" using "3.prems" by (simp add: p cookie_pair_ok_def)
  have "cookie_header (p # q # ps) = (k @ ''='' @ v) @ CHR '';'' # CHR '' '' # cookie_header (q # ps)"
    by (simp add: cookie_header_def p)
  then have "split_char CHR '';'' (cookie_header (p # q # ps)) =
      (k @ ''='' @ v) # split_char CHR '';'' (CHR '' '' # cookie_header (q # ps))"
    using split_char_append [OF semi] by simp
  moreover have "split_char CHR '';'' (cookie_header (q # ps)) =
      (case map (\<lambda>(k, v). k @ ''='' @ v) (q # ps) of [] \<Rightarrow> [] | t # ts \<Rightarrow> t # map (\<lambda>t. CHR '' '' # t) ts)"
    using "3.IH"(2) "3.prems" by simp
  ultimately show ?case by (simp add: p split_char_Cons_neq)
qed (auto simp: cookie_header_def cookie_pair_ok_def split_char_atom)

lemma trim_pair:
  assumes "cookie_pair_ok (k, v)"
  shows "js_trim (k @ CHR ''='' # v) = k @ CHR ''='' # v" "js_trim (CHR '' '' # k @ CHR ''='' # v) = k @ CHR ''='' # v"
proof -
  have ws: "\<not> js_ws (hd k)" "\<not> js_ws (last v)" "k \<noteq> []" "v \<noteq> []"
    using assms by (auto simp: cookie_pair_ok_def list_all_iff)
  then show *: "js_trim (k @ CHR ''='' # v) = k @ CHR ''='' # v" by (intro js_trim_id) (simp add: hd_append)
  have "js_trim (CHR '' '' # s) = js_trim s" for s by (simp add: js_trim_def js_ws_def)
  then show "js_trim (CHR '' '' # k @ CHR ''='' # v) = k @ CHR ''='' # v" using * by simp
qed

lemma find_cookie_step:
  assumes "cookie_pair_ok (k, v)" "js_trim part = k @ CHR ''='' # v"
  shows "find_cookie (part # parts) name = (if k = name then Some v else find_cookie parts name)"
proof -
  have "split_char CHR ''='' (k @ CHR ''='' # v) = k # split_char CHR ''='' v"
    using assms(1) by (intro split_char_append) (simp add: cookie_pair_ok_def)
  then show ?thesis using assms by (simp add: join_split_char cookie_pair_ok_def)
qed

lemma find_cookie_pairs:
  "list_all cookie_pair_ok ps \<Longrightarrow>
     find_cookie (map (\<lambda>t. CHR '' '' # t) (map (\<lambda>(k, v). k @ ''='' @ v) ps)) name = map_of ps name"
proof (induction ps)
  case (Cons p ps)
  obtain k v where p: "p = (k, v)" by (cases p)
  then show ?case using Cons find_cookie_step [of k v "CHR '' '' # k @ CHR ''='' # v"] trim_pair [of k v] by simp
qed simp

text \<open>
  Reading a cookie back from the raw header is exact: for every list of cookies in the form browsers send them, the
  reader returns the value of the first cookie of that name, in full even when the value itself contains \<open>=\<close>
  characters, and nothing for a name that was not sent; a name that is a prefix or suffix of another never matches.
\<close>

theorem readCookie_round_trip:
  assumes "list_all cookie_pair_ok ps"
  shows "readCookie (cookie_header ps) name = map_of ps name"
proof (cases ps)
  case Nil
  then show ?thesis by (simp add: readCookie_def cookie_header_def)
next
  case (Cons p qs)
  obtain k v where p: "p = (k, v)" by (cases p)
  have "readCookie (cookie_header ps) name =
      find_cookie ((k @ CHR ''='' # v) # map (\<lambda>t. CHR '' '' # t) (map (\<lambda>(k, v). k @ ''='' @ v) qs)) name"
    using split_cookie_header [of ps] assms by (simp add: readCookie_def Cons p)
  then show ?thesis
    using assms find_cookie_step [of k v "k @ CHR ''='' # v"] trim_pair [of k v] find_cookie_pairs [of qs name]
    by (simp add: Cons p)
qed

theorem readCookie_round_trip_witness:
  "readCookie (cookie_header [(''session_x'', ''no''), (''session'', ''dG9r=='')]) ''session'' = Some ''dG9r==''"
proof -
  have "list_all cookie_pair_ok [(''session_x'', ''no''), (''session'', ''dG9r=='')]"
    by (simp add: cookie_pair_ok_def js_ws_def)
  from readCookie_round_trip [OF this, of "''session''"] show ?thesis by simp
qed

section \<open>Subscribing upstream\<close>

datatype stream_answer =
    Refused nat string
  | Streaming "(string \<times> string) list" response

definition stream_headers :: "(string \<times> string) list" where
  "stream_headers = [(''Content-Type'', ''text/event-stream; charset=utf-8''), (''Cache-Control'', ''no-cache, no-transform''),
     (''Connection'', ''keep-alive''), (''X-Accel-Buffering'', ''no'')]"

definition upstream_headers :: "string \<Rightarrow> bool \<Rightarrow> (string \<times> string) list" where
  "upstream_headers session isDesktop =
     (let h = new_headers [(''Cookie'', SESSION_COOKIE @ ''='' @ session), (''Authorization'', ''Bearer '' @ session),
                           (''Accept'', ''text/event-stream'')]
      in if isDesktop then header_set CLIENT_HEADER DESKTOP_CLIENT_VALUE h else h)"

definition stream_GET :: "(response \<Rightarrow> bool) \<Rightarrow> string option \<Rightarrow> stream_answer io" where
  "stream_GET has_body cookie_text =
     (let raw = (case cookie_text of None \<Rightarrow> [] | Some t \<Rightarrow> t)
      in (case readCookie raw SESSION_COOKIE of
            None \<Rightarrow> ret (Refused 401 ''unauthenticated'')
          | Some session \<Rightarrow>
              (let isDesktop = readCookie raw DESKTOP_CLIENT_COOKIE = Some DESKTOP_CLIENT_VALUE
               in catch
                    (bind (asks env_api_url) (\<lambda>api.
                     bind (fetch \<lparr>req_url = api @ ''/api/v1/submissions/stream'', req_method = ''GET'',
                                  req_headers = upstream_headers session isDesktop, req_body = NoBody\<rparr>) (\<lambda>upstream.
                     ret (if \<not> rsp_ok upstream \<or> \<not> has_body upstream
                          then Refused (if rsp_status upstream \<noteq> 0 then rsp_status upstream else 502) ''upstream unavailable''
                          else Streaming stream_headers upstream))))
                    (\<lambda>_. ret (Refused 502 ''upstream unavailable'')))))"

section \<open>The pump\<close>

record pump_turn =
  pt_aborted :: bool
  pt_read :: "exn + string option"
  pt_write_ok :: bool

record pump =
  pp_running :: bool
  pp_written :: "string list"
  pp_writer_closed :: bool
  pp_reader_cancelled :: bool

definition pump_start :: pump where
  "pump_start = \<lparr>pp_running = True, pp_written = [], pp_writer_closed = False, pp_reader_cancelled = False\<rparr>"

text \<open>The \<open>finally\<close> block: both ends are released, a failure of one does not keep the other.\<close>

definition pump_finish :: "pump \<Rightarrow> pump" where
  "pump_finish s = s\<lparr>pp_running := False, pp_writer_closed := True, pp_reader_cancelled := True\<rparr>"

definition pump_turn :: "pump_turn \<Rightarrow> pump \<Rightarrow> pump" where
  "pump_turn t s =
     (if \<not> pp_running s then s
      else if pt_aborted t then pump_finish s
      else (case pt_read t of
              Inl _ \<Rightarrow> pump_finish s
            | Inr None \<Rightarrow> pump_finish s
            | Inr (Some value) \<Rightarrow>
                if pt_write_ok t then s\<lparr>pp_written := pp_written s @ [value]\<rparr> else pump_finish s))"

definition run_pump :: "pump_turn list \<Rightarrow> pump \<Rightarrow> pump" where
  "run_pump ts s = foldl (\<lambda>s t. pump_turn t s) s ts"

text \<open>A turn that copies a chunk.\<close>

fun copied :: "pump_turn \<Rightarrow> string option" where
  "copied t =
     (if pt_aborted t \<or> \<not> pt_write_ok t then None
      else (case pt_read t of Inr (Some value) \<Rightarrow> Some value | _ \<Rightarrow> None))"

lemma run_pump_stopped: "\<not> pp_running s \<Longrightarrow> run_pump ts s = s"
  by (induction ts) (auto simp: run_pump_def pump_turn_def)

lemma pump_turn_copied:
  "pp_running s \<Longrightarrow> pump_turn t s =
     (case copied t of Some value \<Rightarrow> s\<lparr>pp_written := pp_written s @ [value]\<rparr> | None \<Rightarrow> pump_finish s)"
  by (auto simp: pump_turn_def split: sum.splits option.splits)

lemma run_pump_prefix:
  "pp_running s \<Longrightarrow> run_pump ts s =
     (let s' = s\<lparr>pp_written := pp_written s @ map (the \<circ> copied) (takeWhile (\<lambda>t. copied t \<noteq> None) ts)\<rparr>
      in if list_all (\<lambda>t. copied t \<noteq> None) ts then s' else pump_finish s')"
proof (induction ts arbitrary: s)
  case Nil
  then show ?case by (simp add: run_pump_def)
next
  case (Cons t ts)
  have step: "run_pump (t # ts) s = run_pump ts (pump_turn t s)" by (simp add: run_pump_def)
  show ?case
  proof (cases "copied t")
    case None
    have "run_pump ts (pump_finish s) = pump_finish s" by (rule run_pump_stopped) (simp add: pump_finish_def)
    then show ?thesis using None Cons.prems
      by (simp only: step pump_turn_copied option.case) (simp add: Let_def del: copied.simps)
  next
    case (Some chunk)
    have "pp_running (s\<lparr>pp_written := pp_written s @ [chunk]\<rparr>)" using Cons.prems by simp
    from Cons.IH [OF this] show ?thesis using Some Cons.prems
      by (simp only: step pump_turn_copied option.case) (simp add: Let_def del: copied.simps)
  qed
qed

text \<open>
  C11: The feed proxy relays faithfully and leaks nothing: without a session cookie nothing is requested upstream and the
  answer is 401. Once streaming, the chunks the browser receives are exactly the upstream's chunks up to the first turn
  that aborts, ends, fails to read or fails to write, in order and without loss; from that turn on the pump is stopped
  with both ends released, and it is not stopped before.
\<close>

theorem stream_proxy_relays:
  assumes "readCookie header SESSION_COOKIE = None"
  shows "stream_GET has_body (Some header) e w = (Inr (Refused 401 ''unauthenticated''), w) \<and>
         stream_GET has_body None e w = (Inr (Refused 401 ''unauthenticated''), w) \<and>
         pp_written (run_pump ts pump_start) = map (the \<circ> copied) (takeWhile (\<lambda>t. copied t \<noteq> None) ts) \<and>
         (pp_running (run_pump ts pump_start) \<longleftrightarrow> list_all (\<lambda>t. copied t \<noteq> None) ts) \<and>
         (pp_writer_closed (run_pump ts pump_start) \<longleftrightarrow> \<not> pp_running (run_pump ts pump_start)) \<and>
         (pp_reader_cancelled (run_pump ts pump_start) \<longleftrightarrow> \<not> pp_running (run_pump ts pump_start))"
proof -
  have "readCookie [] SESSION_COOKIE = None" by (simp add: readCookie_def SESSION_COOKIE_def)
  moreover have "pp_running pump_start" by (simp add: pump_start_def)
  ultimately show ?thesis
    using assms run_pump_prefix [of pump_start ts]
    by (simp add: stream_GET_def io_simps Let_def pump_finish_def pump_start_def del: copied.simps)
qed

theorem stream_proxy_relays_witness:
  "pp_written (run_pump [\<lparr>pt_aborted = False, pt_read = Inr (Some ''a''), pt_write_ok = True\<rparr>,
                         \<lparr>pt_aborted = True, pt_read = Inr (Some ''b''), pt_write_ok = True\<rparr>] pump_start) = [''a'']"
proof -
  have none: "readCookie ''theme=dark'' SESSION_COOKIE = None" by code_simp
  show ?thesis
    using stream_proxy_relays [OF none, of undefined undefined undefined
        "[\<lparr>pt_aborted = False, pt_read = Inr (Some ''a''), pt_write_ok = True\<rparr>,
          \<lparr>pt_aborted = True, pt_read = Inr (Some ''b''), pt_write_ok = True\<rparr>]"] by simp
qed

end
