(* ===== verification/JsDate.thy ===== *)
theory JsDate
  imports JsValue
begin

text \<open>
  Points in time as the sources read them: milliseconds since the epoch, parsed from the ISO 8601 texts the
  backend sends (\<open>Date.parse\<close>, \<open>new Date(s).getTime()\<close>). A text must carry its zone (\<open>Z\<close> or an offset) or be a
  date alone; fractions of a second beyond milliseconds are cut off, a day or month overflow carries over, as the
  engine does. Every other text is \<open>NaN\<close> here: the engine's fallback grammar for other formats is not modelled.
\<close>

definition days_before_month :: "int \<Rightarrow> nat \<Rightarrow> int" where
  "days_before_month y m =
     [0, 31, 59, 90, 120, 151, 181, 212, 243, 273, 304, 334] ! (m - 1)
     + (if 2 < m \<and> 4 dvd y \<and> (\<not> 100 dvd y \<or> 400 dvd y) then 1 else 0)"

definition days_before_year :: "int \<Rightarrow> int" where
  "days_before_year y =
     365 * (y - 1970) + (y - 1969) div 4 - (y - 1901) div 100 + (y - 1601) div 400"

definition day_number :: "nat \<Rightarrow> nat \<Rightarrow> nat \<Rightarrow> int" where
  "day_number y m d = days_before_year (int y) + days_before_month (int y) m + int d - 1"

definition digits :: "nat \<Rightarrow> string \<Rightarrow> (nat \<times> string) option" where
  "digits n s =
     (if n \<le> length s \<and> list_all is_digit (take n s) then Some (read_nat (take n s), drop n s) else None)"

definition expect :: "char \<Rightarrow> string \<Rightarrow> string option" where
  "expect c s = (case s of [] \<Rightarrow> None | d # r \<Rightarrow> if d = c then Some r else None)"

text \<open>The date, the fraction of a second and the zone, with what is left of the text.\<close>

definition iso_day :: "string \<Rightarrow> (int \<times> string) option" where
  "iso_day s =
     Option.bind (digits 4 s) (\<lambda>(y, s1). Option.bind (expect CHR ''-'' s1) (\<lambda>s2.
     Option.bind (digits 2 s2) (\<lambda>(m, s3). Option.bind (expect CHR ''-'' s3) (\<lambda>s4.
     Option.bind (digits 2 s4) (\<lambda>(d, s5).
     if 1 \<le> m \<and> m \<le> 12 \<and> 1 \<le> d \<and> d \<le> 31 then Some (day_number y m d, s5) else None)))))"

definition iso_fraction :: "string \<Rightarrow> (nat \<times> string) option" where
  "iso_fraction s =
     (case expect CHR ''.'' s of
        None \<Rightarrow> Some (0, s)
      | Some r \<Rightarrow>
          let (ds, r') = span_digits r
          in if ds = [] then None else Some (read_nat (take 3 (ds @ ''00'')), r'))"

definition iso_zone :: "string \<Rightarrow> int option" where
  "iso_zone s =
     (case s of
        [] \<Rightarrow> None
      | c # r \<Rightarrow>
          if c = CHR ''Z'' then (if r = [] then Some 0 else None)
          else if c = CHR ''+'' \<or> c = CHR ''-'' then
            Option.bind (digits 2 r) (\<lambda>(h, r1). Option.bind (expect CHR '':'' r1) (\<lambda>r2.
            Option.bind (digits 2 r2) (\<lambda>(m, r3).
            if r3 = [] \<and> h \<le> 23 \<and> m \<le> 59
            then Some ((if c = CHR ''-'' then - 1 else 1) * (int h * 60 + int m)) else None)))
          else None)"

definition iso_ms :: "string \<Rightarrow> int option" where
  "iso_ms s =
     Option.bind (iso_day s) (\<lambda>(day, r).
     if r = [] then Some (day * 86400000)
     else
       Option.bind (expect CHR ''T'' r) (\<lambda>r1.
       Option.bind (digits 2 r1) (\<lambda>(h, r2). Option.bind (expect CHR '':'' r2) (\<lambda>r3.
       Option.bind (digits 2 r3) (\<lambda>(m, r4).
       Option.bind
         (case expect CHR '':'' r4 of
            None \<Rightarrow> Some (0, 0, r4)
          | Some r5 \<Rightarrow> Option.bind (digits 2 r5) (\<lambda>(sec, r6). map_option (\<lambda>(ms, r7). (sec, ms, r7)) (iso_fraction r6)))
         (\<lambda>(sec, ms, r8).
       Option.bind (iso_zone r8) (\<lambda>zone.
       if m \<le> 59 \<and> sec \<le> 59 \<and> (h \<le> 23 \<or> (h = 24 \<and> m = 0 \<and> sec = 0 \<and> ms = 0))
       then Some (day * 86400000 + ((int h * 60 + int m - zone) * 60 + int sec) * 1000 + int ms)
       else None)))))))"

text \<open>\<open>Date.parse(s)\<close>\<close>

definition date_parse :: "string \<Rightarrow> jsnum" where
  "date_parse s = (case iso_ms s of None \<Rightarrow> NaN | Some t \<Rightarrow> Fin (of_int t))"

text \<open>\<open>new Date(v).getTime()\<close> of a field: a text is parsed, a number is itself, \<open>null\<close> is the epoch.\<close>

definition date_time :: "jsv \<Rightarrow> jsnum" where
  "date_time v =
     (case v of
        Str s \<Rightarrow> date_parse s
      | Null \<Rightarrow> Fin 0
      | Bool b \<Rightarrow> Fin (if b then 1 else 0)
      | Num (Fin r) \<Rightarrow> if abs r \<le> 8640000000000000 then Fin (of_int (if r < 0 then \<lceil>r\<rceil> else \<lfloor>r\<rfloor>)) else NaN
      | _ \<Rightarrow> NaN)"

lemma date_parse_epoch: "date_parse ''1970-01-01T00:00:00Z'' = Fin 0"
  by (simp add: date_parse_def iso_ms_def iso_day_def iso_zone_def iso_fraction_def digits_def expect_def is_digit_def
      day_number_def days_before_year_def days_before_month_def read_nat_def digit_value_def)

end
