(* ===== verification/CompetitorActions.thy ===== *)
theory CompetitorActions
  imports CompetitorApi JsDate
begin

text \<open>
  The competitor portal's server actions: its schemas (\<open>competitor-frontend/src/lib/validation\<close>), running and
  submitting code (\<open>actions/code.ts\<close>, \<open>lib/runner.ts\<close>), and the read actions for the contest, the
  disclosure, the leaderboard, the problems and the proctoring status (\<open>actions\<close>, \<open>lib/proctor-gate.ts\<close>).
  The request option \<open>cache: no-store\<close> and the console messages are left out; the text of a local clock time is the
  argument \<open>clock\<close>, and React's per-request \<open>cache\<close> around the gate is not modelled: the function is.
\<close>

section \<open>Schemas\<close>

definition SUPPORTED_LANGUAGES :: "string list" where
  "SUPPORTED_LANGUAGES = [''c'', ''cpp'', ''c++'', ''py'', ''python'', ''python3'', ''java'', ''js'', ''javascript'',
     ''node'', ''rust'', ''rs'']"

definition language_schema :: schema where
  "language_schema = ZString [Trim, MinLength 1 ''Language is required'', MaxLength 20 ''Language identifier too long'',
     StrRefine (\<lambda>val. js_lower val \<in> set SUPPORTED_LANGUAGES) ''Unsupported programming language'']"

definition code_schema :: schema where
  "code_schema = ZString [MinLength 1 ''Code cannot be empty'', MaxLength 100000 ''Code exceeds maximum limit (100KB)'']"

definition runCodeInputSchema :: schema where
  "runCodeInputSchema = ZObject
     [(''problemId'', ZDefault (ZOptional (ZString [Trim, MaxLength 100 ''Problem ID too long''])) (Str [])),
      (''language'', language_schema),
      (''code'', code_schema),
      (''stdin'', ZDefault (ZOptional (ZString [MaxLength 1000000 ''Custom input exceeds maximum limit (1MB)''])) (Str []))]"

definition counter_schema :: "int \<Rightarrow> schema" where
  "counter_schema n = ZNumber [IntOnly ''Invalid input'', MinValue 0 ''Too small'', MaxValue n ''Too big'']"

definition submit_shape :: "(string \<times> schema) list" where
  "submit_shape =
     [(''problemId'', ZString [Trim, MinLength 1 ''Problem ID is required'', MaxLength 100 ''Problem ID too long'']),
      (''language'', language_schema),
      (''code'', code_schema),
      (''previousBest'', ZDefault (ZOptional (counter_schema 10000)) (IntV 0)),
      (''attestNonce'', ZOptional (ZNullable (ZString [MaxLength 256 ''Attestation nonce too long'']))),
      (''typedCount'', ZOptional (counter_schema 1000000)),
      (''pasteCount'', ZOptional (counter_schema 100000)),
      (''pastedChars'', ZOptional (counter_schema 1000000)),
      (''maxPasteSize'', ZOptional (counter_schema 1000000))]"

definition submitCodeInputSchema :: schema where
  "submitCodeInputSchema = ZObject submit_shape"

definition CONTEST_STATUSES :: "string list" where
  "CONTEST_STATUSES = [''NOT_STARTED'', ''RUNNING'', ''PAUSED'', ''ENDED'']"

definition contestStatusSchema :: schema where
  "contestStatusSchema = ZEnum CONTEST_STATUSES"

definition DEFAULT_SESSION_TITLE :: string where
  "DEFAULT_SESSION_TITLE = ''Labyrithm Session''"

definition seconds_schema :: "int \<Rightarrow> schema" where
  "seconds_schema d = ZDefault (ZCoerceNumber [IntOnly ''Invalid input'', NonNegative ''Too small'']) (IntV d)"

text \<open>The default of \<open>serverTime\<close> is the time of the parse.\<close>

definition contest_shape :: "string \<Rightarrow> (string \<times> schema) list" where
  "contest_shape now =
     [(''title'', ZDefault (ZString []) (Str DEFAULT_SESSION_TITLE)),
      (''status'', ZDefault contestStatusSchema (Str ''NOT_STARTED'')),
      (''startTime'', ZOptional (ZNullable (ZString []))),
      (''endTime'', ZOptional (ZNullable (ZString []))),
      (''durationSeconds'', seconds_schema 7200),
      (''freezeMinutes'', seconds_schema 30),
      (''pausedAt'', ZOptional (ZNullable (ZString []))),
      (''remainingSeconds'', seconds_schema 0),
      (''elapsedSeconds'', seconds_schema 0),
      (''isFrozen'', ZDefault ZBoolean (Bool False)),
      (''requireFullscreen'', ZDefault (ZOptional ZBoolean) (Bool False)),
      (''downloadEnabled'', ZDefault (ZOptional ZBoolean) (Bool False)),
      (''serverTime'', ZDefault (ZString []) (Str now))]"

definition contestStateSchema :: "string \<Rightarrow> schema" where
  "contestStateSchema now = ZObject (contest_shape now)"

section \<open>Running code\<close>

text \<open>The result of a run that did not come from the backend.\<close>

definition run_failure :: "jsv \<Rightarrow> int \<Rightarrow> jsv" where
  "run_failure stderr exitCode =
     Obj [(''stdout'', Str []), (''stderr'', stderr), (''exitCode'', IntV exitCode), (''timeMs'', IntV 0),
          (''verdict'', Str ''IE'')]"

definition executeRun :: "jsv \<Rightarrow> jsv \<Rightarrow> jsv \<Rightarrow> jsv \<Rightarrow> jsv io" where
  "executeRun language code stdin problemId =
     bind (portal_backendFetch ''/api/v1/run''
       \<lparr>i_method = Some ''POST'', i_headers = json_header,
        i_body = Some (stringify (Obj ([(''language'', language), (''code'', code), (''stdin'', stdin)] @
                   (if truthy problemId then [(''problem_id'', problemId)] else []))))\<rparr>) (\<lambda>res.
     if \<not> rsp_ok res then
       bind (res_json_or_empty res) (\<lambda>body.
       if rsp_status res = 409 then
         bind (lift (get body ''error'')) (\<lambda>m.
         ret (run_failure (js_coalesce m
           (Str ''You already have an active code run in progress. Please wait for it to complete.'')) 409))
       else
         bind (if rsp_status res = 423 then ret True
               else bind (lift (get body ''code'')) (\<lambda>c. ret (c = Str ''GATE_UNAVAILABLE''))) (\<lambda>gated.
         if gated then
           bind (lift (get body ''error'')) (\<lambda>m.
           ret (run_failure (js_coalesce m
             (Str ''Running code needs the proctor client. Start it, then try again.'')) (int (rsp_status res))))
         else if rsp_status res = 503 then
           ret (run_failure (Str ''Server busy: capacity limit reached. Please retry in a few seconds.'') 503)
         else
           bind (lift (get body ''error'')) (\<lambda>m. ret (run_failure (js_coalesce m (Str ''run failed'')) 1))))
     else res_json res)"

definition run_error :: "string \<Rightarrow> jsv" where
  "run_error m = Obj [(''stdout'', Str []), (''stderr'', Str (''Error: '' @ m)), (''exitCode'', IntV 1), (''timeMs'', IntV 0)]"

definition runCode :: "parser \<Rightarrow> jsv \<Rightarrow> jsv \<Rightarrow> jsv \<Rightarrow> jsv \<Rightarrow> jsv io" where
  "runCode sp language code stdin problemId =
     (case sp runCodeInputSchema
             (Obj [(''language'', language), (''code'', code), (''stdin'', stdin), (''problemId'', problemId)]) of
        Inl ms \<Rightarrow> ret (run_error (issue_nn ms ''Invalid run parameters''))
      | Inr d \<Rightarrow>
          catch (executeRun (get_opt d ''language'') (get_opt d ''code'') (get_opt d ''stdin'') (get_opt d ''problemId''))
            (\<lambda>err. ret (run_error (message_or err ''Execution failed''))))"

section \<open>Submitting code\<close>

record submit_result =
  sr_submissionId :: jsv
  sr_status :: jsv
  sr_queuePosition :: jsv
  sr_error :: jsv
  sr_errorCode :: jsv
  sr_secondsSincePing :: jsv
  sr_score :: jsv
  sr_maxScore :: jsv
  sr_improvedBest :: bool
  sr_previousBest :: jsv

text \<open>An answer with no submission: the error and the score the contestant already had.\<close>

definition submit_failed :: "jsv \<Rightarrow> jsv \<Rightarrow> jsv \<Rightarrow> jsv \<Rightarrow> submit_result" where
  "submit_failed error code since_ping previousBest =
     \<lparr>sr_submissionId = Undefined, sr_status = Undefined, sr_queuePosition = Undefined, sr_error = error,
      sr_errorCode = code, sr_secondsSincePing = since_ping, sr_score = previousBest, sr_maxScore = IntV 100,
      sr_improvedBest = False, sr_previousBest = previousBest\<rparr>"

definition submit_input :: "jsv \<Rightarrow> jsv \<Rightarrow> jsv \<Rightarrow> jsv \<Rightarrow> jsv \<Rightarrow> jsv \<Rightarrow> jsv" where
  "submit_input problemId code previousBest language attestNonce telemetry =
     Obj [(''problemId'', problemId), (''code'', code), (''language'', language), (''previousBest'', previousBest),
          (''attestNonce'', attestNonce), (''typedCount'', get_opt telemetry ''typedCount''),
          (''pasteCount'', get_opt telemetry ''pasteCount''), (''pastedChars'', get_opt telemetry ''pastedChars''),
          (''maxPasteSize'', get_opt telemetry ''maxPasteSize'')]"

definition submit_payload :: "jsv \<Rightarrow> jsv" where
  "submit_payload d =
     Obj [(''problem_id'', get_opt d ''problemId''), (''language'', get_opt d ''language''), (''code'', get_opt d ''code''),
          (''typed_count'', get_opt d ''typedCount''), (''paste_count'', get_opt d ''pasteCount''),
          (''pasted_chars'', get_opt d ''pastedChars''), (''max_paste_size'', get_opt d ''maxPasteSize'')]"

definition submit_request :: "jsv \<Rightarrow> init" where
  "submit_request d =
     \<lparr>i_method = Some ''POST'',
      i_headers = json_header @
        (if truthy (get_opt d ''attestNonce'') then [(''X-Proctor-Attest'', js_String (get_opt d ''attestNonce''))] else []),
      i_body = Some (stringify (submit_payload d))\<rparr>"

definition submitCode :: "parser \<Rightarrow> jsv \<Rightarrow> jsv \<Rightarrow> jsv \<Rightarrow> jsv \<Rightarrow> jsv \<Rightarrow> jsv \<Rightarrow> submit_result io" where
  "submitCode sp problemId code previousBest language attestNonce telemetry =
     (case sp submitCodeInputSchema
             (submit_input problemId code previousBest
                (if language = Undefined then Str ''cpp'' else language) attestNonce telemetry) of
        Inl ms \<Rightarrow> ret (submit_failed (Str (issue_nn ms ''Invalid submission parameters'')) Undefined Undefined previousBest)
      | Inr d \<Rightarrow>
          catch
            (bind (portal_backendFetch ''/api/v1/submissions'' (submit_request d)) (\<lambda>res.
             if \<not> rsp_ok res then
               bind (res_json_or_empty res) (\<lambda>errBody. bind (lift (get errBody ''error'')) (\<lambda>m.
               ret (submit_failed (js_coalesce m (Str (''Submission failed ('' @ show_nat (rsp_status res) @ '')'')))
                      (get_opt errBody ''code'') (get_opt errBody ''seconds_since_ping'') previousBest)))
             else
               bind (res_json res) (\<lambda>data. bind (lift (get data ''id'')) (\<lambda>sid.
               ret \<lparr>sr_submissionId = sid, sr_status = get_opt data ''status'',
                    sr_queuePosition = get_opt data ''queue_position'', sr_error = Undefined, sr_errorCode = Undefined,
                    sr_secondsSincePing = Undefined, sr_score = IntV 0,
                    sr_maxScore = js_coalesce (get_opt data ''max_score'') (IntV 100), sr_improvedBest = False,
                    sr_previousBest = previousBest\<rparr>))))
            (\<lambda>err. ret (submit_failed
               (Str (message_or err ''Failed to queue submission. Please check your connection.'')) Undefined Undefined previousBest)))"

section \<open>Reading submissions\<close>

definition getSubmissionStatusAction :: "string \<Rightarrow> jsv io" where
  "getSubmissionStatusAction submissionId =
     catch
       (bind (portal_backendFetch (''/api/v1/submissions/'' @ encodeURIComponent submissionId) no_init) (\<lambda>res.
        if \<not> rsp_ok res then ret Null else res_json res))
       (\<lambda>_. ret Null)"

record submission_item =
  si_id :: jsv
  si_submissionId :: jsv
  si_problemId :: jsv
  si_problemTitle :: jsv
  si_submittedBy :: jsv
  si_teamName :: jsv
  si_language :: jsv
  si_code :: jsv
  si_score :: jsv
  si_maxScore :: jsv
  si_status :: jsv
  si_reviewStatus :: jsv
  si_reviewReason :: jsv
  si_submittedAt :: string
  si_timestamp :: jsnum

definition submission_of :: "(jsnum \<Rightarrow> string) \<Rightarrow> jsv \<Rightarrow> exn + submission_item" where
  "submission_of clock item =
     (case get item ''createdAt'' of
        Inl x \<Rightarrow> Inl x
      | Inr createdAt \<Rightarrow>
          let f = get_opt item; t = date_time createdAt in Inr
          \<lparr>si_id = f ''submissionId'', si_submissionId = f ''submissionId'', si_problemId = f ''problemId'',
           si_problemTitle = f ''problemTitle'', si_submittedBy = f ''userName'', si_teamName = f ''teamName'',
           si_language = f ''language'', si_code = f ''code'', si_score = f ''score'', si_maxScore = f ''maxScore'',
           si_status = js_coalesce (f ''verdict'') (f ''status''), si_reviewStatus = f ''reviewStatus'',
           si_reviewReason = f ''reviewReason'', si_submittedAt = clock t, si_timestamp = t\<rparr>)"

text \<open>\<open>v.map(f)\<close>: the first element that throws ends it; only an array has the method.\<close>

fun map_values :: "(jsv \<Rightarrow> exn + 'a) \<Rightarrow> jsv list \<Rightarrow> exn + 'a list" where
  "map_values f [] = Inr []"
| "map_values f (x # xs) =
     (case f x of
        Inl e \<Rightarrow> Inl e
      | Inr y \<Rightarrow> (case map_values f xs of Inl e \<Rightarrow> Inl e | Inr ys \<Rightarrow> Inr (y # ys)))"

definition js_map :: "(jsv \<Rightarrow> exn + 'a) \<Rightarrow> jsv \<Rightarrow> exn + 'a list" where
  "js_map f v = (case v of Arr xs \<Rightarrow> map_values f xs | _ \<Rightarrow> Inl (Error ''map is not a function''))"

definition listing_params :: "string \<Rightarrow> jsv \<Rightarrow> jsv \<Rightarrow> (string \<times> string) list" where
  "listing_params problemId limit offset =
     (if problemId \<noteq> [] then [(''problem_id'', problemId)] else []) @
     (case limit of Num n \<Rightarrow> [(''limit'', num_text n)] | _ \<Rightarrow> []) @
     (case offset of Num n \<Rightarrow> [(''offset'', num_text n)] | _ \<Rightarrow> [])"

definition listSubmissionsAction :: "(jsnum \<Rightarrow> string) \<Rightarrow> string \<Rightarrow> jsv \<Rightarrow> jsv \<Rightarrow> submission_item list io" where
  "listSubmissionsAction clock problemId limit offset =
     catch
       (bind (portal_backendFetch (with_query ''/api/v1/submissions'' (listing_params problemId limit offset)) no_init) (\<lambda>res.
        if \<not> rsp_ok res then ret []
        else bind (res_json res) (\<lambda>data. bind (lift (get data ''submissions'')) (\<lambda>s.
             lift (js_map (submission_of clock) (js_coalesce s (Arr [])))))))
       (\<lambda>_. ret [])"

section \<open>The read actions\<close>

text \<open>\<open>loaded_at\<close> is the time the module was loaded.\<close>

definition defaultContestState :: "string \<Rightarrow> jsv" where
  "defaultContestState loaded_at =
     Obj [(''title'', Str DEFAULT_SESSION_TITLE), (''status'', Str ''NOT_STARTED''), (''startTime'', Null), (''endTime'', Null),
          (''durationSeconds'', IntV 7200), (''freezeMinutes'', IntV 30), (''pausedAt'', Null),
          (''remainingSeconds'', IntV 7200), (''elapsedSeconds'', IntV 0), (''isFrozen'', Bool False),
          (''downloadEnabled'', Bool False), (''serverTime'', Str loaded_at)]"

definition getContestStateAction :: "parser \<Rightarrow> string \<Rightarrow> jsv io" where
  "getContestStateAction sp loaded_at =
     catch
       (bind (portal_backendFetch ''/api/v1/contest/state'' no_init) (\<lambda>res.
        if \<not> rsp_ok res then ret (defaultContestState loaded_at)
        else bind (res_json res) (\<lambda>data. bind (asks env_now_iso) (\<lambda>now.
             ret (case sp (contestStateSchema now) data of Inr d \<Rightarrow> d | Inl _ \<Rightarrow> defaultContestState loaded_at)))))
       (\<lambda>_. ret (defaultContestState loaded_at))"

definition getDisclosureAction :: "jsv io" where
  "getDisclosureAction =
     catch
       (bind (portal_backendFetch ''/api/v1/proctor/disclosure'' no_init) (\<lambda>res.
        if \<not> rsp_ok res then ret Null
        else bind (res_json res) (\<lambda>data. bind (lift (get data ''disclosure'')) (\<lambda>d.
             ret (if \<not> truthy d then Null
                  else Obj [(''disclosure'', d), (''probedPorts'', js_coalesce (get_opt data ''probedPorts'') (Arr []))])))))
       (\<lambda>_. ret Null)"

definition getLeaderboardAction :: "jsv io" where
  "getLeaderboardAction =
     catch
       (bind (portal_backendFetch ''/api/v1/leaderboard'' no_init) (\<lambda>res.
        if \<not> rsp_ok res then ret (Arr [])
        else bind (res_json res) (\<lambda>data. bind (lift (get data ''leaderboard'')) (\<lambda>v. ret (js_coalesce v (Arr []))))))
       (\<lambda>_. ret (Arr []))"

record portal_problem =
  pb_id :: jsv
  pb_slug :: jsv
  pb_title :: jsv
  pb_difficulty :: jsv
  pb_points :: jsv
  pb_timeLimitMs :: jsv
  pb_memoryLimitMb :: jsv
  pb_statement :: jsv
  pb_constraints :: jsv
  pb_samples :: jsv

definition mapToProblem :: "jsv \<Rightarrow> exn + portal_problem" where
  "mapToProblem raw =
     (case get raw ''id'' of
        Inl x \<Rightarrow> Inl x
      | Inr i \<Rightarrow>
          let f = get_opt raw in Inr
          \<lparr>pb_id = i, pb_slug = f ''slug'', pb_title = f ''title'', pb_difficulty = f ''difficulty'', pb_points = f ''maxScore'',
           pb_timeLimitMs = f ''timeLimitMs'', pb_memoryLimitMb = f ''memoryLimitMb'', pb_statement = f ''statement'',
           pb_constraints = f ''constraints'', pb_samples = js_coalesce (f ''samples'') (Arr [])\<rparr>)"

definition portal_listProblemsAction :: "(portal_problem list \<times> jsv) io" where
  "portal_listProblemsAction =
     catch
       (bind (portal_backendFetch ''/api/v1/problems'' no_init) (\<lambda>res.
        if \<not> rsp_ok res then ret ([], Obj [])
        else bind (res_json res) (\<lambda>data. bind (lift (get data ''problems'')) (\<lambda>ps.
             bind (lift (js_map mapToProblem (js_coalesce ps (Arr [])))) (\<lambda>problems.
             ret (problems, js_coalesce (get_opt data ''progress'') (Obj [])))))))
       (\<lambda>_. ret ([], Obj []))"

definition getProblemAction :: "string \<Rightarrow> portal_problem option io" where
  "getProblemAction slug =
     catch
       (bind (portal_backendFetch (''/api/v1/problems/'' @ encodeURIComponent slug) no_init) (\<lambda>res.
        if \<not> rsp_ok res then ret None
        else bind (res_json res) (\<lambda>data. bind (lift (get data ''problem'')) (\<lambda>p.
             if \<not> truthy p then ret None else bind (lift (mapToProblem p)) (\<lambda>r. ret (Some r))))))
       (\<lambda>_. ret None)"

section \<open>Proctoring actions\<close>

definition fetchProctorGate :: "bool \<Rightarrow> jsv io" where
  "fetchProctorGate tabVisible =
     catch
       (bind (portal_backendFetch (''/api/v1/telemetry/self?tab_visible='' @ js_String (Bool tabVisible)) (method_init ''GET'')) (\<lambda>res.
        if \<not> rsp_ok res then ret Null else res_json res))
       (\<lambda>_. ret Null)"

definition getProctorSelfAction :: "bool \<Rightarrow> jsv io" where
  "getProctorSelfAction tabVisible = fetchProctorGate tabVisible"

definition recordBrowserViolationAction :: "string \<Rightarrow> jsv \<Rightarrow> jsv \<Rightarrow> bool io" where
  "recordBrowserViolationAction eventType detail signals =
     catch
       (bind (portal_backendFetch ''/api/v1/telemetry/browser-event''
          \<lparr>i_method = Some ''POST'', i_headers = json_header,
           i_body = Some (stringify (Obj [(''event_type'', Str eventType), (''detail'', detail), (''signals'', signals)]))\<rparr>) (\<lambda>res.
        ret (rsp_ok res)))
       (\<lambda>_. ret False)"

definition leaveContestAction :: "bool io" where
  "leaveContestAction =
     catch (bind (portal_backendFetch ''/api/v1/telemetry/leave-contest'' (method_init ''POST'')) (\<lambda>res. ret (rsp_ok res)))
       (\<lambda>_. ret False)"

section \<open>What the actions guarantee\<close>

definition total_io :: "'a io \<Rightarrow> bool" where
  "total_io m \<longleftrightarrow> (\<forall>e w. \<exists>a. fst (m e w) = Inr a)"

lemma total_ret [simp]: "total_io (ret a)"
  by (simp add: total_io_def io_simps)

lemma total_catch: "(\<And>x. total_io (h x)) \<Longrightarrow> total_io (catch m h)"
  unfolding total_io_def catch_def by (auto split: prod.splits sum.splits)


text \<open>A contest state the portal's clock can run on.\<close>

definition seconds_value :: "jsv \<Rightarrow> bool" where
  "seconds_value v \<longleftrightarrow> (\<exists>n. v = IntV n \<and> 0 \<le> n)"

definition text_or_absent :: "jsv \<Rightarrow> bool" where
  "text_or_absent v \<longleftrightarrow> nullish v \<or> (\<exists>s. v = Str s)"

definition valid_contest_state :: "jsv \<Rightarrow> bool" where
  "valid_contest_state d \<longleftrightarrow>
     (\<exists>t. get_opt d ''title'' = Str t) \<and> (\<exists>s\<in>set CONTEST_STATUSES. get_opt d ''status'' = Str s) \<and>
     text_or_absent (get_opt d ''startTime'') \<and> text_or_absent (get_opt d ''endTime'') \<and>
     seconds_value (get_opt d ''durationSeconds'') \<and> seconds_value (get_opt d ''remainingSeconds'') \<and>
     seconds_value (get_opt d ''elapsedSeconds'') \<and> (\<exists>b. get_opt d ''isFrozen'' = Bool b) \<and>
     (\<exists>s. get_opt d ''serverTime'' = Str s)"

lemma seconds_schema_D: "0 \<le> n \<Longrightarrow> zod_eval (seconds_schema n) v = Some d \<Longrightarrow> seconds_value d"
proof -
  have coerced: "seconds_value d" if "zod_eval (ZCoerceNumber [IntOnly m, NonNegative m']) v = Some d" for m m'
  proof -
    from that have "num_eval [IntOnly m, NonNegative m'] (js_Number v) = Some d" by (simp only: zod_eval.simps(3))
    then obtain k where "d = IntV k" "0 \<le> k"
      by (cases "js_Number v") (auto split: if_splits)
    then show ?thesis unfolding seconds_value_def by (intro exI [of _ k]) simp
  qed
  show "0 \<le> n \<Longrightarrow> zod_eval (seconds_schema n) v = Some d \<Longrightarrow> seconds_value d"
    unfolding seconds_schema_def by (drule zod_default_D) (use coerced in \<open>auto simp: seconds_value_def simp del: zod_eval.simps\<close>)
qed

lemma nullable_text_D: "zod_eval (ZOptional (ZNullable (ZString []))) v = Some d \<Longrightarrow> text_or_absent d"
  by (auto simp: text_or_absent_def split: jsv.splits if_splits)

lemma text_default_D: "zod_eval (ZDefault (ZString []) (Str s)) v = Some d \<Longrightarrow> \<exists>t. d = Str t"
  by (drule zod_default_D) (auto dest!: zod_string_D simp del: zod_eval.simps)

lemma contest_state_accepted:
  assumes "zod_eval (contestStateSchema now) v = Some d"
  shows "valid_contest_state d"
proof -
  note obj = assms [unfolded contestStateSchema_def]
  have dist: "distinct (map fst (contest_shape now))" by (simp add: contest_shape_def)
  have fld: "map_of (contest_shape now) k = Some s \<Longrightarrow> zod_eval s (get_opt v k) = Some (get_opt d k)" for k s
    by (rule zod_object_field [OF obj dist])
  have "\<exists>t. get_opt d ''title'' = Str t" "\<exists>t. get_opt d ''serverTime'' = Str t"
    by (rule text_default_D, rule fld, simp add: contest_shape_def)+
  moreover have "text_or_absent (get_opt d ''startTime'')" "text_or_absent (get_opt d ''endTime'')"
    by (rule nullable_text_D, rule fld, simp add: contest_shape_def)+
  moreover have "seconds_value (get_opt d ''durationSeconds'')" "seconds_value (get_opt d ''remainingSeconds'')"
      "seconds_value (get_opt d ''elapsedSeconds'')"
    by (rule seconds_schema_D [rotated], rule fld, simp add: contest_shape_def, simp)+
  moreover have "\<exists>s\<in>set CONTEST_STATUSES. get_opt d ''status'' = Str s"
  proof -
    have "zod_eval (ZDefault contestStatusSchema (Str ''NOT_STARTED'')) (get_opt v ''status'') = Some (get_opt d ''status'')"
      by (rule fld) (simp add: contest_shape_def)
    then show ?thesis
      by (auto simp: contestStatusSchema_def CONTEST_STATUSES_def split: if_splits jsv.splits)
  qed
  moreover have "\<exists>b. get_opt d ''isFrozen'' = Bool b"
  proof -
    have "zod_eval (ZDefault ZBoolean (Bool False)) (get_opt v ''isFrozen'') = Some (get_opt d ''isFrozen'')"
      by (rule fld) (simp add: contest_shape_def)
    then show ?thesis by (cases "get_opt v ''isFrozen''") (auto dest: sym)
  qed
  ultimately show ?thesis unfolding valid_contest_state_def by blast
qed

lemma default_state_valid: "valid_contest_state (defaultContestState loaded_at)"
proof -
  have "seconds_value (IntV 7200)" "seconds_value (IntV 0)"
    unfolding seconds_value_def by (rule exI [of _ 7200], simp, rule exI [of _ 0], simp)
  moreover have "text_or_absent Null" by (simp add: text_or_absent_def)
  ultimately show ?thesis by (auto simp: valid_contest_state_def defaultContestState_def CONTEST_STATUSES_def)
qed



text \<open>A submission as it leaves the portal.\<close>

definition counter_in :: "int \<Rightarrow> jsv \<Rightarrow> bool" where
  "counter_in n v \<longleftrightarrow> v = Undefined \<or> (\<exists>k. v = IntV k \<and> 0 \<le> k \<and> k \<le> n)"

definition valid_submission :: "jsv \<Rightarrow> bool" where
  "valid_submission b \<longleftrightarrow>
     (\<exists>p. get_opt b ''problem_id'' = Str p \<and> js_trim p = p \<and> 1 \<le> length p \<and> length p \<le> 100) \<and>
     (\<exists>l. get_opt b ''language'' = Str l \<and> js_lower l \<in> set SUPPORTED_LANGUAGES) \<and>
     (\<exists>c. get_opt b ''code'' = Str c \<and> 1 \<le> length c \<and> length c \<le> 100000) \<and>
     counter_in 1000000 (get_opt b ''typed_count'') \<and> counter_in 100000 (get_opt b ''paste_count'') \<and>
     counter_in 1000000 (get_opt b ''pasted_chars'') \<and> counter_in 1000000 (get_opt b ''max_paste_size'')"

lemma counter_D: "zod_eval (ZOptional (counter_schema n)) v = Some d \<Longrightarrow> counter_in n d"
  unfolding counter_in_def counter_schema_def by (drule zod_optional_D) (use zod_int_range in blast)

lemma counter_ok: "counter_in n v \<Longrightarrow> v = Undefined \<or> json_ok v"
  by (auto simp: counter_in_def)

lemma stringify_drop_undefined: "stringify (Obj (drop_undefined fs)) = stringify (Obj fs)"
  by (simp add: drop_undefined_def)

lemma payload_travels:
  assumes "distinct (map fst fs)" "\<forall>kv\<in>set fs. snd kv = Undefined \<or> json_ok (snd kv)"
  shows "json_parse (stringify (Obj fs)) = Some (Obj (drop_undefined fs))"
  by (rule json_round_trip [OF drop_undefined_ok [OF assms], unfolded stringify_drop_undefined])

lemma submission_accepted:
  assumes "zod_eval submitCodeInputSchema v = Some d"
  shows "\<exists>b. json_parse (stringify (submit_payload d)) = Some b \<and> valid_submission b"
proof -
  note obj = assms [unfolded submitCodeInputSchema_def]
  have dist: "distinct (map fst submit_shape)" by (simp add: submit_shape_def)
  have fld: "map_of submit_shape k = Some s \<Longrightarrow> zod_eval s (get_opt v k) = Some (get_opt d k)" for k s
    by (rule zod_object_field [OF obj dist])
  have "zod_eval (ZString [Trim, MinLength 1 ''Problem ID is required'', MaxLength 100 ''Problem ID too long''])
      (get_opt v ''problemId'') = Some (get_opt d ''problemId'')"
    by (rule fld) (simp add: submit_shape_def)
  from zod_string_D [OF this] obtain p where p: "get_opt d ''problemId'' = Str p" "js_trim p = p" "1 \<le> length p" "length p \<le> 100"
    by (auto split: if_splits)
  have "zod_eval language_schema (get_opt v ''language'') = Some (get_opt d ''language'')"
    by (rule fld) (simp add: submit_shape_def)
  from zod_string_D [OF this [unfolded language_schema_def]]
  obtain l where l: "get_opt d ''language'' = Str l" "js_lower l \<in> set SUPPORTED_LANGUAGES"
    by (auto split: if_splits)
  have "zod_eval code_schema (get_opt v ''code'') = Some (get_opt d ''code'')"
    by (rule fld) (simp add: submit_shape_def)
  from zod_string_D [OF this [unfolded code_schema_def]]
  obtain c where c: "get_opt d ''code'' = Str c" "1 \<le> length c" "length c \<le> 100000" by (auto split: if_splits)
  have counters: "counter_in 1000000 (get_opt d ''typedCount'')" "counter_in 100000 (get_opt d ''pasteCount'')"
      "counter_in 1000000 (get_opt d ''pastedChars'')" "counter_in 1000000 (get_opt d ''maxPasteSize'')"
    by (rule counter_D, rule fld, simp add: submit_shape_def)+
  define fs where "fs = [(''problem_id'', get_opt d ''problemId''), (''language'', get_opt d ''language''),
      (''code'', get_opt d ''code''), (''typed_count'', get_opt d ''typedCount''), (''paste_count'', get_opt d ''pasteCount''),
      (''pasted_chars'', get_opt d ''pastedChars''), (''max_paste_size'', get_opt d ''maxPasteSize'')]"
  have keys: "distinct (map fst fs)" by (simp add: fs_def)
  have "\<forall>kv\<in>set fs. snd kv = Undefined \<or> json_ok (snd kv)"
    using counters [THEN counter_ok] by (simp add: fs_def p l c)
  with keys have "json_parse (stringify (Obj fs)) = Some (Obj (drop_undefined fs))" by (rule payload_travels)
  moreover have "get_opt (Obj (drop_undefined fs)) k = field fs k" for k by (simp add: field_drop_undefined [OF keys])
  then have "valid_submission (Obj (drop_undefined fs))"
    unfolding valid_submission_def using p l c counters by (simp add: fs_def)
  ultimately show ?thesis by (auto simp: submit_payload_def fs_def)
qed

definition attested_with :: "jsv \<Rightarrow> request \<Rightarrow> bool" where
  "attested_with nonce q \<longleftrightarrow>
     header_get (req_headers q) ''X-Proctor-Attest'' = (if truthy nonce then Some (js_String nonce) else None)"

lemma lower_header_names:
  "js_lower ''X-Proctor-Attest'' = ''x-proctor-attest''" "js_lower ''X-Proctor-Client'' = ''x-proctor-client''"
  "js_lower ''Content-Type'' = ''content-type''" "js_lower ''Cookie'' = ''cookie''"
  "js_lower ''Authorization'' = ''authorization''" "js_lower ''X-Forwarded-For'' = ''x-forwarded-for''"
  "js_lower ''User-Agent'' = ''user-agent''"
  by code_simp+

lemma attested_request: "attested_with (get_opt d ''attestNonce'') (portal_request e w incoming path (submit_request d))"
  by (simp add: attested_with_def portal_request_def portal_headers_def auth_headers_def forward_headers_def Let_def
      submit_request_def json_header_def new_headers_def CLIENT_HEADER_def header_get_set header_get_Nil lower_header_names
      split: option.split)

lemma attestNonce_kept:
  assumes "zod_eval submitCodeInputSchema v = Some d"
  shows "get_opt d ''attestNonce'' = get_opt v ''attestNonce''"
proof -
  have "zod_eval (ZOptional (ZNullable (ZString [MaxLength 256 ''Attestation nonce too long''])))
      (get_opt v ''attestNonce'') = Some (get_opt d ''attestNonce'')"
    by (rule zod_object_field [OF assms [unfolded submitCodeInputSchema_def]]) (simp_all add: submit_shape_def)
  then show ?thesis by (auto split: if_splits jsv.splits)
qed

lemma submitCode_log:
  assumes "sp submitCodeInputSchema (submit_input pid code best (if lang = Undefined then Str ''cpp'' else lang) nonce tel) = Inr d"
  shows "sent (snd (submitCode sp pid code best lang nonce tel e w)) =
           (case env_in_headers e of Inl _ \<Rightarrow> sent w
            | Inr incoming \<Rightarrow> sent w @ [portal_request e w incoming ''/api/v1/submissions'' (submit_request d)])"
proof -
  have "wp (submitCode sp pid code best lang nonce tel)
      (\<lambda>_ w'. sent w' = (case env_in_headers e of Inl _ \<Rightarrow> sent w
            | Inr incoming \<Rightarrow> sent w @ [portal_request e w incoming ''/api/v1/submissions'' (submit_request d)])) e w"
    unfolding submitCode_def assms by (intro portal_wp_rules) simp_all
  then show ?thesis by (simp add: wp_def split: prod.splits)
qed



end
