(* ===== verification/CompetitorLib.thy ===== *)
theory CompetitorLib
  imports CompetitorActions
begin

text \<open>
  The competitor portal's tables and small libraries: constants (\<open>competitor-frontend/src/lib/constants.ts\<close>), the
  editor's languages (\<open>lib/languages.ts\<close>), the desktop builds (\<open>lib/desktop-builds.ts\<close>), the loopback protocol
  with the local agent (\<open>lib/proctor.ts\<close>), the summary of verdicts (\<open>lib/verdict-summary.ts\<close>) and the lookup of
  the language documentation (\<open>lib/docs/index.ts\<close>; the pages themselves are content and not modelled).
  A probe's timeout is a fetch that fails.
\<close>

section \<open>Constants\<close>

definition POLL_HEALTHY_MS :: nat where "POLL_HEALTHY_MS = 10000"
definition POLL_DEGRADED_MS :: nat where "POLL_DEGRADED_MS = 5000"
definition LEADERBOARD_POLL_INTERVAL_MS :: nat where "LEADERBOARD_POLL_INTERVAL_MS = 10000"
definition PROBE_TIMEOUT_MS :: nat where "PROBE_TIMEOUT_MS = 1500"
definition LOOPBACK_PORTS :: "nat list" where "LOOPBACK_PORTS = [47615, 47616, 47617, 47618, 47619]"
definition AGENT_HOST :: string where "AGENT_HOST = ''127.0.0.1''"
definition MAX_HISTORY_SNAPSHOTS :: nat where "MAX_HISTORY_SNAPSHOTS = 50"
definition BEST_SCORE_STORAGE_PREFIX :: string where "BEST_SCORE_STORAGE_PREFIX = ''labyrithm:best:''"
definition HISTORY_STORAGE_PREFIX :: string where "HISTORY_STORAGE_PREFIX = ''labyrithm:history:''"

text \<open>A table keyed by texts, read as \<open>T[k]\<close> for a key of its own.\<close>

definition CHALLENGE_STATUS_LABELS :: "(string \<times> string) list" where
  "CHALLENGE_STATUS_LABELS = [(''solved'', ''Solved''), (''attempted'', ''In progress''), (''not_attempted'', ''Unopened'')]"

definition PROCTOR_MODE_LABELS :: "(string \<times> string) list" where
  "PROCTOR_MODE_LABELS = [(''DESKTOP'', ''the proctor client window''),
     (''WEB_WITH_AGENT'', ''a browser, with the proctor client running''),
     (''WEB_ONLY'', ''a browser, with no proctor client running'')]"

definition PROCTOR_LOCK_TITLES :: "(string \<times> string) list" where
  "PROCTOR_LOCK_TITLES =
     [(''CLIENT_NOT_ALLOWED'', ''Browser Access Not Permitted''), (''AGENT_MISSING'', ''Proctor Client Required''),
      (''AGENT_STOPPED'', ''Proctor Client Stopped''), (''ENROLLMENT_REVOKED'', ''Enrollment Revoked''),
      (''AGENT_UNREACHABLE'', ''Proctor Client Unreachable''), (''AGENT_STALE'', ''Proctor Connection Stale''),
      (''AGENT_STARTING'', ''Proctor Client Starting''), (''NOT_ATTESTED'', ''Same-Machine Verification Required'')]"

definition PROCTOR_TRANSIENT_CODE :: string where "PROCTOR_TRANSIENT_CODE = ''AGENT_STARTING''"

datatype tone = Success | Destructive | Warning | Info

definition VERDICT_DETAILS :: "(string \<times> string \<times> tone) list" where
  "VERDICT_DETAILS =
     [(''AC'', ''Accepted (AC)'', Success), (''WA'', ''Wrong answer (WA)'', Destructive),
      (''TLE'', ''Time limit exceeded (TLE)'', Warning), (''RTE'', ''Runtime error (RTE)'', Destructive),
      (''MLE'', ''Memory limit exceeded (MLE)'', Warning), (''OLE'', ''Output limit exceeded (OLE)'', Destructive),
      (''CE'', ''Compilation error (CE)'', Destructive), (''IE'', ''Internal sandbox error (IE)'', Destructive),
      (''SK'', ''Skipped (SK)'', Warning)]"

definition SNAPSHOT_TRIGGER_LABELS :: "(string \<times> string) list" where
  "SNAPSHOT_TRIGGER_LABELS = [(''autosave'', ''Autosave''), (''ran'', ''Ran''), (''submitted'', ''Submitted'')]"

definition DIFFICULTY_RANKS :: "(string \<times> int) list" where
  "DIFFICULTY_RANKS = [(''EASY'', 1), (''MEDIUM'', 2), (''HARD'', 3)]"

section \<open>Languages\<close>

record language =
  lg_id :: string
  lg_label :: string
  lg_monaco :: string
  lg_starter :: string

definition text_lines :: "string list \<Rightarrow> string" where
  "text_lines ls = join_with [CHR 0x0A] ls"

definition LANGUAGES :: "language list" where
  "LANGUAGES = [
   \<lparr>lg_id = ''cpp'', lg_label = ''C++'', lg_monaco = ''cpp'', lg_starter = text_lines
       [''#include <bits/stdc++.h>'',
        ''using namespace std;'',
        [],
        ''int main() {'',
        ''    ios::sync_with_stdio(false);'',
        ''    cin.tie(nullptr);'',
        [],
        ''    return 0;'',
        ''}'',
        []]\<rparr>,
   \<lparr>lg_id = ''c'', lg_label = ''C'', lg_monaco = ''c'', lg_starter = text_lines
       [''#include <stdio.h>'',
        ''#include <stdlib.h>'',
        [],
        ''int main(void) {'',
        ''    return 0;'',
        ''}'',
        []]\<rparr>,
   \<lparr>lg_id = ''java'', lg_label = ''Java'', lg_monaco = ''java'', lg_starter = text_lines
       [''import java.util.Scanner;'',
        [],
        ''public class Main {'',
        ''    public static void main(String[] args) {'',
        ''        Scanner scanner = new Scanner(System.in);'',
        ''    }'',
        ''}'',
        []]\<rparr>,
   \<lparr>lg_id = ''python'', lg_label = ''Python'', lg_monaco = ''python'', lg_starter = text_lines
       [''import sys'',
        ''input = sys.stdin.readline'',
        [],
        [],
        ''def main():'',
        ''    pass'',
        [],
        [],
        ''if __name__ == \"__main__\":'',
        ''    main()'',
        []]\<rparr>,
   \<lparr>lg_id = ''js'', lg_label = ''JavaScript'', lg_monaco = ''javascript'', lg_starter = text_lines
       [''const fs = require('' @ [CHR 0x27] @ ''fs'' @ [CHR 0x27] @ '');'',
        [],
        ''function main() {'',
        ''    const input = fs.readFileSync('' @ [CHR 0x27] @ ''/dev/stdin'' @ [CHR 0x27] @ '', '' @ [CHR 0x27] @ ''utf-8'' @ [CHR 0x27] @ '');'',
        ''}'',
        [],
        ''main();'',
        []]\<rparr>,
   \<lparr>lg_id = ''rust'', lg_label = ''Rust'', lg_monaco = ''rust'', lg_starter = text_lines
       [''use std::io::{self, Read};'',
        [],
        ''fn main() {'',
        ''    let mut input = String::new();'',
        ''    io::stdin().read_to_string(&mut input).unwrap();'',
        ''    let mut tokens = input.split_whitespace();'',
        [],
        ''    // Solution here'',
        ''}'',
        []]\<rparr>]"

definition LANGUAGE_OPTIONS :: "(string \<times> string) list" where
  "LANGUAGE_OPTIONS = map (\<lambda>lang. (lg_id lang, lg_label lang)) LANGUAGES"

definition LANGUAGE_ALIASES :: "(string \<times> string) list" where
  "LANGUAGE_ALIASES = [(''c++'', ''cpp''), (''g++'', ''cpp''), (''py'', ''python''), (''python3'', ''python''),
     (''javascript'', ''js''), (''node'', ''js''), (''rs'', ''rust'')]"

definition getLanguage :: "string \<Rightarrow> language option" where
  "getLanguage languageId =
     (let i = js_lower (js_trim languageId);
          normalizedId = (case map_of LANGUAGE_ALIASES i of Some a \<Rightarrow> a | None \<Rightarrow> i)
      in List.find (\<lambda>language. lg_id language = normalizedId) LANGUAGES)"

definition normalizeLanguageId :: "string \<Rightarrow> string" where
  "normalizeLanguageId languageId = (case getLanguage languageId of Some l \<Rightarrow> lg_id l | None \<Rightarrow> languageId)"

definition language_ids :: "string list" where
  "language_ids = [''cpp'', ''c'', ''java'', ''python'', ''js'', ''rust'']"

lemma language_ids: "map lg_id LANGUAGES = language_ids"
  by (simp add: LANGUAGES_def language_ids_def)

lemma getLanguage_id:
  "map_option lg_id (getLanguage l) =
     (let i = js_lower (js_trim l); n = (case map_of LANGUAGE_ALIASES i of Some a \<Rightarrow> a | None \<Rightarrow> i)
      in if n \<in> set language_ids then Some n else None)"
proof -
  have find: "map_option lg_id (List.find (\<lambda>g. lg_id g = n) ls) = (if n \<in> set (map lg_id ls) then Some n else None)" for n ls
    by (induction ls) auto
  show ?thesis unfolding getLanguage_def Let_def find language_ids ..
qed

lemma supported_canonical:
  "list_all (\<lambda>l. (case map_of LANGUAGE_ALIASES l of Some a \<Rightarrow> a | None \<Rightarrow> l) \<in> set language_ids) SUPPORTED_LANGUAGES"
  by (simp add: SUPPORTED_LANGUAGES_def LANGUAGE_ALIASES_def language_ids_def)

lemma canonical_fixed:
  "list_all (\<lambda>l. js_lower (js_trim l) = l \<and> map_of LANGUAGE_ALIASES l = None) language_ids"
  by code_simp

text \<open>
  Whatever language the submission schema accepts, the editor knows: it normalizes to one of the six editor languages,
  whatever its case, and normalizing twice changes nothing; a text the table does not know is left as it is.
\<close>

theorem accepted_language_known:
  assumes "zod_eval language_schema v = Some d"
  shows "\<exists>l. d = Str l \<and> normalizeLanguageId l \<in> set (map lg_id LANGUAGES) \<and>
             normalizeLanguageId (normalizeLanguageId l) = normalizeLanguageId l"
proof -
  from zod_string_D [OF assms [unfolded language_schema_def]]
  obtain s where s: "d = Str (js_trim s)" "js_lower (js_trim s) \<in> set SUPPORTED_LANGUAGES" by (auto split: if_splits)
  let ?n = "case map_of LANGUAGE_ALIASES (js_lower (js_trim s)) of Some a \<Rightarrow> a | None \<Rightarrow> js_lower (js_trim s)"
  have n: "?n \<in> set language_ids" using supported_canonical s(2) by (simp add: list_all_iff)
  then have "map_option lg_id (getLanguage (js_trim s)) = Some ?n" by (simp add: getLanguage_id Let_def)
  then have norm: "normalizeLanguageId (js_trim s) = ?n" by (auto simp: normalizeLanguageId_def split: option.splits)
  have "js_lower (js_trim ?n) = ?n" "map_of LANGUAGE_ALIASES ?n = None"
    using canonical_fixed n by (simp_all add: list_all_iff)
  then have "map_option lg_id (getLanguage ?n) = Some ?n" using n by (simp add: getLanguage_id Let_def)
  then have "normalizeLanguageId ?n = ?n" by (auto simp: normalizeLanguageId_def split: option.splits)
  then show ?thesis using s(1) n by (simp add: language_ids norm)
qed

theorem accepted_language_known_witness:
  "normalizeLanguageId ''Python3'' \<in> set (map lg_id LANGUAGES)"
proof -
  have "js_trim ''Python3'' = ''Python3''" "js_lower ''Python3'' = ''python3''" by code_simp+
  then have "zod_eval language_schema (Str ''Python3'') = Some (Str ''Python3'')"
    by (simp add: language_schema_def SUPPORTED_LANGUAGES_def)
  from accepted_language_known [OF this] show ?thesis by simp
qed

section \<open>Desktop builds\<close>

datatype desktop_os = Windows | Macos | Linux

record desktop_build =
  db_os :: desktop_os
  db_label :: string
  db_file :: string
  db_sizeLabel :: string
  db_sha256 :: string
  db_installNote :: string
  db_gateNote :: string

definition DESKTOP_BUILDS :: "desktop_build list" where
  "DESKTOP_BUILDS = [
   \<lparr>db_os = Windows, db_label = ''Windows'', db_file = ''release-windows.zip'', db_sizeLabel = ''3.0 MB'',
    db_sha256 = ''0f6cca17814e54cff4f9816dee9db99f5ac45cd8599f8d8af1b9ab769702faba'',
    db_installNote = ''Unzip, then run the installer inside.'',
    db_gateNote = ''SmartScreen will say \"Windows protected your PC\" because the build isn'' @ [CHR 0x27] @ ''t code-signed yet '' @ [CHR 0xE2, CHR 0x80, CHR 0x94] @ '' click \"More info\" '' @ [CHR 0xE2, CHR 0x86, CHR 0x92] @ '' \"Run anyway\".''\<rparr>,
   \<lparr>db_os = Macos, db_label = ''macOS'', db_file = ''labyrithm-agent-macos.zip'', db_sizeLabel = ''3.2 MB'',
    db_sha256 = ''f00055d1b1c3c0a34cd46ac77c9d5a392d2b825a324fdc6a7c7d6d29dae0e4c8'',
    db_installNote = ''Unzip, then drag the app into Applications.'',
    db_gateNote = ''Gatekeeper will block the first launch since the app isn'' @ [CHR 0x27] @ ''t notarized. Close that message, then go to System Settings '' @ [CHR 0xE2, CHR 0x86, CHR 0x92] @ '' Privacy & Security, scroll to the Security section, and click \"Open Anyway\" '' @ [CHR 0xE2, CHR 0x80, CHR 0x94] @ '' then open the app once more to confirm.''\<rparr>,
   \<lparr>db_os = Linux, db_label = ''Linux'', db_file = ''release-linux.zip'', db_sizeLabel = ''2.8 MB'',
    db_sha256 = ''15736e7bc8c24c86c544081d133e781ed7140da97a38a5678ce27877912f7e07'',
    db_installNote = ''Unzip, then run the AppImage or install the .deb inside.'',
    db_gateNote = ''Mark the AppImage executable first: chmod +x ./*.AppImage''\<rparr>]"

text \<open>\<open>navigator\<close> as user agent and platform, absent on the server.\<close>

definition detectOs :: "(string \<times> string option) option \<Rightarrow> desktop_os option" where
  "detectOs nav =
     (case nav of
        None \<Rightarrow> None
      | Some (userAgent, platform_name) \<Rightarrow>
          let p = js_lower (userAgent @ '' '' @ (case platform_name of None \<Rightarrow> [] | Some t \<Rightarrow> t))
          in if str_includes p ''win'' then Some Windows
             else if str_includes p ''mac'' then Some Macos
             else if str_includes p ''linux'' \<or> str_includes p ''x11'' then Some Linux
             else None)"

section \<open>The local agent\<close>

text \<open>The server's status of a contestant's agent is the JSON it sent; \<open>null\<close> when it could not be read.\<close>

definition proctorLocksContest :: "jsv \<Rightarrow> bool" where
  "proctorLocksContest self =
     (if \<not> truthy self \<or> truthy (get_opt self ''exempt'') then False else \<not> truthy (get_opt self ''allowed''))"

definition agentUrl :: "nat \<Rightarrow> string \<Rightarrow> string" where
  "agentUrl port path = ''http://'' @ AGENT_HOST @ '':'' @ show_nat port @ path"

text \<open>A preferred port of 0 counts as none.\<close>

definition preferred :: "nat option \<Rightarrow> nat option" where
  "preferred p = (case p of None \<Rightarrow> None | Some n \<Rightarrow> if n = 0 then None else Some n)"

definition orderedPorts :: "nat option \<Rightarrow> nat list" where
  "orderedPorts preferredPort =
     (case preferred preferredPort of
        Some n \<Rightarrow> n # filter (\<lambda>port. port \<noteq> n) LOOPBACK_PORTS
      | None \<Rightarrow> LOOPBACK_PORTS)"

definition agent_request :: "nat \<Rightarrow> string \<Rightarrow> string \<Rightarrow> request" where
  "agent_request port path m = \<lparr>req_url = agentUrl port path, req_method = m, req_headers = [], req_body = NoBody\<rparr>"

definition probe :: "nat \<Rightarrow> jsv io" where
  "probe port =
     catch (bind (fetch (agent_request port ''/status'' ''GET'')) (\<lambda>res. if \<not> rsp_ok res then ret Null else res_json res))
       (\<lambda>_. ret Null)"

fun probe_ports :: "nat list \<Rightarrow> jsv io" where
  "probe_ports [] = ret Null"
| "probe_ports (port # ports) = bind (probe port) (\<lambda>status. if truthy status then ret status else probe_ports ports)"

definition readLocalAgent :: "nat option \<Rightarrow> bool \<Rightarrow> jsv io" where
  "readLocalAgent preferredPort exhaustive =
     (case preferred preferredPort of
        Some n \<Rightarrow>
          if \<not> exhaustive
          then bind (probe n) (\<lambda>status. if truthy status then ret status else probe_ports (orderedPorts preferredPort))
          else probe_ports (orderedPorts preferredPort)
      | None \<Rightarrow> probe_ports (orderedPorts preferredPort))"

fun stop_ports :: "nat list \<Rightarrow> bool io" where
  "stop_ports [] = ret False"
| "stop_ports (port # ports) =
     bind (catch (bind (fetch (agent_request port ''/stop'' ''POST'')) (\<lambda>res. ret (rsp_ok res))) (\<lambda>_. ret False)) (\<lambda>stopped.
     if stopped then ret True else stop_ports ports)"

definition stopLocalAgent :: "nat option \<Rightarrow> bool io" where
  "stopLocalAgent preferredPort = stop_ports (orderedPorts preferredPort)"

text \<open>What one port answers, for a machine whose ports do not change while they are probed.\<close>

definition port_status :: "env \<Rightarrow> nat \<Rightarrow> jsv" where
  "port_status e port =
     (case env_fetch e [] (agent_request port ''/status'' ''GET'') of
        Inl _ \<Rightarrow> Null
      | Inr r \<Rightarrow> if \<not> rsp_ok r then Null else (case json_value e r of Inl _ \<Rightarrow> Null | Inr v \<Rightarrow> v))"

definition steady :: "env \<Rightarrow> bool" where
  "steady e \<longleftrightarrow> (\<forall>qs q. env_fetch e qs q = env_fetch e [] q)"

text \<open>The value a probe ends with, given what \<open>fetch\<close> answered.\<close>

definition probe_value :: "env \<Rightarrow> exn + response \<Rightarrow> jsv" where
  "probe_value e answer =
     (case answer of
        Inl _ \<Rightarrow> Null
      | Inr r \<Rightarrow> if \<not> rsp_ok r then Null else (case json_value e r of Inl _ \<Rightarrow> Null | Inr v \<Rightarrow> v))"

lemma probe_always:
  "probe port e w = (Inr (probe_value e (env_fetch e (sent w) (agent_request port ''/status'' ''GET''))),
                     w\<lparr>sent := sent w @ [agent_request port ''/status'' ''GET'']\<rparr>)"
proof (cases "env_fetch e (sent w) (agent_request port ''/status'' ''GET'')")
  case (Inr r)
  then show ?thesis by (cases "rsp_ok r") (simp_all add: probe_def probe_value_def io_simps split: sum.split)
qed (simp add: probe_def probe_value_def io_simps)

lemma probe_run:
  assumes "steady e"
  shows "probe port e w = (Inr (port_status e port), w\<lparr>sent := sent w @ [agent_request port ''/status'' ''GET'']\<rparr>)"
proof -
  have "env_fetch e (sent w) q = env_fetch e [] q" for q using assms unfolding steady_def by blast
  then show ?thesis by (simp only: probe_always port_status_def probe_value_def)
qed

lemma probe_ports_run:
  assumes "steady e"
  shows "fst (probe_ports ports e w) =
           Inr (case List.find (\<lambda>p. truthy (port_status e p)) ports of Some p \<Rightarrow> port_status e p | None \<Rightarrow> Null)"
proof (induction ports arbitrary: w)
  case (Cons p ports)
  show ?case using Cons.IH by (simp add: bind_def probe_run [OF assms] ret_def)
qed (simp add: ret_def)

lemma probe_ports_sent:
  "\<exists>ps. sent (snd (probe_ports ports e w)) = sent w @ map (\<lambda>p. agent_request p ''/status'' ''GET'') ps \<and>
        set ps \<subseteq> set ports \<and> length ps \<le> length ports"
proof (induction ports arbitrary: w)
  case Nil
  show ?case by (intro exI [of _ "[]"]) (simp add: ret_def)
next
  case (Cons p ports)
  obtain v where v: "probe p e w = (Inr v, w\<lparr>sent := sent w @ [agent_request p ''/status'' ''GET'']\<rparr>)"
    using probe_always by blast
  show ?case
  proof (cases "truthy v")
    case True
    then show ?thesis by (intro exI [of _ "[p]"]) (simp add: bind_def v ret_def)
  next
    case False
    obtain ps where "sent (snd (probe_ports ports e (w\<lparr>sent := sent w @ [agent_request p ''/status'' ''GET'']\<rparr>))) =
        (sent w @ [agent_request p ''/status'' ''GET'']) @ map (\<lambda>p. agent_request p ''/status'' ''GET'') ps"
      "set ps \<subseteq> set ports" "length ps \<le> length ports"
      using Cons.IH [of "w\<lparr>sent := sent w @ [agent_request p ''/status'' ''GET'']\<rparr>"] by auto
    then show ?thesis using False by (intro exI [of _ "p # ps"]) (auto simp: bind_def v)
  qed
qed

text \<open>
  Finding the agent: when the ports of the machine answer steadily, the search returns the status of the first port of the
  order (the preferred one first, then the five fixed ones) that answers with a status, and null exactly when none does;
  it never throws and never contacts anything but 127.0.0.1.
\<close>

theorem readLocalAgent_finds:
  assumes "steady e"
  shows "fst (readLocalAgent p exhaustive e w) =
           Inr (case List.find (\<lambda>port. truthy (port_status e port)) (orderedPorts p) of
                  Some port \<Rightarrow> port_status e port | None \<Rightarrow> Null) \<and>
         (\<exists>ps. sent (snd (readLocalAgent p exhaustive e w)) = sent w @ map (\<lambda>port. agent_request port ''/status'' ''GET'') ps \<and>
            set ps \<subseteq> set (orderedPorts p) \<and> length ps \<le> 7)"
proof (cases "preferred p")
  case None
  then show ?thesis
    using probe_ports_run [OF assms, of "orderedPorts p" w] probe_ports_sent [of "orderedPorts p" e w]
    by (auto simp: readLocalAgent_def orderedPorts_def LOOPBACK_PORTS_def)
next
  case (Some n)
  have len: "length (orderedPorts p) \<le> 6"
    using length_filter_le [of "\<lambda>port. port \<noteq> n" LOOPBACK_PORTS]
    by (simp add: orderedPorts_def Some) (simp add: LOOPBACK_PORTS_def)
  have first: "orderedPorts p = n # filter (\<lambda>port. port \<noteq> n) LOOPBACK_PORTS" by (simp add: orderedPorts_def Some)
  let ?w = "w\<lparr>sent := sent w @ [agent_request n ''/status'' ''GET'']\<rparr>"
  obtain ps where ps: "sent (snd (probe_ports (orderedPorts p) e w)) = sent w @ map (\<lambda>p. agent_request p ''/status'' ''GET'') ps"
      "set ps \<subseteq> set (orderedPorts p)" "length ps \<le> 6"
    using probe_ports_sent [of "orderedPorts p" e w] len by fastforce
  obtain qs where qs: "sent (snd (probe_ports (orderedPorts p) e ?w)) = sent ?w @ map (\<lambda>p. agent_request p ''/status'' ''GET'') qs"
      "set qs \<subseteq> set (orderedPorts p)" "length qs \<le> 6"
    using probe_ports_sent [of "orderedPorts p" e ?w] len by fastforce
  have retry: "\<exists>ps. sent (snd (probe_ports (orderedPorts p) e ?w)) = sent w @ map (\<lambda>port. agent_request port ''/status'' ''GET'') ps \<and>
      set ps \<subseteq> set (orderedPorts p) \<and> length ps \<le> 7"
    using qs by (intro exI [of _ "n # qs"]) (auto simp: first)
  have found: "\<exists>ps. sent ?w = sent w @ map (\<lambda>port. agent_request port ''/status'' ''GET'') ps \<and>
      set ps \<subseteq> set (orderedPorts p) \<and> length ps \<le> 7"
    by (intro exI [of _ "[n]"]) (simp add: first)
  have direct: "\<exists>ps. sent (snd (probe_ports (orderedPorts p) e w)) = sent w @ map (\<lambda>port. agent_request port ''/status'' ''GET'') ps \<and>
      set ps \<subseteq> set (orderedPorts p) \<and> length ps \<le> 7"
    using ps by (intro exI [of _ ps]) simp
  show ?thesis
  proof (cases exhaustive)
    case True
    then have "readLocalAgent p exhaustive = probe_ports (orderedPorts p)" by (simp add: readLocalAgent_def Some)
    then show ?thesis using direct probe_ports_run [OF assms] by simp
  next
    case False
    then have run: "readLocalAgent p exhaustive e w =
        (if truthy (port_status e n) then (Inr (port_status e n), ?w) else probe_ports (orderedPorts p) e ?w)"
      by (simp add: readLocalAgent_def Some bind_def probe_run [OF assms] ret_def)
    show ?thesis
    proof (cases "truthy (port_status e n)")
      case True
      then show ?thesis using found by (simp add: run first)
    next
      case f: False
      then show ?thesis using retry probe_ports_run [OF assms, of "orderedPorts p" ?w] by (simp add: run)
    qed
  qed
qed

theorem readLocalAgent_finds_witness:
  "fst (readLocalAgent (Some 47617) False offline (with_cookie ''x'' ''y'')) = Inr Null"
proof -
  have s: "steady offline" by (simp add: steady_def offline_def)
  have none: "port_status offline p = Null" for p by (simp add: port_status_def offline_def)
  show ?thesis using readLocalAgent_finds [OF s, of "Some 47617" False "with_cookie ''x'' ''y''"]
    by (simp add: none find_None_iff [THEN iffD2])
qed

section \<open>Verdict summary\<close>

record subtask_result =
  st_id :: jsv
  st_points :: jsv
  st_earned :: jsv
  st_passed :: bool
  st_verdict :: jsv
  st_timeMs :: jsv

definition subtask_verdict :: "subtask_result \<Rightarrow> jsv" where
  "subtask_verdict t = js_coalesce (st_verdict t) (Str (if st_passed t then ''AC'' else ''WA''))"

definition count_verdict :: "(jsv, nat) jsmap \<Rightarrow> subtask_result \<Rightarrow> (jsv, nat) jsmap" where
  "count_verdict counts t =
     (let v = subtask_verdict t
      in map_set v ((case map_get counts v of None \<Rightarrow> 0 | Some n \<Rightarrow> n) + 1) counts)"

definition summarizeSubtasks :: "subtask_result list \<Rightarrow> string option" where
  "summarizeSubtasks subtasks =
     (if subtasks = [] then None
      else
        let counts = foldl count_verdict [] subtasks;
            passedCount = length (filter st_passed subtasks);
            failureParts = map (\<lambda>(verdict, n). show_nat n @ '' '' @ js_String verdict)
                             (filter (\<lambda>(verdict, n). verdict \<noteq> Str ''AC'') counts)
        in if failureParts = [] then None
           else Some (show_nat passedCount @ ''/'' @ show_nat (length subtasks) @ '' passed '' @ em_dash @ '' '' @
                      join_with ('' '' @ middle_dot @ '' '') failureParts))"

section \<open>Documentation pages\<close>

datatype language_doc = CPP_DOC | PYTHON_DOC | JAVA_DOC | RUST_DOC | C_DOC | JAVASCRIPT_DOC | ALGORITHMS_DOC

definition DOC_LANGUAGES :: "language_doc list" where
  "DOC_LANGUAGES = [CPP_DOC, PYTHON_DOC, JAVA_DOC, RUST_DOC, C_DOC, JAVASCRIPT_DOC, ALGORITHMS_DOC]"

definition getLanguageDoc :: "string \<Rightarrow> language_doc option" where
  "getLanguageDoc slug =
     (let normalized = js_lower slug
      in if normalized = ''cpp'' \<or> normalized = ''c++'' then Some CPP_DOC
         else if normalized = ''python'' \<or> normalized = ''py'' then Some PYTHON_DOC
         else if normalized = ''java'' then Some JAVA_DOC
         else if normalized = ''rust'' \<or> normalized = ''rs'' then Some RUST_DOC
         else if normalized = ''c'' then Some C_DOC
         else if normalized = ''javascript'' \<or> normalized = ''js'' \<or> normalized = ''node'' then Some JAVASCRIPT_DOC
         else if normalized = ''algorithms'' \<or> normalized = ''algo'' then Some ALGORITHMS_DOC
         else None)"

end
