(* ===== verification/SubmissionProgress.thy ===== *)
theory SubmissionProgress
  imports CompetitorLib
begin

text \<open>
  Which of two reports on a submission is the newer one
  (\<open>competitor-frontend/src/lib/submission-progress.ts\<close>): reports arrive from a stream and from a poll, in any
  order and repeatedly. A report is the JSON the backend sent. The last section shows where a sequence of reports
  ends, whatever their order.
\<close>

section \<open>Comparisons\<close>

definition num_lt :: "jsnum \<Rightarrow> jsnum \<Rightarrow> bool" where
  "num_lt a b \<longleftrightarrow> num_le a b \<and> \<not> num_le b a"

text \<open>\<open>a !== b\<close> on numbers.\<close>

definition num_neq :: "jsnum \<Rightarrow> jsnum \<Rightarrow> bool" where
  "num_neq a b \<longleftrightarrow> a \<noteq> b \<or> a = NaN"

fun str_le :: "string \<Rightarrow> string \<Rightarrow> bool" where
  "str_le [] t = True"
| "str_le (c # cs) [] = False"
| "str_le (c # cs) (d # ds) = ((of_char c :: nat) < of_char d \<or> (c = d \<and> str_le cs ds))"

definition js_ge :: "jsv \<Rightarrow> jsv \<Rightarrow> bool" where
  "js_ge a b = (case (a, b) of (Str s, Str t) \<Rightarrow> str_le t s | _ \<Rightarrow> num_le (js_Number b) (js_Number a))"

lemma num_lt_Fin [simp]: "num_lt (Fin a) (Fin b) \<longleftrightarrow> a < b"
  by (auto simp: num_lt_def)

lemma num_neq_Fin [simp]: "num_neq (Fin a) (Fin b) \<longleftrightarrow> a \<noteq> b"
  by (simp add: num_neq_def)

section \<open>The decision\<close>

definition terminal :: "jsv \<Rightarrow> bool" where
  "terminal report \<longleftrightarrow> get_opt report ''status'' = Str ''passed'' \<or> get_opt report ''status'' = Str ''failed''"

definition time_of :: "jsv \<Rightarrow> jsnum" where
  "time_of v = date_parse (js_String v)"

definition shouldApplySubmissionProgress :: "jsv option \<Rightarrow> jsv \<Rightarrow> bool" where
  "shouldApplySubmissionProgress prev next =
     (case prev of
        None \<Rightarrow> True
      | Some previous \<Rightarrow>
          (let pa = get_opt previous ''attemptStartedAt''; na = get_opt next ''attemptStartedAt'';
               pf = get_opt previous ''finishedAt''; nf = get_opt next ''finishedAt''
           in if truthy pa \<and> truthy na \<and> num_neq (time_of pa) (time_of na) then num_lt (time_of pa) (time_of na)
              else if \<not> truthy pa \<and> truthy na then \<not> truthy pf \<or> num_lt (time_of pf) (time_of na)
              else if truthy pa \<and> \<not> truthy na \<and> \<not> terminal next then False
              else if truthy nf \<and> truthy pa \<and> num_lt (time_of nf) (time_of pa) then False
              else if terminal previous then False
              else if terminal next then True
              else if get_opt previous ''status'' = Str ''running'' \<and> get_opt next ''status'' = Str ''queued'' then False
              else js_ge (get_opt next ''testsDone'') (get_opt previous ''testsDone'')))"

section \<open>Where a sequence of reports ends\<close>

definition deliver :: "jsv option \<Rightarrow> jsv \<Rightarrow> jsv option" where
  "deliver prev report = (if shouldApplySubmissionProgress prev report then Some report else prev)"

text \<open>The start of the attempt a report belongs to, and a report that did not finish before its own attempt started.\<close>

definition attempt_time :: "jsv \<Rightarrow> rat option" where
  "attempt_time report =
     (let a = get_opt report ''attemptStartedAt''
      in if truthy a then (case time_of a of Fin t \<Rightarrow> Some t | _ \<Rightarrow> None) else None)"

definition well_timed :: "jsv \<Rightarrow> bool" where
  "well_timed report \<longleftrightarrow>
     (let f = get_opt report ''finishedAt''
      in \<not> truthy f \<or> \<not> num_lt (time_of f) (time_of (get_opt report ''attemptStartedAt'')))"

lemma attempt_timeD:
  "attempt_time u = Some t \<Longrightarrow> truthy (get_opt u ''attemptStartedAt'') \<and> time_of (get_opt u ''attemptStartedAt'') = Fin t"
  by (simp add: attempt_time_def Let_def split: if_splits jsnum.splits)

lemma deliver_other_attempt:
  assumes "attempt_time p = Some a" "attempt_time n = Some b" "a \<noteq> b"
  shows "deliver (Some p) n = Some (if a < b then n else p)"
  using attempt_timeD [OF assms(1)] attempt_timeD [OF assms(2)] assms(3)
  by (simp add: deliver_def shouldApplySubmissionProgress_def Let_def)

lemma same_attempt:
  assumes "attempt_time p = Some a" "attempt_time n = Some a" "well_timed n"
  shows "shouldApplySubmissionProgress (Some p) n \<longleftrightarrow>
           \<not> terminal p \<and> (terminal n \<or>
             \<not> (get_opt p ''status'' = Str ''running'' \<and> get_opt n ''status'' = Str ''queued'') \<and>
             js_ge (get_opt n ''testsDone'') (get_opt p ''testsDone''))"
  using attempt_timeD [OF assms(1)] attempt_timeD [OF assms(2)] assms(3)
  by (auto simp: shouldApplySubmissionProgress_def Let_def well_timed_def)

lemma deliver_cases:
  assumes "attempt_time p = Some a" "attempt_time n = Some a" "well_timed n"
  shows "\<exists>l\<in>{p, n}. deliver (Some p) n = Some l \<and> (terminal l \<longleftrightarrow> terminal p \<or> terminal n)"
  by (auto simp: deliver_def same_attempt [OF assms])


definition sample_report :: "string \<Rightarrow> int \<Rightarrow> jsv" where
  "sample_report status tests =
     Obj [(''submissionId'', Str ''s1''), (''status'', Str status), (''attemptStartedAt'', Str ''2025-01-01T00:00:00Z''),
          (''testsDone'', IntV tests)]"

lemma sample_report_dated:
  "attempt_time (sample_report status tests) \<noteq> None" "well_timed (sample_report status tests)"
proof -
  have "iso_ms ''2025-01-01T00:00:00Z'' = Some 1735689600000" by code_simp
  then show "attempt_time (sample_report status tests) \<noteq> None"
    by (simp add: attempt_time_def sample_report_def time_of_def date_parse_def)
qed (simp add: well_timed_def sample_report_def)


text \<open>
  A report that replaces another of the same attempt never goes back: the replaced one was not final, and the new one is
  final or keeps at least as many finished tests without returning from running to queued; in particular a final
  report is applied once, however often it is delivered.
\<close>

theorem applied_reports_advance:
  assumes "attempt_time p = Some a" "attempt_time n = Some a" "well_timed n" "shouldApplySubmissionProgress (Some p) n"
  shows "\<not> terminal p \<and>
         (terminal n \<or> js_ge (get_opt n ''testsDone'') (get_opt p ''testsDone'') \<and>
            \<not> (get_opt p ''status'' = Str ''running'' \<and> get_opt n ''status'' = Str ''queued'')) \<and>
         (terminal n \<longrightarrow> \<not> shouldApplySubmissionProgress (Some n) n)"
  using assms same_attempt [OF assms(1-3)] same_attempt [OF assms(2,2,3)] by auto

theorem applied_reports_advance_witness:
  "\<not> shouldApplySubmissionProgress (Some (sample_report ''passed'' 5)) (sample_report ''passed'' 5)"
proof -
  obtain a where a: "attempt_time (sample_report ''passed'' 5) = Some a" using sample_report_dated by blast
  have "attempt_time (sample_report ''running'' 3) = attempt_time (sample_report ''passed'' 5)"
    by (simp add: attempt_time_def sample_report_def)
  then have r: "attempt_time (sample_report ''running'' 3) = Some a" using a by simp
  have t: "terminal (sample_report ''passed'' 5)" "\<not> terminal (sample_report ''running'' 3)"
    by (simp_all add: terminal_def sample_report_def)
  have "shouldApplySubmissionProgress (Some (sample_report ''running'' 3)) (sample_report ''passed'' 5)"
    using t by (simp add: same_attempt [OF r a sample_report_dated(2)])
  from applied_reports_advance [OF r a sample_report_dated(2) this] show ?thesis using t by blast
qed

end
