(* ===== verification/SubmissionsFeed.thy ===== *)
theory SubmissionsFeed
  imports SubmissionProgress
begin

text \<open>
  The live feed of submissions, first part of
  \<open>competitor-frontend/src/components/portal/submissions-provider.tsx\<close>: splitting the event stream into events
  whatever the network's chunks, reading one event, the result a report shows, the delays between
  connection attempts and the rotation of the poll. \<open>TextDecoder\<close> is the platform's: a chunk is its text.
\<close>

section \<open>Framing\<close>

text \<open>\<open>s.split("\n\n")\<close>\<close>

abbreviation NL :: char where
  "NL \<equiv> CHR 0x0A"

definition onto_first :: "char \<Rightarrow> string list \<Rightarrow> string list" where
  "onto_first c ps = (case ps of [] \<Rightarrow> [[c]] | p # qs \<Rightarrow> (c # p) # qs)"

fun split_blank :: "string \<Rightarrow> string list" where
  "split_blank [] = [[]]"
| "split_blank [c] = [[c]]"
| "split_blank (c # d # cs) =
     (if c = NL \<and> d = NL then [] # split_blank cs else onto_first c (split_blank (d # cs)))"

text \<open>One turn of the reader: the new text, the events completed by it, and the text kept for the next turn.\<close>

definition sse_feed :: "string \<Rightarrow> string \<Rightarrow> string list \<times> string" where
  "sse_feed buffer txt = (let chunks = split_blank (buffer @ txt) in (butlast chunks, last chunks))"

fun sse_run :: "string \<Rightarrow> string list \<Rightarrow> string list \<times> string" where
  "sse_run buffer [] = ([], buffer)"
| "sse_run buffer (t # ts) =
     (let (evs, rest) = sse_feed buffer t; (more, final) = sse_run rest ts in (evs @ more, final))"

lemma split_blank_nonempty [simp]: "split_blank s \<noteq> []"
  by (induction s rule: split_blank.induct) (auto simp: onto_first_def split: list.splits)

lemma onto_first_append: "ps \<noteq> [] \<Longrightarrow> onto_first c (ps @ qs) = onto_first c ps @ qs"
  by (cases ps) (auto simp: onto_first_def)

lemma butlast_onto_first: "ps \<noteq> [] \<Longrightarrow>
  butlast (onto_first c ps) = (if length ps = 1 then [] else onto_first c (butlast ps))"
  by (cases ps) (auto simp: onto_first_def)

lemma last_onto_first: "ps \<noteq> [] \<Longrightarrow> last (onto_first c ps) = (if length ps = 1 then c # last ps else last ps)"
  by (cases ps) (auto simp: onto_first_def)

lemma split_blank_single: "length (split_blank s) = 1 \<Longrightarrow> split_blank s = [s]"
proof (induction s rule: split_blank.induct)
  case (3 c d cs)
  then show ?case
    by (cases "split_blank (d # cs)") (auto simp: onto_first_def split: if_splits)
qed auto

lemma split_blank_append:
  "split_blank (a @ b) = butlast (split_blank a) @ split_blank (last (split_blank a) @ b)"
proof (induction a rule: split_blank.induct)
  case (3 c d cs)
  show ?case
  proof (cases "c = NL \<and> d = NL")
    case True
    then have "c = NL" "d = NL" by simp_all
    then show ?thesis using "3.IH"(1) by simp
  next
    case False
    then have IH: "split_blank (d # cs @ b) =
        butlast (split_blank (d # cs)) @ split_blank (last (split_blank (d # cs)) @ b)" using "3.IH"(2) by auto
    show ?thesis
    proof (cases "length (split_blank (d # cs)) = 1")
      case True
      then have "split_blank (d # cs) = [d # cs]" by (rule split_blank_single)
      then show ?thesis using False by (auto simp: onto_first_def)
    next
      case long: False
      have ne: "butlast (split_blank (d # cs)) \<noteq> []" using long
        by (cases "split_blank (d # cs)" rule: rev_cases) auto
      have step: "split_blank (c # d # s) = onto_first c (split_blank (d # s))" for s using False by auto
      show ?thesis using long ne
        by (simp only: step IH append_Cons butlast_onto_first last_onto_first onto_first_append split_blank_nonempty
            if_False not_False_eq_True)
    qed
  qed
qed auto

lemma sse_run_concat: "sse_run buffer ts = sse_feed buffer (concat ts) \<or> ts = [] "
proof (induction ts arbitrary: buffer)
  case (Cons t ts)
  show ?case
  proof (cases "ts = []")
    case False
    then have "sse_run (snd (sse_feed buffer t)) ts = sse_feed (snd (sse_feed buffer t)) (concat ts)" using Cons.IH by blast
    then show ?thesis using split_blank_append [of "buffer @ t" "concat ts"]
      by (simp add: sse_feed_def Let_def butlast_append)
  qed (simp add: sse_feed_def Let_def)
qed simp

text \<open>
  C16: The network's chunking is invisible: however the bytes of the event stream are cut into reads (inside a line, inside a
  separator, one character at a time), the events read and the text left over are those of the whole stream read at
  once.
\<close>

theorem sse_chunking_invisible:
  assumes "concat ts = concat us" "ts \<noteq> []" "us \<noteq> []"
  shows "sse_run buffer ts = sse_run buffer us \<and>
         sse_run buffer ts = (butlast (split_blank (buffer @ concat us)), last (split_blank (buffer @ concat us)))"
  using assms sse_run_concat [of buffer ts] sse_run_concat [of buffer us] by (simp add: sse_feed_def Let_def)

theorem sse_chunking_invisible_witness:
  "sse_run [] [''a'', [NL], [NL], ''b''] = ([''a''], ''b'')"
proof -
  have "concat [''a'', [NL], [NL], ''b''] = concat [''a'' @ [NL, NL] @ ''b'']" by simp
  from conjunct2 [OF sse_chunking_invisible [OF this, of "[]"]]
  show ?thesis by (simp add: onto_first_def del: sse_run.simps)
qed

section \<open>Reading one event\<close>

record sse_event =
  ev_type :: string
  ev_data :: string

definition sse_line :: "sse_event \<Rightarrow> string \<Rightarrow> sse_event" where
  "sse_line ev line =
     (if starts_with line ''event:'' then ev\<lparr>ev_type := js_trim (drop 6 line)\<rparr>
      else if starts_with line ''data:''
      then ev\<lparr>ev_data := ev_data ev @ (if ev_data ev \<noteq> [] then [NL] else []) @ js_trim (drop 5 line)\<rparr>
      else ev)"

definition sse_event_of :: "string \<Rightarrow> sse_event" where
  "sse_event_of chunk = foldl sse_line \<lparr>ev_type = ''message'', ev_data = []\<rparr> (split_char NL chunk)"

section \<open>The result a report shows\<close>

definition subtask_of :: "jsv \<Rightarrow> exn + subtask_result" where
  "subtask_of test =
     (case get test ''ordinal'' of
        Inl x \<Rightarrow> Inl x
      | Inr i \<Rightarrow> Inr \<lparr>st_id = i, st_points = get_opt test ''maxPoints'', st_earned = get_opt test ''points'',
                    st_passed = (get_opt test ''verdict'' = Str ''AC''), st_verdict = get_opt test ''verdict'',
                    st_timeMs = get_opt test ''timeMs''\<rparr>)"

record result_view =
  rs_submissionId :: jsv
  rs_problemId :: jsv
  rs_status :: jsv
  rs_score :: jsv
  rs_maxScore :: jsv
  rs_queuePosition :: jsv
  rs_compileError :: jsv
  rs_verdict :: jsv
  rs_subtasks :: "subtask_result list"
  rs_improvedBest :: bool
  rs_previousBest :: jsv

definition parseSubmissionResult :: "jsv \<Rightarrow> exn + result_view" where
  "parseSubmissionResult data =
     (case get data ''tests'' of
        Inl x \<Rightarrow> Inl x
      | Inr tests \<Rightarrow>
          (case js_map subtask_of (js_coalesce tests (Arr [])) of
             Inl x \<Rightarrow> Inl x
           | Inr subtasks \<Rightarrow>
               let f = get_opt data in Inr
               \<lparr>rs_submissionId = f ''submissionId'', rs_problemId = f ''problemId'', rs_status = f ''status'',
                rs_score = f ''score'', rs_maxScore = f ''maxScore'', rs_queuePosition = f ''queuePosition'',
                rs_compileError = f ''compileError'', rs_verdict = f ''verdict'', rs_subtasks = subtasks,
                rs_improvedBest = False, rs_previousBest = IntV 0\<rparr>))"

section \<open>Reconnecting\<close>

text \<open>How one connection attempt of the stream loop ended.\<close>

datatype stream_end =
    NotOk nat
  | StreamEnded
  | ConnectFailed
  | StreamBroke

text \<open>The wait before the next attempt and the delay kept for later; a connection that was made resets the delay.\<close>

definition stream_wait :: "stream_end \<Rightarrow> nat \<Rightarrow> nat \<times> nat" where
  "stream_wait outcome reconnectDelay =
     (case outcome of
        NotOk status \<Rightarrow>
          (if status = 423 then 10000 else if status = 429 then 15000 else if status = 401 then 10000 else 5000,
           reconnectDelay)
      | StreamEnded \<Rightarrow> (1000, min (1000 * 2) 15000)
      | StreamBroke \<Rightarrow> (1000, min (1000 * 2) 15000)
      | ConnectFailed \<Rightarrow> (reconnectDelay, min (reconnectDelay * 2) 15000))"

fun stream_waits :: "nat \<Rightarrow> stream_end list \<Rightarrow> nat list" where
  "stream_waits d [] = []"
| "stream_waits d (x # xs) = fst (stream_wait x d) # stream_waits (snd (stream_wait x d)) xs"

lemma stream_waits_bounds:
  "1000 \<le> d \<Longrightarrow> d \<le> 15000 \<Longrightarrow> list_all (\<lambda>t. 1000 \<le> t \<and> t \<le> 15000) (stream_waits d xs)"
proof (induction xs arbitrary: d)
  case (Cons x xs)
  have "1000 \<le> snd (stream_wait x d) \<and> snd (stream_wait x d) \<le> 15000"
    using Cons.prems by (cases x) (auto simp: stream_wait_def)
  moreover have "1000 \<le> fst (stream_wait x d) \<and> fst (stream_wait x d) \<le> 15000"
    using Cons.prems by (cases x) (auto simp: stream_wait_def)
  ultimately show ?case using Cons.IH by simp
qed simp

lemma backoff: "stream_waits d (replicate n ConnectFailed) = map (\<lambda>k. min (d * 2 ^ k) 15000) [0..<n]" if "d \<le> 15000"
  using that
proof (induction n arbitrary: d)
  case (Suc n)
  have "[0..<Suc n] = 0 # map Suc [0..<n]" by (simp add: map_Suc_upt upt_conv_Cons)
  moreover have "min (min (d * 2) 15000 * 2 ^ k) 15000 = min (d * 2 ^ Suc k) 15000" for k :: nat
  proof (cases "d * 2 \<le> 15000")
    case False
    have "(1::nat) \<le> 2 ^ k" by simp
    then have "15000 * 1 \<le> 15000 * (2::nat) ^ k" "15000 * 1 \<le> d * 2 * 2 ^ k" using False by (intro mult_le_mono; simp)+
    then show ?thesis using False by simp
  qed (simp add: mult.assoc)
  ultimately show ?case using Suc by (simp add: stream_wait_def)
qed simp

text \<open>
  The stream never reconnects in a busy loop and never gives up: whatever the attempts end with, the wait before the next
  one is between 1 and 15 seconds; while the server cannot be reached the waits double from one second up to fifteen,
  and the first connection that is made starts them over.
\<close>

theorem reconnect_backoff:
  "list_all (\<lambda>t. 1000 \<le> t \<and> t \<le> 15000) (stream_waits 1000 xs) \<and>
   stream_waits 1000 (replicate n ConnectFailed) = map (\<lambda>k. min (1000 * 2 ^ k) 15000) [0..<n] \<and>
   snd (stream_wait StreamEnded d) = snd (stream_wait ConnectFailed 1000)"
  by (intro conjI stream_waits_bounds backoff) (simp_all add: stream_wait_def)

section \<open>The poll\<close>

text \<open>The active ids in sorted order, and the one a tick asks for.\<close>

definition poll_target :: "string list \<Rightarrow> nat \<Rightarrow> string option" where
  "poll_target ids pollIndex = (if ids = [] then None else Some (ids ! (pollIndex mod length ids)))"

definition sorted_ids :: "string list \<Rightarrow> string list" where
  "sorted_ids ks = js_sort (\<lambda>a b. if a = b then 0 else if str_le a b then -1 else 1) ks"

text \<open>
  The poll starves no submission: while the set of active submissions stays the same, every one of them is asked for
  within as many ticks as there are active submissions, from whatever position the rotation is in.
\<close>

theorem poll_is_fair:
  assumes "i \<in> set keys"
  shows "\<exists>k < length keys. poll_target (sorted_ids keys) (pollIndex + k) = Some i"
proof -
  let ?ids = "sorted_ids keys" and ?n = "length keys"
  have len: "length ?ids = ?n" "set ?ids = set keys" by (simp_all add: sorted_ids_def)
  obtain j where j: "j < ?n" "?ids ! j = i" using assms len by (metis in_set_conv_nth)
  define k where "k = (j + (?n - pollIndex mod ?n)) mod ?n"
  have n: "0 < ?n" using j(1) by linarith
  have "(pollIndex + k) mod ?n = (pollIndex mod ?n + (j + (?n - pollIndex mod ?n))) mod ?n"
    by (simp add: k_def mod_simps)
  also have "pollIndex mod ?n + (j + (?n - pollIndex mod ?n)) = j + ?n"
    using mod_less_divisor [OF n, of pollIndex] by linarith
  finally have "(pollIndex + k) mod ?n = j" using j by simp
  moreover have "k < ?n" using n by (simp add: k_def)
  moreover have "?ids \<noteq> []" using n len by auto
  ultimately show ?thesis using j len by (intro exI [of _ k]) (simp add: poll_target_def)
qed

theorem poll_is_fair_witness:
  "\<exists>k < 2. poll_target (sorted_ids [''b'', ''a'']) (7 + k) = Some ''a''"
proof -
  have "''a'' \<in> set [''b'', ''a'']" by simp
  from poll_is_fair [OF this, of 7] show ?thesis by (simp add: numeral_2_eq_2)
qed

end
