(* ===== verification/SubmissionsProvider.thy ===== *)
theory SubmissionsProvider
  imports SubmissionsFeed
begin

text \<open>
  The state of \<open>competitor-frontend/src/components/portal/submissions-provider.tsx\<close>: the active submissions, the
  newest report of each (a map of at most 256), the last result, review and toast, and every operation on them:
  restoring after a reload, applying a report from the stream or the poll, reading the stream's events, submitting.
  Each React state update is applied at once. \<open>router.refresh()\<close> is counted. A \<open>Record\<close> keyed by submission ids
  keeps insertion order (the ids are not integers).
\<close>

section \<open>State\<close>

record active =
  ac_id :: jsv
  ac_problemId :: jsv
  ac_status :: string
  ac_queuePosition :: jsv
  ac_testsDone :: jsv
  ac_testsTotal :: jsv

datatype toast_variant = ToastSuccess | ToastError | ToastInfo

record toast =
  to_id :: string
  to_title :: string
  to_description :: jsv
  to_variant :: toast_variant

record review_notice =
  rn_submissionId :: jsv
  rn_reviewStatus :: jsv
  rn_reviewReason :: jsv

record provider =
  sp_active :: "(string, active) jsmap"
  sp_latest :: "(jsv, jsv) jsmap"
  sp_pollIndex :: nat
  sp_lastResult :: "result_view option"
  sp_lastReview :: "review_notice option"
  sp_toast :: "toast option"
  sp_streamHealthy :: bool
  sp_refreshes :: nat

definition provider_start :: provider where
  "provider_start = \<lparr>sp_active = [], sp_latest = [], sp_pollIndex = 0, sp_lastResult = None, sp_lastReview = None,
     sp_toast = None, sp_streamHealthy = False, sp_refreshes = 0\<rparr>"

definition activeSubmission :: "provider \<Rightarrow> active option" where
  "activeSubmission s = (case rev (sp_active s) of [] \<Rightarrow> None | (k, a) # _ \<Rightarrow> Some a)"

definition activeIDs :: "provider \<Rightarrow> string list" where
  "activeIDs s = sorted_ids (map_keys (sp_active s))"

section \<open>The map of newest reports\<close>

definition LATEST_BOUND :: nat where
  "LATEST_BOUND = 256"

definition remember :: "'k \<Rightarrow> 'v \<Rightarrow> ('k, 'v) jsmap \<Rightarrow> ('k, 'v) jsmap" where
  "remember k v m =
     (let m' = map_set k v m
      in if length (map_keys m') > LATEST_BOUND then map_delete (hd (map_keys m')) m' else m')"

interpretation latest_reports: bounded_map "[]" map_get map_set map_delete map_keys map_wf LATEST_BOUND
  by unfold_locales (simp add: LATEST_BOUND_def)

lemma remember_bounded: "remember k v m = latest_reports.put_bounded k v m"
  by (simp add: remember_def latest_reports.put_bounded_def)

lemma remember_valid: "map_wf m \<Longrightarrow> map_wf (remember k v m)"
  unfolding remember_bounded by (rule latest_reports.put_bounded_valid)

lemma remember_size:
  "map_wf m \<Longrightarrow> length (map_keys m) \<le> LATEST_BOUND \<Longrightarrow> length (map_keys (remember k v m)) \<le> LATEST_BOUND"
  unfolding remember_bounded by (rule latest_reports.put_bounded_size)

lemma remember_look:
  "map_wf m \<Longrightarrow> length (map_keys m) \<le> LATEST_BOUND \<Longrightarrow> map_get (remember k v m) k = Some v"
  unfolding remember_bounded by (rule latest_reports.put_bounded_look)

lemma remember_other:
  "map_wf m \<Longrightarrow> k' \<noteq> k \<Longrightarrow> map_get (remember k v m) k' = Some x \<Longrightarrow> map_get m k' = Some x"
  by (simp add: remember_def Let_def map_get_set map_get_delete split: if_splits)

section \<open>Applying a report\<close>

definition in_progress :: "jsv \<Rightarrow> bool" where
  "in_progress report \<longleftrightarrow> get_opt report ''status'' = Str ''queued'' \<or> get_opt report ''status'' = Str ''running''"

definition verdict_label :: "jsv \<Rightarrow> jsv" where
  "verdict_label verdict =
     (if truthy verdict
      then (case map_of VERDICT_DETAILS (js_String verdict) of Some (label, _) \<Rightarrow> Str label | None \<Rightarrow> verdict)
      else Str ''Failed'')"

definition result_toast :: "jsv \<Rightarrow> result_view \<Rightarrow> toast" where
  "result_toast submissionId parsed =
     (let accepted = (rs_verdict parsed = Str ''AC'');
          partial = (\<not> accepted \<and> num_lt (Fin 0) (js_Number (rs_score parsed)));
          label = js_String (verdict_label (rs_verdict parsed))
      in \<lparr>to_id = js_String submissionId,
          to_title = (if accepted then ''Submission Accepted!'' else if partial then ''Partial credit'' else ''Submission Failed''),
          to_description =
            (if accepted \<or> partial
             then Str (''Scored '' @ js_String (rs_score parsed) @ '' / '' @ js_String (rs_maxScore parsed) @ '' points.'' @
                       (if partial then '' Verdict: '' @ label @ ''.'' else []))
             else js_coalesce (rs_compileError parsed)
                    (case summarizeSubtasks (rs_subtasks parsed) of
                       Some t \<Rightarrow> Str t | None \<Rightarrow> Str (''Verdict: '' @ label))),
          to_variant = (if accepted then ToastSuccess else if partial then ToastInfo else ToastError)\<rparr>)"

definition show_progress :: "jsv \<Rightarrow> provider \<Rightarrow> provider" where
  "show_progress data s =
     s\<lparr>sp_active := map_set (js_String (get_opt data ''submissionId''))
         \<lparr>ac_id = get_opt data ''submissionId'', ac_problemId = get_opt data ''problemId'',
          ac_status = js_String (get_opt data ''status''), ac_queuePosition = get_opt data ''queuePosition'',
          ac_testsDone = get_opt data ''testsDone'', ac_testsTotal = get_opt data ''testsTotal''\<rparr> (sp_active s)\<rparr>"

definition show_result :: "jsv \<Rightarrow> result_view \<Rightarrow> provider \<Rightarrow> provider" where
  "show_result data parsed s =
     s\<lparr>sp_active := map_delete (js_String (get_opt data ''submissionId'')) (sp_active s),
       sp_lastResult := Some parsed, sp_refreshes := Suc (sp_refreshes s),
       sp_toast := Some (result_toast (get_opt data ''submissionId'') parsed)\<rparr>"

definition applyProgress :: "jsv \<Rightarrow> provider \<Rightarrow> provider" where
  "applyProgress data s =
     (let sid = get_opt data ''submissionId''
      in if \<not> truthy sid \<or> \<not> shouldApplySubmissionProgress (map_get (sp_latest s) sid) data then s
         else
           let s1 = s\<lparr>sp_latest := remember sid data (sp_latest s)\<rparr>
           in (case parseSubmissionResult data of
                 Inl _ \<Rightarrow> s1
               | Inr parsed \<Rightarrow> if in_progress data then show_progress data s1 else show_result data parsed s1))"

section \<open>The events of the stream\<close>

definition review_toast :: "jsv \<Rightarrow> jsv \<Rightarrow> jsv \<Rightarrow> toast" where
  "review_toast submissionId status reason =
     (let rejected = (status = Str ''rejected'')
      in \<lparr>to_id = ''review-'' @ js_String submissionId,
          to_title = (if rejected then ''Submission rejected'' else ''Submission reinstated''),
          to_description = Str
            (if rejected
             then (if truthy reason
                   then ''An organizer removed it from the leaderboard: '' @ js_String reason
                   else ''An organizer removed it from the leaderboard.'')
             else ''An organizer restored it. It counts towards your score again.''),
          to_variant = (if rejected then ToastError else ToastSuccess)\<rparr>)"

definition handle_data :: "jsv \<Rightarrow> provider \<Rightarrow> provider" where
  "handle_data data s =
     (case parseSubmissionResult data of
        Inl _ \<Rightarrow> s
      | Inr parsed \<Rightarrow>
          if \<not> truthy (rs_submissionId parsed) then s
          else if truthy (get_opt data ''reviewStatus'') then
            s\<lparr>sp_lastReview := Some \<lparr>rn_submissionId = rs_submissionId parsed,
                                      rn_reviewStatus = get_opt data ''reviewStatus'',
                                      rn_reviewReason = get_opt data ''reviewReason''\<rparr>,
              sp_toast := Some (review_toast (rs_submissionId parsed) (get_opt data ''reviewStatus'') (get_opt data ''reviewReason'')),
              sp_refreshes := Suc (sp_refreshes s)\<rparr>
          else applyProgress data s)"

definition handle_chunk :: "string \<Rightarrow> provider \<Rightarrow> provider" where
  "handle_chunk chunk s =
     (if js_trim chunk = [] then s
      else
        let ev = sse_event_of chunk
        in if ev_type ev = ''submission'' \<and> ev_data ev \<noteq> []
           then (case json_parse (ev_data ev) of None \<Rightarrow> s | Some data \<Rightarrow> handle_data data s)
           else s)"

text \<open>One successful read of the stream: the text kept and the state after its events.\<close>

definition stream_read :: "string \<Rightarrow> string \<times> provider \<Rightarrow> string \<times> provider" where
  "stream_read txt bs =
     (let (chunks, rest) = sse_feed (fst bs) txt in (rest, foldl (\<lambda>s c. handle_chunk c s) (snd bs) chunks))"

section \<open>Restoring, polling, submitting\<close>

definition restored_entry :: "submission_item \<Rightarrow> string \<Rightarrow> (string, active) jsmap \<Rightarrow> (string, active) jsmap" where
  "restored_entry i status m =
     (if truthy (si_problemId i) \<and> (status = ''queued'' \<or> status = ''running'')
      then map_set (js_String (si_submissionId i))
             \<lparr>ac_id = si_submissionId i, ac_problemId = si_problemId i, ac_status = status,
              ac_queuePosition = Undefined, ac_testsDone = Undefined, ac_testsTotal = Undefined\<rparr> m
      else m)"

text \<open>A listed status that is not text throws inside the promise: nothing is restored.\<close>

definition restored :: "submission_item list \<Rightarrow> (string, active) jsmap option" where
  "restored items =
     map_option (foldl (\<lambda>m (i, status). restored_entry i status m) [])
       (traverse (\<lambda>i. case si_status i of Str t \<Rightarrow> Some (i, js_lower t) | _ \<Rightarrow> None) items)"

definition restore :: "submission_item list \<Rightarrow> provider \<Rightarrow> provider" where
  "restore items s =
     (case restored items of
        None \<Rightarrow> s
      | Some r \<Rightarrow> if r = [] then s else s\<lparr>sp_active := foldl (\<lambda>m (k, a). map_set k a m) r (sp_active s)\<rparr>)"

definition poll_tick :: "provider \<Rightarrow> string option \<times> provider" where
  "poll_tick s =
     (if activeIDs s = [] \<or> sp_streamHealthy s then (None, s)
      else (poll_target (activeIDs s) (sp_pollIndex s), s\<lparr>sp_pollIndex := Suc (sp_pollIndex s)\<rparr>))"

definition poll_answer :: "bool \<Rightarrow> jsv \<Rightarrow> provider \<Rightarrow> provider" where
  "poll_answer cancelled statusData s = (if \<not> cancelled \<and> truthy statusData then applyProgress statusData s else s)"

definition submit_start :: "jsv \<Rightarrow> provider \<Rightarrow> provider" where
  "submit_start problemId s =
     (case sp_lastResult s of
        Some r \<Rightarrow> if rs_problemId r = problemId then s\<lparr>sp_lastResult := None\<rparr> else s
      | None \<Rightarrow> s)"

definition error_toast :: "string \<Rightarrow> string \<Rightarrow> jsv \<Rightarrow> toast" where
  "error_toast i title description = \<lparr>to_id = i, to_title = title, to_description = description, to_variant = ToastError\<rparr>"

definition gate_refusal :: "jsv \<Rightarrow> exn + bool" where
  "gate_refusal errorCode =
     (if nullish errorCode then Inr False
      else (case errorCode of
              Str c \<Rightarrow> Inr (starts_with c ''AGENT_'' \<or> c = ''NOT_ATTESTED'')
            | _ \<Rightarrow> Inl (Error ''result.errorCode?.startsWith is not a function'')))"

definition submit_thrown :: "string \<Rightarrow> jsv \<Rightarrow> exn \<Rightarrow> provider \<Rightarrow> submit_result \<times> provider" where
  "submit_thrown now previousBest err s =
     (let msg = message_or err ''Failed to process submission''
      in (submit_failed (Str msg) Undefined Undefined previousBest,
          s\<lparr>sp_toast := Some (error_toast now ''Submission Error'' (Str msg))\<rparr>))"

text \<open>What follows the \<open>await\<close> of \<open>submitCode\<close>; \<open>now\<close> is the clock's text.\<close>

definition submit_settle :: "string \<Rightarrow> jsv \<Rightarrow> jsv \<Rightarrow> exn + submit_result \<Rightarrow> provider \<Rightarrow> submit_result \<times> provider" where
  "submit_settle now problemId previousBest outcome s =
     (case outcome of
        Inl err \<Rightarrow> submit_thrown now previousBest err s
      | Inr result \<Rightarrow>
          if truthy (sr_error result) then
            (case gate_refusal (sr_errorCode result) of
               Inl err \<Rightarrow> submit_thrown now previousBest err s
             | Inr refused \<Rightarrow>
                 (result, s\<lparr>sp_toast := Some (error_toast now
                    (if refused then ''Submissions are locked'' else ''Submission Error'') (sr_error result))\<rparr>))
          else
            (result,
             if truthy (sr_submissionId result) \<and> map_get (sp_latest s) (sr_submissionId result) = None
             then s\<lparr>sp_active := map_set (js_String (sr_submissionId result))
                      \<lparr>ac_id = sr_submissionId result, ac_problemId = problemId, ac_status = ''queued'',
                       ac_queuePosition = sr_queuePosition result, ac_testsDone = Undefined, ac_testsTotal = Undefined\<rparr>
                      (sp_active s)\<rparr>
             else s))"

definition clearToast :: "provider \<Rightarrow> provider" where
  "clearToast s = s\<lparr>sp_toast := None\<rparr>"

definition setStreamHealthy :: "bool \<Rightarrow> provider \<Rightarrow> provider" where
  "setStreamHealthy b s = s\<lparr>sp_streamHealthy := b\<rparr>"

section \<open>What every reachable state satisfies\<close>

text \<open>The ids the backend sends are texts, a polled report's tests a list; a listing is stale when it still lists a submission whose end was reported.\<close>

definition text_id :: "jsv \<Rightarrow> bool" where
  "text_id v \<longleftrightarrow> \<not> truthy v \<or> (\<exists>t. v = Str t)"

definition ended_in :: "(jsv, jsv) jsmap \<Rightarrow> string \<Rightarrow> bool" where
  "ended_in m k \<longleftrightarrow> (\<exists>r. map_get m (Str k) = Some r \<and> \<not> in_progress r)"

definition fresh_listing :: "submission_item list \<Rightarrow> provider \<Rightarrow> bool" where
  "fresh_listing items s \<longleftrightarrow> list_all (\<lambda>i. text_id (si_submissionId i) \<and> \<not> ended_in (sp_latest s) (js_String (si_submissionId i))) items"

definition text_chunk :: "string \<Rightarrow> bool" where
  "text_chunk chunk \<longleftrightarrow> (\<forall>d. json_parse (ev_data (sse_event_of chunk)) = Some d \<longrightarrow> text_id (get_opt d ''submissionId''))"

inductive provider_step :: "provider \<Rightarrow> provider \<Rightarrow> bool" where
  Restore: "fresh_listing items s \<Longrightarrow> provider_step s (restore items s)"
| Chunk: "text_chunk chunk \<Longrightarrow> provider_step s (handle_chunk chunk s)"
| Tick: "provider_step s (snd (poll_tick s))"
| Answer: "text_id (get_opt d ''submissionId'') \<Longrightarrow> parseSubmissionResult d = Inr p \<Longrightarrow> provider_step s (poll_answer cancelled d s)"
| Submit: "provider_step s (submit_start problemId s)"
| Settled: "(\<And>r. outcome = Inr r \<Longrightarrow> text_id (sr_submissionId r)) \<Longrightarrow>
     provider_step s (snd (submit_settle now problemId best outcome s))"
| Clear: "provider_step s (clearToast s)"
| Health: "provider_step s (setStreamHealthy b s)"

definition provider_inv :: "provider \<Rightarrow> bool" where
  "provider_inv s \<longleftrightarrow>
     map_wf (sp_latest s) \<and> length (map_keys (sp_latest s)) \<le> LATEST_BOUND \<and>
     (\<forall>k \<in> set (map_keys (sp_latest s)). \<exists>t. k = Str t) \<and>
     map_wf (sp_active s) \<and> (\<forall>k \<in> set (map_keys (sp_active s)). \<not> ended_in (sp_latest s) k)"

lemma map_set_key_set: "set (map_keys (map_set k v m)) = insert k (set (map_keys m))"
  by (rule js_map.set_keys_put)

lemma map_delete_key_set: "set (map_keys (map_delete k m)) = set (map_keys m) - {k}"
  by (rule js_map.set_keys_del)

lemma remember_keys: "set (map_keys (remember k v m)) \<subseteq> insert k (set (map_keys m))"
  unfolding remember_bounded by (rule latest_reports.put_bounded_keys)

lemma remembered_ended:
  assumes "map_wf m" "length (map_keys m) \<le> LATEST_BOUND" "ended_in (remember (Str t) d m) k" "k \<noteq> t"
  shows "ended_in m k"
  using assms remember_other [OF assms(1), of "Str k" "Str t" d] unfolding ended_in_def by auto

lemma applyProgress_inv:
  assumes inv: "provider_inv s" and "text_id (get_opt data ''submissionId'')" "parseSubmissionResult data = Inr parsed"
  shows "provider_inv (applyProgress data s)"
proof -
  let ?sid = "get_opt data ''submissionId''"
  show ?thesis
  proof (cases "truthy ?sid \<and> shouldApplySubmissionProgress (map_get (sp_latest s) ?sid) data")
    case False
    then show ?thesis using inv by (auto simp: applyProgress_def Let_def)
  next
    case True
    then obtain t where t: "?sid = Str t" using assms(2) by (auto simp: text_id_def)
    note latest = inv [unfolded provider_inv_def]
    have wf: "map_wf (remember (Str t) data (sp_latest s))" "length (map_keys (remember (Str t) data (sp_latest s))) \<le> LATEST_BOUND"
      using latest by (auto intro: remember_valid remember_size)
    have keys: "\<forall>k\<in>set (map_keys (remember (Str t) data (sp_latest s))). \<exists>t. k = Str t"
      using remember_keys [of "Str t" data "sp_latest s"] latest by auto
    have own: "ended_in (remember (Str t) data (sp_latest s)) t \<longleftrightarrow> \<not> in_progress data"
      using remember_look [of "sp_latest s" "Str t" data] latest by (simp add: ended_in_def)
    have others: "\<not> ended_in (remember (Str t) data (sp_latest s)) k" if "k \<in> set (map_keys (sp_active s))" "k \<noteq> t" for k
      using that latest remembered_ended [of "sp_latest s" t data k] by auto
    have awf: "map_wf (map_set t a (sp_active s))" "map_wf (map_delete t (sp_active s))" for a
      using latest by (auto intro: js_map.valid_put js_map.valid_del)
    show ?thesis using True wf keys own others awf
      by (auto simp: applyProgress_def Let_def t assms(3) provider_inv_def show_progress_def show_result_def
          map_set_key_set map_delete_key_set)
  qed
qed

lemma provider_inv_cong:
  "sp_latest s' = sp_latest s \<Longrightarrow> sp_active s' = sp_active s \<Longrightarrow> provider_inv s \<Longrightarrow> provider_inv s'"
  by (simp add: provider_inv_def)

lemma handle_chunk_inv:
  assumes "provider_inv s" "text_chunk chunk"
  shows "provider_inv (handle_chunk chunk s)"
proof -
  have "provider_inv (handle_data data s)" if "text_id (get_opt data ''submissionId'')" for data
  proof (cases "parseSubmissionResult data")
    case (Inr parsed)
    then show ?thesis
      using assms(1) applyProgress_inv [OF assms(1) that Inr] provider_inv_cong [OF _ _ assms(1)]
      by (simp add: handle_data_def)
  qed (simp add: handle_data_def assms(1))
  then show ?thesis
    using assms by (auto simp: handle_chunk_def text_chunk_def Let_def split: option.split)
qed

lemma foldl_map_set_keys:
  "set (map_keys (foldl (\<lambda>m (k, a). map_set k a m) r xs)) = set (map_keys r) \<union> fst ` set xs"
  by (induction xs arbitrary: r) (auto simp: map_set_key_set)

lemma foldl_map_set_wf: "map_wf r \<Longrightarrow> map_wf (foldl (\<lambda>m (k, a). map_set k a m) r xs)"
  by (induction xs arbitrary: r) (auto intro: js_map.valid_put)

lemma restored_entries:
  "map_wf m \<Longrightarrow> map_wf (foldl (\<lambda>m (i, status). restored_entry i status m) m ps) \<and>
     set (map_keys (foldl (\<lambda>m (i, status). restored_entry i status m) m ps))
       \<subseteq> set (map_keys m) \<union> (\<lambda>p. js_String (si_submissionId (fst p))) ` set ps"
proof (induction ps arbitrary: m)
  case (Cons p ps)
  obtain i status where p: "p = (i, status)" by (cases p)
  have step: "map_wf (restored_entry i status m)"
    "set (map_keys (restored_entry i status m)) \<subseteq> insert (js_String (si_submissionId i)) (set (map_keys m))"
    using Cons.prems by (auto simp: restored_entry_def map_set_key_set intro: js_map.valid_put)
  have "map_wf (foldl (\<lambda>m (i, status). restored_entry i status m) (restored_entry i status m) ps)"
    "set (map_keys (foldl (\<lambda>m (i, status). restored_entry i status m) (restored_entry i status m) ps))
       \<subseteq> set (map_keys (restored_entry i status m)) \<union> (\<lambda>p. js_String (si_submissionId (fst p))) ` set ps"
    using Cons.IH [OF step(1)] by auto
  then show ?case using step(2) by (auto simp: p)
qed simp

lemma restored_keys:
  assumes "restored items = Some r"
  shows "map_wf r" "set (map_keys r) \<subseteq> (\<lambda>i. js_String (si_submissionId i)) ` set items"
proof -
  obtain ps where ps: "traverse (\<lambda>i. case si_status i of Str t \<Rightarrow> Some (i, js_lower t) | _ \<Rightarrow> None) items = Some ps"
      "r = foldl (\<lambda>m (i, status). restored_entry i status m) [] ps"
    using assms by (auto simp: restored_def)
  have "fst ` set ps \<subseteq> set items"
    using traverse_image [OF ps(1)] by (fastforce split: jsv.splits)
  then have items: "(\<lambda>p. js_String (si_submissionId (fst p))) ` set ps \<subseteq> (\<lambda>i. js_String (si_submissionId i)) ` set items"
    by auto
  have "map_wf ([] :: (string, active) jsmap)" by (rule js_map.valid_none)
  from restored_entries [OF this, of ps] show "map_wf r" "set (map_keys r) \<subseteq> (\<lambda>i. js_String (si_submissionId i)) ` set items"
    using items by (auto simp: ps(2) map_keys_def [of "[]"])
qed

lemma restore_inv:
  assumes "provider_inv s" "fresh_listing items s"
  shows "provider_inv (restore items s)"
proof (cases "restored items")
  case (Some r)
  have "\<not> ended_in (sp_latest s) k" if "k \<in> set (map_keys r)" for k
    using restored_keys(2) [OF Some] that assms(2) by (auto simp: fresh_listing_def list_all_iff)
  then show ?thesis
    using assms(1) restored_keys(1) [OF Some] foldl_map_set_wf [of r "sp_active s"]
    by (auto simp: restore_def Some provider_inv_def foldl_map_set_keys map_keys_def [of "sp_active s"])
qed (simp add: restore_def assms(1))

lemma settle_inv:
  assumes "provider_inv s" "\<And>r. outcome = Inr r \<Longrightarrow> text_id (sr_submissionId r)"
  shows "provider_inv (snd (submit_settle now problemId best outcome s))"
proof (cases outcome)
  case (Inr r)
  show ?thesis
  proof (cases "truthy (sr_error r)")
    case False
    then show ?thesis
      using assms(1) assms(2) [OF Inr]
      by (auto simp: submit_settle_def Inr provider_inv_def text_id_def map_set_key_set ended_in_def intro: js_map.valid_put)
  qed (use assms(1) in \<open>auto simp: submit_settle_def submit_thrown_def Let_def Inr provider_inv_def split: sum.split\<close>)
qed (use assms(1) in \<open>auto simp: submit_settle_def submit_thrown_def Let_def provider_inv_def\<close>)

lemma provider_step_inv:
  assumes "provider_inv s" "provider_step s s'"
  shows "provider_inv s'"
  using assms(2)
proof cases
  case (Restore items)
  then show ?thesis using restore_inv [OF assms(1)] by simp
next
  case (Chunk chunk)
  then show ?thesis using handle_chunk_inv [OF assms(1)] by simp
next
  case Tick
  then show ?thesis by (auto simp: poll_tick_def intro: provider_inv_cong [OF _ _ assms(1)])
next
  case (Answer d p cancelled)
  then show ?thesis using applyProgress_inv [OF assms(1)] assms(1) by (auto simp: poll_answer_def)
next
  case (Submit problemId)
  then show ?thesis by (auto simp: submit_start_def split: option.splits intro: provider_inv_cong [OF _ _ assms(1)])
next
  case (Settled outcome now problemId best)
  then show ?thesis using settle_inv [OF assms(1)] by blast
next
  case Clear
  then show ?thesis by (auto simp: clearToast_def intro: provider_inv_cong [OF _ _ assms(1)])
next
  case (Health b)
  then show ?thesis by (auto simp: setStreamHealthy_def intro: provider_inv_cong [OF _ _ assms(1)])
qed

lemma provider_start_inv: "provider_inv provider_start"
  by (simp add: provider_inv_def provider_start_def map_wf_def map_keys_def)

interpretation submissions: state_machine "\<lambda>s. s = provider_start" provider_step provider_inv
  by unfold_locales (use provider_start_inv provider_step_inv in auto)



section \<open>Repeated and late reports\<close>

lemma applyProgress_ignored:
  assumes "get_opt r ''submissionId'' = k" "map_get (sp_latest s) k = Some p" "\<not> shouldApplySubmissionProgress (Some p) r"
  shows "applyProgress r s = s"
  by (simp add: applyProgress_def assms Let_def)

text \<open>
  The stream and the poll may both deliver the end of a submission: the second delivery changes nothing, so one end gives
  one toast and one refresh. The end removes the submission from the active ones and its result is shown.
\<close>

theorem end_applied_once:
  assumes "attempt_time d = Some a" "well_timed d" "terminal d" "provider_inv s"
    and "parseSubmissionResult d = Inr parsed" "get_opt d ''submissionId'' = Str t" "t \<noteq> []"
    and "shouldApplySubmissionProgress (map_get (sp_latest s) (Str t)) d"
  shows "applyProgress d (applyProgress d s) = applyProgress d s \<and>
         map_get (sp_active (applyProgress d s)) t = None \<and>
         sp_lastResult (applyProgress d s) = Some parsed \<and>
         sp_refreshes (applyProgress d s) = Suc (sp_refreshes s)"
proof -
  have ended: "\<not> in_progress d" using assms(3) by (auto simp: terminal_def in_progress_def)
  have step: "applyProgress d s = show_result d parsed (s\<lparr>sp_latest := remember (Str t) d (sp_latest s)\<rparr>)"
    using assms ended by (simp add: applyProgress_def Let_def)
  have "map_get (remember (Str t) d (sp_latest s)) (Str t) = Some d"
    using assms(4) by (intro remember_look) (simp_all add: provider_inv_def)
  then have "map_get (sp_latest (applyProgress d s)) (Str t) = Some d" by (simp add: step show_result_def)
  moreover have "\<not> shouldApplySubmissionProgress (Some d) d"
    using assms(3) by (simp add: same_attempt [OF assms(1,1,2)])
  ultimately have "applyProgress d (applyProgress d s) = applyProgress d s" by (rule applyProgress_ignored [OF assms(6)])
  moreover have "map_get (sp_active (applyProgress d s)) t = None"
    by (simp add: step show_result_def assms(6) map_get_delete)
  ultimately show ?thesis by (simp add: step show_result_def)
qed

text \<open>
  A stale listing leaves a submission shown as running for good: once its end was reported, restoring a listing that
  still has it queued brings it back among the active ones, and no further report of that attempt, from the stream
  or the poll, removes it again.
\<close>

theorem stale_restore_sticks:
  assumes "map_get (sp_latest s) (Str t) = Some d" "attempt_time d = Some a" "terminal d"
    and "si_status i = Str ''queued''" "truthy (si_problemId i)" "si_submissionId i = Str t"
    and "list_all (\<lambda>r. get_opt r ''submissionId'' = Str t \<and> attempt_time r = Some a \<and> well_timed r) reports"
  shows "map_get (sp_active (foldl (\<lambda>s r. applyProgress r s) (restore [i] s) reports)) t \<noteq> None"
proof -
  have "js_lower ''queued'' = ''queued''" by code_simp
  then have "restored [i] = Some [(t, \<lparr>ac_id = Str t, ac_problemId = si_problemId i, ac_status = ''queued'',
      ac_queuePosition = Undefined, ac_testsDone = Undefined, ac_testsTotal = Undefined\<rparr>)]"
    using assms(4-6) by (simp add: restored_def restored_entry_def)
  then have keys: "t \<in> set (map_keys (sp_active (restore [i] s)))" and latest: "sp_latest (restore [i] s) = sp_latest s"
    by (simp_all add: restore_def foldl_map_set_keys) (simp add: map_keys_def)
  have active: "map_get (sp_active (restore [i] s)) t \<noteq> None"
    using keys js_map.look_none_iff [of "sp_active (restore [i] s)" t] by simp
  have "applyProgress r (restore [i] s) = restore [i] s"
    if "get_opt r ''submissionId'' = Str t" "attempt_time r = Some a" "well_timed r" for r
  proof (rule applyProgress_ignored [OF that(1)])
    show "map_get (sp_latest (restore [i] s)) (Str t) = Some d" by (simp add: latest assms(1))
    show "\<not> shouldApplySubmissionProgress (Some d) r" using assms(3) by (simp add: same_attempt [OF assms(2) that(2,3)])
  qed
  then have "foldl (\<lambda>s r. applyProgress r s) (restore [i] s) reports = restore [i] s"
    using assms(7) by (induction reports) auto
  then show ?thesis using active by simp
qed

definition ended_report :: jsv where
  "ended_report = Obj [(''submissionId'', Str ''s1''), (''status'', Str ''passed''), (''tests'', Arr []),
     (''attemptStartedAt'', Str ''2025-01-01T00:00:00Z'')]"

definition listed_queued :: submission_item where
  "listed_queued = \<lparr>si_id = Str ''s1'', si_submissionId = Str ''s1'', si_problemId = Str ''p1'', si_problemTitle = Str [],
     si_submittedBy = Str [], si_teamName = Str [], si_language = Str ''cpp'', si_code = Undefined, si_score = IntV 0,
     si_maxScore = IntV 100, si_status = Str ''queued'', si_reviewStatus = Undefined, si_reviewReason = Undefined,
     si_submittedAt = [], si_timestamp = NaN\<rparr>"

lemma ended_report_facts:
  "\<exists>a. attempt_time ended_report = Some a" "well_timed ended_report" "terminal ended_report"
  "get_opt ended_report ''submissionId'' = Str ''s1''" "\<exists>p. parseSubmissionResult ended_report = Inr p"
proof -
  have "iso_ms ''2025-01-01T00:00:00Z'' = Some 1735689600000" by code_simp
  then show "\<exists>a. attempt_time ended_report = Some a"
    by (simp add: attempt_time_def ended_report_def time_of_def date_parse_def)
qed (simp_all add: ended_report_def well_timed_def terminal_def parseSubmissionResult_def js_map_def js_coalesce_def Let_def)

theorem end_applied_once_witness:
  "sp_refreshes (applyProgress ended_report (applyProgress ended_report provider_start)) = 1"
proof -
  obtain a p where a: "attempt_time ended_report = Some a" and p: "parseSubmissionResult ended_report = Inr p"
    using ended_report_facts by blast
  have "shouldApplySubmissionProgress (map_get (sp_latest provider_start) (Str ''s1'')) ended_report"
    by (simp add: provider_start_def map_get_def shouldApplySubmissionProgress_def)
  from end_applied_once [OF a ended_report_facts(2,3) provider_start_inv p ended_report_facts(4) _ this]
  show ?thesis by (simp add: provider_start_def)
qed

theorem stale_restore_sticks_witness:
  "map_get (sp_active (foldl (\<lambda>s r. applyProgress r s)
      (restore [listed_queued] (provider_start\<lparr>sp_latest := [(Str ''s1'', ended_report)]\<rparr>)) [ended_report])) ''s1'' \<noteq> None"
proof -
  obtain a where a: "attempt_time ended_report = Some a" using ended_report_facts by blast
  show ?thesis
    by (rule stale_restore_sticks [OF _ a ended_report_facts(3)])
       (simp_all add: map_get_def listed_queued_def a ended_report_facts)
qed

end
