(* ===== verification/ContestClock.thy ===== *)
theory ContestClock
  imports CompetitorLib
begin

text \<open>
  The contest clock of the competitor portal
  (\<open>competitor-frontend/src/components/portal/contest-provider.tsx\<close>): the countdown computed each second from the
  last state the server sent and the offset between its clock and the browser's, the alerts on transitions and
  thresholds, and the flags the pages read. Times are milliseconds (\<open>Date.now()\<close> an integer, parsed dates possibly
  \<open>NaN\<close>); the intervals deliver ticks. Each React state update is applied at once.
\<close>

section \<open>Formatting\<close>

definition WARNING_THRESHOLD_SECONDS :: int where "WARNING_THRESHOLD_SECONDS = 15 * 60"
definition CRITICAL_THRESHOLD_SECONDS :: int where "CRITICAL_THRESHOLD_SECONDS = 5 * 60"

definition pad :: "int \<Rightarrow> string" where
  "pad n = pad_start2 (show_int n)"

definition formatTime :: "int \<Rightarrow> string" where
  "formatTime totalSeconds =
     (let t = (if totalSeconds < 0 then 0 else totalSeconds);
          hours = t div 3600; minutes = (t mod 3600) div 60; seconds = t mod 60
      in if hours > 0 then pad hours @ '':'' @ pad minutes @ '':'' @ pad seconds
         else pad minutes @ '':'' @ pad seconds)"

text \<open>The text of a count that may be \<open>NaN\<close>; counts are whole seconds.\<close>

definition format_count :: "jsnum \<Rightarrow> string" where
  "format_count n = (case n of Fin r \<Rightarrow> formatTime \<lfloor>r\<rfloor> | _ \<Rightarrow> ''NaN:NaN'')"

lemma pad_reads: "0 \<le> n \<Longrightarrow> read_nat (pad n) = nat n"
  by (simp add: pad_def show_int_def)

lemma pad_no_colon: "0 \<le> n \<Longrightarrow> CHR '':'' \<notin> set (pad n)"
  using show_nat_digits [of "CHR '':''" "nat n"] by (auto simp: pad_def pad_start2_def show_int_def is_digit_def)

text \<open>
  The countdown text is exact: it has two fields below an hour and three from an hour on, and reading the fields back
  (hours, minutes below 60, seconds below 60) gives the count, or zero for a negative one.
\<close>

theorem formatTime_round_trip:
  "\<exists>h m s. read_nat h * 3600 + read_nat m * 60 + read_nat s = nat (max 0 t) \<and> read_nat m < 60 \<and> read_nat s < 60 \<and>
           split_char CHR '':'' (formatTime t) = (if 3600 \<le> t then [h, m, s] else [m, s]) \<and> (read_nat h = 0 \<longleftrightarrow> t < 3600)"
proof -
  define u where "u = max 0 t"
  have u: "0 \<le> u" "(if t < 0 then 0 else t) = u" by (simp_all add: u_def)
  define h m s where "h = pad (u div 3600)" "m = pad ((u mod 3600) div 60)" "s = pad (u mod 60)"
  have reads: "read_nat h = nat (u div 3600)" "read_nat m = nat ((u mod 3600) div 60)" "read_nat s = nat (u mod 60)"
    using u(1) by (simp_all add: h_m_s_def pad_reads pos_imp_zdiv_nonneg_iff)
  have total: "(u div 3600) * 3600 + ((u mod 3600) div 60) * 60 + u mod 60 = u"
  proof -
    have "u mod 3600 mod 60 = u mod 60" by (simp add: mod_mod_cancel)
    then show ?thesis using div_mult_mod_eq [of u 3600] div_mult_mod_eq [of "u mod 3600" 60] by linarith
  qed
  have sum: "read_nat h * 3600 + read_nat m * 60 + read_nat s = nat u"
  proof -
    have "int (read_nat h * 3600 + read_nat m * 60 + read_nat s) = u"
      using total u(1) by (simp add: reads pos_imp_zdiv_nonneg_iff)
    then show ?thesis by linarith
  qed
  have small: "read_nat m < 60" "read_nat s < 60"
  proof -
    have "u mod 3600 < 3600" by simp
    then have "(u mod 3600) div 60 < 60" by linarith
    then show "read_nat m < 60" by (simp add: reads)
    show "read_nat s < 60" by (simp add: reads)
  qed
  have colon: "CHR '':'' \<notin> set h" "CHR '':'' \<notin> set m" "CHR '':'' \<notin> set s"
    using u(1) by (simp_all add: h_m_s_def pad_no_colon pos_imp_zdiv_nonneg_iff)
  have two: "split_char CHR '':'' (m @ '':'' @ s) = [m, s]" using colon by (simp add: split_char_append split_char_atom)
  have three: "split_char CHR '':'' (h @ '':'' @ m @ '':'' @ s) = [h, m, s]"
    using colon by (simp add: split_char_append split_char_atom)
  have hours: "u div 3600 > 0 \<longleftrightarrow> 3600 \<le> t" unfolding u_def by (auto simp: pos_imp_zdiv_pos_iff max_def)
  have shown: "formatTime t = (if 3600 \<le> t then h @ '':'' @ m @ '':'' @ s else m @ '':'' @ s)"
    unfolding formatTime_def u(2) Let_def hours h_m_s_def ..
  have "read_nat h = 0 \<longleftrightarrow> t < 3600"
    using hours u(1) by (auto simp: reads)
  then show ?thesis using sum small two three shown
    by (intro exI [of _ h] exI [of _ m] exI [of _ s]) (simp add: u_def)
qed

section \<open>State\<close>

datatype contest_status = NOT_STARTED | RUNNING | PAUSED | ENDED

record contest =
  co_status :: contest_status
  co_startTime :: "string option"
  co_endTime :: "string option"
  co_durationSeconds :: int
  co_remainingSeconds :: int
  co_elapsedSeconds :: int
  co_isFrozen :: bool
  co_serverTime :: string

text \<open>The fields of a validated state; an absent time and an empty one are both falsy.\<close>

definition text_field :: "jsv \<Rightarrow> string option" where
  "text_field v = (case v of Str s \<Rightarrow> if s = [] then None else Some s | _ \<Rightarrow> None)"

definition int_field :: "jsv \<Rightarrow> int" where
  "int_field v = (case v of Num (Fin r) \<Rightarrow> \<lfloor>r\<rfloor> | _ \<Rightarrow> 0)"

definition status_field :: "jsv \<Rightarrow> contest_status" where
  "status_field v =
     (if v = Str ''RUNNING'' then RUNNING else if v = Str ''PAUSED'' then PAUSED
      else if v = Str ''ENDED'' then ENDED else NOT_STARTED)"

definition contest_of :: "jsv \<Rightarrow> contest" where
  "contest_of d =
     \<lparr>co_status = status_field (get_opt d ''status''), co_startTime = text_field (get_opt d ''startTime''),
      co_endTime = text_field (get_opt d ''endTime''), co_durationSeconds = int_field (get_opt d ''durationSeconds''),
      co_remainingSeconds = int_field (get_opt d ''remainingSeconds''),
      co_elapsedSeconds = int_field (get_opt d ''elapsedSeconds''), co_isFrozen = truthy (get_opt d ''isFrozen''),
      co_serverTime = js_String (get_opt d ''serverTime'')\<rparr>"

record alert =
  al_id :: string
  al_title :: string
  al_description :: string
  al_variant :: tone

record clock =
  ck_state :: contest
  ck_offset :: jsnum
  ck_remaining :: jsnum
  ck_elapsed :: jsnum
  ck_startsIn :: jsnum
  ck_frozen :: bool
  ck_alert :: "alert option"
  ck_previousFrozen :: bool
  ck_fired :: "int list"
  ck_endTriggered :: bool
  ck_syncs :: nat
  ck_refreshes :: nat

definition num_of_int :: "int \<Rightarrow> jsnum" where
  "num_of_int n = Fin (of_int n)"

definition num_minus :: "jsnum \<Rightarrow> jsnum \<Rightarrow> jsnum" where
  "num_minus a b = (case (a, b) of (Fin x, Fin y) \<Rightarrow> Fin (x - y) | _ \<Rightarrow> NaN)"

definition num_plus :: "jsnum \<Rightarrow> jsnum \<Rightarrow> jsnum" where
  "num_plus a b = (case (a, b) of (Fin x, Fin y) \<Rightarrow> Fin (x + y) | _ \<Rightarrow> NaN)"

text \<open>\<open>Math.max(0, Math.floor((a - b) / 1000))\<close> of two times.\<close>

definition seconds_between :: "jsnum \<Rightarrow> jsnum \<Rightarrow> jsnum" where
  "seconds_between a b = (case num_minus a b of Fin d \<Rightarrow> num_of_int (max 0 \<lfloor>d / 1000\<rfloor>) | _ \<Rightarrow> NaN)"

definition clock_offset :: "string \<Rightarrow> int \<Rightarrow> jsnum" where
  "clock_offset serverTime date_now = num_minus (date_parse serverTime) (num_of_int date_now)"

definition clock_start :: "contest \<Rightarrow> int \<Rightarrow> clock" where
  "clock_start c date_now =
     \<lparr>ck_state = c, ck_offset = (if co_serverTime c = [] then Fin 0 else clock_offset (co_serverTime c) date_now),
      ck_remaining = num_of_int (co_remainingSeconds c), ck_elapsed = num_of_int (co_elapsedSeconds c),
      ck_startsIn = Fin 0, ck_frozen = co_isFrozen c, ck_alert = None, ck_previousFrozen = co_isFrozen c,
      ck_fired = [], ck_endTriggered = False, ck_syncs = 0, ck_refreshes = 0\<rparr>"

section \<open>Alerts\<close>

definition CONTEST_THRESHOLDS_SECONDS :: "(int \<times> string \<times> tone) list" where
  "CONTEST_THRESHOLDS_SECONDS =
     [(30 * 60, ''30 minutes'', Info), (15 * 60, ''15 minutes'', Warning), (10 * 60, ''10 minutes'', Warning),
      (5 * 60, ''5 minutes'', Destructive), (60, ''1 minute'', Destructive)]"

definition threshold_alert :: "int \<Rightarrow> string \<Rightarrow> tone \<Rightarrow> alert" where
  "threshold_alert seconds label variant =
     \<lparr>al_id = ''contest-threshold-'' @ show_int seconds, al_title = label @ '' Remaining'',
      al_description =
        (if seconds \<le> 5 * 60
         then ''Only '' @ label @ '' left in the round! Ensure your final code is submitted.''
         else label @ '' remaining before submissions close.''),
      al_variant = variant\<rparr>"

definition fire_threshold :: "jsnum \<Rightarrow> clock \<Rightarrow> int \<times> string \<times> tone \<Rightarrow> clock" where
  "fire_threshold remaining s t =
     (case t of (seconds, label, variant) \<Rightarrow>
        if num_le remaining (num_of_int seconds) \<and> seconds \<notin> set (ck_fired s)
        then s\<lparr>ck_fired := ck_fired s @ [seconds], ck_alert := Some (threshold_alert seconds label variant)\<rparr>
        else s)"

definition transition_alert :: "int \<Rightarrow> contest_status \<Rightarrow> contest_status \<Rightarrow> alert option" where
  "transition_alert date_now prevStatus currentStatus =
     (if prevStatus = NOT_STARTED \<and> currentStatus = RUNNING then
        Some \<lparr>al_id = ''contest-started-'' @ show_int date_now, al_title = ''Contest Started!'',
              al_description = ''The round is now live. Problem statements and submissions are unlocked.'',
              al_variant = Success\<rparr>
      else if currentStatus = PAUSED then
        Some \<lparr>al_id = ''contest-paused-'' @ show_int date_now, al_title = ''Contest Paused'',
              al_description = ''Judges have paused the contest clock. Code execution is on hold.'', al_variant = Warning\<rparr>
      else if prevStatus = PAUSED \<and> currentStatus = RUNNING then
        Some \<lparr>al_id = ''contest-resumed-'' @ show_int date_now, al_title = ''Contest Resumed'',
              al_description = ''The competition round is active again. You may continue working.'', al_variant = Info\<rparr>
      else if currentStatus = ENDED then
        Some \<lparr>al_id = ''contest-ended-'' @ show_int date_now, al_title = ''Contest Concluded'',
              al_description = ''The round has ended. Submissions are closed and workspace is in practice mode.'',
              al_variant = Info\<rparr>
      else None)"

definition checkStatusTransitions :: "int \<Rightarrow> contest_status \<Rightarrow> contest_status \<Rightarrow> clock \<Rightarrow> clock" where
  "checkStatusTransitions date_now prevStatus currentStatus s =
     (if prevStatus = currentStatus then s
      else s\<lparr>ck_alert := (case transition_alert date_now prevStatus currentStatus of Some a \<Rightarrow> Some a | None \<Rightarrow> ck_alert s),
             ck_refreshes := Suc (ck_refreshes s)\<rparr>)"

section \<open>Operations\<close>

text \<open>\<open>refresh\<close> once the state arrived.\<close>

definition clock_sync :: "contest \<Rightarrow> int \<Rightarrow> clock \<Rightarrow> clock" where
  "clock_sync next date_now s =
     (let s1 = s\<lparr>ck_state := next\<rparr>;
          s2 = (if co_serverTime next \<noteq> [] then s1\<lparr>ck_offset := clock_offset (co_serverTime next) date_now\<rparr> else s1)
      in checkStatusTransitions date_now (co_status (ck_state s)) (co_status next) s2)"

definition running_tick :: "int \<Rightarrow> string \<Rightarrow> clock \<Rightarrow> clock" where
  "running_tick date_now endTime s =
     (let current = ck_state s;
          now = num_plus (num_of_int date_now) (ck_offset s);
          remaining = seconds_between (date_parse endTime) now;
          s1 = s\<lparr>ck_remaining := remaining\<rparr>;
          s2 = (if remaining = Fin 0 \<and> \<not> ck_endTriggered s1
                then s1\<lparr>ck_endTriggered := True, ck_syncs := Suc (ck_syncs s1)\<rparr>
                else if \<not> num_le remaining (Fin 0) \<and> remaining \<noteq> NaN then s1\<lparr>ck_endTriggered := False\<rparr> else s1);
          s3 = (case co_startTime current of
                  None \<Rightarrow> s2
                | Some startTime \<Rightarrow> s2\<lparr>ck_elapsed := seconds_between now (date_parse startTime)\<rparr>);
          s4 = s3\<lparr>ck_frozen := co_isFrozen current,
                  ck_alert := (if \<not> ck_previousFrozen s3 \<and> co_isFrozen current
                    then Some \<lparr>al_id = ''contest-frozen-'' @ show_int date_now, al_title = ''Scoreboard Frozen'',
                               al_description = ''Public standings are now frozen. Your submissions will continue to be evaluated.'',
                               al_variant = Info\<rparr>
                    else ck_alert s3),
                  ck_previousFrozen := co_isFrozen current\<rparr>
      in if \<not> num_le remaining (Fin 0) \<and> remaining \<noteq> NaN
         then foldl (fire_threshold remaining) s4 CONTEST_THRESHOLDS_SECONDS else s4)"

definition calculateTick :: "int \<Rightarrow> clock \<Rightarrow> clock" where
  "calculateTick date_now s =
     (let current = ck_state s; now = num_plus (num_of_int date_now) (ck_offset s)
      in case co_status current of
           NOT_STARTED \<Rightarrow>
             s\<lparr>ck_remaining := num_of_int (co_durationSeconds current), ck_elapsed := Fin 0, ck_frozen := False,
               ck_startsIn := (case co_startTime current of
                                 Some startTime \<Rightarrow> seconds_between (date_parse startTime) now | None \<Rightarrow> Fin 0)\<rparr>
         | RUNNING \<Rightarrow>
             (case co_endTime current of
                Some endTime \<Rightarrow> running_tick date_now endTime (s\<lparr>ck_startsIn := Fin 0\<rparr>)
              | None \<Rightarrow> s\<lparr>ck_startsIn := Fin 0, ck_remaining := num_of_int (co_durationSeconds current), ck_elapsed := Fin 0,
                          ck_frozen := False\<rparr>)
         | PAUSED \<Rightarrow>
             s\<lparr>ck_startsIn := Fin 0, ck_remaining := num_of_int (co_remainingSeconds current),
               ck_elapsed := num_of_int (co_elapsedSeconds current), ck_frozen := co_isFrozen current\<rparr>
         | ENDED \<Rightarrow>
             s\<lparr>ck_startsIn := Fin 0, ck_remaining := Fin 0, ck_elapsed := num_of_int (co_durationSeconds current),
               ck_frozen := False\<rparr>)"

definition clearAlertToast :: "clock \<Rightarrow> clock" where
  "clearAlertToast s = s\<lparr>ck_alert := None\<rparr>"

section \<open>Flags\<close>

definition num_pos :: "jsnum \<Rightarrow> bool" where
  "num_pos n \<longleftrightarrow> n \<noteq> NaN \<and> \<not> num_le n (Fin 0)"

definition isWarning :: "clock \<Rightarrow> bool" where
  "isWarning s \<longleftrightarrow> co_status (ck_state s) = RUNNING \<and> num_pos (ck_remaining s) \<and>
     num_le (ck_remaining s) (num_of_int WARNING_THRESHOLD_SECONDS) \<and>
     num_pos (num_minus (ck_remaining s) (num_of_int CRITICAL_THRESHOLD_SECONDS))"

definition isCritical :: "clock \<Rightarrow> bool" where
  "isCritical s \<longleftrightarrow> co_status (ck_state s) = RUNNING \<and> num_pos (ck_remaining s) \<and>
     num_le (ck_remaining s) (num_of_int CRITICAL_THRESHOLD_SECONDS)"

definition isNotStarted :: "clock \<Rightarrow> bool" where
  "isNotStarted s \<longleftrightarrow> co_status (ck_state s) = NOT_STARTED"

definition isRunning :: "clock \<Rightarrow> bool" where
  "isRunning s \<longleftrightarrow> co_status (ck_state s) = RUNNING \<and> num_pos (ck_remaining s)"

definition isPaused :: "clock \<Rightarrow> bool" where
  "isPaused s \<longleftrightarrow> co_status (ck_state s) = PAUSED"

definition isEnded :: "clock \<Rightarrow> bool" where
  "isEnded s \<longleftrightarrow> co_status (ck_state s) = ENDED \<or> (co_status (ck_state s) = RUNNING \<and> ck_remaining s = Fin 0)"

definition formattedRemaining :: "clock \<Rightarrow> string" where
  "formattedRemaining s = format_count (ck_remaining s)"

definition formattedStartsIn :: "clock \<Rightarrow> string" where
  "formattedStartsIn s = format_count (ck_startsIn s)"

section \<open>What every reachable clock satisfies\<close>

definition count_ok :: "jsnum \<Rightarrow> bool" where
  "count_ok n \<longleftrightarrow> n = NaN \<or> (\<exists>k. n = Fin (of_int k) \<and> 0 \<le> k)"

definition contest_ok :: "contest \<Rightarrow> bool" where
  "contest_ok c \<longleftrightarrow> 0 \<le> co_durationSeconds c \<and> 0 \<le> co_remainingSeconds c \<and> 0 \<le> co_elapsedSeconds c"

lemma contest_of_ok: "valid_contest_state d \<Longrightarrow> contest_ok (contest_of d)"
  by (auto simp: valid_contest_state_def seconds_value_def contest_ok_def contest_of_def int_field_def)

definition threshold_seconds :: "int list" where
  "threshold_seconds = map fst CONTEST_THRESHOLDS_SECONDS"

definition clock_inv :: "clock \<Rightarrow> bool" where
  "clock_inv s \<longleftrightarrow>
     contest_ok (ck_state s) \<and> count_ok (ck_remaining s) \<and> count_ok (ck_elapsed s) \<and> count_ok (ck_startsIn s) \<and>
     distinct (ck_fired s) \<and> set (ck_fired s) \<subseteq> set threshold_seconds"

lemma count_ok_of_int [simp]: "0 \<le> n \<Longrightarrow> count_ok (num_of_int n)"
  unfolding count_ok_def num_of_int_def by (intro disjI2 exI [of _ n]) simp

lemma count_ok_0 [simp]: "count_ok (Fin 0)"
  using count_ok_of_int [of 0] by (simp add: num_of_int_def)

lemma count_ok_between [simp]: "count_ok (seconds_between a b)"
proof (cases "num_minus a b")
  case (Fin d)
  then show ?thesis by (simp add: seconds_between_def)
qed (auto simp: seconds_between_def count_ok_def)

lemma fire_threshold_keeps:
  "ck_state (fire_threshold r s t) = ck_state s" "ck_remaining (fire_threshold r s t) = ck_remaining s"
  "ck_elapsed (fire_threshold r s t) = ck_elapsed s" "ck_startsIn (fire_threshold r s t) = ck_startsIn s"
  "ck_syncs (fire_threshold r s t) = ck_syncs s" "ck_endTriggered (fire_threshold r s t) = ck_endTriggered s"
  "ck_offset (fire_threshold r s t) = ck_offset s"
  by (simp_all add: fire_threshold_def split: prod.split)

lemma fire_all_keeps:
  "ck_state (foldl (fire_threshold r) s ts) = ck_state s \<and> ck_remaining (foldl (fire_threshold r) s ts) = ck_remaining s \<and>
   ck_elapsed (foldl (fire_threshold r) s ts) = ck_elapsed s \<and> ck_startsIn (foldl (fire_threshold r) s ts) = ck_startsIn s"
  by (induction ts arbitrary: s) (simp_all add: fire_threshold_keeps)

lemma fire_all_fired:
  "distinct (ck_fired s) \<Longrightarrow> set (ck_fired s) \<subseteq> A \<Longrightarrow> fst ` set ts \<subseteq> A \<Longrightarrow>
     distinct (ck_fired (foldl (fire_threshold r) s ts)) \<and> set (ck_fired (foldl (fire_threshold r) s ts)) \<subseteq> A"
proof (induction ts arbitrary: s)
  case (Cons t ts)
  have "distinct (ck_fired (fire_threshold r s t))" "set (ck_fired (fire_threshold r s t)) \<subseteq> A"
    using Cons.prems by (auto simp: fire_threshold_def split: prod.split)
  then show ?case using Cons.IH Cons.prems by simp
qed simp

lemma clock_inv_fire: "clock_inv s \<Longrightarrow> clock_inv (foldl (fire_threshold r) s CONTEST_THRESHOLDS_SECONDS)"
  using fire_all_fired [of s "set threshold_seconds" CONTEST_THRESHOLDS_SECONDS r] fire_all_keeps [of r s CONTEST_THRESHOLDS_SECONDS]
  by (simp add: clock_inv_def threshold_seconds_def)

lemma running_tick_inv: "clock_inv s \<Longrightarrow> clock_inv (running_tick date_now endTime s)"
  unfolding running_tick_def Let_def
  by (split if_split, intro conjI impI clock_inv_fire) (auto simp: clock_inv_def split: option.split)

lemma calculateTick_inv: "clock_inv s \<Longrightarrow> clock_inv (calculateTick date_now s)"
proof (cases "co_status (ck_state s)")
  case RUNNING
  assume inv: "clock_inv s"
  then have "clock_inv (s\<lparr>ck_startsIn := Fin 0\<rparr>)" by (simp add: clock_inv_def)
  then show ?thesis using RUNNING running_tick_inv inv
    by (auto simp: calculateTick_def Let_def clock_inv_def contest_ok_def split: option.split)
qed (auto simp: calculateTick_def Let_def clock_inv_def contest_ok_def split: option.split)

lemma clock_sync_inv: "clock_inv s \<Longrightarrow> contest_ok c \<Longrightarrow> clock_inv (clock_sync c date_now s)"
  by (simp add: clock_sync_def checkStatusTransitions_def clock_inv_def Let_def)

inductive clock_step :: "clock \<Rightarrow> clock \<Rightarrow> bool" where
  Sync: "valid_contest_state d \<Longrightarrow> clock_step s (clock_sync (contest_of d) date_now s)"
| Second: "clock_step s (calculateTick date_now s)"
| Dismiss: "clock_step s (clearAlertToast s)"

definition clock_initial :: "clock \<Rightarrow> bool" where
  "clock_initial s \<longleftrightarrow> (\<exists>d date_now. valid_contest_state d \<and> s = clock_start (contest_of d) date_now)"

lemma clock_start_inv: "contest_ok c \<Longrightarrow> clock_inv (clock_start c date_now)"
  by (simp add: clock_inv_def clock_start_def contest_ok_def)

lemma clock_step_inv: "clock_inv s \<Longrightarrow> clock_step s s' \<Longrightarrow> clock_inv s'"
proof (erule clock_step.cases)
  fix t
  assume "clock_inv s" "s = t" "s' = clearAlertToast t"
  then show "clock_inv s'" by (simp add: clearAlertToast_def clock_inv_def)
qed (auto intro: clock_sync_inv contest_of_ok calculateTick_inv)

interpretation contest_clock: state_machine clock_initial clock_step clock_inv
  by unfold_locales (auto simp: clock_initial_def intro: clock_start_inv contest_of_ok clock_step_inv)

text \<open>
  C12: In every reachable state of the contest clock, over any interleaving of seconds and syncs with validated states, the
  shown counts are never negative, exactly one of the phases not started, running, paused and ended holds (when the
  times sent can be read), the warning and critical flags exclude each other and hold only while running, and every
  threshold has been announced at most once.
\<close>

theorem clock_reachable:
  assumes "reaches clock_initial clock_step s"
  shows "count_ok (ck_remaining s) \<and> count_ok (ck_elapsed s) \<and> count_ok (ck_startsIn s) \<and>
         (ck_remaining s \<noteq> NaN \<longrightarrow> length (filter id [isNotStarted s, isRunning s, isPaused s, isEnded s]) = 1) \<and>
         (isWarning s \<or> isCritical s \<longrightarrow> isRunning s) \<and> \<not> (isWarning s \<and> isCritical s) \<and>
         distinct (ck_fired s) \<and> set (ck_fired s) \<subseteq> set threshold_seconds"
proof -
  have inv: "clock_inv s" by (rule contest_clock.reaches_inv [OF assms])
  have "length (filter id [isNotStarted s, isRunning s, isPaused s, isEnded s]) = 1" if num: "ck_remaining s \<noteq> NaN"
  proof -
    obtain k where "ck_remaining s = Fin (of_int k)" "0 \<le> k" using inv num by (auto simp: clock_inv_def count_ok_def)
    then have "num_pos (ck_remaining s) \<longleftrightarrow> ck_remaining s \<noteq> Fin 0" by (auto simp: num_pos_def)
    then show ?thesis
      by (cases "co_status (ck_state s)") (auto simp: isNotStarted_def isRunning_def isPaused_def isEnded_def)
  qed
  moreover have "\<not> (isWarning s \<and> isCritical s)"
    by (cases "ck_remaining s") (auto simp: isWarning_def isCritical_def num_pos_def num_minus_def num_of_int_def)
  ultimately show ?thesis using inv by (auto simp: clock_inv_def isWarning_def isCritical_def isRunning_def)
qed

theorem clock_reachable_witness:
  "count_ok (ck_remaining (clock_start (contest_of (defaultContestState ''2025-01-01T00:00:00Z'')) 0))"
proof -
  have "clock_initial (clock_start (contest_of (defaultContestState ''2025-01-01T00:00:00Z'')) 0)"
    unfolding clock_initial_def using default_state_valid by blast
  from clock_reachable [OF reaches_init [of clock_initial, OF this]] show ?thesis by blast
qed

section \<open>The end of the round\<close>

text \<open>\<open>at_end s t\<close>: on the server's clock less than a second is left at the browser's time \<open>t\<close>.\<close>

definition at_end :: "clock \<Rightarrow> int \<Rightarrow> bool" where
  "at_end s t \<longleftrightarrow>
     co_status (ck_state s) = RUNNING \<and>
     (\<exists>e x y. co_endTime (ck_state s) = Some e \<and> date_parse e = Fin x \<and> ck_offset s = Fin y \<and> x - (of_int t + y) < 1000)"

lemma at_end_tick:
  assumes "at_end s t"
  shows "ck_syncs (calculateTick t s) = ck_syncs s + (if ck_endTriggered s then 0 else 1)"
    and "ck_endTriggered (calculateTick t s)" and "ck_state (calculateTick t s) = ck_state s"
    and "ck_offset (calculateTick t s) = ck_offset s" and "ck_remaining (calculateTick t s) = Fin 0"
proof -
  obtain e x y where e: "co_status (ck_state s) = RUNNING" "co_endTime (ck_state s) = Some e" "date_parse e = Fin x"
      "ck_offset s = Fin y" "x - (of_int t + y) < 1000"
    using assms by (auto simp: at_end_def)
  have "(x - (of_int t + y)) / 1000 < 1" using e(5) by simp
  then have "\<lfloor>(x - (of_int t + y)) / 1000\<rfloor> \<le> 0" by linarith
  then have "max 0 \<lfloor>(x - (of_int t + y)) / 1000\<rfloor> = 0" by (rule max_absorb1)
  then have zero: "seconds_between (date_parse e) (num_plus (num_of_int t) (ck_offset s)) = Fin 0"
    by (simp add: seconds_between_def num_minus_def num_plus_def num_of_int_def e)
  have step: "calculateTick t s = running_tick t e (s\<lparr>ck_startsIn := Fin 0\<rparr>)"
    by (simp add: calculateTick_def e Let_def)
  have "ck_syncs (running_tick t e s') = ck_syncs s' + (if ck_endTriggered s' then 0 else 1) \<and>
      ck_endTriggered (running_tick t e s') \<and> ck_state (running_tick t e s') = ck_state s' \<and>
      ck_offset (running_tick t e s') = ck_offset s' \<and> ck_remaining (running_tick t e s') = Fin 0"
    if "ck_offset s' = ck_offset s" for s'
    using zero by (simp add: running_tick_def that Let_def split: option.split)
  from this [of "s\<lparr>ck_startsIn := Fin 0\<rparr>"]
  show "ck_syncs (calculateTick t s) = ck_syncs s + (if ck_endTriggered s then 0 else 1)"
    and "ck_endTriggered (calculateTick t s)" and "ck_state (calculateTick t s) = ck_state s"
    and "ck_offset (calculateTick t s) = ck_offset s" and "ck_remaining (calculateTick t s) = Fin 0"
    by (simp_all add: step)
qed

lemma at_end_ticks:
  "list_all (at_end s) ts \<Longrightarrow>
     ck_syncs (foldl (\<lambda>s t. calculateTick t s) s ts) = ck_syncs s + (if ts = [] \<or> ck_endTriggered s then 0 else 1)"
proof (induction ts arbitrary: s)
  case (Cons t ts)
  have "at_end (calculateTick t s) u = at_end s u" for u
    using Cons.prems at_end_tick [of s t] by (simp add: at_end_def)
  then have "list_all (at_end (calculateTick t s)) ts" using Cons.prems by (simp add: list_all_iff)
  from Cons.IH [OF this] show ?case using Cons.prems at_end_tick [of s t] by simp
qed simp

text \<open>
  When the round runs out the pages switch to ended by themselves and the server is asked once: from the first second
  with nothing left on the server's clock, the phase is ended, the count shows zero and exactly one sync is requested,
  however many seconds pass before the answer.
\<close>

theorem end_of_round_synced_once:
  assumes "list_all (at_end s) ts" "ts \<noteq> []" "\<not> ck_endTriggered s"
  shows "ck_syncs (foldl (\<lambda>s t. calculateTick t s) s ts) = Suc (ck_syncs s) \<and>
         isEnded (calculateTick (hd ts) s) \<and> formattedRemaining (calculateTick (hd ts) s) = ''00:00''"
proof -
  have first: "at_end s (hd ts)" using assms(1,2) by (cases ts) auto
  have "formatTime 0 = ''00:00''" by code_simp
  then show ?thesis
    using at_end_ticks [OF assms(1)] assms(2,3) at_end_tick [OF first] first
    by (simp add: isEnded_def formattedRemaining_def format_count_def) (simp add: at_end_def)
qed

definition sample_clock :: clock where
  "sample_clock = (clock_start (contest_of (Obj [(''status'', Str ''RUNNING''), (''endTime'', Str ''1970-01-01T00:00:00Z'')])) 0)
     \<lparr>ck_offset := Fin 0\<rparr>"

theorem end_of_round_synced_once_witness:
  "ck_syncs (foldl (\<lambda>s t. calculateTick t s) sample_clock [0, 1000, 2000]) = 1"
proof -
  have at: "at_end sample_clock t" if "0 \<le> t" for t
    using that date_parse_epoch by (simp add: at_end_def sample_clock_def clock_start_def contest_of_def status_field_def text_field_def)
  have "list_all (at_end sample_clock) [0, 1000, 2000]" by (simp add: at)
  moreover have "\<not> ck_endTriggered sample_clock" "ck_syncs sample_clock = 0" by (simp_all add: sample_clock_def clock_start_def)
  ultimately show ?thesis using end_of_round_synced_once [of sample_clock "[0, 1000, 2000]"] by simp
qed

end
