(* ===== verification/ProctorGate.thy ===== *)
theory ProctorGate
  imports CompetitorLib ContestClock
begin

text \<open>
  The proctoring gate of the competitor portal
  (\<open>competitor-frontend/src/components/portal/proctor-provider.tsx\<close>): what the server's status and the local
  agent's status together allow, the seeding from the server's render, the refresh with the browser's permission
  for local network access, and the polling loop as a state machine. The status pill
  (\<open>proctor-status.tsx\<close>) and the blocking screen (\<open>access-block.tsx\<close>) read the result. Both statuses are the JSON
  that was received, \<open>null\<close> when there is none.
\<close>

section \<open>Resolving the two statuses\<close>

record proctor_state =
  ps_submissionsAllowed :: jsv
  ps_exempt :: jsv
  ps_code :: jsv
  ps_remedy :: jsv
  ps_accessMode :: jsv
  ps_allowedModes :: jsv
  ps_secondsSincePing :: jsv
  ps_local :: jsv
  ps_attestNonce :: jsv
  ps_serverReachable :: bool
  ps_starting :: jsv
  ps_resolved :: bool

definition INITIAL_PROCTOR_STATE :: proctor_state where
  "INITIAL_PROCTOR_STATE =
     \<lparr>ps_submissionsAllowed = Bool True, ps_exempt = Bool False, ps_code = Undefined, ps_remedy = Undefined,
      ps_accessMode = Null, ps_allowedModes = Arr [], ps_secondsSincePing = IntV 0, ps_local = Null, ps_attestNonce = Null,
      ps_serverReachable = True, ps_starting = Bool False, ps_resolved = False\<rparr>"

definition proctor_base :: "jsv \<Rightarrow> jsv \<Rightarrow> proctor_state" where
  "proctor_base self agent =
     \<lparr>ps_submissionsAllowed = Undefined, ps_exempt = js_coalesce (get_opt self ''exempt'') (Bool False),
      ps_code = Undefined, ps_remedy = Undefined,
      ps_accessMode = js_coalesce (get_opt self ''access_mode'') Null,
      ps_allowedModes = js_coalesce (get_opt self ''allowed_modes'') (Arr []),
      ps_secondsSincePing = js_coalesce (get_opt self ''seconds_since_ping'')
        (js_coalesce (get_opt agent ''seconds_since_ack'') (IntV 0)),
      ps_local = agent, ps_attestNonce = js_coalesce (get_opt agent ''attest_nonce'') Null,
      ps_serverReachable = (self \<noteq> Null), ps_starting = js_coalesce (get_opt agent ''starting'') (Bool False),
      ps_resolved = False\<rparr>"

definition refused :: "proctor_state \<Rightarrow> string \<Rightarrow> string \<Rightarrow> proctor_state" where
  "refused base code remedy =
     base\<lparr>ps_submissionsAllowed := Bool False, ps_code := Str code, ps_remedy := Str remedy\<rparr>"

definition unreachable_remedy :: "jsv \<Rightarrow> string" where
  "unreachable_remedy buffered =
     (if truthy buffered
      then ''The proctor client cannot reach the contest server and is holding '' @ js_String buffered @ '' report'' @
           (if buffered = IntV 1 then [] else ''s'') @ ''. Check your network connection.''
      else ''The proctor client cannot reach the contest server. Check your network connection.'')"

definition proctor_resolve :: "jsv \<Rightarrow> jsv \<Rightarrow> proctor_state" where
  "proctor_resolve self agent =
     (let base = proctor_base self agent;
          web_only = (get_opt self ''access_mode'' = Str ''WEB_ONLY'')
      in if truthy (get_opt self ''exempt'') then base\<lparr>ps_submissionsAllowed := Bool True\<rparr>
         else if truthy (get_opt self ''allowed'') \<and> web_only then base\<lparr>ps_submissionsAllowed := Bool True\<rparr>
         else if truthy agent \<and> \<not> truthy (get_opt agent ''enrolled'') then
           refused base ''AGENT_MISSING'' ''The proctor client is not enrolled on this machine. Open it and sign in once.''
         else if truthy (get_opt agent ''revoked'') then
           refused base ''ENROLLMENT_REVOKED''
             (''This machine'' @ [CHR 0x27] @ ''s proctor enrolment was revoked. Re-enrol it from the tray, or ask an organizer.'')
         else if truthy (get_opt agent ''starting'') then
           refused base ''AGENT_STARTING'' ''The proctor client is starting up. This clears on its own within a few seconds.''
         else if truthy agent \<and> \<not> truthy (get_opt agent ''healthy'') then
           refused base ''AGENT_UNREACHABLE'' (unreachable_remedy (get_opt agent ''buffered''))
         else if self = Null then base\<lparr>ps_submissionsAllowed := Bool True\<rparr>
         else if \<not> truthy agent \<and> truthy (get_opt self ''allowed'') \<and> \<not> web_only then
           refused base ''NOT_ATTESTED''
             ''This browser cannot verify the proctor client on the same computer. Open the contestant window from the proctor client, or start the client on this machine.''
         else if \<not> truthy agent \<and> \<not> truthy (get_opt self ''allowed'') \<and> get_opt self ''code'' = Str ''AGENT_MISSING'' then
           refused base ''AGENT_MISSING''
             (''No proctor client has reported, and this page could not reach one on this machine. Open the client and sign in once '' @
              em_dash @ '' if it is already running, reload this page.'')
         else base\<lparr>ps_submissionsAllowed := get_opt self ''allowed'', ps_code := get_opt self ''code'',
                   ps_remedy := get_opt self ''remedy''\<rparr>)"

definition contestLocked :: "proctor_state \<Rightarrow> bool" where
  "contestLocked s \<longleftrightarrow> ps_resolved s \<and> \<not> truthy (ps_submissionsAllowed s) \<and> \<not> truthy (ps_exempt s)"

text \<open>The first state, from the status the server rendered with.\<close>

definition needs_local_proof :: "jsv \<Rightarrow> bool" where
  "needs_local_proof self \<longleftrightarrow>
     \<not> truthy (get_opt self ''exempt'') \<and>
     \<not> (truthy (get_opt self ''allowed'') \<and> get_opt self ''access_mode'' = Str ''WEB_ONLY'')"

definition proctor_seed :: "jsv \<Rightarrow> proctor_state" where
  "proctor_seed self =
     (if \<not> truthy self then INITIAL_PROCTOR_STATE
      else
        let state = (proctor_resolve self Null)\<lparr>ps_resolved := \<not> needs_local_proof self\<rparr>
        in if ps_code state = Str ''AGENT_MISSING''
           then state\<lparr>ps_remedy := js_coalesce (get_opt self ''remedy'') (ps_remedy state)\<rparr> else state)"

text \<open>A healthy agent on this machine.\<close>

definition agent_ready :: "jsv \<Rightarrow> bool" where
  "agent_ready agent \<longleftrightarrow>
     truthy agent \<and> truthy (get_opt agent ''enrolled'') \<and> \<not> truthy (get_opt agent ''revoked'') \<and>
     \<not> truthy (get_opt agent ''starting'') \<and> truthy (get_opt agent ''healthy'')"



section \<open>Refreshing\<close>

datatype permission = Granted | Prompt | Denied

datatype local_access = NotRequired | Checking | AskFirst | Requesting | AccessGranted | AccessDenied | Unavailable

record proctor_view =
  pv_state :: proctor_state
  pv_access :: local_access
  pv_knownPort :: jsv

definition proctor_view_start :: "jsv \<Rightarrow> proctor_view" where
  "proctor_view_start self = \<lparr>pv_state = proctor_seed self, pv_access = Checking, pv_knownPort = Undefined\<rparr>"

text \<open>Whether the refresh asks the agent at all; a browser without the permission interface (\<open>None\<close>) is asked.\<close>

definition probes :: "jsv \<Rightarrow> bool \<Rightarrow> permission option \<Rightarrow> bool" where
  "probes self requestAccess perm \<longleftrightarrow>
     truthy self \<and> needs_local_proof self \<and> (requestAccess \<or> perm \<noteq> Some Prompt \<and> perm \<noteq> Some Denied)"

text \<open>The refresh with the server's status, the permission before and after, and what the search for the agent found.\<close>

definition proctor_refresh :: "jsv \<Rightarrow> bool \<Rightarrow> permission option \<Rightarrow> jsv \<Rightarrow> permission option \<Rightarrow> proctor_view \<Rightarrow> proctor_view" where
  "proctor_refresh self requestAccess before found after v =
     (let agent = (if probes self requestAccess before then found else Null);
          access =
            (if \<not> (truthy self \<and> needs_local_proof self) then NotRequired
             else if \<not> requestAccess \<and> before = Some Prompt then AskFirst
             else if \<not> requestAccess \<and> before = Some Denied then AccessDenied
             else if truthy agent then AccessGranted
             else if after = Some Denied then AccessDenied else Unavailable);
          port =
            (if truthy (get_opt agent ''loopback_port'') then get_opt agent ''loopback_port''
             else if truthy (get_opt self ''loopback_port'') then get_opt self ''loopback_port''
             else pv_knownPort v)
      in v\<lparr>pv_state := (proctor_resolve self agent)\<lparr>ps_resolved := True\<rparr>, pv_access := access, pv_knownPort := port\<rparr>)"

definition requestLocalAccess :: "proctor_view \<Rightarrow> proctor_view" where
  "requestLocalAccess v = v\<lparr>pv_access := Requesting\<rparr>"

definition degraded :: "proctor_state \<Rightarrow> bool" where
  "degraded s \<longleftrightarrow> ps_resolved s \<and> (\<not> truthy (ps_submissionsAllowed s) \<or> truthy (ps_starting s))"

definition poll_delay :: "proctor_state \<Rightarrow> nat" where
  "poll_delay s = (if degraded s then POLL_DEGRADED_MS else POLL_HEALTHY_MS)"

section \<open>The polling loop\<close>

text \<open>
  The effect that polls: its generation (each run of the effect has a \<open>cancelled\<close> of its own), the generation whose
  refresh is in flight, and whether the current generation's timer is armed.
\<close>

record poller =
  po_gen :: nat
  po_flight :: "nat option"
  po_armed :: bool

definition poll_run :: "bool \<Rightarrow> bool \<Rightarrow> poller \<Rightarrow> poller" where
  "poll_run hidden pollWhileHidden p =
     (if po_flight p \<noteq> None then p
      else if hidden \<and> \<not> pollWhileHidden then p\<lparr>po_armed := True\<rparr>
      else p\<lparr>po_flight := Some (po_gen p)\<rparr>)"

definition poll_settle :: "poller \<Rightarrow> poller" where
  "poll_settle p =
     (case po_flight p of
        None \<Rightarrow> p
      | Some g \<Rightarrow> if g = po_gen p then p\<lparr>po_flight := None, po_armed := True\<rparr> else p\<lparr>po_flight := None\<rparr>)"

definition poll_mount :: "bool \<Rightarrow> bool \<Rightarrow> poller \<Rightarrow> poller" where
  "poll_mount hidden pollWhileHidden p =
     poll_run hidden pollWhileHidden (p\<lparr>po_gen := Suc (po_gen p), po_armed := False\<rparr>)"

definition poller_start :: poller where
  "poller_start = \<lparr>po_gen = 0, po_flight = None, po_armed = False\<rparr>"

inductive poll_step :: "poller \<Rightarrow> poller \<Rightarrow> bool" where
  Timer: "po_armed p \<Longrightarrow> poll_step p (poll_run hidden while_hidden (p\<lparr>po_armed := False\<rparr>))"
| Settles: "po_flight p \<noteq> None \<Longrightarrow> poll_step p (poll_settle p)"
| Visible: "poll_step p (poll_run False while_hidden (p\<lparr>po_armed := False\<rparr>))"

definition poll_alive :: "poller \<Rightarrow> bool" where
  "poll_alive p \<longleftrightarrow> (po_armed p \<longleftrightarrow> po_flight p = None) \<and> (\<forall>g. po_flight p = Some g \<longrightarrow> g = po_gen p)"

inductive_cases poll_stepE: "poll_step p q"

lemma poll_run_alive:
  "(\<forall>g. po_flight p = Some g \<longrightarrow> g = po_gen p) \<Longrightarrow> \<not> po_armed p \<Longrightarrow> poll_alive (poll_run hidden while_hidden p)"
  by (auto simp: poll_alive_def poll_run_def)

lemma poll_step_alive: "poll_alive p \<Longrightarrow> poll_step p q \<Longrightarrow> poll_alive q"
  by (erule poll_stepE) (auto simp: poll_alive_def poll_run_def poll_settle_def split: if_splits)

interpretation polling: state_machine "\<lambda>p. \<exists>hidden while_hidden. p = poll_mount hidden while_hidden poller_start" poll_step poll_alive
  by unfold_locales (auto simp: poll_mount_def poller_start_def intro: poll_run_alive poll_step_alive)

text \<open>
  C39: The proctor poll never dies and never doubles: at every moment after the provider mounted, over any interleaving of
  timers, answers and visibility changes, either exactly one refresh is in flight or the next one is scheduled, never
  both and never neither.
\<close>

theorem proctor_poll_alive:
  assumes "reaches (\<lambda>p. \<exists>hidden while_hidden. p = poll_mount hidden while_hidden poller_start) poll_step p"
  shows "po_armed p \<longleftrightarrow> po_flight p = None"
  using polling.reaches_inv [OF assms] by (simp add: poll_alive_def)

theorem proctor_poll_alive_witness:
  "po_armed (poll_mount True False poller_start) \<longleftrightarrow> po_flight (poll_mount True False poller_start) = None"
  by (rule proctor_poll_alive, rule reaches_init) blast

text \<open>
  Running the effect a second time over the same component (as React's development double mount does) while the first
  refresh is in flight stops the polling: once that refresh settles nothing is in flight and nothing is scheduled,
  until the page is hidden and shown again.
\<close>

theorem proctor_poll_dies_on_remount:
  assumes "po_flight p = Some (po_gen p)"
  shows "po_flight (poll_settle (poll_mount hidden while_hidden p)) = None \<and>
         \<not> po_armed (poll_settle (poll_mount hidden while_hidden p))"
  using assms by (simp add: poll_mount_def poll_run_def poll_settle_def)

theorem proctor_poll_dies_on_remount_witness:
  "\<not> po_armed (poll_settle (poll_mount False False (poll_mount False False poller_start)))"
  using proctor_poll_dies_on_remount [of "poll_mount False False poller_start" False False]
  by (simp add: poll_mount_def poll_run_def poller_start_def)

section \<open>What the pages show\<close>

definition isServerVerified :: "proctor_state \<Rightarrow> bool" where
  "isServerVerified s \<longleftrightarrow> truthy (ps_submissionsAllowed s) \<and>
     (ps_accessMode s = Str ''WEB_WITH_AGENT'' \<or> ps_accessMode s = Str ''DESKTOP'') \<and>
     num_le (js_Number (ps_secondsSincePing s)) (Fin 20)"

text \<open>The pill: hidden, or a text with its colour.\<close>

datatype pill_tone = PillSuccess | PillWarning | PillMuted | PillDestructive | PillAmber

definition pill_status :: "proctor_state \<Rightarrow> (string \<times> pill_tone) option" where
  "pill_status s =
     (if \<not> ps_resolved s then None
      else Some
        (if truthy (ps_starting s) then (''Starting up'', PillWarning)
         else if truthy (ps_exempt s) then (''Exempt'', PillMuted)
         else if \<not> truthy (ps_submissionsAllowed s) then
           ((if ps_code s = Str ''CLIENT_NOT_ALLOWED'' then ''Window Not Allowed''
             else if truthy (ps_local s) \<and> get_opt (ps_local s) ''healthy'' = Bool False then ''Proctor Off-Grid''
             else ''Proctor Inactive''), PillDestructive)
         else if \<not> ps_serverReachable s then (''Network Unstable'', PillWarning)
         else if ps_accessMode s = Str ''WEB_ONLY'' then (''Browser Access'', PillMuted)
         else if \<not> truthy (ps_local s) \<and> \<not> isServerVerified s then (''Agent Reconnecting'', PillAmber)
         else (''Active & Verified'', PillSuccess)))"

record block_screen =
  bl_transient :: bool
  bl_title :: string
  bl_environment :: string
  bl_modes :: string
  bl_remedy :: jsv
  bl_canRequest :: bool

definition mode_label :: "jsv \<Rightarrow> string" where
  "mode_label mode = (case map_of PROCTOR_MODE_LABELS (js_String mode) of Some l \<Rightarrow> l | None \<Rightarrow> [])"

definition mode_list :: "jsv \<Rightarrow> jsv list" where
  "mode_list v = (case v of Arr xs \<Rightarrow> xs | _ \<Rightarrow> [])"

definition access_block :: "contest_status \<Rightarrow> proctor_view \<Rightarrow> block_screen option" where
  "access_block status v =
     (let s = pv_state v
      in if status = NOT_STARTED \<or> \<not> contestLocked s then None
         else Some
           \<lparr>bl_transient = (ps_code s = Str PROCTOR_TRANSIENT_CODE),
            bl_title = (if truthy (ps_code s)
                        then (case map_of PROCTOR_LOCK_TITLES (js_String (ps_code s)) of
                                Some t \<Rightarrow> t | None \<Rightarrow> ''Contest Access Blocked'')
                        else ''Contest Access Blocked''),
            bl_environment = (if truthy (ps_accessMode s) then mode_label (ps_accessMode s) else ''Unrecognised window''),
            bl_modes = (if mode_list (ps_allowedModes s) \<noteq> []
                        then join_with '', or '' (map mode_label (mode_list (ps_allowedModes s)))
                        else mode_label (Str ''DESKTOP'')),
            bl_remedy = js_coalesce (ps_remedy s)
              (Str ''Start the proctor client window, or ask an organizer to grant browser access for your account.''),
            bl_canRequest = (\<not> truthy (ps_local s) \<and> pv_access v \<noteq> NotRequired)\<rparr>)"

end
