(* ===== verification/BrowserLockdown.thy ===== *)
theory BrowserLockdown
  imports CompetitorApi
begin

text \<open>
  The fullscreen lockdown of the competitor portal
  (\<open>competitor-frontend/src/components/portal/browser-lockdown.tsx\<close>): when the blocking screen covers the page, what
  the handlers report to the organizers and how reports are throttled, which keys are swallowed, and entering
  fullscreen. The browser's fullscreen interface is the outcome it answers with. The last section composes the
  lockdown with the page gate.
\<close>

section \<open>Fullscreen\<close>

record viewport =
  vp_fullscreenElement :: bool
  vp_inner :: "(int \<times> int) option"
  vp_screen :: "int \<times> int"

text \<open>
  One of the four vendor elements is set, or the window is as large as the screen, give or take four pixels; \<open>vp_inner\<close>
  is absent without a window or a screen. Sizes are width and height.
\<close>

definition checkIsFullscreen :: "viewport option \<Rightarrow> bool" where
  "checkIsFullscreen d =
     (case d of
        None \<Rightarrow> False
      | Some v \<Rightarrow>
          if vp_fullscreenElement v then True
          else (case vp_inner v of
                  None \<Rightarrow> False
                | Some (w, h) \<Rightarrow> h \<ge> snd (vp_screen v) - 4 \<and> w \<ge> fst (vp_screen v) - 4))"

section \<open>The lockdown\<close>

text \<open>What a report carries, and the state of the screen.\<close>

record violation =
  vi_type :: string
  vi_detail :: string
  vi_at :: int

record lockdown =
  lk_exited :: bool
  lk_error :: "string option"
  lk_lastReport :: int
  lk_reported :: "violation list"

definition lockdown_start :: lockdown where
  "lockdown_start = \<lparr>lk_exited = False, lk_error = None, lk_lastReport = 0, lk_reported = []\<rparr>"

text \<open>The effects and the screen are on only for a mounted page of a browser in a contest that requires fullscreen.\<close>

record lock_env =
  le_clientReady :: bool
  le_desktop :: bool
  le_required :: bool

definition lockdown_active :: "lock_env \<Rightarrow> bool" where
  "lockdown_active en \<longleftrightarrow> \<not> (le_desktop en \<or> \<not> le_clientReady en \<or> \<not> le_required en)"

definition lockdown_covers :: "lock_env \<Rightarrow> bool \<Rightarrow> bool" where
  "lockdown_covers en isFullscreenActive \<longleftrightarrow> lockdown_active en \<and> \<not> isFullscreenActive"

definition reportViolationTelemetry :: "int \<Rightarrow> string \<Rightarrow> string \<Rightarrow> lockdown \<Rightarrow> lockdown" where
  "reportViolationTelemetry now violationType detail s =
     (if now - lk_lastReport s < 2000 then s
      else s\<lparr>lk_lastReport := now,
             lk_reported := lk_reported s @ [\<lparr>vi_type = violationType, vi_detail = detail, vi_at = now\<rparr>]\<rparr>)"

record key_press =
  kp_key :: string
  kp_ctrl :: bool
  kp_meta :: bool
  kp_shift :: bool

definition is_inspection :: "key_press \<Rightarrow> bool" where
  "is_inspection k \<longleftrightarrow>
     kp_key k = ''F12'' \<or>
     ((kp_ctrl k \<or> kp_meta k) \<and> kp_shift k \<and> kp_key k \<in> {''I'', ''i'', ''J'', ''j'', ''C'', ''c''}) \<or>
     ((kp_ctrl k \<or> kp_meta k) \<and> kp_key k \<in> {''U'', ''u''})"

definition is_save :: "key_press \<Rightarrow> bool" where
  "is_save k \<longleftrightarrow> (kp_ctrl k \<or> kp_meta k) \<and> kp_key k \<in> {''S'', ''s''}"

datatype lock_event =
    FullscreenChange bool
  | VisibilityChange bool
  | WindowBlur
  | KeyDown key_press
  | ContextMenu
  | BeforeUnload

text \<open>The handlers: the new state and whether the event's default is prevented.\<close>

definition lock_handler :: "lock_env \<Rightarrow> int \<Rightarrow> lock_event \<Rightarrow> lockdown \<Rightarrow> lockdown \<times> bool" where
  "lock_handler en now ev s =
     (if \<not> lockdown_active en then (s, False)
      else (case ev of
        FullscreenChange isFullscreen \<Rightarrow>
          (if \<not> isFullscreen
           then reportViolationTelemetry now ''web.fullscreen_exit'' ''Contestant exited required fullscreen lockdown''
                  (s\<lparr>lk_exited := True\<rparr>)
           else s, False)
      | VisibilityChange hidden \<Rightarrow>
          (if hidden
           then reportViolationTelemetry now ''web.tab_switch'' ''Browser tab switched to background or browser minimized'' s
           else s, False)
      | WindowBlur \<Rightarrow>
          (reportViolationTelemetry now ''web.window_blur'' ''Window focus lost: external application or IDE focused'' s, False)
      | KeyDown k \<Rightarrow>
          if is_inspection k
          then (reportViolationTelemetry now ''web.devtools_attempt''
                  (''Developer inspection shortcut attempted: '' @ kp_key k) s, True)
          else (s, is_save k)
      | ContextMenu \<Rightarrow> (s, True)
      | BeforeUnload \<Rightarrow> (s, True)))"

text \<open>How the attempt to enter fullscreen ended: no interface, refused, entered.\<close>

datatype fullscreen_answer = Unsupported | Failed | Entered

definition enterFullscreenMode :: "fullscreen_answer \<Rightarrow> lockdown \<Rightarrow> lockdown" where
  "enterFullscreenMode answer s =
     (case answer of
        Unsupported \<Rightarrow> s\<lparr>lk_error := Some
          ''This browser does not support fullscreen mode. Use a current version of Chrome, Edge, Firefox, or Safari.''\<rparr>
      | Failed \<Rightarrow> s\<lparr>lk_error := Some
          ''Fullscreen could not start. Allow fullscreen access in your browser and try again.''\<rparr>
      | Entered \<Rightarrow> s\<lparr>lk_error := None, lk_exited := False\<rparr>)"

definition lockdown_title :: "lockdown \<Rightarrow> string" where
  "lockdown_title s = (if lk_exited s then ''Fullscreen Mode Exited'' else ''Fullscreen Lockdown Required'')"

section \<open>The rate of reports\<close>

definition run_lockdown :: "lock_env \<Rightarrow> (int \<times> lock_event) list \<Rightarrow> lockdown \<Rightarrow> lockdown" where
  "run_lockdown en evs s = foldl (\<lambda>s (now, ev). fst (lock_handler en now ev s)) s evs"

fun spaced :: "int \<Rightarrow> violation list \<Rightarrow> bool" where
  "spaced d [] = True"
| "spaced d [v] = True"
| "spaced d (v # w # vs) = (d \<le> vi_at w - vi_at v \<and> spaced d (w # vs))"

lemma spaced_snoc: "spaced d (vs @ [v]) \<longleftrightarrow> spaced d vs \<and> (vs = [] \<or> d \<le> vi_at v - vi_at (last vs))"
  by (induction d vs rule: spaced.induct) auto

definition report_inv :: "lockdown \<Rightarrow> bool" where
  "report_inv s \<longleftrightarrow> spaced 2000 (lk_reported s) \<and> (lk_reported s \<noteq> [] \<longrightarrow> vi_at (last (lk_reported s)) = lk_lastReport s)"

lemma report_keeps_inv: "report_inv s \<Longrightarrow> report_inv (reportViolationTelemetry now t d s)"
  by (auto simp: report_inv_def reportViolationTelemetry_def spaced_snoc)

lemma report_inv_exited [simp]: "report_inv (s\<lparr>lk_exited := b\<rparr>) = report_inv s"
  by (simp add: report_inv_def)

lemma handler_keeps_inv: "report_inv s \<Longrightarrow> report_inv (fst (lock_handler en now ev s))"
  by (auto simp: lock_handler_def intro: report_keeps_inv split: lock_event.split)

lemma run_lockdown_inv: "report_inv s \<Longrightarrow> report_inv (run_lockdown en evs s)"
  unfolding run_lockdown_def by (induction evs arbitrary: s) (auto intro: handler_keeps_inv)

text \<open>
  C40: The organizers' feed is bounded: over any sequence of browser events, two reports of one page are at least two seconds
  apart. A page that is not locked down (the desktop client, a contest that does not require fullscreen) reports
  nothing and swallows no key.
\<close>

theorem violations_throttled:
  "spaced 2000 (lk_reported (run_lockdown en evs lockdown_start)) \<and>
   (\<not> lockdown_active en \<longrightarrow>
      run_lockdown en evs lockdown_start = lockdown_start \<and> snd (lock_handler en now ev s) = False)"
proof -
  have "report_inv (run_lockdown en evs lockdown_start)"
    by (rule run_lockdown_inv) (simp add: report_inv_def lockdown_start_def)
  moreover have "run_lockdown en evs s = s" if "\<not> lockdown_active en" for s
    unfolding run_lockdown_def by (induction evs arbitrary: s) (auto simp: lock_handler_def that)
  ultimately show ?thesis by (simp add: report_inv_def lock_handler_def)
qed

theorem violations_throttled_witness:
  "run_lockdown \<lparr>le_clientReady = True, le_desktop = True, le_required = True\<rparr> [(5000, WindowBlur)] lockdown_start = lockdown_start"
  using violations_throttled [of "\<lparr>le_clientReady = True, le_desktop = True, le_required = True\<rparr>" "[(5000, WindowBlur)]"]
  by (simp add: lockdown_active_def)

section \<open>The desktop marker and the lockdown\<close>

text \<open>The cookie text a page sees after the gate answered: the cookies it already had and the readable ones just set.\<close>

definition page_cookies :: "(string \<times> string) list \<Rightarrow> page_response \<Rightarrow> string" where
  "page_cookies own a =
     join_with ''; '' (map (\<lambda>(k, v). k @ ''='' @ v)
       (own @ map (\<lambda>(k, v, _). (k, v)) (filter (\<lambda>(k, v, c). \<not> ck_http_only c) (pa_cookies a))))"

definition lock_env_of :: "page_window \<Rightarrow> bool \<Rightarrow> lock_env" where
  "lock_env_of p required = \<lparr>le_clientReady = True, le_desktop = isDesktopClient p, le_required = required\<rparr>"

lemma split_char_at: "split_char d (s @ d # t) = split_char d s @ split_char d t"
  by (induction s) (auto split: list.splits)

lemma split_last_cookie:
  assumes "CHR '';'' \<notin> set t"
  shows "\<exists>ps. split_char CHR '';'' (s @ ''; '' @ t) = ps @ [CHR '' '' # t]"
  using split_char_at [of "CHR '';''" s "CHR '' '' # t"] assms by (simp add: split_char_atom)

lemma join_with_snoc: "ps \<noteq> [] \<Longrightarrow> join_with sep (ps @ [t]) = join_with sep ps @ sep @ t"
proof (induction ps)
  case (Cons p ps)
  then show ?case by (cases "ps = []") (simp_all add: join_with_Cons)
qed simp

text \<open>
  Opening any portal page with \<open>client=desktop\<close> in an ordinary browser switches the lockdown off for good: the gate stores
  the readable marker cookie, the page then takes itself for the desktop client, the blocking screen never covers it
  and no fullscreen exit, tab switch, focus loss or inspection shortcut is reported.
\<close>

theorem desktop_marker_disables_lockdown:
  assumes "param_get (pg_params q) ''client'' = Some ''desktop''"
    and "pw_document p = Some (page_cookies own (portal_proxy q))"
  shows "\<not> lockdown_covers (lock_env_of p required) isFullscreenActive \<and>
         run_lockdown (lock_env_of p required) evs lockdown_start = lockdown_start"
proof -
  let ?t = "DESKTOP_CLIENT_COOKIE @ ''='' @ DESKTOP_CLIENT_VALUE"
  have set: "pa_cookies (portal_proxy q) = [(DESKTOP_CLIENT_COOKIE, DESKTOP_CLIENT_VALUE,
      \<lparr>ck_http_only = False, ck_secure = False, ck_same_site = ''lax'', ck_path = ''/'', ck_max_age = IntV DESKTOP_COOKIE_MAX_AGE\<rparr>)]"
    using assms(1) by (simp add: portal_proxy_def Let_def is_desktop_request_def DESKTOP_CLIENT_VALUE_def)
  have semi: "CHR '';'' \<notin> set ?t" by (simp add: desktop_constants)
  have trim: "js_trim ?t = ?t" "js_trim (CHR '' '' # ?t) = ?t" unfolding desktop_constants by code_simp+
  have "?t \<in> js_trim ` set (split_char CHR '';'' (page_cookies own (portal_proxy q)))"
  proof (cases "own = []")
    case True
    then have "page_cookies own (portal_proxy q) = ?t" by (simp add: page_cookies_def set)
    then show ?thesis using semi trim by (simp add: split_char_atom)
  next
    case False
    then obtain s where "page_cookies own (portal_proxy q) = s @ ''; '' @ ?t"
      using join_with_snoc [of "map (\<lambda>(k, v). k @ ''='' @ v) own" "''; ''" ?t] by (auto simp: page_cookies_def set)
    then obtain ps where "split_char CHR '';'' (page_cookies own (portal_proxy q)) = ps @ [CHR '' '' # ?t]"
      using split_last_cookie [OF semi] by metis
    then show ?thesis using trim by (auto intro!: image_eqI [of _ _ "CHR '' '' # ?t"])
  qed
  then have "isDesktopClient p" using assms(2) by (auto simp: isDesktopClient_def list_ex_iff)
  then have off: "\<not> lockdown_active (lock_env_of p required)" by (simp add: lockdown_active_def lock_env_of_def)
  then show ?thesis using violations_throttled [of "lock_env_of p required" evs] by (simp add: lockdown_covers_def)
qed

theorem desktop_marker_disables_lockdown_witness:
  "\<not> lockdown_covers (lock_env_of \<lparr>pw_document = Some (page_cookies [(''theme'', ''dark'')] (portal_proxy
       \<lparr>pg_pathname = ''/challenges'', pg_params = [(''client'', ''desktop'')], pg_cookies = []\<rparr>)),
     pw_desktop_flag = False, pw_search = []\<rparr> True) False"
proof -
  let ?q = "\<lparr>pg_pathname = ''/challenges'', pg_params = [(''client'', ''desktop'')], pg_cookies = []\<rparr>"
  have "param_get (pg_params ?q) ''client'' = Some ''desktop''" by (simp add: param_get_def)
  from desktop_marker_disables_lockdown [OF this] show ?thesis by simp
qed

end
