(* ===== verification/CodeHistory.thy ===== *)
theory CodeHistory
  imports CompetitorLib BrowserStorage
begin

text \<open>
  The history of a contestant's code (\<open>competitor-frontend/src/hooks/use-history.ts\<close>): snapshots kept per problem in
  the browser's storage, recording one, and merging what the server knows. A snapshot is the JSON object that is
  stored; one that is not an object (which the hook never writes) reads as having no fields, and language ids
  are texts. The random id and the clock of a new snapshot are arguments.
\<close>

section \<open>Snapshots\<close>

definition snapshot :: "string \<Rightarrow> int \<Rightarrow> string \<Rightarrow> string \<Rightarrow> string \<Rightarrow> jsv \<Rightarrow> jsv \<Rightarrow> jsv \<Rightarrow> jsv \<Rightarrow> jsv" where
  "snapshot fresh now trigger lang code verdict score maxScore submissionId =
     Obj [(''id'', Str fresh), (''at'', IntV now), (''trigger'', Str trigger), (''language'', Str lang), (''code'', Str code),
          (''verdict'', verdict), (''score'', score), (''maxScore'', maxScore), (''submissionId'', submissionId)]"

text \<open>\<open>{...existing, k: v, ...}\<close>\<close>

definition spread :: "jsv \<Rightarrow> (string \<times> jsv) list \<Rightarrow> jsv" where
  "spread existing kvs = Obj (foldl (\<lambda>fs (k, v). map_set k v fs) (case existing of Obj fs \<Rightarrow> fs | _ \<Rightarrow> []) kvs)"

definition storageKey :: "string \<Rightarrow> string" where
  "storageKey problemId = HISTORY_STORAGE_PREFIX @ problemId"

definition loadSnapshots :: "storage option \<Rightarrow> string \<Rightarrow> jsv list" where
  "loadSnapshots window_storage problemId =
     (case window_storage of
        None \<Rightarrow> []
      | Some st \<Rightarrow> (case load_json (storageKey problemId) st of Some (Arr xs) \<Rightarrow> xs | _ \<Rightarrow> []))"

definition saveSnapshots :: "(storage \<Rightarrow> bool) \<Rightarrow> string \<Rightarrow> jsv list \<Rightarrow> storage \<Rightarrow> storage" where
  "saveSnapshots fits problemId snapshots st = save_json fits (storageKey problemId) (Arr snapshots) st"

fun find_index :: "('a \<Rightarrow> bool) \<Rightarrow> 'a list \<Rightarrow> nat option" where
  "find_index P [] = None"
| "find_index P (x # xs) = (if P x then Some 0 else map_option Suc (find_index P xs))"

definition normalize_language :: "jsv \<Rightarrow> jsv" where
  "normalize_language v = (case v of Str s \<Rightarrow> Str (normalizeLanguageId s) | _ \<Rightarrow> v)"

lemma find_index_Some:
  "find_index P xs = Some i \<Longrightarrow> i < length xs \<and> P (xs ! i)"
  by (induction xs arbitrary: i) (auto split: if_splits)

lemma find_index_None: "find_index P xs = None \<longleftrightarrow> (\<forall>x\<in>set xs. \<not> P x)"
  by (induction xs) auto

section \<open>Merging the server's submissions\<close>

definition with_server :: "submission_item \<Rightarrow> jsv \<Rightarrow> jsv" where
  "with_server sub existing =
     spread existing
       [(''language'', normalize_language (js_coalesce (si_language sub) (get_opt existing ''language''))),
        (''code'', js_or (si_code sub) (get_opt existing ''code'')),
        (''verdict'', js_coalesce (si_status sub) (get_opt existing ''verdict'')),
        (''score'', js_coalesce (si_score sub) (get_opt existing ''score'')),
        (''maxScore'', js_coalesce (si_maxScore sub) (get_opt existing ''maxScore''))]"

definition differs :: "jsv \<Rightarrow> jsv \<Rightarrow> bool" where
  "differs updated existing \<longleftrightarrow>
     (\<exists>k\<in>{''language'', ''code'', ''verdict'', ''score'', ''maxScore''}. get_opt updated k \<noteq> get_opt existing k)"

definition from_server :: "int \<Rightarrow> submission_item \<Rightarrow> jsv" where
  "from_server now sub =
     Obj [(''id'', Str (''server-'' @ js_String (si_submissionId sub))), (''at'', js_or (Num (si_timestamp sub)) (IntV now)),
          (''trigger'', Str ''submitted''), (''language'', normalize_language (js_coalesce (si_language sub) (Str ''cpp''))),
          (''code'', js_coalesce (si_code sub) (Str [])), (''verdict'', si_status sub), (''score'', si_score sub),
          (''maxScore'', si_maxScore sub), (''submissionId'', si_submissionId sub)]"

definition merge_one :: "int \<Rightarrow> jsv list \<times> bool \<Rightarrow> submission_item \<Rightarrow> jsv list \<times> bool" where
  "merge_one now acc sub =
     (case acc of (merged, hasChanges) \<Rightarrow>
        if \<not> truthy (si_submissionId sub) then acc
        else (case find_index (\<lambda>s. get_opt s ''submissionId'' = si_submissionId sub) merged of
                Some i \<Rightarrow>
                  let updated = with_server sub (merged ! i)
                  in if differs updated (merged ! i) then (merged[i := updated], True) else acc
              | None \<Rightarrow> (merged @ [from_server now sub], True)))"

text \<open>\<open>second.at - first.at\<close> as the sort reads it: its sign, and \<open>NaN\<close> as equal.\<close>

definition newest_first :: "jsv \<Rightarrow> jsv \<Rightarrow> int" where
  "newest_first a b =
     (case (js_Number (get_opt a ''at''), js_Number (get_opt b ''at'')) of
        (Fin x, Fin y) \<Rightarrow> if y < x then -1 else if x < y then 1 else 0
      | _ \<Rightarrow> 0)"

definition mergeServerSubmissions :: "int \<Rightarrow> jsv list \<Rightarrow> submission_item list \<Rightarrow> jsv list" where
  "mergeServerSubmissions now localSnapshots serverSubmissions =
     (if serverSubmissions = [] then localSnapshots
      else
        let (merged, hasChanges) = foldl (merge_one now) (localSnapshots, False) serverSubmissions
        in if \<not> hasChanges then localSnapshots else take MAX_HISTORY_SNAPSHOTS (js_sort newest_first merged))"

section \<open>The hook\<close>

record history =
  hi_snapshots :: "jsv list"
  hi_storage :: storage

definition useHistory :: "storage \<Rightarrow> string \<Rightarrow> history" where
  "useHistory st problemId = \<lparr>hi_snapshots = loadSnapshots (Some st) problemId, hi_storage = st\<rparr>"

definition sync_history :: "(storage \<Rightarrow> bool) \<Rightarrow> string \<Rightarrow> int \<Rightarrow> submission_item list \<Rightarrow> history \<Rightarrow> history" where
  "sync_history fits problemId now submissions h =
     (if submissions = [] then h
      else
        let merged = mergeServerSubmissions now (hi_snapshots h) submissions
        in \<lparr>hi_snapshots = merged,
            hi_storage = (if merged \<noteq> hi_snapshots h then saveSnapshots fits problemId merged (hi_storage h) else hi_storage h)\<rparr>)"

text \<open>What is known of a snapshot beyond its code.\<close>

record extra =
  ex_verdict :: jsv
  ex_score :: jsv
  ex_maxScore :: jsv
  ex_submissionId :: jsv

definition no_extra :: extra where
  "no_extra = \<lparr>ex_verdict = Undefined, ex_score = Undefined, ex_maxScore = Undefined, ex_submissionId = Undefined\<rparr>"

definition update_recorded :: "extra \<Rightarrow> jsv \<Rightarrow> jsv" where
  "update_recorded x s =
     spread s [(''verdict'', js_coalesce (ex_verdict x) (get_opt s ''verdict'')),
               (''score'', js_coalesce (ex_score x) (get_opt s ''score'')),
               (''maxScore'', js_coalesce (ex_maxScore x) (get_opt s ''maxScore''))]"

definition record_into :: "string \<Rightarrow> int \<Rightarrow> string \<Rightarrow> string \<Rightarrow> string \<Rightarrow> extra \<Rightarrow> jsv list \<Rightarrow> jsv list option" where
  "record_into fresh now trigger lang code x current =
     (case (if truthy (ex_submissionId x)
            then find_index (\<lambda>s. get_opt s ''submissionId'' = ex_submissionId x) current else None) of
        Some i \<Rightarrow> Some (current[i := update_recorded x (current ! i)])
      | None \<Rightarrow>
          if trigger = ''autosave'' \<and>
             (case List.find (\<lambda>s. get_opt s ''trigger'' = Str ''autosave'') current of
                Some lastAutosave \<Rightarrow> get_opt lastAutosave ''code'' = Str code | None \<Rightarrow> False)
          then None
          else if (case current of [] \<Rightarrow> False
                   | s # _ \<Rightarrow> get_opt s ''code'' = Str code \<and> get_opt s ''trigger'' = Str trigger) \<and>
                  \<not> truthy (ex_submissionId x)
          then None
          else Some (take MAX_HISTORY_SNAPSHOTS
                 (snapshot fresh now trigger (normalizeLanguageId lang) code (ex_verdict x) (ex_score x) (ex_maxScore x)
                    (ex_submissionId x) # current)))"

definition record_snapshot ::
    "(storage \<Rightarrow> bool) \<Rightarrow> string \<Rightarrow> string \<Rightarrow> int \<Rightarrow> string \<Rightarrow> string \<Rightarrow> string \<Rightarrow> extra \<Rightarrow> history \<Rightarrow> history" where
  "record_snapshot fits problemId fresh now trigger lang code x h =
     (case record_into fresh now trigger lang code x (hi_snapshots h) of
        None \<Rightarrow> h
      | Some next \<Rightarrow> \<lparr>hi_snapshots = next, hi_storage = saveSnapshots fits problemId next (hi_storage h)\<rparr>)"

section \<open>One snapshot per submission, at most fifty\<close>

definition submission_ids :: "jsv list \<Rightarrow> jsv list" where
  "submission_ids ss = filter truthy (map (\<lambda>s. get_opt s ''submissionId'') ss)"

definition history_inv :: "jsv list \<Rightarrow> bool" where
  "history_inv ss \<longleftrightarrow> length ss \<le> MAX_HISTORY_SNAPSHOTS \<and> distinct (submission_ids ss)"

lemma map_set_other_key: "map_of (map_set k v fs) k' = (if k' = k then Some v else map_of fs k')"
  using map_get_set [of k v fs k'] by (simp add: map_get_def)

lemma spread_field:
  "k \<notin> fst ` set kvs \<Longrightarrow> get_opt (spread (Obj fs) kvs) k = get_opt (Obj fs) k"
  unfolding spread_def
  by (induction kvs arbitrary: fs) (auto simp: field_def map_set_other_key)

lemma spread_keeps_id:
  assumes "k \<notin> fst ` set kvs"
  shows "get_opt (spread s kvs) k = get_opt s k"
proof (cases s)
  case (Obj fs)
  then show ?thesis using spread_field [OF assms] by simp
qed (use spread_field [OF assms, of "[]"] in \<open>simp_all add: spread_def\<close>)

lemma updates_keep_id [simp]:
  "get_opt (with_server sub s) ''submissionId'' = get_opt s ''submissionId''"
  "get_opt (update_recorded x s) ''submissionId'' = get_opt s ''submissionId''"
  unfolding with_server_def update_recorded_def by (rule spread_keeps_id, simp)+

lemma submission_ids_update:
  assumes "i < length ss" "get_opt s ''submissionId'' = get_opt (ss ! i) ''submissionId''"
  shows "submission_ids (ss[i := s]) = submission_ids ss"
proof -
  let ?f = "\<lambda>s. get_opt s ''submissionId''"
  have "map ?f (ss[i := s]) = (map ?f ss)[i := map ?f ss ! i]" using assms by (simp add: map_update)
  also have "\<dots> = map ?f ss" by (rule list_update_id)
  finally show ?thesis by (simp add: submission_ids_def)
qed

lemma merge_one_distinct: "distinct (submission_ids ss) \<Longrightarrow> distinct (submission_ids (fst (merge_one now (ss, b) sub)))"
proof (cases "find_index (\<lambda>s. get_opt s ''submissionId'' = si_submissionId sub) ss")
  case None
  assume d: "distinct (submission_ids ss)"
  have "si_submissionId sub \<notin> set (submission_ids ss)" using None by (auto simp: find_index_None submission_ids_def)
  moreover have "get_opt (from_server now sub) ''submissionId'' = si_submissionId sub" by (simp add: from_server_def)
  ultimately show ?thesis using d by (auto simp: merge_one_def None submission_ids_def)
next
  case (Some i)
  then show "distinct (submission_ids ss) \<Longrightarrow> ?thesis"
    using find_index_Some [OF Some] by (simp add: merge_one_def Let_def submission_ids_update)
qed

lemma merge_all_distinct:
  "distinct (submission_ids (fst acc)) \<Longrightarrow> distinct (submission_ids (fst (foldl (merge_one now) acc subs)))"
proof (induction subs arbitrary: acc)
  case (Cons sub subs)
  then show ?case using merge_one_distinct [of "fst acc" now "snd acc" sub] by simp
qed simp

lemma distinct_ids_mset: "mset ss = mset ts \<Longrightarrow> distinct (submission_ids ss) = distinct (submission_ids ts)"
proof -
  assume "mset ss = mset ts"
  then have "mset (submission_ids ss) = mset (submission_ids ts)" by (simp add: submission_ids_def)
  then show ?thesis by (rule mset_eq_imp_distinct_iff)
qed

lemma distinct_ids_take: "distinct (submission_ids ss) \<Longrightarrow> distinct (submission_ids (take n ss))"
  unfolding submission_ids_def by (metis (no_types) append_take_drop_id distinct_append filter_append map_append)

lemma merge_inv: "history_inv ss \<Longrightarrow> history_inv (mergeServerSubmissions now ss subs)"
  using merge_all_distinct [of "(ss, False)" now subs]
  by (auto simp: mergeServerSubmissions_def history_inv_def Let_def distinct_ids_mset [OF mset_js_sort]
      intro!: distinct_ids_take split: prod.split)

lemma record_inv: "history_inv ss \<Longrightarrow> record_into fresh now trigger lang code x ss = Some ts \<Longrightarrow> history_inv ts"
proof (cases "if truthy (ex_submissionId x) then find_index (\<lambda>s. get_opt s ''submissionId'' = ex_submissionId x) ss else None")
  case (Some i)
  assume "history_inv ss" "record_into fresh now trigger lang code x ss = Some ts"
  then show ?thesis using Some find_index_Some [of _ ss i]
    by (auto simp: record_into_def history_inv_def submission_ids_update split: if_splits)
next
  case None
  let ?new = "snapshot fresh now trigger (normalizeLanguageId lang) code (ex_verdict x) (ex_score x) (ex_maxScore x) (ex_submissionId x)"
  assume inv: "history_inv ss" and r: "record_into fresh now trigger lang code x ss = Some ts"
  have "submission_ids (?new # ss) = (if truthy (ex_submissionId x) then ex_submissionId x # submission_ids ss else submission_ids ss)"
    by (simp add: submission_ids_def snapshot_def)
  moreover have "ex_submissionId x \<notin> set (submission_ids ss)" if "truthy (ex_submissionId x)"
    using None that by (auto simp: find_index_None submission_ids_def)
  ultimately have "distinct (submission_ids (?new # ss))" using inv by (simp add: history_inv_def)
  moreover have "ts = take MAX_HISTORY_SNAPSHOTS (?new # ss)"
    using r [unfolded record_into_def None option.case] by (auto split: if_split_asm)
  ultimately show ?thesis by (simp add: history_inv_def distinct_ids_take del: take_Cons')
qed

inductive history_step :: "(storage \<Rightarrow> bool) \<Rightarrow> string \<Rightarrow> history \<Rightarrow> history \<Rightarrow> bool" for fits problemId where
  Sync: "history_step fits problemId h (sync_history fits problemId now submissions h)"
| Record: "history_step fits problemId h (record_snapshot fits problemId fresh now trigger lang code x h)"

interpretation code_history: state_machine "\<lambda>h. history_inv (hi_snapshots h)" "history_step fits problemId"
  "\<lambda>h. history_inv (hi_snapshots h)" for fits problemId
proof
  fix h h'
  assume "history_inv (hi_snapshots h)" "history_step fits problemId h h'"
  then show "history_inv (hi_snapshots h')"
    by (auto elim!: history_step.cases simp: sync_history_def record_snapshot_def Let_def merge_inv
        dest: record_inv split: option.splits)
qed simp



section \<open>Recorded work survives a reload\<close>

text \<open>A snapshot as it is stored: fields that are \<open>undefined\<close> are not written.\<close>

definition stored :: "jsv \<Rightarrow> jsv" where
  "stored s = (case s of Obj fs \<Rightarrow> Obj (drop_undefined fs) | _ \<Rightarrow> s)"

lemma stringify_stored: "stringify (stored s) = stringify s"
  by (cases s) (simp_all add: stored_def stringify_drop_undefined del: stringify.simps(7))

lemma stringify_stored_list: "stringify (Arr (map stored ss)) = stringify (Arr ss)"
  by (simp add: stringify_stored o_def)

text \<open>
  Work that was recorded is there after a reload: when the storage has room and the snapshots hold JSON values, loading
  gives back every snapshot of the list just saved, in order and field by field; new work is its first entry, and
  recording never drops another snapshot while fewer than fifty are kept.
\<close>

theorem recorded_work_survives:
  assumes "record_into fresh now trigger lang code x (hi_snapshots h) = Some ss"
    and "list_all (\<lambda>s. json_ok (stored s)) ss"
    and "storage_set fits (storageKey problemId) (stringify (Arr ss)) (hi_storage h) = Inr st"
  shows "loadSnapshots (Some (hi_storage (record_snapshot fits problemId fresh now trigger lang code x h))) problemId = map stored ss \<and>
         (ex_submissionId x = Undefined \<longrightarrow>
            get_opt (hd ss) ''code'' = Str code \<and> get_opt (hd ss) ''trigger'' = Str trigger) \<and>
         (length (hi_snapshots h) < MAX_HISTORY_SNAPSHOTS \<longrightarrow>
            (\<exists>s. ss = s # hi_snapshots h) \<or> length ss = length (hi_snapshots h))"
proof -
  have ok: "json_ok (Arr (map stored ss))" using assms(2) by (simp add: list_all_iff)
  have "load_json (storageKey problemId) (save_json fits (storageKey problemId) (Arr (map stored ss)) (hi_storage h)) =
      Some (Arr (map stored ss))"
    by (rule local_storage.load_save [OF ok, where s' = st]) (use assms(3) in \<open>simp only: stringify_stored_list\<close>)
  moreover have "save_json fits (storageKey problemId) (Arr (map stored ss)) (hi_storage h) =
      saveSnapshots fits problemId ss (hi_storage h)"
    unfolding saveSnapshots_def local_storage.save_json_def stringify_stored_list ..
  ultimately have "loadSnapshots (Some (hi_storage (record_snapshot fits problemId fresh now trigger lang code x h))) problemId =
      map stored ss"
    by (simp add: record_snapshot_def assms(1) loadSnapshots_def)
  moreover have "get_opt (hd ss) ''code'' = Str code \<and> get_opt (hd ss) ''trigger'' = Str trigger"
    if "ex_submissionId x = Undefined"
    using assms(1) that by (auto simp: record_into_def MAX_HISTORY_SNAPSHOTS_def snapshot_def split: if_splits)
  moreover have "(\<exists>s. ss = s # hi_snapshots h) \<or> length ss = length (hi_snapshots h)"
    if "length (hi_snapshots h) < MAX_HISTORY_SNAPSHOTS"
    using assms(1) that
    by (cases "if truthy (ex_submissionId x) then find_index (\<lambda>s. get_opt s ''submissionId'' = ex_submissionId x) (hi_snapshots h) else None")
       (auto simp: record_into_def split: if_splits)
  ultimately show ?thesis by blast
qed

theorem recorded_work_survives_witness:
  "loadSnapshots (Some (hi_storage (record_snapshot (\<lambda>_. True) ''p1'' ''id1'' 5 ''ran'' ''cpp'' ''int main'' no_extra
      \<lparr>hi_snapshots = [], hi_storage = []\<rparr>))) ''p1'' =
   map stored [snapshot ''id1'' 5 ''ran'' (normalizeLanguageId ''cpp'') ''int main'' Undefined Undefined Undefined Undefined]"
proof -
  let ?h = "\<lparr>hi_snapshots = [], hi_storage = []\<rparr>"
  let ?ss = "[snapshot ''id1'' 5 ''ran'' (normalizeLanguageId ''cpp'') ''int main'' Undefined Undefined Undefined Undefined]"
  have r: "record_into ''id1'' 5 ''ran'' ''cpp'' ''int main'' no_extra (hi_snapshots ?h) = Some ?ss"
    by (simp add: record_into_def no_extra_def MAX_HISTORY_SNAPSHOTS_def)
  have ok: "list_all (\<lambda>s. json_ok (stored s)) ?ss"
    by (simp add: snapshot_def stored_def drop_undefined_def)
  obtain st where st: "storage_set (\<lambda>_. True) (storageKey ''p1'') (stringify (Arr ?ss)) (hi_storage ?h) = Inr st"
    by (simp add: storage_set_def Let_def)
  from recorded_work_survives [OF r ok st] show ?thesis by blast
qed

end
