(* ===== verification/PortalLists.thy ===== *)
theory PortalLists
  imports AdminHooks AdminValidation CompetitorLib
begin

text \<open>
  The lists of the competitor portal: the leaderboard (\<open>components/leaderboard/leaderboard-client.tsx\<close>), the
  challenges (\<open>components/challenges/challenges-list-client.tsx\<close>), the submission history
  (\<open>components/submissions/submissions-client.tsx\<close>) and the pager they share (\<open>components/ui/pagination.tsx\<close>),
  all under \<open>competitor-frontend/src\<close>. Rows are the typed records of \<open>types/\<close>; the numbers the backend sends are
  whole, and \<open>localeCompare\<close> is the parameter \<open>collate\<close>, documented to be a total preorder (\<open>comparator\<close>).
\<close>

section \<open>The pager\<close>

text \<open>A page number, or \<open>None\<close> for the ellipsis.\<close>

definition getPageNumbers :: "nat \<Rightarrow> nat \<Rightarrow> nat option list" where
  "getPageNumbers currentPage totalPages =
     (if totalPages \<le> 7 then map Some [1..<Suc totalPages]
      else if currentPage \<le> 4 then map Some [1, 2, 3, 4, 5] @ [None, Some totalPages]
      else if currentPage \<ge> totalPages - 3
      then [Some 1, None] @ map Some [totalPages - 4, totalPages - 3, totalPages - 2, totalPages - 1, totalPages]
      else [Some 1, None] @ map Some [currentPage - 1, currentPage, currentPage + 1] @ [None, Some totalPages])"

text \<open>\<open>startItem\<close> and \<open>endItem\<close>, shown unless there is nothing.\<close>

definition items_range :: "nat \<Rightarrow> nat \<Rightarrow> nat \<Rightarrow> (nat \<times> nat) option" where
  "items_range currentPage pageSize totalItems =
     (if totalItems = 0 then None else Some ((currentPage - 1) * pageSize + 1, min (currentPage * pageSize) totalItems))"

text \<open>What a window of page buttons promises, whoever draws it.\<close>

definition window_spec :: "nat \<Rightarrow> nat \<Rightarrow> nat \<Rightarrow> nat option list \<Rightarrow> bool" where
  "window_spec page n m xs \<longleftrightarrow>
     length xs \<le> m \<and> (\<exists>lo hi. 1 \<le> lo \<and> lo \<le> page \<and> page \<le> hi \<and> hi \<le> n \<and> xs = window_shape lo hi n)"

lemma window_shape_all: "1 \<le> n \<Longrightarrow> window_shape 1 n n = map Some [1..<Suc n]"
  by (simp add: window_shape_def)

lemma upt_five: "[k..<Suc (k + 4)] = [k, k + 1, k + 2, k + 3, k + 4]"
  by (simp add: upt_rec)

lemma getPageNumbers_shape:
  assumes "7 < n" "1 \<le> page" "page \<le> n"
  shows "getPageNumbers page n =
           (if page \<le> 4 then window_shape 1 5 n
            else if n - 3 \<le> page then window_shape (n - 4) n n else window_shape (page - 1) (page + 1) n)"
proof -
  have low: "[1..<Suc 5] = [1, 2, 3, 4, 5::nat]" using upt_five [of 1] by simp
  have high: "[n - 4..<Suc n] = [n - 4, n - 3, n - 2, n - 1, n]"
  proof -
    have "n - 4 + 4 = n" "n - 4 + 1 = n - 3" "n - 4 + 2 = n - 2" "n - 4 + 3 = n - 1" using assms(1) by linarith+
    then show ?thesis using upt_five [of "n - 4"] by simp
  qed
  have mid: "[page - 1..<Suc (page + 1)] = [page - 1, page, page + 1]" using assms(2) by (simp add: upt_rec)
  show ?thesis
    using assms unfolding getPageNumbers_def window_shape_def low high mid by (auto simp del: upt_Suc)
qed

text \<open>
  C35: Both pagers of the repository refine one contract: the admin console's window with seven slots and the portal's page
  buttons show at most seven entries, a block of neighbours around the current page, the first and the last page, and
  an ellipsis exactly where numbers are skipped. The portal's has exactly seven entries as soon as there are more
  pages, so the row of buttons keeps its width.
\<close>

theorem page_windows_refine:
  assumes "1 \<le> page" "page \<le> n"
  shows "window_spec page n 7 (getPageNumbers page n) \<and> window_spec page n 7 (pageWindow page n 7) \<and>
         length (getPageNumbers page n) = min n 7"
proof (cases "n \<le> 7")
  case True
  then have "getPageNumbers page n = window_shape 1 n n" "pageWindow page n 7 = window_shape 1 n n"
    using assms window_shape_all [of n] unfolding getPageNumbers_def pageWindow_def by simp_all
  moreover have "length (window_shape 1 n n) = n" using assms window_shape_all [of n] by simp
  ultimately show ?thesis using True assms unfolding window_spec_def by auto
next
  case False
  have portal: "\<exists>lo hi. 1 \<le> lo \<and> lo \<le> page \<and> page \<le> hi \<and> hi \<le> n \<and> getPageNumbers page n = window_shape lo hi n"
  proof -
    consider "page \<le> 4" | "\<not> page \<le> 4" "n - 3 \<le> page" | "\<not> page \<le> 4" "\<not> n - 3 \<le> page" by blast
    then show ?thesis
    proof cases
      case 1
      then show ?thesis using getPageNumbers_shape [of n page] assms False by (intro exI [of _ 1] exI [of _ 5]) simp
    next
      case 2
      then show ?thesis using getPageNumbers_shape [of n page] assms False by (intro exI [of _ "n - 4"] exI [of _ n]) auto
    next
      case 3
      then show ?thesis using getPageNumbers_shape [of n page] assms False
        by (intro exI [of _ "page - 1"] exI [of _ "page + 1"]) auto
    qed
  qed
  have len: "length (getPageNumbers page n) = 7" using False by (simp add: getPageNumbers_def)
  have "window_spec page n 7 (pageWindow page n 7)"
    using pageWindow_shape [OF assms, of 7] False unfolding window_spec_def by auto
  then show ?thesis using portal len False unfolding window_spec_def by simp
qed

theorem page_windows_refine_witness:
  "window_spec 10 40 7 [Some 1, None, Some 9, Some 10, Some 11, None, Some 40]"
proof -
  have "getPageNumbers 10 40 = [Some 1, None, Some 9, Some 10, Some 11, None, Some 40]"
    by (simp add: getPageNumbers_def)
  then show ?thesis using page_windows_refine [of 10 40] by simp
qed

section \<open>Paging a list\<close>

text \<open>The computation the leaderboard and the submission history share, from the stored page and size.\<close>

definition total_pages :: "nat \<Rightarrow> nat \<Rightarrow> nat" where
  "total_pages totalItems pageSize = page_count totalItems pageSize"

definition page_rows :: "'a list \<Rightarrow> nat \<Rightarrow> nat \<Rightarrow> 'a list" where
  "page_rows rows currentPage pageSize =
     (let validCurrentPage = min currentPage (total_pages (length rows) pageSize)
      in take (validCurrentPage * pageSize - (validCurrentPage - 1) * pageSize) (drop ((validCurrentPage - 1) * pageSize) rows))"

lemma page_rows_pagination:
  "1 \<le> p \<Longrightarrow> page_rows rows p sz = pg_items (usePagination rows p sz)"
  by (cases "min p (page_count (length rows) sz)")
    (auto simp: page_rows_def usePagination_def Let_def total_pages_def page_count_def)

lemma page_rows_nonempty:
  assumes "1 \<le> p" "0 < sz" "rows \<noteq> []"
  shows "page_rows rows p sz \<noteq> []"
proof -
  let ?n = "page_count (length rows) sz"
  have "(min p ?n - 1) * sz \<le> (?n - 1) * sz" by (rule mult_le_mono1) simp
  also have "\<dots> < length rows" by (rule page_count_least) (use assms in simp_all)
  finally show ?thesis using assms by (simp add: page_rows_pagination usePagination_def Let_def)
qed

section \<open>The leaderboard\<close>

record leaderboard_entry =
  le_rank :: int
  le_teamId :: string
  le_teamName :: string
  le_totalScore :: int
  le_problemsSolved :: int
  le_lastSubmissionAt :: "string option"

type_synonym collator = "string \<Rightarrow> string \<Rightarrow> int"

definition filteredLeaderboard :: "string \<Rightarrow> leaderboard_entry list \<Rightarrow> leaderboard_entry list" where
  "filteredLeaderboard search leaderboard =
     filter (\<lambda>entry. str_includes (js_lower (le_teamName entry)) (js_trim (js_lower search))) leaderboard"

definition leaderboard_order :: "collator \<Rightarrow> string \<Rightarrow> leaderboard_entry \<Rightarrow> leaderboard_entry \<Rightarrow> int" where
  "leaderboard_order collate sortBy =
     (if sortBy = ''RANK_ASC'' \<or> sortBy = ''SCORE_DESC'' then by_key le_rank
      else if sortBy = ''SCORE_ASC'' then by_key_desc le_rank
      else if sortBy = ''SOLVED_DESC'' then then_by (by_key_desc le_problemsSolved) (by_key le_rank)
      else if sortBy = ''NAME_ASC'' then (\<lambda>a b. collate (le_teamName a) (le_teamName b))
      else (\<lambda>_ _. 0))"

definition sortedLeaderboard :: "collator \<Rightarrow> string \<Rightarrow> string \<Rightarrow> leaderboard_entry list \<Rightarrow> leaderboard_entry list" where
  "sortedLeaderboard collate sortBy search leaderboard =
     js_sort (leaderboard_order collate sortBy) (filteredLeaderboard search leaderboard)"

definition currentUserStanding :: "string option \<Rightarrow> string option \<Rightarrow> leaderboard_entry list \<Rightarrow> leaderboard_entry option" where
  "currentUserStanding teamId teamName leaderboard =
     List.find (\<lambda>e. (case teamId of None \<Rightarrow> False | Some t \<Rightarrow> t \<noteq> [] \<and> le_teamId e = t) \<or>
                  (case teamName of None \<Rightarrow> False | Some t \<Rightarrow> t \<noteq> [] \<and> le_teamName e = t)) leaderboard"

record board =
  bd_search :: string
  bd_sortBy :: string
  bd_leaderboard :: "leaderboard_entry list"
  bd_refreshing :: bool
  bd_updatedAt :: "int option"
  bd_currentPage :: nat
  bd_pageSize :: nat
  bd_inFlight :: bool

definition board_start :: "leaderboard_entry list \<Rightarrow> board" where
  "board_start initialLeaderboard =
     \<lparr>bd_search = [], bd_sortBy = ''RANK_ASC'', bd_leaderboard = initialLeaderboard, bd_refreshing = False,
      bd_updatedAt = None, bd_currentPage = 1, bd_pageSize = 20, bd_inFlight = False\<rparr>"

definition board_handleSearchChange :: "string \<Rightarrow> board \<Rightarrow> board" where
  "board_handleSearchChange val s = s\<lparr>bd_search := val, bd_currentPage := 1\<rparr>"

definition board_handleSortChange :: "string \<Rightarrow> board \<Rightarrow> board" where
  "board_handleSortChange val s = s\<lparr>bd_sortBy := val, bd_currentPage := 1\<rparr>"

text \<open>\<open>refresh()\<close> up to its \<open>await\<close>: whether a request leaves, and the state.\<close>

definition board_refresh :: "board \<Rightarrow> bool \<times> board" where
  "board_refresh s = (if bd_inFlight s then (False, s) else (True, s\<lparr>bd_inFlight := True, bd_refreshing := True\<rparr>))"

text \<open>The rest of \<open>refresh()\<close>: the standings that arrived at \<open>now\<close>, or nothing when the call was rejected.\<close>

definition board_settle :: "int \<Rightarrow> leaderboard_entry list option \<Rightarrow> board \<Rightarrow> board" where
  "board_settle now answer s =
     (let s1 = (case answer of
                  Some next \<Rightarrow> if length next > 0 then s\<lparr>bd_leaderboard := next, bd_updatedAt := Some now\<rparr> else s
                | None \<Rightarrow> s)
      in s1\<lparr>bd_inFlight := False, bd_refreshing := False\<rparr>)"

definition board_tick :: "bool \<Rightarrow> bool \<Rightarrow> board \<Rightarrow> bool \<times> board" where
  "board_tick locked visible s = (if locked \<or> \<not> visible then (False, s) else board_refresh s)"

definition board_on_result :: "bool \<Rightarrow> string option \<Rightarrow> string option \<Rightarrow> board \<Rightarrow> bool \<times> board" where
  "board_on_result locked lastResult lastReview s =
     (if locked then (False, s)
      else if (lastResult \<noteq> None \<and> lastResult \<noteq> Some []) \<or> (lastReview \<noteq> None \<and> lastReview \<noteq> Some []) then board_refresh s
      else (False, s))"

definition board_rows :: "collator \<Rightarrow> board \<Rightarrow> leaderboard_entry list" where
  "board_rows collate s =
     page_rows (sortedLeaderboard collate (bd_sortBy s) (bd_search s) (bd_leaderboard s)) (bd_currentPage s) (bd_pageSize s)"

text \<open>The pager's buttons: a page it shows, or a number of rows it offers.\<close>

definition board_page :: "nat \<Rightarrow> board \<Rightarrow> board" where
  "board_page p s = s\<lparr>bd_currentPage := p\<rparr>"

definition board_page_size :: "nat \<Rightarrow> board \<Rightarrow> board" where
  "board_page_size n s = s\<lparr>bd_pageSize := n, bd_currentPage := 1\<rparr>"

definition BOARD_PAGE_SIZES :: "nat list" where
  "BOARD_PAGE_SIZES = [10, 20, 50, 100]"

inductive board_step :: "board \<Rightarrow> board \<Rightarrow> bool" where
  Search: "board_step s (board_handleSearchChange val s)"
| Sort: "board_step s (board_handleSortChange val s)"
| Refresh: "board_step s (snd (board_refresh s))"
| Tick: "board_step s (snd (board_tick locked visible s))"
| Result: "board_step s (snd (board_on_result locked lastResult lastReview s))"
| Settle: "bd_inFlight s \<Longrightarrow> board_step s (board_settle now answer s)"
| Page: "1 \<le> p \<Longrightarrow> board_step s (board_page p s)"
| Rows: "n \<in> set BOARD_PAGE_SIZES \<Longrightarrow> board_step s (board_page_size n s)"

definition board_inv :: "board \<Rightarrow> bool" where
  "board_inv s \<longleftrightarrow> (bd_refreshing s \<longleftrightarrow> bd_inFlight s) \<and> 1 \<le> bd_currentPage s \<and> 0 < bd_pageSize s"

lemma board_step_inv: "board_step s s' \<Longrightarrow> board_inv s \<Longrightarrow> board_inv s'"
  by (induction rule: board_step.induct)
    (auto simp: board_inv_def board_settle_def board_refresh_def board_tick_def board_on_result_def board_page_def
      board_page_size_def BOARD_PAGE_SIZES_def board_handleSearchChange_def board_handleSortChange_def Let_def
      split: option.splits)

lemma board_step_kept: "board_step s s' \<Longrightarrow> bd_leaderboard s \<noteq> [] \<Longrightarrow> bd_leaderboard s' \<noteq> []"
  by (induction rule: board_step.induct)
    (auto simp: board_settle_def board_refresh_def board_tick_def board_on_result_def board_page_def board_page_size_def
      board_handleSearchChange_def board_handleSortChange_def Let_def split: option.splits)

interpretation leaderboard_page: state_machine "\<lambda>s. s = board_start initial" board_step
  "\<lambda>s. board_inv s \<and> (initial \<noteq> [] \<longrightarrow> bd_leaderboard s \<noteq> [])" for initial
proof
  fix s s'
  assume inv: "board_inv s \<and> (initial \<noteq> [] \<longrightarrow> bd_leaderboard s \<noteq> [])" and step: "board_step s s'"
  show "board_inv s' \<and> (initial \<noteq> [] \<longrightarrow> bd_leaderboard s' \<noteq> [])"
    using board_step_inv [OF step] board_step_kept [OF step] inv by blast
qed (simp add: board_start_def board_inv_def)

lemma comparator_collated: "comparator collate \<Longrightarrow> comparator (\<lambda>a b. collate (f a) (f b))"
  unfolding comparator_def by blast

lemma comparator_zero: "comparator (\<lambda>_ _. 0)"
  by unfold_locales auto

lemma comparator_solved: "comparator (then_by (by_key_desc f) (by_key g))"
  by unfold_locales (auto simp: then_by_def by_key_desc_def by_key_def split: if_splits)

lemma leaderboard_order_comparator: "comparator collate \<Longrightarrow> comparator (leaderboard_order collate sortBy)"
  unfolding leaderboard_order_def
  by (simp add: comparator_collated comparator_zero comparator_solved key_asc.comparator_axioms key_desc.comparator_axioms)

text \<open>
  In every reachable state of the leaderboard page, over any interleaving of polls, results, answers, searches, sorts
  and pages: the spinner turns exactly while the one request that may be out is out; the pages taken together show
  exactly the teams that match the search, in the chosen order; and a page is never empty while a team matches, even
  when the board shrank. A board that has teams never goes empty again, although the answer that cleared it was read:
  an empty answer counts as a failed one.
\<close>

theorem board_reachable:
  assumes "reaches (\<lambda>s. s = board_start initial) board_step s" "comparator collate"
  shows "(bd_refreshing s \<longleftrightarrow> bd_inFlight s) \<and> (bd_inFlight s \<longrightarrow> \<not> fst (board_refresh s)) \<and>
         mset (sortedLeaderboard collate (bd_sortBy s) (bd_search s) (bd_leaderboard s))
           = mset (filteredLeaderboard (bd_search s) (bd_leaderboard s)) \<and>
         sorted_wrt (\<lambda>a b. leaderboard_order collate (bd_sortBy s) a b \<le> 0)
           (sortedLeaderboard collate (bd_sortBy s) (bd_search s) (bd_leaderboard s)) \<and>
         set (board_rows collate s) \<subseteq> set (filteredLeaderboard (bd_search s) (bd_leaderboard s)) \<and>
         (filteredLeaderboard (bd_search s) (bd_leaderboard s) \<noteq> [] \<longrightarrow> board_rows collate s \<noteq> []) \<and>
         (initial \<noteq> [] \<longrightarrow> bd_leaderboard s \<noteq> [])"
proof -
  let ?sorted = "sortedLeaderboard collate (bd_sortBy s) (bd_search s) (bd_leaderboard s)"
  have "board_inv s \<and> (initial \<noteq> [] \<longrightarrow> bd_leaderboard s \<noteq> [])"
    by (rule leaderboard_page.reaches_inv [OF assms(1)])
  then have inv: "bd_refreshing s \<longleftrightarrow> bd_inFlight s" "1 \<le> bd_currentPage s" "0 < bd_pageSize s"
    and kept: "initial \<noteq> [] \<longrightarrow> bd_leaderboard s \<noteq> []" by (auto simp: board_inv_def)
  note ordered = comparator.sorted_js_sort [OF leaderboard_order_comparator [OF assms(2)]]
  have set: "set ?sorted = set (filteredLeaderboard (bd_search s) (bd_leaderboard s))"
    by (simp add: sortedLeaderboard_def)
  have "board_rows collate s \<noteq> []" if "filteredLeaderboard (bd_search s) (bd_leaderboard s) \<noteq> []"
    unfolding board_rows_def using that set by (intro page_rows_nonempty inv) auto
  moreover have "set (board_rows collate s) \<subseteq> set ?sorted"
    unfolding board_rows_def page_rows_def Let_def by (meson order_trans set_drop_subset set_take_subset)
  ultimately show ?thesis
    using inv kept set ordered by (auto simp: sortedLeaderboard_def board_refresh_def)
qed

theorem board_reachable_witness:
  "board_rows (\<lambda>a b. int (length a) - int (length b))
     (board_start [\<lparr>le_rank = 1, le_teamId = ''t1'', le_teamName = ''Ada'', le_totalScore = 10, le_problemsSolved = 1,
                    le_lastSubmissionAt = None\<rparr>]) \<noteq> []"
proof -
  let ?e = "\<lparr>le_rank = 1, le_teamId = ''t1'', le_teamName = ''Ada'', le_totalScore = 10, le_problemsSolved = 1,
    le_lastSubmissionAt = None\<rparr>"
  have "filteredLeaderboard (bd_search (board_start [?e])) (bd_leaderboard (board_start [?e])) \<noteq> []"
    by (simp add: filteredLeaderboard_def board_start_def js_lower_def js_trim_def)
  moreover have "comparator (\<lambda>a b. int (length a) - int (length (b::string)))"
    by unfold_locales auto
  moreover have "reaches (\<lambda>s. s = board_start [?e]) board_step (board_start [?e])" by (rule reaches_init) simp
  ultimately show ?thesis using board_reachable by blast
qed

section \<open>The challenges\<close>

record challenge =
  ch_id :: string
  ch_title :: string
  ch_difficulty :: string
  ch_points :: int
  ch_statement :: string

record challenge_progress =
  cg_problemId :: string
  cg_status :: string
  cg_bestScore :: "int option"

type_synonym progress_map = "(string, challenge_progress) jsmap"

definition no_progress :: "string \<Rightarrow> challenge_progress" where
  "no_progress i = \<lparr>cg_problemId = i, cg_status = ''not_attempted'', cg_bestScore = Some 0\<rparr>"

definition progress_of :: "progress_map \<Rightarrow> string \<Rightarrow> challenge_progress" where
  "progress_of progress i = (case map_get progress i of Some p \<Rightarrow> p | None \<Rightarrow> no_progress i)"

text \<open>\<open>toUpperCase\<close>; the two letters of the block whose capitals lie outside it are kept.\<close>

definition js_upper_char :: "char \<Rightarrow> string" where
  "js_upper_char c =
     (let n = (of_char c :: nat)
      in if n = 223 then ''SS''
         else if (97 \<le> n \<and> n \<le> 122) \<or> (224 \<le> n \<and> n \<le> 254 \<and> n \<noteq> 247) then [char_of (n - 32)] else [c])"

definition js_upper :: "string \<Rightarrow> string" where
  "js_upper s = concat (map js_upper_char s)"

definition totalPoints :: "challenge list \<Rightarrow> int" where
  "totalPoints problems = sum_list (map ch_points problems)"

definition solvedCount :: "challenge list \<Rightarrow> progress_map \<Rightarrow> nat" where
  "solvedCount problems progress =
     length (filter (\<lambda>p. \<exists>g. map_get progress (ch_id p) = Some g \<and> cg_status g = ''solved'') problems)"

definition earnedPoints :: "progress_map \<Rightarrow> int" where
  "earnedPoints progress = sum_list (map (\<lambda>(_, pr). case cg_bestScore pr of Some n \<Rightarrow> n | None \<Rightarrow> 0) progress)"

text \<open>\<open>Math.round\<close> rounds halves up.\<close>

definition earnedPct :: "int \<Rightarrow> int \<Rightarrow> int" where
  "earnedPct earned total_points =
     (if total_points > 0 then min 100 ((200 * earned + total_points) div (2 * total_points)) else 0)"

definition challenge_shown :: "string \<Rightarrow> string \<Rightarrow> string \<Rightarrow> progress_map \<Rightarrow> challenge \<Rightarrow> bool" where
  "challenge_shown search statusFilter difficultyFilter progress problem =
     (let status = cg_status (progress_of progress (ch_id problem))
      in if js_trim search \<noteq> [] \<and> \<not> str_includes (js_lower (ch_title problem)) (js_lower search) \<and>
            \<not> str_includes (js_lower (ch_statement problem)) (js_lower search) then False
         else if statusFilter \<noteq> ''ALL'' \<and>
            (statusFilter = ''SOLVED'' \<and> status \<noteq> ''solved'' \<or>
             statusFilter = ''IN_PROGRESS'' \<and> status \<noteq> ''attempted'' \<or>
             statusFilter = ''UNSOLVED'' \<and> status = ''solved'') then False
         else if difficultyFilter \<noteq> ''ALL'' \<and> js_upper (ch_difficulty problem) \<noteq> difficultyFilter then False
         else True)"

definition difficulty_rank :: "challenge \<Rightarrow> int" where
  "difficulty_rank p = (case map_get DIFFICULTY_RANKS (ch_difficulty p) of Some r \<Rightarrow> r | None \<Rightarrow> 99)"

definition challenge_order :: "collator \<Rightarrow> string \<Rightarrow> challenge \<Rightarrow> challenge \<Rightarrow> int" where
  "challenge_order collate sortBy =
     (if sortBy = ''POINTS_DESC'' then by_key_desc ch_points
      else if sortBy = ''POINTS_ASC'' then by_key ch_points
      else if sortBy = ''TITLE_ASC'' then (\<lambda>a b. collate (ch_title a) (ch_title b))
      else if sortBy = ''DIFFICULTY_ASC'' then by_key difficulty_rank
      else if sortBy = ''DIFFICULTY_DESC'' then by_key_desc difficulty_rank
      else (\<lambda>_ _. 0))"

definition sortedProblems ::
    "collator \<Rightarrow> string \<Rightarrow> string \<Rightarrow> string \<Rightarrow> string \<Rightarrow> progress_map \<Rightarrow> challenge list \<Rightarrow> challenge list" where
  "sortedProblems collate sortBy search statusFilter difficultyFilter progress problems =
     js_sort (challenge_order collate sortBy) (filter (challenge_shown search statusFilter difficultyFilter progress) problems)"

definition CHALLENGE_SORT_OPTIONS :: "string list" where
  "CHALLENGE_SORT_OPTIONS = [''DEFAULT'', ''POINTS_DESC'', ''POINTS_ASC'', ''DIFFICULTY_ASC'', ''DIFFICULTY_DESC'', ''TITLE_ASC'']"

text \<open>The refresh button sends at most one refresh in three seconds: whether it fires, and the new stamp.\<close>

definition refresh_progress :: "int \<Rightarrow> int \<Rightarrow> bool \<times> int" where
  "refresh_progress now lastRefresh = (if now - lastRefresh < 3000 then (False, lastRefresh) else (True, now))"

lemma earnedPct_bounds: "0 \<le> e \<Longrightarrow> 0 \<le> earnedPct e t \<and> earnedPct e t \<le> 100"
  by (simp add: earnedPct_def pos_imp_zdiv_nonneg_iff)

lemma sort_indifferent: "(\<And>a b. a \<in> set xs \<Longrightarrow> b \<in> set xs \<Longrightarrow> cmp a b = 0) \<Longrightarrow> js_sort cmp xs = xs"
proof (induction xs)
  case (Cons x xs)
  then have "js_sort cmp (x # xs) = insert_by cmp x xs" by (simp add: js_sort_def)
  also have "\<dots> = x # xs" using Cons.prems by (cases xs) simp_all
  finally show ?case .
qed (simp add: js_sort_def)

lemma difficulty_accepted:
  assumes "zod_eval problemInputSchema v = Some d" "get_opt d ''difficulty'' = Str s"
  shows "s \<in> {''Easy'', ''Medium'', ''Hard''}"
proof -
  have obj: "zod_eval (ZObject problem_shape) v = Some d"
    using assms(1) unfolding problemInputSchema_def zod_refine_accepts by auto
  have "zod_eval (ZEnum [''Easy'', ''Medium'', ''Hard'']) (get_opt v ''difficulty'') = Some (get_opt d ''difficulty'')"
    by (rule zod_object_field [OF obj]) (simp_all add: problem_shape_def)
  then show ?thesis using assms(2) by (auto split: jsv.splits if_splits)
qed

text \<open>
  The difficulty sorts do nothing: the ranks are keyed \<open>EASY\<close>, \<open>MEDIUM\<close>, \<open>HARD\<close>, but a
  difficulty is \<open>Easy\<close>, \<open>Medium\<close> or \<open>Hard\<close>, the only ones the admin form accepts
  (\<open>difficulty_accepted\<close>), so every problem has the rank of an unknown difficulty and both orders leave
  the list as the server sent it. The difficulty filter, which compares upper case, does work.
\<close>

theorem difficulty_sort_inert:
  assumes "\<forall>p\<in>set problems. ch_difficulty p \<in> {''Easy'', ''Medium'', ''Hard''}"
  shows "(\<forall>sortBy \<in> {''DIFFICULTY_ASC'', ''DIFFICULTY_DESC''}.
            sortedProblems collate sortBy search statusFilter difficultyFilter progress problems
              = filter (challenge_shown search statusFilter difficultyFilter progress) problems) \<and>
         filter (challenge_shown [] ''ALL'' ''HARD'' progress) problems = filter (\<lambda>p. ch_difficulty p = ''Hard'') problems"
proof -
  have known: "ch_difficulty p \<in> {''Easy'', ''Medium'', ''Hard''}" if "p \<in> set problems" for p
    using assms that by blast
  then have "difficulty_rank p = 99" if "p \<in> set problems" for p
    using known [OF that] by (auto simp: difficulty_rank_def DIFFICULTY_RANKS_def map_get_def)
  then have "challenge_order collate sortBy a b = 0"
    if "sortBy \<in> {''DIFFICULTY_ASC'', ''DIFFICULTY_DESC''}" "a \<in> set problems" "b \<in> set problems" for sortBy a b
    using that by (auto simp: challenge_order_def by_key_def by_key_desc_def)
  moreover have upper: "js_upper ''Easy'' = ''EASY''" "js_upper ''Medium'' = ''MEDIUM''" "js_upper ''Hard'' = ''HARD''"
    by code_simp+
  have "challenge_shown [] ''ALL'' ''HARD'' progress p \<longleftrightarrow> ch_difficulty p = ''Hard''" if "p \<in> set problems" for p
    using known [OF that] upper by (auto simp: challenge_shown_def)
  ultimately show ?thesis
    by (auto simp: sortedProblems_def intro!: sort_indifferent filter_cong)
qed

definition listed :: "string \<Rightarrow> challenge" where
  "listed difficulty = \<lparr>ch_id = difficulty, ch_title = ''Two sum'', ch_difficulty = difficulty, ch_points = 100, ch_statement = []\<rparr>"

theorem difficulty_sort_inert_witness:
  "sortedProblems (\<lambda>_ _. 0) ''DIFFICULTY_ASC'' [] ''ALL'' ''ALL'' [] [listed ''Hard'', listed ''Easy'']
     = [listed ''Hard'', listed ''Easy'']"
proof -
  have "\<forall>p\<in>set [listed ''Hard'', listed ''Easy'']. ch_difficulty p \<in> {''Easy'', ''Medium'', ''Hard''}"
    by (simp add: listed_def)
  from difficulty_sort_inert [OF this, THEN conjunct1, rule_format, of "''DIFFICULTY_ASC''" "\<lambda>_ _. 0" "[]" "''ALL''" "''ALL''" "[]"]
  show ?thesis by (simp add: challenge_shown_def)
qed

subsection \<open>Cards and the waiting room\<close>

record card_view =
  cv_isLocked :: bool
  cv_difficultyVariant :: string
  cv_statusVariant :: string

definition DIFFICULTY_VARIANTS :: "(string, string) jsmap" where
  "DIFFICULTY_VARIANTS = [(''Easy'', ''success''), (''Medium'', ''teal''), (''Hard'', ''tealDeep'')]"

definition ChallengeCard :: "string \<Rightarrow> challenge \<Rightarrow> challenge_progress \<Rightarrow> card_view" where
  "ChallengeCard contest_status problem progress =
     \<lparr>cv_isLocked = (contest_status = ''PAUSED'' \<or> contest_status = ''NOT_STARTED''),
      cv_difficultyVariant = (case map_get DIFFICULTY_VARIANTS (ch_difficulty problem) of Some v \<Rightarrow> v | None \<Rightarrow> ''success''),
      cv_statusVariant = (if cg_status progress = ''solved'' then ''success''
                          else if cg_status progress = ''attempted'' then ''warning'' else ''secondary'')\<rparr>"

definition waiting_duration :: "int \<Rightarrow> string" where
  "waiting_duration durationSeconds =
     (let durationHours = durationSeconds div 3600; durationMinutes = (durationSeconds mod 3600) div 60
      in if durationHours > 0
         then show_int durationHours @ ''h '' @ (if durationMinutes > 0 then show_int durationMinutes @ ''m'' else [])
         else show_int durationMinutes @ ''m'')"

section \<open>The submission history\<close>

record submission_row =
  sb_submissionId :: string
  sb_problemTitle :: string
  sb_teamName :: string
  sb_language :: string
  sb_score :: int
  sb_status :: string
  sb_reviewStatus :: "string option"
  sb_timestamp :: "int option"

definition row_isAc :: "submission_row \<Rightarrow> bool" where
  "row_isAc sub \<longleftrightarrow> str_includes (js_lower (sb_status sub)) ''accepted'' \<or> js_lower (sb_status sub) = ''ac''"

definition row_isWa :: "submission_row \<Rightarrow> bool" where
  "row_isWa sub \<longleftrightarrow> str_includes (js_lower (sb_status sub)) ''wrong'' \<or> js_lower (sb_status sub) = ''wa''"

definition submission_shown :: "string \<Rightarrow> string \<Rightarrow> submission_row \<Rightarrow> bool" where
  "submission_shown search statusFilter sub =
     (if js_trim search \<noteq> [] \<and> \<not> str_includes (js_lower (sb_problemTitle sub)) (js_lower search) \<and>
         \<not> str_includes (js_lower (sb_teamName sub)) (js_lower search) \<and>
         \<not> str_includes (js_lower (sb_language sub)) (js_lower search) then False
      else if statusFilter \<noteq> ''ALL'' \<and>
         (statusFilter = ''ACCEPTED'' \<and> \<not> row_isAc sub \<or> statusFilter = ''WRONG_ANSWER'' \<and> \<not> row_isWa sub \<or>
          statusFilter = ''OTHER'' \<and> (row_isAc sub \<or> row_isWa sub)) then False
      else True)"

definition row_time :: "submission_row \<Rightarrow> int" where
  "row_time sub = (case sb_timestamp sub of Some t \<Rightarrow> t | None \<Rightarrow> 0)"

definition submission_order :: "collator \<Rightarrow> string \<Rightarrow> submission_row \<Rightarrow> submission_row \<Rightarrow> int" where
  "submission_order collate sortBy =
     (if sortBy = ''NEWEST'' then by_key_desc row_time
      else if sortBy = ''OLDEST'' then by_key row_time
      else if sortBy = ''SCORE_DESC'' then by_key_desc sb_score
      else if sortBy = ''STATUS_ASC'' then (\<lambda>a b. collate (sb_status a) (sb_status b))
      else if sortBy = ''TITLE_ASC'' then (\<lambda>a b. collate (sb_problemTitle a) (sb_problemTitle b))
      else (\<lambda>_ _. 0))"

definition sortedSubmissions :: "collator \<Rightarrow> string \<Rightarrow> string \<Rightarrow> string \<Rightarrow> submission_row list \<Rightarrow> submission_row list" where
  "sortedSubmissions collate sortBy search statusFilter submissions =
     js_sort (submission_order collate sortBy) (filter (submission_shown search statusFilter) submissions)"

definition paginatedSubmissions ::
    "collator \<Rightarrow> string \<Rightarrow> string \<Rightarrow> string \<Rightarrow> nat \<Rightarrow> nat \<Rightarrow> submission_row list \<Rightarrow> submission_row list" where
  "paginatedSubmissions collate sortBy search statusFilter currentPage pageSize submissions =
     page_rows (sortedSubmissions collate sortBy search statusFilter submissions) currentPage pageSize"

datatype badge = BadgeSuccess | BadgeWarning | BadgeDestructive

definition row_badge :: "submission_row \<Rightarrow> badge" where
  "row_badge sub =
     (if row_isAc sub then BadgeSuccess
      else if str_includes (js_lower (sb_status sub)) ''queued'' \<or> js_lower (sb_status sub) = ''evaluating'' then BadgeWarning
      else BadgeDestructive)"

text \<open>A click on a column head: the order it picks, from the one in force.\<close>

definition head_click :: "string \<Rightarrow> string \<Rightarrow> string" where
  "head_click column sortBy =
     (if column = ''CHALLENGE'' then (if sortBy = ''TITLE_ASC'' then ''NEWEST'' else ''TITLE_ASC'')
      else if column = ''SCORE'' then (if sortBy = ''SCORE_DESC'' then ''NEWEST'' else ''SCORE_DESC'')
      else if column = ''STATUS'' then (if sortBy = ''STATUS_ASC'' then ''NEWEST'' else ''STATUS_ASC'')
      else if column = ''SUBMITTED'' then (if sortBy = ''NEWEST'' then ''OLDEST'' else ''NEWEST'')
      else sortBy)"

text \<open>
  The history shows each submission once: whatever the search, filter, order and page size, the pages 1 to the last
  taken together are exactly the matching submissions, accepted and wrong answers fall under their own filter and the
  rest under neither. A submission that is being judged (status \<open>running\<close>) carries the badge of a failed one.
\<close>

theorem submission_pages:
  assumes "0 < pageSize"
  shows "mset (concat (map (\<lambda>p. paginatedSubmissions collate sortBy search statusFilter p pageSize submissions)
            [1..<Suc (total_pages (length (filter (submission_shown search statusFilter) submissions)) pageSize)]))
           = mset (filter (submission_shown search statusFilter) submissions) \<and>
         (\<forall>sub. submission_shown [] ''OTHER'' sub \<longleftrightarrow>
            \<not> submission_shown [] ''ACCEPTED'' sub \<and> \<not> submission_shown [] ''WRONG_ANSWER'' sub) \<and>
         (\<forall>sub. sb_status sub = ''running'' \<longrightarrow> row_badge sub = BadgeDestructive)"
proof -
  let ?rows = "sortedSubmissions collate sortBy search statusFilter submissions"
  have len: "length (filter (submission_shown search statusFilter) submissions) = length ?rows"
    by (simp add: sortedSubmissions_def)
  have "map (\<lambda>p. page_rows ?rows p pageSize) [1..<Suc (page_count (length ?rows) pageSize)] =
      map (\<lambda>p. pg_items (usePagination ?rows p pageSize)) [1..<Suc (page_count (length ?rows) pageSize)]"
    by (rule map_cong [OF refl], rule page_rows_pagination) (simp del: upt_Suc)
  then have "concat (map (\<lambda>p. page_rows ?rows p pageSize) [1..<Suc (page_count (length ?rows) pageSize)]) = ?rows"
    using usePagination_concat [OF assms, of ?rows] by (simp only:)
  moreover have "js_lower ''running'' = ''running''" by code_simp
  ultimately show ?thesis
    unfolding paginatedSubmissions_def total_pages_def len
    by (auto simp: submission_shown_def row_badge_def row_isAc_def sortedSubmissions_def)
qed

theorem submission_pages_witness:
  "mset (concat (map (\<lambda>p. paginatedSubmissions (\<lambda>_ _. 0) ''NEWEST'' [] ''ALL'' p 15 [])
     [1..<Suc (total_pages (length (filter (submission_shown [] ''ALL'') [])) 15)])) = {#}"
  using submission_pages [of 15 "\<lambda>_ _. 0" "''NEWEST''" "[]" "''ALL''" "[]"] by simp

end
