(* ===== verification/CodeWorkspace.thy ===== *)
theory CodeWorkspace
  imports CodeHistory SubmissionsProvider
begin

text \<open>
  The workspace of one problem (\<open>competitor-frontend/src/components/workspace\<close>): the editor with its drafts,
  run, submit and cooldowns (\<open>code-workspace.tsx\<close>), the typing telemetry (\<open>code-editor.tsx\<close>), the result panel
  (\<open>submission-result.tsx\<close>) and the history panel (\<open>history-panel.tsx\<close>). What the contest clock and the submissions
  provider show the page is the argument \<open>context\<close>; each state update is applied at once; the code of a stored
  snapshot is a text. Random ids and the clock are arguments, as in the history.
\<close>

section \<open>Typing telemetry\<close>

record telemetry =
  te_typedCount :: int
  te_pasteCount :: int
  te_pastedChars :: int
  te_maxPasteSize :: int

definition no_telemetry :: telemetry where
  "no_telemetry = \<lparr>te_typedCount = 0, te_pasteCount = 0, te_pastedChars = 0, te_maxPasteSize = 0\<rparr>"

record editor_key =
  ek_key :: string
  ek_ctrl :: bool
  ek_meta :: bool
  ek_alt :: bool

definition onKeyDown :: "editor_key \<Rightarrow> telemetry \<Rightarrow> telemetry" where
  "onKeyDown event t =
     (if length (ek_key event) = 1 \<and> \<not> ek_ctrl event \<and> \<not> ek_meta event \<and> \<not> ek_alt event
      then t\<lparr>te_typedCount := te_typedCount t + 1\<rparr> else t)"

definition handlePaste :: "string option \<Rightarrow> telemetry \<Rightarrow> telemetry" where
  "handlePaste clipboard t =
     (let len = int (length (case clipboard of Some s \<Rightarrow> s | None \<Rightarrow> []));
          t1 = t\<lparr>te_pasteCount := te_pasteCount t + 1, te_pastedChars := te_pastedChars t + len\<rparr>
      in if len > te_maxPasteSize t1 then t1\<lparr>te_maxPasteSize := len\<rparr> else t1)"

text \<open>The object handed to \<open>onTelemetryChange\<close>.\<close>

definition telemetry_json :: "telemetry \<Rightarrow> jsv" where
  "telemetry_json t = Obj [(''typedCount'', IntV (te_typedCount t)), (''pasteCount'', IntV (te_pasteCount t)),
     (''pastedChars'', IntV (te_pastedChars t)), (''maxPasteSize'', IntV (te_maxPasteSize t))]"

datatype editor_event = Pressed editor_key | Pasted "string option"

fun editor_event_step :: "editor_event \<Rightarrow> telemetry \<Rightarrow> telemetry" where
  "editor_event_step (Pressed k) t = onKeyDown k t"
| "editor_event_step (Pasted c) t = handlePaste c t"

definition run_editor :: "editor_event list \<Rightarrow> telemetry \<Rightarrow> telemetry" where
  "run_editor es t = foldl (\<lambda>t e. editor_event_step e t) t es"

definition pasted_texts :: "editor_event list \<Rightarrow> string list" where
  "pasted_texts es = concat (map (\<lambda>e. case e of Pasted (Some s) \<Rightarrow> [s] | Pasted None \<Rightarrow> [[]] | _ \<Rightarrow> []) es)"

definition typed_key :: "editor_key \<Rightarrow> bool" where
  "typed_key k \<longleftrightarrow> length (ek_key k) = 1 \<and> \<not> ek_ctrl k \<and> \<not> ek_meta k \<and> \<not> ek_alt k"

lemma run_editor_counts:
  "te_typedCount (run_editor es t) = te_typedCount t + int (length (filter (\<lambda>e. \<exists>k. e = Pressed k \<and> typed_key k) es)) \<and>
   te_pasteCount (run_editor es t) = te_pasteCount t + int (length (pasted_texts es)) \<and>
   te_pastedChars (run_editor es t) = te_pastedChars t + sum_list (map (int \<circ> length) (pasted_texts es)) \<and>
   te_maxPasteSize (run_editor es t) = foldl max (te_maxPasteSize t) (map (int \<circ> length) (pasted_texts es))"
proof (induction es arbitrary: t)
  case (Cons e es)
  have run: "run_editor (e # es) t = run_editor es (editor_event_step e t)" by (simp add: run_editor_def)
  show ?case
  proof (cases e)
    case (Pressed k)
    then show ?thesis unfolding run using Cons [of "onKeyDown k t"]
      by (auto simp: onKeyDown_def pasted_texts_def typed_key_def)
  next
    case (Pasted c)
    then show ?thesis unfolding run using Cons [of "handlePaste c t"]
      by (cases c) (auto simp: handlePaste_def Let_def pasted_texts_def max_def)
  qed
qed (simp add: run_editor_def pasted_texts_def)

lemma foldl_max_sum: "0 \<le> (m::int) \<Longrightarrow> \<forall>x\<in>set xs. 0 \<le> x \<Longrightarrow> m \<le> s \<Longrightarrow> foldl max m xs \<le> s + sum_list xs"
proof (induction xs arbitrary: m s)
  case (Cons x xs)
  have "foldl max (max m x) xs \<le> (s + x) + sum_list xs"
    by (rule Cons.IH) (use Cons.prems in auto)
  then show ?case by (simp add: add.assoc)
qed simp

text \<open>
  The typing record the organizers see is exact: after any sequence of key presses and pastes since the editor was
  mounted, the counters are the number of typed characters (keys that produce one, without a modifier), of pastes
  and of pasted characters and the largest paste; the largest never exceeds the total. Nothing resets them.
\<close>

theorem telemetry_exact:
  "te_typedCount (run_editor es no_telemetry) = int (length (filter (\<lambda>e. \<exists>k. e = Pressed k \<and> typed_key k) es)) \<and>
   te_pasteCount (run_editor es no_telemetry) = int (length (pasted_texts es)) \<and>
   te_pastedChars (run_editor es no_telemetry) = int (length (concat (pasted_texts es))) \<and>
   te_maxPasteSize (run_editor es no_telemetry) = foldl max 0 (map (int \<circ> length) (pasted_texts es)) \<and>
   te_maxPasteSize (run_editor es no_telemetry) \<le> te_pastedChars (run_editor es no_telemetry)"
proof -
  have "sum_list (map (int \<circ> length) xs) = int (length (concat xs))" for xs :: "string list"
    by (induction xs) auto
  then show ?thesis
    using run_editor_counts [of es no_telemetry] foldl_max_sum [of 0 "map (int \<circ> length) (pasted_texts es)" 0]
    by (simp add: no_telemetry_def)
qed

text \<open>
  The counters outgrow what a submission may carry: once more than a million characters were pasted into one mounted
  editor, all of it counted for good, the form is rejected before any request and the contestant cannot submit
  until the page is loaded again, whatever the code.
\<close>

theorem telemetry_blocks_submission:
  assumes "zod_parser sp" "1000000 < te_pastedChars t"
  shows "sent (snd (submitCode sp pid code best lang nonce (telemetry_json t) e w)) = sent w \<and>
         (\<exists>r. fst (submitCode sp pid code best lang nonce (telemetry_json t) e w) = Inr r \<and>
              sr_submissionId r = Undefined \<and> sr_error r \<noteq> Undefined)"
proof -
  let ?v = "submit_input pid code best (if lang = Undefined then Str ''cpp'' else lang) nonce (telemetry_json t)"
  have "zod_eval submitCodeInputSchema ?v = None"
  proof (rule ccontr)
    assume "zod_eval submitCodeInputSchema ?v \<noteq> None"
    then obtain d where d: "zod_eval submitCodeInputSchema ?v = Some d" by auto
    have "zod_eval (ZOptional (counter_schema 1000000)) (get_opt ?v ''pastedChars'') = Some (get_opt d ''pastedChars'')"
      by (rule zod_object_field [OF d [unfolded submitCodeInputSchema_def]]) (simp_all add: submit_shape_def)
    moreover have "get_opt ?v ''pastedChars'' = IntV (te_pastedChars t)" by (simp add: submit_input_def telemetry_json_def)
    ultimately have "zod_eval (ZOptional (counter_schema 1000000)) (IntV (te_pastedChars t)) = Some (get_opt d ''pastedChars'')"
      by simp
    then show False using assms(2) by (simp add: counter_schema_def split: if_splits)
  qed
  then obtain ms where "sp submitCodeInputSchema ?v = Inl ms"
    using zod_parser.parse_rejects [OF assms(1)] by blast
  then show ?thesis by (simp add: submitCode_def io_simps submit_failed_def)
qed

theorem telemetry_blocks_submission_witness:
  "sent (snd (submitCode zod_ref (Str ''p1'') (Str ''int main'') (IntV 0) Undefined Undefined
     (telemetry_json \<lparr>te_typedCount = 0, te_pasteCount = 11, te_pastedChars = 1000001, te_maxPasteSize = 100000\<rparr>)
     (answering 200 ''{}'') (with_cookie ''session'' ''t''))) = sent (with_cookie ''session'' ''t'')"
  by (rule telemetry_blocks_submission [OF zod_reference.zod_parser_axioms, THEN conjunct1]) simp

section \<open>The workspace\<close>

definition isRunFeatureEnabled :: "string option \<Rightarrow> string option \<Rightarrow> bool" where
  "isRunFeatureEnabled enable_run disable_run \<longleftrightarrow> enable_run \<noteq> Some ''false'' \<and> disable_run \<noteq> Some ''true''"

definition best_key :: "string \<Rightarrow> string" where
  "best_key problemId = ''labyrithm:best:'' @ problemId"

text \<open>\<open>None\<close>: no window, or a storage that throws.\<close>

definition readStoredBest :: "storage option \<Rightarrow> string \<Rightarrow> jsv" where
  "readStoredBest st key =
     (case st of
        None \<Rightarrow> IntV 0
      | Some m \<Rightarrow> (case storage_get m key of Some t \<Rightarrow> Num (js_Number (Str t)) | None \<Rightarrow> IntV 0))"

text \<open>What the contest clock and the submissions provider show the page.\<close>

record page_context =
  cx_isNotStarted :: bool
  cx_isPaused :: bool
  cx_isEnded :: bool
  cx_activeSubmissions :: "(string, active) jsmap"
  cx_lastResult :: "result_view option"

text \<open>The fields of a \<open>SubmitResult\<close> the workspace reads.\<close>

record work_result =
  wr_submissionId :: jsv
  wr_status :: jsv
  wr_verdict :: jsv
  wr_score :: jsv
  wr_maxScore :: jsv

definition of_view :: "result_view \<Rightarrow> work_result" where
  "of_view r = \<lparr>wr_submissionId = rs_submissionId r, wr_status = rs_status r, wr_verdict = rs_verdict r,
     wr_score = rs_score r, wr_maxScore = rs_maxScore r\<rparr>"

definition of_submit :: "submit_result \<Rightarrow> work_result" where
  "of_submit r = \<lparr>wr_submissionId = sr_submissionId r, wr_status = sr_status r, wr_verdict = Undefined,
     wr_score = sr_score r, wr_maxScore = sr_maxScore r\<rparr>"

text \<open>
  The state of the component. \<open>wk_submits\<close> and \<open>wk_runs\<close> are the calls whose answer is awaited, each with the language
  and the code its closure holds.
\<close>

record workspace =
  wk_language :: language
  wk_code :: string
  wk_stdin :: string
  wk_hasEdited :: bool
  wk_runResult :: "jsv option"
  wk_running :: bool
  wk_submitResult :: "submit_result option"
  wk_submitting :: bool
  wk_telemetry :: "telemetry option"
  wk_tab :: string
  wk_history :: history
  wk_storedBest :: jsv
  wk_recordedResult :: "string option"
  wk_runCooldown :: nat
  wk_submitCooldown :: nat
  wk_submits :: "(string \<times> string) list"
  wk_runs :: "(string \<times> string) list"

definition workspace_start :: "bool \<Rightarrow> string \<Rightarrow> string option \<Rightarrow> storage \<Rightarrow> workspace" where
  "workspace_start runEnabled problemId first_sample st =
     \<lparr>wk_language = hd LANGUAGES, wk_code = lg_starter (hd LANGUAGES),
      wk_stdin = (case first_sample of Some t \<Rightarrow> t | None \<Rightarrow> []), wk_hasEdited = False, wk_runResult = None,
      wk_running = False, wk_submitResult = None, wk_submitting = False, wk_telemetry = None,
      wk_tab = (if runEnabled then ''test'' else ''submission''), wk_history = useHistory st problemId,
      wk_storedBest = readStoredBest (Some st) (best_key problemId), wk_recordedResult = None,
      wk_runCooldown = 0, wk_submitCooldown = 0, wk_submits = [], wk_runs = []\<rparr>"

definition code_text :: "jsv \<Rightarrow> string" where
  "code_text v = (case v of Str s \<Rightarrow> s | _ \<Rightarrow> js_String v)"

text \<open>The timer of the first effect: the newest snapshot of the storage comes back unless something was typed.\<close>

definition restore_draft :: "string \<Rightarrow> workspace \<Rightarrow> workspace" where
  "restore_draft problemId w =
     (if wk_hasEdited w then w
      else (case loadSnapshots (Some (hi_storage (wk_history w))) problemId of
              [] \<Rightarrow> w
            | draft # _ \<Rightarrow>
                w\<lparr>wk_language := (case getLanguage (code_text (get_opt draft ''language'')) of
                                    Some l \<Rightarrow> l | None \<Rightarrow> hd LANGUAGES),
                  wk_code := code_text (get_opt draft ''code'')\<rparr>))"

definition isCurrentProblemSubmitting :: "string \<Rightarrow> page_context \<Rightarrow> workspace \<Rightarrow> bool" where
  "isCurrentProblemSubmitting problemId cx w \<longleftrightarrow>
     wk_submitting w \<or> (\<exists>a\<in>set (map snd (cx_activeSubmissions cx)). ac_problemId a = Str problemId)"

definition activeResult :: "string \<Rightarrow> page_context \<Rightarrow> workspace \<Rightarrow> work_result option" where
  "activeResult problemId cx w =
     (case cx_lastResult cx of
        Some r \<Rightarrow> if rs_problemId r = Str problemId then Some (of_view r) else map_option of_submit (wk_submitResult w)
      | None \<Rightarrow> map_option of_submit (wk_submitResult w))"

definition record_work ::
    "(storage \<Rightarrow> bool) \<Rightarrow> string \<Rightarrow> string \<Rightarrow> int \<Rightarrow> string \<Rightarrow> string \<Rightarrow> string \<Rightarrow> extra \<Rightarrow> workspace \<Rightarrow> workspace" where
  "record_work fits problemId fresh now trigger lang code x w =
     w\<lparr>wk_history := record_snapshot fits problemId fresh now trigger lang code x (wk_history w)\<rparr>"

text \<open>The autosave of the second effect, 1.5 seconds after the last change, and of Ctrl+S.\<close>

definition autosave :: "(storage \<Rightarrow> bool) \<Rightarrow> string \<Rightarrow> string \<Rightarrow> int \<Rightarrow> workspace \<Rightarrow> workspace" where
  "autosave fits problemId fresh now w =
     record_work fits problemId fresh now ''autosave'' (lg_id (wk_language w)) (wk_code w) no_extra w"

definition join_text :: "jsv \<Rightarrow> string" where
  "join_text v = (if nullish v then [] else js_String v)"

definition resultVersion :: "work_result \<Rightarrow> string" where
  "resultVersion r = join_with '':'' (map join_text [wr_submissionId r, wr_status r, wr_verdict r, wr_score r, wr_maxScore r])"

definition js_gt :: "jsv \<Rightarrow> jsv \<Rightarrow> bool" where
  "js_gt a b = (case (a, b) of (Str s, Str t) \<Rightarrow> str_le t s \<and> s \<noteq> t | _ \<Rightarrow> num_lt (js_Number b) (js_Number a))"

definition result_extra :: "work_result \<Rightarrow> extra" where
  "result_extra r = \<lparr>ex_verdict = wr_verdict r, ex_score = wr_score r, ex_maxScore = wr_maxScore r,
     ex_submissionId = wr_submissionId r\<rparr>"

definition keep_best :: "(storage \<Rightarrow> bool) \<Rightarrow> string \<Rightarrow> jsv \<Rightarrow> workspace \<Rightarrow> workspace" where
  "keep_best fits problemId score w =
     (if js_gt score (wk_storedBest w)
      then w\<lparr>wk_storedBest := score,
             wk_history := (wk_history w)\<lparr>hi_storage :=
               (case storage_set fits (best_key problemId) (js_String score) (hi_storage (wk_history w)) of
                  Inr st \<Rightarrow> st | Inl _ \<Rightarrow> hi_storage (wk_history w))\<rparr>\<rparr>
      else w)"

definition record_result :: "(storage \<Rightarrow> bool) \<Rightarrow> string \<Rightarrow> string \<Rightarrow> int \<Rightarrow> page_context \<Rightarrow> workspace \<Rightarrow> workspace" where
  "record_result fits problemId fresh now cx w =
     (case activeResult problemId cx w of
        None \<Rightarrow> w
      | Some r \<Rightarrow>
          if \<not> truthy (wr_submissionId r) \<or> wk_recordedResult w = Some (resultVersion r) then w
          else record_work fits problemId fresh now ''submitted'' (lg_id (wk_language w)) (wk_code w) (result_extra r)
                 (keep_best fits problemId (wr_score r) (w\<lparr>wk_recordedResult := Some (resultVersion r)\<rparr>)))"

definition tick_runCooldown :: "workspace \<Rightarrow> workspace" where
  "tick_runCooldown w = w\<lparr>wk_runCooldown := wk_runCooldown w - 1\<rparr>"

definition tick_submitCooldown :: "workspace \<Rightarrow> workspace" where
  "tick_submitCooldown w = w\<lparr>wk_submitCooldown := wk_submitCooldown w - 1\<rparr>"

definition handleLanguageChange :: "(storage \<Rightarrow> bool) \<Rightarrow> string \<Rightarrow> string \<Rightarrow> int \<Rightarrow> string \<Rightarrow> workspace \<Rightarrow> workspace" where
  "handleLanguageChange fits problemId fresh now i w =
     (let next = (case List.find (\<lambda>lang. lg_id lang = i) LANGUAGES of Some l \<Rightarrow> l | None \<Rightarrow> hd LANGUAGES);
          savedDraft = List.find (\<lambda>s. get_opt s ''language'' = Str (lg_id next)) (hi_snapshots (wk_history w))
      in (autosave fits problemId fresh now w)
           \<lparr>wk_language := next,
            wk_code := (case savedDraft of
                          Some d \<Rightarrow> if nullish (get_opt d ''code'') then lg_starter next else code_text (get_opt d ''code'')
                        | None \<Rightarrow> lg_starter next)\<rparr>)"

definition handleCodeChange :: "string \<Rightarrow> workspace \<Rightarrow> workspace" where
  "handleCodeChange next w = w\<lparr>wk_hasEdited := True, wk_code := next\<rparr>"

definition isRunDisabled :: "bool \<Rightarrow> page_context \<Rightarrow> workspace \<Rightarrow> bool" where
  "isRunDisabled runEnabled cx w \<longleftrightarrow>
     \<not> runEnabled \<or> wk_running w \<or> wk_runCooldown w > 0 \<or> cx_isPaused cx \<or> cx_isNotStarted cx"

definition isSubmitDisabled :: "string \<Rightarrow> page_context \<Rightarrow> workspace \<Rightarrow> bool" where
  "isSubmitDisabled problemId cx w \<longleftrightarrow>
     isCurrentProblemSubmitting problemId cx w \<or> wk_submitCooldown w > 0 \<or> cx_isPaused cx \<or> cx_isEnded cx \<or>
     cx_isNotStarted cx"

definition empty_run :: jsv where
  "empty_run = Obj [(''stdout'', Str []), (''stderr'', Str ''Error: Cannot run empty code''), (''exitCode'', IntV 1),
     (''timeMs'', IntV 0)]"

text \<open>\<open>handleRun\<close> up to its \<open>await\<close>: the call that leaves (language, code, input), and the state.\<close>

definition handleRun ::
    "(storage \<Rightarrow> bool) \<Rightarrow> bool \<Rightarrow> string \<Rightarrow> string \<Rightarrow> int \<Rightarrow> page_context \<Rightarrow> workspace \<Rightarrow>
     (string \<times> string \<times> string) option \<times> workspace" where
  "handleRun fits runEnabled problemId fresh now cx w =
     (if \<not> runEnabled \<or> wk_running w \<or> wk_runCooldown w > 0 \<or> cx_isPaused cx \<or> cx_isNotStarted cx then (None, w)
      else if js_trim (wk_code w) = [] then (None, w\<lparr>wk_tab := ''test'', wk_runResult := Some empty_run\<rparr>)
      else (Some (lg_id (wk_language w), wk_code w, wk_stdin w),
            record_work fits problemId fresh now ''ran'' (lg_id (wk_language w)) (wk_code w) no_extra
              (w\<lparr>wk_tab := ''test'', wk_running := True, wk_runResult := None,
                 wk_runs := (lg_id (wk_language w), wk_code w) # wk_runs w\<rparr>)))"

text \<open>Its rest: the result, or \<open>None\<close> when the call was rejected.\<close>

definition settle_run :: "string \<times> string \<Rightarrow> jsv option \<Rightarrow> workspace \<Rightarrow> workspace" where
  "settle_run run result w =
     (let w1 = w\<lparr>wk_runs := remove1 run (wk_runs w)\<rparr>
      in (case result of Some r \<Rightarrow> w1\<lparr>wk_runResult := Some r, wk_runCooldown := 3\<rparr> | None \<Rightarrow> w1)\<lparr>wk_running := False\<rparr>)"

definition js_max :: "jsnum \<Rightarrow> jsnum \<Rightarrow> jsnum" where
  "js_max a b = (if a = NaN \<or> b = NaN then NaN else if num_le a b then b else a)"

definition previous_best :: "string \<Rightarrow> page_context \<Rightarrow> workspace \<Rightarrow> jsnum" where
  "previous_best problemId cx w =
     js_max (js_Number (wk_storedBest w))
       (js_Number (js_coalesce (case activeResult problemId cx w of Some r \<Rightarrow> wr_score r | None \<Rightarrow> Undefined) (IntV 0)))"

text \<open>\<open>handleSubmit\<close> up to its \<open>await\<close>: what is handed to \<open>submitFast\<close>, and the state.\<close>

record submission_call =
  sc_code :: string
  sc_previousBest :: jsnum
  sc_language :: string
  sc_telemetry :: "telemetry option"

definition handleSubmit :: "string \<Rightarrow> page_context \<Rightarrow> workspace \<Rightarrow> submission_call option \<times> workspace" where
  "handleSubmit problemId cx w =
     (if isCurrentProblemSubmitting problemId cx w \<or> wk_submitCooldown w > 0 \<or> cx_isPaused cx \<or> cx_isEnded cx \<or>
         cx_isNotStarted cx then (None, w)
      else (Some \<lparr>sc_code = wk_code w, sc_previousBest = previous_best problemId cx w,
                  sc_language = lg_id (wk_language w), sc_telemetry = wk_telemetry w\<rparr>,
            w\<lparr>wk_tab := ''submission'', wk_submitting := True, wk_submitResult := None,
              wk_submits := (lg_id (wk_language w), wk_code w) # wk_submits w\<rparr>))"

definition settle_submit ::
    "(storage \<Rightarrow> bool) \<Rightarrow> string \<Rightarrow> string \<Rightarrow> int \<Rightarrow> string \<times> string \<Rightarrow> submit_result option \<Rightarrow> workspace \<Rightarrow> workspace" where
  "settle_submit fits problemId fresh now call result w =
     (let w1 = w\<lparr>wk_submits := remove1 call (wk_submits w)\<rparr>;
          w2 = (case result of
                  None \<Rightarrow> w1
                | Some res \<Rightarrow>
                    let w' = w1\<lparr>wk_submitResult := Some res\<rparr>
                    in if truthy (sr_submissionId res)
                       then record_work fits problemId fresh now ''submitted'' (fst call) (snd call) (result_extra (of_submit res)) w'
                       else w')
      in w2\<lparr>wk_submitting := False, wk_submitCooldown := 3\<rparr>)"

definition handleRestore :: "jsv \<Rightarrow> workspace \<Rightarrow> workspace" where
  "handleRestore s w =
     (case getLanguage (code_text (get_opt s ''language'')) of Some l \<Rightarrow> w\<lparr>wk_language := l\<rparr> | None \<Rightarrow> w)
       \<lparr>wk_code := code_text (get_opt s ''code'')\<rparr>"

text \<open>The shortcuts: what Ctrl or Cmd with a key asks for.\<close>

datatype shortcut = DoSubmit | DoRun | DoSave | NoShortcut

definition handleKeyDown :: "bool \<Rightarrow> string \<Rightarrow> bool \<Rightarrow> bool \<Rightarrow> bool \<Rightarrow> shortcut" where
  "handleKeyDown runEnabled key meta ctrl shift =
     (if meta \<or> ctrl
      then if key = ''Enter'' then (if shift then DoSubmit else if runEnabled then DoRun else DoSubmit)
           else if js_lower key = ''s'' then DoSave else NoShortcut
      else NoShortcut)"

inductive workspace_step :: "(storage \<Rightarrow> bool) \<Rightarrow> bool \<Rightarrow> string \<Rightarrow> workspace \<Rightarrow> workspace \<Rightarrow> bool"
  for fits runEnabled problemId where
  Draft: "workspace_step fits runEnabled problemId w (restore_draft problemId w)"
| Autosave: "workspace_step fits runEnabled problemId w (autosave fits problemId fresh now w)"
| Recorded: "workspace_step fits runEnabled problemId w (record_result fits problemId fresh now cx w)"
| RunTick: "workspace_step fits runEnabled problemId w (tick_runCooldown w)"
| SubmitTick: "workspace_step fits runEnabled problemId w (tick_submitCooldown w)"
| Language: "workspace_step fits runEnabled problemId w (handleLanguageChange fits problemId fresh now i w)"
| Code: "workspace_step fits runEnabled problemId w (handleCodeChange next w)"
| Run: "workspace_step fits runEnabled problemId w (snd (handleRun fits runEnabled problemId fresh now cx w))"
| RunSettled: "call \<in> set (wk_runs w) \<Longrightarrow> workspace_step fits runEnabled problemId w (settle_run call result w)"
| Submit: "workspace_step fits runEnabled problemId w (snd (handleSubmit problemId cx w))"
| SubmitSettled: "call \<in> set (wk_submits w) \<Longrightarrow>
    workspace_step fits runEnabled problemId w (settle_submit fits problemId fresh now call answer w)"
| Restore: "workspace_step fits runEnabled problemId w (handleRestore s w)"
| Telemetry: "workspace_step fits runEnabled problemId w (w\<lparr>wk_telemetry := Some t\<rparr>)"
| Input: "workspace_step fits runEnabled problemId w (w\<lparr>wk_stdin := text\<rparr>)"
| Synced: "workspace_step fits runEnabled problemId w
    (w\<lparr>wk_history := sync_history fits problemId now submissions (wk_history w)\<rparr>)"

definition workspace_inv :: "workspace \<Rightarrow> bool" where
  "workspace_inv w \<longleftrightarrow>
     length (wk_submits w) \<le> 1 \<and> (wk_submitting w \<longleftrightarrow> wk_submits w \<noteq> []) \<and>
     length (wk_runs w) \<le> 1 \<and> (wk_running w \<longleftrightarrow> wk_runs w \<noteq> []) \<and>
     wk_runCooldown w \<le> 3 \<and> wk_submitCooldown w \<le> 3 \<and> wk_language w \<in> set LANGUAGES \<and>
     history_inv (hi_snapshots (wk_history w))"

lemma first_language [simp]: "hd LANGUAGES \<in> set LANGUAGES"
  by (simp add: LANGUAGES_def)

lemma find_in_list: "List.find P xs = Some x \<Longrightarrow> x \<in> set xs"
  by (auto simp: find_Some_iff)

lemma getLanguage_known: "getLanguage t = Some l \<Longrightarrow> l \<in> set LANGUAGES"
  unfolding getLanguage_def Let_def by (rule find_in_list)

lemma record_history_inv:
  "history_inv (hi_snapshots h) \<Longrightarrow> history_inv (hi_snapshots (record_snapshot fits problemId fresh now trigger lang code x h))"
  by (auto simp: record_snapshot_def dest: record_inv split: option.split)

lemma sync_history_inv:
  "history_inv (hi_snapshots h) \<Longrightarrow> history_inv (hi_snapshots (sync_history fits problemId now submissions h))"
  by (simp add: sync_history_def Let_def merge_inv)

lemma record_work_inv:
  "workspace_inv w \<Longrightarrow> workspace_inv (record_work fits problemId fresh now trigger lang code x w)"
  by (simp add: workspace_inv_def record_work_def record_history_inv)

lemma keep_best_inv: "workspace_inv w \<Longrightarrow> workspace_inv (keep_best fits problemId score w)"
  by (simp add: keep_best_def workspace_inv_def)

lemma one_call: "length xs \<le> 1 \<Longrightarrow> c \<in> set xs \<Longrightarrow> remove1 c xs = []"
  by (cases xs) auto

lemma workspace_step_inv: "workspace_step fits runEnabled problemId w w' \<Longrightarrow> workspace_inv w \<Longrightarrow> workspace_inv w'"
proof (induction rule: workspace_step.induct)
  case (Draft w)
  then show ?case
    by (auto simp: restore_draft_def workspace_inv_def dest: getLanguage_known split: list.split option.split)
next
  case (Recorded w fresh now cx)
  have "workspace_inv (w\<lparr>wk_recordedResult := v\<rparr>)" for v using Recorded by (simp add: workspace_inv_def)
  then show ?case
    using Recorded by (auto simp: record_result_def intro!: record_work_inv keep_best_inv split: option.split)
next
  case (Language w fresh now i)
  then have "workspace_inv (autosave fits problemId fresh now w)" unfolding autosave_def by (rule record_work_inv)
  then show ?case
    by (auto simp: handleLanguageChange_def Let_def workspace_inv_def dest: find_in_list split: option.split)
next
  case (Run w fresh now cx)
  then have "workspace_inv (w\<lparr>wk_tab := ''test'', wk_running := True, wk_runResult := None, wk_runs := [c]\<rparr>)" for c
    by (simp add: workspace_inv_def)
  moreover have "wk_runs w = []" if "\<not> wk_running w" using Run that by (simp add: workspace_inv_def)
  ultimately show ?case
    using Run by (auto simp: handleRun_def intro!: record_work_inv) (simp add: workspace_inv_def)
next
  case (RunSettled call w result)
  then show ?case
    using one_call [of "wk_runs w" call] by (auto simp: settle_run_def Let_def workspace_inv_def split: option.split)
next
  case (Submit w cx)
  then show ?case by (auto simp: handleSubmit_def workspace_inv_def isCurrentProblemSubmitting_def)
next
  case (SubmitSettled call w fresh now answer)
  then have "remove1 call (wk_submits w) = []" by (intro one_call) (simp_all add: workspace_inv_def)
  then show ?case
    using SubmitSettled record_history_inv
    by (auto simp: settle_submit_def Let_def workspace_inv_def record_work_def split: option.split)
next
  case (Restore w s)
  then show ?case by (auto simp: handleRestore_def workspace_inv_def dest: getLanguage_known split: option.split)
next
  case (Synced w now submissions)
  then show ?case by (simp add: workspace_inv_def sync_history_inv)
qed (auto simp: workspace_inv_def autosave_def record_work_def record_history_inv tick_runCooldown_def
      tick_submitCooldown_def handleCodeChange_def)

definition workspace_initial :: "bool \<Rightarrow> string \<Rightarrow> workspace \<Rightarrow> bool" where
  "workspace_initial runEnabled problemId w \<longleftrightarrow>
     (\<exists>sample st. w = workspace_start runEnabled problemId sample st) \<and> history_inv (hi_snapshots (wk_history w))"

interpretation workspace_page: state_machine "workspace_initial runEnabled problemId"
  "workspace_step fits runEnabled problemId" workspace_inv for runEnabled problemId fits
proof
  fix w
  assume "workspace_initial runEnabled problemId w"
  then show "workspace_inv w" by (auto simp: workspace_initial_def workspace_start_def workspace_inv_def)
next
  fix w w'
  assume "workspace_inv w" "workspace_step fits runEnabled problemId w w'"
  then show "workspace_inv w'" using workspace_step_inv by blast
qed



text \<open>
  A verdict that overtakes the answer of its own submission mislabels the history: when the stream reports a
  submission whose call is still awaited, the entry takes the code and the language in the editor at that moment,
  and the answer that arrives later only adds the score. If the contestant typed on in between, the history shows
  that code as the submitted one.
\<close>

theorem early_result_mislabels:
  assumes "activeResult problemId cx w = Some r" "truthy (wr_submissionId r)"
    and "wk_recordedResult w \<noteq> Some (resultVersion r)"
    and "wr_submissionId r \<notin> set (submission_ids (hi_snapshots (wk_history w)))"
    and "sr_submissionId answer = wr_submissionId r"
  shows "let w' = settle_submit fits problemId fresh2 now2 (lang0, code0) (Some answer)
                    (record_result fits problemId fresh now cx w);
             s = hd (hi_snapshots (wk_history w'))
         in get_opt s ''submissionId'' = wr_submissionId r \<and> get_opt s ''code'' = Str (wk_code w) \<and>
            get_opt s ''language'' = Str (normalizeLanguageId (lg_id (wk_language w)))"
proof -
  define new where "new = snapshot fresh now ''submitted'' (normalizeLanguageId (lg_id (wk_language w))) (wk_code w)
    (wr_verdict r) (wr_score r) (wr_maxScore r) (wr_submissionId r)"
  define w1 where "w1 = record_result fits problemId fresh now cx w"
  have none: "find_index (\<lambda>s. get_opt s ''submissionId'' = wr_submissionId r) (hi_snapshots (wk_history w)) = None"
    unfolding find_index_None using assms(2,4) by (force simp: submission_ids_def)
  have same: "hi_snapshots (wk_history (keep_best fits problemId score u)) = hi_snapshots (wk_history u)" for score u
    by (simp add: keep_best_def)
  have first: "hi_snapshots (wk_history w1) = take MAX_HISTORY_SNAPSHOTS (new # hi_snapshots (wk_history w))"
    unfolding w1_def record_result_def assms(1) using assms(2,3) none
    by (simp add: record_work_def record_snapshot_def record_into_def same result_extra_def new_def del: take_Cons')
  then obtain rest where rest: "hi_snapshots (wk_history w1) = new # rest"
    by (simp add: MAX_HISTORY_SNAPSHOTS_def)
  have id: "get_opt new ''submissionId'' = wr_submissionId r" by (simp add: new_def snapshot_def)
  have "hi_snapshots (wk_history (settle_submit fits problemId fresh2 now2 (lang0, code0) (Some answer) w1)) =
      update_recorded (result_extra (of_submit answer)) new # rest"
    using assms(2,5) id rest
    by (simp add: settle_submit_def Let_def record_work_def record_snapshot_def record_into_def result_extra_def of_submit_def)
  moreover have "get_opt (update_recorded x new) k = get_opt new k" if "k \<in> {''submissionId'', ''code'', ''language''}" for x k
    unfolding update_recorded_def by (rule spread_keeps_id) (use that in auto)
  ultimately show ?thesis
    using id unfolding w1_def [symmetric] Let_def by (simp add: new_def snapshot_def)
qed

theorem early_result_mislabels_witness:
  "let w = handleCodeChange ''typed on'' (snd (handleSubmit ''p1'' \<lparr>cx_isNotStarted = False, cx_isPaused = False,
         cx_isEnded = False, cx_activeSubmissions = [], cx_lastResult = None\<rparr> (workspace_start True ''p1'' None [])));
       cx = \<lparr>cx_isNotStarted = False, cx_isPaused = False, cx_isEnded = False, cx_activeSubmissions = [],
             cx_lastResult = Some \<lparr>rs_submissionId = Str ''s1'', rs_problemId = Str ''p1'', rs_status = Str ''passed'',
               rs_score = IntV 100, rs_maxScore = IntV 100, rs_queuePosition = Undefined, rs_compileError = Undefined,
               rs_verdict = Str ''AC'', rs_subtasks = [], rs_improvedBest = True, rs_previousBest = IntV 0\<rparr>\<rparr>;
       answer = \<lparr>sr_submissionId = Str ''s1'', sr_status = Str ''queued'', sr_queuePosition = Undefined, sr_error = Undefined,
             sr_errorCode = Undefined, sr_secondsSincePing = Undefined, sr_score = IntV 0, sr_maxScore = IntV 100,
             sr_improvedBest = False, sr_previousBest = IntV 0\<rparr>
   in get_opt (hd (hi_snapshots (wk_history (settle_submit (\<lambda>_. True) ''p1'' ''id2'' 6 (''cpp'', ''submitted'') (Some answer)
        (record_result (\<lambda>_. True) ''p1'' ''id1'' 5 cx w))))) ''code'' = Str ''typed on''"
proof -
  let ?cx0 = "\<lparr>cx_isNotStarted = False, cx_isPaused = False, cx_isEnded = False, cx_activeSubmissions = [], cx_lastResult = None\<rparr>"
  let ?w = "handleCodeChange ''typed on'' (snd (handleSubmit ''p1'' ?cx0 (workspace_start True ''p1'' None [])))"
  let ?r = "\<lparr>rs_submissionId = Str ''s1'', rs_problemId = Str ''p1'', rs_status = Str ''passed'',
     rs_score = IntV 100, rs_maxScore = IntV 100, rs_queuePosition = Undefined, rs_compileError = Undefined,
     rs_verdict = Str ''AC'', rs_subtasks = [], rs_improvedBest = True, rs_previousBest = IntV 0\<rparr>"
  let ?cx = "\<lparr>cx_isNotStarted = False, cx_isPaused = False, cx_isEnded = False, cx_activeSubmissions = [], cx_lastResult = Some ?r\<rparr>"
  let ?answer = "\<lparr>sr_submissionId = Str ''s1'', sr_status = Str ''queued'', sr_queuePosition = Undefined, sr_error = Undefined,
     sr_errorCode = Undefined, sr_secondsSincePing = Undefined, sr_score = IntV 0, sr_maxScore = IntV 100,
     sr_improvedBest = False, sr_previousBest = IntV 0\<rparr>"
  have start: "wk_recordedResult ?w = None" "wk_history ?w = useHistory [] ''p1''" "wk_code ?w = ''typed on''"
    by (simp_all add: handleCodeChange_def handleSubmit_def workspace_start_def)
  have empty: "hi_snapshots (useHistory [] ''p1'') = []"
    by (simp add: useHistory_def loadSnapshots_def local_storage.load_json_def storage_get_def map_get_def)
  have "activeResult ''p1'' ?cx ?w = Some (of_view ?r)" by (simp add: activeResult_def)
  from early_result_mislabels [OF this, of ?answer "\<lambda>_. True" "''id2''" 6 "''cpp''" "''submitted''" "''id1''" 5]
  show ?thesis by (simp add: of_view_def start empty submission_ids_def Let_def)
qed

section \<open>The result panel\<close>

text \<open>What the panel shows of a submission being judged: the line of text and the width of the bar.\<close>

definition hasFinalVerdict :: "work_result option \<Rightarrow> bool" where
  "hasFinalVerdict result =
     (case result of
        None \<Rightarrow> False
      | Some r \<Rightarrow> truthy (wr_verdict r) \<or> wr_status r = Str ''passed'' \<or> wr_status r = Str ''failed'')"

definition isEvaluating :: "work_result option \<Rightarrow> bool \<Rightarrow> bool" where
  "isEvaluating result submitting \<longleftrightarrow>
     submitting \<or> (\<not> hasFinalVerdict result \<and>
       (\<exists>r. result = Some r \<and> (wr_status r = Str ''queued'' \<or> wr_status r = Str ''running'')))"

definition queueMsg :: "work_result option \<Rightarrow> jsv \<Rightarrow> string" where
  "queueMsg result queuePosition =
     (case queuePosition of
        Num n \<Rightarrow> if num_lt (Fin 1) n
                  then ''In evaluation queue (Position: #'' @ num_text n @ '')...''
                  else if (\<exists>r. result = Some r \<and> wr_status r = Str ''running'') then ''Judging test cases on runner sandbox...''
                  else ''Submitting to evaluation queue...''
      | _ \<Rightarrow> if (\<exists>r. result = Some r \<and> wr_status r = Str ''running'') then ''Judging test cases on runner sandbox...''
             else ''Submitting to evaluation queue...'')"

definition progressPct :: "int option \<Rightarrow> int option \<Rightarrow> int option" where
  "progressPct testsDone testsTotal =
     (case testsTotal of
        None \<Rightarrow> None
      | Some n \<Rightarrow> if n > 0
                  then Some (min 100 ((200 * (case testsDone of Some d \<Rightarrow> d | None \<Rightarrow> 0) + n) div (2 * n)))
                  else None)"

lemma progressPct_bounds:
  "progressPct done_tests n = Some p \<Longrightarrow> (\<And>d. done_tests = Some d \<Longrightarrow> 0 \<le> d) \<Longrightarrow> 0 \<le> p \<and> p \<le> 100"
  by (auto simp: progressPct_def pos_imp_zdiv_nonneg_iff split: option.splits if_splits)

section \<open>The history panel\<close>

definition filteredSnapshots :: "string \<Rightarrow> jsv list \<Rightarrow> jsv list" where
  "filteredSnapshots f snapshots = filter (\<lambda>s. f = ''all'' \<or> get_opt s ''trigger'' = Str f) snapshots"

definition selected_snapshot :: "string \<Rightarrow> jsv \<Rightarrow> jsv list \<Rightarrow> jsv option" where
  "selected_snapshot f selectedId snapshots =
     (let shown = filteredSnapshots f snapshots
      in case List.find (\<lambda>s. get_opt s ''id'' = selectedId) shown of
           Some s \<Rightarrow> Some s
         | None \<Rightarrow> (case shown of s # _ \<Rightarrow> Some s | [] \<Rightarrow> None))"

definition snapshot_counts :: "jsv list \<Rightarrow> nat \<times> nat \<times> nat" where
  "snapshot_counts snapshots =
     (length (filteredSnapshots ''submitted'' snapshots), length (filteredSnapshots ''autosave'' snapshots),
      length (filteredSnapshots ''ran'' snapshots))"

lemma selected_is_shown: "selected_snapshot f i ss = Some s \<Longrightarrow> s \<in> set (filteredSnapshots f ss)"
  by (auto simp: selected_snapshot_def Let_def dest: find_in_list split: option.splits list.splits)

end
