(* ===== verification/ContestTimer.thy ===== *)
theory ContestTimer
  imports AdminContest ContestClock SubmissionProgress
begin

text \<open>
  The organizers' clocks: the projector page (\<open>components/timer/contest-timer-client.tsx\<close>,
  \<open>components/timer/countdown-display.tsx\<close>, \<open>components/timer/timer-control-dock.tsx\<close>) and the control bar
  (\<open>components/contest/contest-control-bar.tsx\<close>), all under \<open>admin-frontend/src\<close>, over the contest state the
  admin actions return. \<open>Date.now()\<close> is an integer, a parsed date possibly \<open>NaN\<close>; the sounds a page plays are
  listed in the order they start; each state update is applied at once.
\<close>

section \<open>Reading numbers\<close>

text \<open>\<open>parseInt(text, 10)\<close>; \<open>None\<close> is \<open>NaN\<close>.\<close>

definition parse_int :: "string \<Rightarrow> int option" where
  "parse_int t =
     (let t1 = dropWhile js_ws t;
          (sign, t2) = (case t1 of [] \<Rightarrow> (1, []) | c # cs \<Rightarrow> if c = CHR ''-'' then (-1, cs) else if c = CHR ''+'' then (1, cs) else (1, t1));
          digits = takeWhile is_digit t2
      in if digits = [] then None else Some (sign * int (read_nat digits)))"

definition num_floor_div :: "jsnum \<Rightarrow> int \<Rightarrow> jsnum" where
  "num_floor_div n k = (case n of Fin r \<Rightarrow> num_of_int \<lfloor>r / of_int k\<rfloor> | _ \<Rightarrow> n)"

definition int_or_undefined :: "int option \<Rightarrow> jsv" where
  "int_or_undefined n = (case n of Some i \<Rightarrow> IntV i | None \<Rightarrow> Undefined)"

section \<open>The projector page\<close>

datatype sound = FiveMinutes | OneMinute | Buzzer | StartSound

record settings_form =
  sf_title :: jsv
  sf_duration :: string
  sf_freeze :: string
  sf_fullscreen :: bool
  sf_minVersion :: jsv
  sf_enforceHash :: bool
  sf_authorizedHashes :: jsv

record timer =
  tm_state :: contest_state
  tm_remaining :: jsnum
  tm_elapsed :: jsnum
  tm_offset :: jsnum
  tm_isLoading :: bool
  tm_lastSynced :: int
  tm_isCleanMode :: bool
  tm_isAudioEnabled :: bool
  tm_settingsOpen :: bool
  tm_settings :: settings_form
  tm_previous :: jsnum
  tm_sounds :: "sound list"

definition server_offset :: "jsv \<Rightarrow> int \<Rightarrow> jsnum \<Rightarrow> jsnum" where
  "server_offset serverTime date_now old =
     (if truthy serverTime then num_minus (date_time serverTime) (num_of_int date_now) else old)"

definition timer_start :: "contest_state \<Rightarrow> int \<Rightarrow> timer" where
  "timer_start c date_now =
     \<lparr>tm_state = c, tm_remaining = cs_remaining_seconds c, tm_elapsed = cs_elapsed_seconds c,
      tm_offset = server_offset (cs_server_time c) date_now (Fin 0), tm_isLoading = False, tm_lastSynced = date_now,
      tm_isCleanMode = False, tm_isAudioEnabled = True, tm_settingsOpen = False,
      tm_settings = \<lparr>sf_title = cs_title c, sf_duration = num_text (num_floor_div (cs_duration_seconds c) 60),
        sf_freeze = num_text (cs_freeze_minutes c), sf_fullscreen = cs_require_fullscreen c,
        sf_minVersion = js_or (cs_min_client_version c) (Str ''0.2.0''), sf_enforceHash = cs_enforce_binary_hash c,
        sf_authorizedHashes = js_or (cs_authorized_binary_hashes c) (Str [])\<rparr>,
      tm_previous = cs_remaining_seconds c, tm_sounds = []\<rparr>"

text \<open>\<open>syncServerState\<close>, with what the action answered.\<close>

definition timer_sync :: "int \<Rightarrow> exn + contest_state \<Rightarrow> timer \<Rightarrow> timer" where
  "timer_sync date_now answer s =
     (case answer of
        Inl _ \<Rightarrow> s
      | Inr d \<Rightarrow> s\<lparr>tm_state := d, tm_lastSynced := date_now,
                   tm_offset := server_offset (cs_server_time d) date_now (tm_offset s),
                   tm_settings := (tm_settings s)\<lparr>sf_fullscreen := cs_require_fullscreen d,
                     sf_minVersion := js_or (cs_min_client_version d) (Str ''0.2.0''),
                     sf_enforceHash := cs_enforce_binary_hash d,
                     sf_authorizedHashes := js_or (cs_authorized_binary_hashes d) (Str [])\<rparr>\<rparr>)"

text \<open>The two counts of a tick; \<open>now\<close> includes the offset.\<close>

definition timer_counts :: "jsnum \<Rightarrow> contest_state \<Rightarrow> jsnum \<times> jsnum" where
  "timer_counts now c =
     (if cs_status c = Str ''NOT_STARTED'' then (cs_duration_seconds c, Fin 0)
      else if cs_status c = Str ''RUNNING'' then
        (if truthy (cs_start_time c) \<and> truthy (cs_end_time c)
         then (let startMs = date_time (cs_start_time c); endMs = date_time (cs_end_time c)
               in if num_le endMs now then (Fin 0, cs_duration_seconds c)
                  else (seconds_between endMs now, seconds_between now startMs))
         else (cs_duration_seconds c, Fin 0))
      else if cs_status c = Str ''PAUSED'' then (cs_remaining_seconds c, cs_elapsed_seconds c)
      else if cs_status c = Str ''ENDED'' then (Fin 0, cs_duration_seconds c)
      else (Fin 0, Fin 0))"

definition tick_sounds :: "jsnum \<Rightarrow> jsnum \<Rightarrow> sound list" where
  "tick_sounds prev remaining =
     (if num_lt (Fin 300) prev \<and> num_le remaining (Fin 300) \<and> num_lt (Fin 295) remaining then [FiveMinutes] else []) @
     (if num_lt (Fin 60) prev \<and> num_le remaining (Fin 60) \<and> num_lt (Fin 55) remaining then [OneMinute] else []) @
     (if num_lt (Fin 0) prev \<and> remaining = Fin 0 then [Buzzer] else [])"

definition timer_tick :: "int \<Rightarrow> timer \<Rightarrow> timer" where
  "timer_tick date_now s =
     (let (remaining, elapsed) = timer_counts (num_plus (num_of_int date_now) (tm_offset s)) (tm_state s)
      in s\<lparr>tm_remaining := remaining, tm_elapsed := elapsed,
           tm_sounds := tm_sounds s @
             (if tm_isAudioEnabled s \<and> cs_status (tm_state s) = Str ''RUNNING'' then tick_sounds (tm_previous s) remaining else []),
           tm_previous := remaining\<rparr>)"

text \<open>The shortcuts, ignored while typing in a field: what the key does to the page.\<close>

definition timer_handleKeyDown :: "bool \<Rightarrow> string \<Rightarrow> timer \<Rightarrow> timer \<times> bool" where
  "timer_handleKeyDown in_field key s =
     (if in_field then (s, False)
      else if key = ''f'' \<or> key = ''F'' then (s, True)
      else if key = ''c'' \<or> key = ''C'' then (s\<lparr>tm_isCleanMode := \<not> tm_isCleanMode s\<rparr>, False)
      else if key = ''m'' \<or> key = ''M'' then (s\<lparr>tm_isAudioEnabled := \<not> tm_isAudioEnabled s\<rparr>, False)
      else (s, False))"

text \<open>
  \<open>executeAction\<close>: its start, and its rest for what the action and the sync after it answered; whether it is audible was
  decided when it started.
\<close>

definition executeAction_start :: "timer \<Rightarrow> timer" where
  "executeAction_start s = s\<lparr>tm_isLoading := True\<rparr>"

definition executeAction_settle :: "bool \<Rightarrow> int \<Rightarrow> exn + unit \<Rightarrow> sound option \<Rightarrow> exn + contest_state \<Rightarrow> timer \<Rightarrow> timer" where
  "executeAction_settle audible date_now outcome onCompleteSound answer s =
     (case outcome of
        Inl _ \<Rightarrow> s
      | Inr _ \<Rightarrow> timer_sync date_now answer
          (if audible
           then s\<lparr>tm_sounds := tm_sounds s @ (case onCompleteSound of Some x \<Rightarrow> [x] | None \<Rightarrow> [])\<rparr> else s))
       \<lparr>tm_isLoading := False\<rparr>"

text \<open>The settings that \<open>handleSaveSettings\<close> hands to the action, and its rest.\<close>

definition settings_payload :: "settings_form \<Rightarrow> jsv" where
  "settings_payload f =
     Obj [(''title'', sf_title f), (''durationMinutes'', int_or_undefined (parse_int (sf_duration f))),
          (''freezeMinutes'', int_or_undefined (parse_int (sf_freeze f))), (''requireFullscreen'', Bool (sf_fullscreen f)),
          (''minClientVersion'', sf_minVersion f), (''enforceBinaryHash'', Bool (sf_enforceHash f)),
          (''authorizedBinaryHashes'', sf_authorizedHashes f)]"

definition saveSettings_settle :: "int \<Rightarrow> exn + unit \<Rightarrow> exn + contest_state \<Rightarrow> timer \<Rightarrow> timer" where
  "saveSettings_settle date_now outcome answer s =
     (case outcome of
        Inl _ \<Rightarrow> s
      | Inr _ \<Rightarrow> timer_sync date_now answer (s\<lparr>tm_settingsOpen := False\<rparr>))\<lparr>tm_isLoading := False\<rparr>"

section \<open>The display and the dock\<close>

text \<open>Hours, minutes and seconds of a count of whole seconds.\<close>

definition countdown_fields :: "int \<Rightarrow> int \<times> int \<times> int" where
  "countdown_fields n = (let c = max 0 n in (c div 3600, (c mod 3600) div 60, c mod 60))"

definition formatTotalDurationMinutes :: "int \<Rightarrow> string" where
  "formatTotalDurationMinutes seconds =
     (let mins = seconds div 60; hours = mins div 60; remMins = mins mod 60
      in if hours > 0 \<and> remMins > 0 then show_int hours @ ''h '' @ show_int remMins @ ''m''
         else if hours > 0 then show_int hours @ ''h'' else show_int mins @ ''m'')"

datatype urgency = Calm | Urgent | Critical

definition urgency_of :: "bool \<Rightarrow> int \<Rightarrow> urgency" where
  "urgency_of running remaining =
     (let clampedRemaining = max 0 remaining
      in if running \<and> clampedRemaining > 0 \<and> clampedRemaining \<le> 60 then Critical
         else if running \<and> clampedRemaining > 60 \<and> clampedRemaining \<le> 600 then Urgent else Calm)"

text \<open>The start and extend dialogs of the dock: the minutes handed on; \<open>None\<close> leaves the length to the server.\<close>

definition handleConfirmStart :: "string \<Rightarrow> int option" where
  "handleConfirmStart startDurationInput =
     (case parse_int startDurationInput of Some dur \<Rightarrow> if dur \<le> 0 then None else Some dur | None \<Rightarrow> None)"

definition handleConfirmCustomExtend :: "string \<Rightarrow> int option" where
  "handleConfirmCustomExtend customExtendMinutes =
     (case parse_int customExtendMinutes of Some mins \<Rightarrow> if mins > 0 then Some mins else None | None \<Rightarrow> None)"

section \<open>The control bar\<close>

record control_bar =
  cb_state :: "contest_state option"
  cb_loading :: bool
  cb_offset :: jsnum
  cb_remaining :: jsnum
  cb_settingsOpen :: bool
  cb_toast :: "(bool \<times> string) option"

definition bar_load :: "int \<Rightarrow> exn + contest_state \<Rightarrow> control_bar \<Rightarrow> control_bar" where
  "bar_load date_now answer s =
     (case answer of
        Inl _ \<Rightarrow> s
      | Inr d \<Rightarrow> s\<lparr>cb_state := Some d, cb_offset := server_offset (cs_server_time d) date_now (cb_offset s)\<rparr>)"

definition bar_tick :: "int \<Rightarrow> control_bar \<Rightarrow> control_bar" where
  "bar_tick date_now s =
     (case cb_state s of
        None \<Rightarrow> s
      | Some c \<Rightarrow>
          let now = num_plus (num_of_int date_now) (cb_offset s)
          in if cs_status c = Str ''NOT_STARTED'' then s\<lparr>cb_remaining := cs_duration_seconds c\<rparr>
             else if cs_status c = Str ''RUNNING'' then
               s\<lparr>cb_remaining := (if truthy (cs_end_time c) then seconds_between (date_time (cs_end_time c)) now
                                   else cs_duration_seconds c)\<rparr>
             else if cs_status c = Str ''PAUSED'' then s\<lparr>cb_remaining := cs_remaining_seconds c\<rparr>
             else if cs_status c = Str ''ENDED'' then s\<lparr>cb_remaining := Fin 0\<rparr>
             else s)"

definition bar_action :: "int \<Rightarrow> exn + unit \<Rightarrow> exn + contest_state \<Rightarrow> string \<Rightarrow> control_bar \<Rightarrow> control_bar" where
  "bar_action date_now outcome answer successMessage s =
     (case outcome of
        Inl err \<Rightarrow> s\<lparr>cb_toast := Some (False, getErrorMessage err ''The contest action failed.''), cb_loading := False\<rparr>
      | Inr _ \<Rightarrow> (bar_load date_now answer s)\<lparr>cb_toast := Some (True, successMessage), cb_loading := False\<rparr>)"

definition bar_save :: "int \<Rightarrow> exn + unit \<Rightarrow> exn + contest_state \<Rightarrow> control_bar \<Rightarrow> control_bar" where
  "bar_save date_now outcome answer s =
     (case outcome of
        Inl err \<Rightarrow>
          s\<lparr>cb_toast := Some (False, getErrorMessage err ''Failed to save the contest settings.''), cb_loading := False\<rparr>
      | Inr _ \<Rightarrow> (bar_load date_now answer (s\<lparr>cb_settingsOpen := False\<rparr>))
                   \<lparr>cb_toast := Some (True, ''Contest settings saved''), cb_loading := False\<rparr>)"

section \<open>The clocks agree\<close>

definition status_name :: "contest_status \<Rightarrow> string" where
  "status_name st = (case st of NOT_STARTED \<Rightarrow> ''NOT_STARTED'' | RUNNING \<Rightarrow> ''RUNNING'' | PAUSED \<Rightarrow> ''PAUSED'' | ENDED \<Rightarrow> ''ENDED'')"

definition time_json :: "string option \<Rightarrow> jsv" where
  "time_json t = (case t of Some s \<Rightarrow> Str s | None \<Rightarrow> Null)"

text \<open>One state of the round, as the portal and as the admin console hold it.\<close>

definition same_round :: "contest \<Rightarrow> contest_state \<Rightarrow> bool" where
  "same_round co c \<longleftrightarrow>
     cs_status c = Str (status_name (co_status co)) \<and>
     cs_start_time c = time_json (co_startTime co) \<and> cs_end_time c = time_json (co_endTime co) \<and>
     cs_duration_seconds c = num_of_int (co_durationSeconds co) \<and>
     cs_remaining_seconds c = num_of_int (co_remainingSeconds co)"

lemma seconds_between_passed: "num_le b a \<Longrightarrow> num_minus b a \<noteq> NaN \<Longrightarrow> seconds_between b a = Fin 0"
proof (cases a; cases b)
  fix x y
  assume "num_le b a" "a = Fin x" "b = Fin y"
  then have "y - x \<le> 0" by simp
  then have "\<lfloor>(y - x) / 1000\<rfloor> \<le> 0" by (simp add: floor_le_zero divide_less_eq)
  then show ?thesis using \<open>a = Fin x\<close> \<open>b = Fin y\<close> by (simp add: seconds_between_def num_minus_def num_of_int_def)
qed (simp_all add: num_minus_def)

lemma date_parse_range: "date_parse s = NaN \<or> (\<exists>r. date_parse s = Fin r)"
  by (simp add: date_parse_def split: option.split)

lemma running_tick_remaining:
  "ck_remaining (running_tick date_now endTime s) =
     seconds_between (date_parse endTime) (num_plus (num_of_int date_now) (ck_offset s))"
  unfolding running_tick_def Let_def
  by (split if_split) (simp add: fire_all_keeps split: option.split)

text \<open>
  C13: The three clocks of the repository show the same time left: the contestant's countdown, the projector's and the
  control bar's, given the same state of the round and the same offset to the server's clock, agree in every status
  and at every moment (a running round having both its times, as the server sends it).
\<close>

theorem clocks_agree:
  assumes "same_round (ck_state p) (tm_state t)" "cb_state b = Some (tm_state t)"
    and "ck_offset p = tm_offset t" "cb_offset b = tm_offset t" "tm_offset t = Fin off"
    and "co_status (ck_state p) = RUNNING \<longrightarrow>
           (\<exists>st en. co_startTime (ck_state p) = Some st \<and> co_endTime (ck_state p) = Some en \<and> st \<noteq> [] \<and> en \<noteq> [])"
  shows "tm_remaining (timer_tick date_now t) = ck_remaining (calculateTick date_now p) \<and>
         cb_remaining (bar_tick date_now b) = ck_remaining (calculateTick date_now p)"
proof (cases "co_status (ck_state p)")
  case RUNNING
  then obtain st en where times: "co_startTime (ck_state p) = Some st" "co_endTime (ck_state p) = Some en" "st \<noteq> []" "en \<noteq> []"
    using assms(6) by auto
  let ?now = "num_plus (num_of_int date_now) (Fin off)"
  have portal: "ck_remaining (calculateTick date_now p) = seconds_between (date_parse en) ?now"
    using RUNNING times assms(3,5) by (simp add: calculateTick_def Let_def running_tick_remaining)
  have state: "cs_status (tm_state t) = Str ''RUNNING''" "cs_start_time (tm_state t) = Str st" "cs_end_time (tm_state t) = Str en"
    using assms(1) RUNNING times by (simp_all add: same_round_def status_name_def time_json_def)
  have bar: "cb_remaining (bar_tick date_now b) = seconds_between (date_parse en) ?now"
    using state times assms(2,4,5) by (simp add: bar_tick_def date_time_def)
  have "fst (timer_counts ?now (tm_state t)) = seconds_between (date_parse en) ?now"
    using state times seconds_between_passed [of "date_parse en" ?now] date_parse_range [of en]
    by (auto simp: timer_counts_def date_time_def num_plus_def num_of_int_def num_minus_def)
  then have "tm_remaining (timer_tick date_now t) = seconds_between (date_parse en) ?now"
    using assms(5) by (simp add: timer_tick_def case_prod_beta)
  then show ?thesis using portal bar by simp
next
  case NOT_STARTED
  then show ?thesis using assms(1,2)
    by (simp add: same_round_def status_name_def timer_tick_def timer_counts_def bar_tick_def calculateTick_def Let_def)
next
  case PAUSED
  then show ?thesis using assms(1,2)
    by (simp add: same_round_def status_name_def timer_tick_def timer_counts_def bar_tick_def calculateTick_def Let_def)
next
  case ENDED
  then show ?thesis using assms(1,2)
    by (simp add: same_round_def status_name_def timer_tick_def timer_counts_def bar_tick_def calculateTick_def Let_def)
qed

theorem clocks_agree_witness:
  "tm_remaining (timer_tick 5000 (timer_start
       \<lparr>cs_title = Str ''T'', cs_status = Str ''PAUSED'', cs_start_time = Null, cs_end_time = Null,
        cs_duration_seconds = Fin 7200, cs_freeze_minutes = Fin 30, cs_paused_at = Null, cs_remaining_seconds = Fin 60,
        cs_elapsed_seconds = Fin 9, cs_is_frozen = False, cs_require_fullscreen = False,
        cs_min_client_version = Str ''0.2.0'', cs_enforce_binary_hash = False, cs_authorized_binary_hashes = Str [],
        cs_download_enabled = False, cs_server_time = Str []\<rparr> 0)) =
   ck_remaining (calculateTick 5000 (clock_start
       \<lparr>co_status = PAUSED, co_startTime = None, co_endTime = None, co_durationSeconds = 7200, co_remainingSeconds = 60,
        co_elapsedSeconds = 9, co_isFrozen = False, co_serverTime = []\<rparr> 0))"
proof -
  let ?c = "\<lparr>cs_title = Str ''T'', cs_status = Str ''PAUSED'', cs_start_time = Null, cs_end_time = Null,
        cs_duration_seconds = Fin 7200, cs_freeze_minutes = Fin 30, cs_paused_at = Null, cs_remaining_seconds = Fin 60,
        cs_elapsed_seconds = Fin 9, cs_is_frozen = False, cs_require_fullscreen = False,
        cs_min_client_version = Str ''0.2.0'', cs_enforce_binary_hash = False, cs_authorized_binary_hashes = Str [],
        cs_download_enabled = False, cs_server_time = Str []\<rparr>"
  let ?co = "\<lparr>co_status = PAUSED, co_startTime = None, co_endTime = None, co_durationSeconds = 7200, co_remainingSeconds = 60,
        co_elapsedSeconds = 9, co_isFrozen = False, co_serverTime = []\<rparr>"
  let ?b = "\<lparr>cb_state = Some ?c, cb_loading = False, cb_offset = Fin 0, cb_remaining = Fin 0, cb_settingsOpen = False, cb_toast = None\<rparr>"
  have "same_round (ck_state (clock_start ?co 0)) (tm_state (timer_start ?c 0))"
    by (simp add: clock_start_def timer_start_def same_round_def status_name_def time_json_def num_of_int_def)
  from clocks_agree [OF this, of ?b 0 5000] show ?thesis
    by (simp add: clock_start_def timer_start_def server_offset_def)
qed

section \<open>The settings form and the sounds\<close>

text \<open>
  The projector's settings form loses edits: the page syncs every second, and each sync that answers overwrites the
  four policy fields, so what is saved one sync after an edit is the server's full-screen, client version and binary hash
  policy, whatever the organizer chose; only the title and the two lengths are the organizer's.
\<close>

theorem settings_edits_overwritten:
  "let f = tm_settings (timer_sync date_now (Inr d) s)
   in get_opt (settings_payload f) ''requireFullscreen'' = Bool (cs_require_fullscreen d) \<and>
      get_opt (settings_payload f) ''minClientVersion'' = js_or (cs_min_client_version d) (Str ''0.2.0'') \<and>
      get_opt (settings_payload f) ''enforceBinaryHash'' = Bool (cs_enforce_binary_hash d) \<and>
      get_opt (settings_payload f) ''authorizedBinaryHashes'' = js_or (cs_authorized_binary_hashes d) (Str []) \<and>
      get_opt (settings_payload f) ''title'' = sf_title (tm_settings s) \<and>
      get_opt (settings_payload f) ''durationMinutes'' = int_or_undefined (parse_int (sf_duration (tm_settings s))) \<and>
      get_opt (settings_payload f) ''freezeMinutes'' = int_or_undefined (parse_int (sf_freeze (tm_settings s)))"
  by (simp add: timer_sync_def settings_payload_def Let_def)

text \<open>The sounds of a run of ticks with the counts given, from a previous count.\<close>

fun heard :: "jsnum \<Rightarrow> jsnum list \<Rightarrow> sound list" where
  "heard prev [] = []"
| "heard prev (r # rs) = tick_sounds prev r @ heard r rs"

fun falling :: "jsnum \<Rightarrow> jsnum list \<Rightarrow> bool" where
  "falling prev [] = True"
| "falling prev (r # rs) = (num_le r prev \<and> falling r rs)"

lemma num_lt_le_trans: "num_lt (Fin k) r \<Longrightarrow> num_le r prev \<Longrightarrow> num_lt (Fin k) prev"
  by (cases r; cases prev) (auto simp: num_lt_def)

lemma heard_silent:
  assumes "falling prev rs" "num_le prev (Fin k)"
  shows "k \<le> 300 \<Longrightarrow> FiveMinutes \<notin> set (heard prev rs)" "k \<le> 60 \<Longrightarrow> OneMinute \<notin> set (heard prev rs)"
    "k \<le> 0 \<Longrightarrow> Buzzer \<notin> set (heard prev rs)"
proof -
  have low: "\<not> num_lt (Fin m) prev" if "num_le prev (Fin k)" "k \<le> m" for prev m
    using that by (cases prev) (auto simp: num_lt_def)
  have down: "num_le r (Fin k)" if "num_le r prev" "num_le prev (Fin k)" for r prev
    using that by (cases r; cases prev) auto
  show "k \<le> 300 \<Longrightarrow> FiveMinutes \<notin> set (heard prev rs)" using assms
    by (induction prev rs rule: heard.induct) (auto simp: tick_sounds_def low intro: down)
  show "k \<le> 60 \<Longrightarrow> OneMinute \<notin> set (heard prev rs)" using assms
    by (induction prev rs rule: heard.induct) (auto simp: tick_sounds_def low intro: down)
  show "k \<le> 0 \<Longrightarrow> Buzzer \<notin> set (heard prev rs)" using assms
    by (induction prev rs rule: heard.induct) (auto simp: tick_sounds_def low intro: down)
qed

text \<open>
  While the count falls, every sound of the projector is heard at most once: the five minute and the one minute
  warning and the final buzzer.
\<close>

theorem sounds_at_most_once:
  assumes "falling prev rs"
  shows "count_list (heard prev rs) x \<le> 1"
  using assms
proof (induction prev rs rule: heard.induct)
  case (2 prev r rs)
  then have tail: "count_list (heard r rs) x \<le> 1" and falls: "falling r rs" by simp_all
  have one: "count_list (tick_sounds prev r) x \<le> 1" by (cases x) (auto simp: tick_sounds_def)
  have "x \<notin> set (heard r rs)" if "x \<in> set (tick_sounds prev r)"
    using that heard_silent [OF falls] by (cases x) (auto simp: tick_sounds_def split: if_splits)
  then have "count_list (heard r rs) x = 0" if "x \<in> set (tick_sounds prev r)"
    using that by (simp add: count_notin)
  then show ?case using one tail by (cases "x \<in> set (tick_sounds prev r)") (simp_all add: count_notin)
qed simp

theorem sounds_at_most_once_witness:
  "count_list (heard (Fin 301) [Fin 300, Fin 299, Fin 0, Fin 0]) Buzzer \<le> 1"
  by (rule sounds_at_most_once) simp

end
