(* ===== verification/RosterImport.thy ===== *)
theory RosterImport
  imports CsvImport JsCollections
begin

text \<open>
  The two bulk import dialogs of the admin console under \<open>admin-frontend/src/components\<close>: reading a team list
  (\<open>teams/team-bulk-dialog.tsx\<close>) and the selection of rows that both it and the user import
  (\<open>users/user-bulk-dialog.tsx\<close>) offer before anything is sent.
\<close>

section \<open>Reading a team list\<close>

record team_member =
  mb_username :: string
  mb_displayName :: "string option"
  mb_password :: "string option"

record parsed_team =
  pt_name :: string
  pt_members :: "team_member list"
  pt_isValid :: bool
  pt_validationError :: "string option"

datatype team_mode = NamesOnly | WithMembers

definition MAX_MEMBERS_PER_TEAM :: nat where
  "MAX_MEMBERS_PER_TEAM = 3"

definition getTeamSampleCsv :: "team_mode \<Rightarrow> string" where
  "getTeamSampleCsv mode =
     (case mode of
        NamesOnly \<Rightarrow> join_with [CHR 0x0A] [''team_name'', ''Team Alpha'', ''Team Beta'', ''Team Gamma'', ''Team Delta'']
      | WithMembers \<Rightarrow> join_with [CHR 0x0A]
          [''team_name,username,display_name,password'', ''Team Alpha,alice,Alice Walker,'',
           ''Team Alpha,bob,Bob Smith,SecretPass123'', ''Team Beta,carol,Carol White,'', ''Team Beta,david,David Clark,'',
           ''Team Gamma,elena,Elena Rostova,TempPass456''])"

definition team_header :: "string \<Rightarrow> bool" where
  "team_header line =
     (let firstLine = js_lower line
      in str_includes firstLine ''team'' \<or> str_includes firstLine ''name'' \<or> str_includes firstLine ''username'')"

definition column :: "string list \<Rightarrow> nat \<Rightarrow> string" where
  "column parts i = js_trim (case part parts i of Some s \<Rightarrow> s | None \<Rightarrow> [])"

definition optional :: "string \<Rightarrow> string option" where
  "optional s = (if s = [] then None else Some s)"

definition bad_team :: "string \<Rightarrow> team_member list \<Rightarrow> string \<Rightarrow> parsed_team" where
  "bad_team name members e = \<lparr>pt_name = name, pt_members = members, pt_isValid = False, pt_validationError = Some e\<rparr>"

definition good_team :: "string \<Rightarrow> team_member list \<Rightarrow> parsed_team" where
  "good_team name members = \<lparr>pt_name = name, pt_members = members, pt_isValid = True, pt_validationError = None\<rparr>"

text \<open>The names-only mode, with the names seen so far in the file.\<close>

fun team_names :: "string list \<Rightarrow> string list \<Rightarrow> string list \<Rightarrow> parsed_team list" where
  "team_names existing seen [] = []"
| "team_names existing seen (line # lines) =
     (let teamName = column (splitDelimitedLine line) 0; lowerName = js_lower teamName
      in if teamName = [] then bad_team [] [] ''Empty team name'' # team_names existing seen lines
         else if lowerName \<in> set existing
         then bad_team teamName [] ''Team already exists in contest'' # team_names existing seen lines
         else if lowerName \<in> set seen
         then bad_team teamName [] ''Duplicate team name in file'' # team_names existing seen lines
         else good_team teamName [] # team_names existing (lowerName # seen) lines)"

text \<open>The grouping loop of the other mode; a map keeps the order in which its keys were first set.\<close>

definition add_team_row :: "(string, string \<times> team_member list) jsmap \<Rightarrow> string \<Rightarrow> (string, string \<times> team_member list) jsmap" where
  "add_team_row teams line =
     (let parts = splitDelimitedLine line; rawTeamName = column parts 0; lowerName = js_lower rawTeamName
      in if rawTeamName = [] then teams
         else
           let (originalName, members) = (case map_get teams lowerName of Some d \<Rightarrow> d | None \<Rightarrow> (rawTeamName, []));
               username = column parts 1
           in map_set lowerName (originalName,
                if username = [] then members
                else members @ [\<lparr>mb_username = username, mb_displayName = optional (column parts 2),
                                 mb_password = optional (column parts 3)\<rparr>]) teams)"

definition team_item :: "string list \<Rightarrow> string \<times> string \<times> team_member list \<Rightarrow> parsed_team" where
  "team_item existing entry =
     (case entry of (lowerKey, teamName, members) \<Rightarrow>
        if lowerKey \<in> set existing then bad_team teamName members ''Team already exists in contest''
        else if length members > MAX_MEMBERS_PER_TEAM
        then bad_team teamName members
               (''Exceeds max '' @ show_nat MAX_MEMBERS_PER_TEAM @ '' members per team ('' @ show_nat (length members) @ '' found)'')
        else good_team teamName members)"

definition data_lines :: "string \<Rightarrow> string list" where
  "data_lines text =
     (case filter (\<lambda>l. l \<noteq> []) (map js_trim (csv_lines text)) of
        [] \<Rightarrow> []
      | l # ls \<Rightarrow> if team_header l then ls else l # ls)"

definition parseTeamsInput :: "string \<Rightarrow> team_mode \<Rightarrow> string list \<Rightarrow> parsed_team list" where
  "parseTeamsInput text mode existing =
     (case mode of
        NamesOnly \<Rightarrow> team_names existing [] (data_lines text)
      | WithMembers \<Rightarrow> map (team_item existing) (foldl add_team_row [] (data_lines text)))"

definition existingTeamNames :: "string list \<Rightarrow> string list" where
  "existingTeamNames teams = map (\<lambda>t. js_lower (js_trim t)) teams"

section \<open>Choosing rows\<close>

datatype preview_filter = All | Selected | Invalid

definition validIndices :: "('a \<Rightarrow> bool) \<Rightarrow> 'a list \<Rightarrow> nat list" where
  "validIndices isValid rows = filter (\<lambda>i. isValid (rows ! i)) [0..<length rows]"

definition selectedValid :: "('a \<Rightarrow> bool) \<Rightarrow> nat set \<Rightarrow> 'a list \<Rightarrow> 'a list" where
  "selectedValid isValid selected rows = map ((!) rows) (filter (\<lambda>i. isValid (rows ! i) \<and> i \<in> selected) [0..<length rows])"

definition isAllValidSelected :: "('a \<Rightarrow> bool) \<Rightarrow> nat set \<Rightarrow> 'a list \<Rightarrow> bool" where
  "isAllValidSelected isValid selected rows \<longleftrightarrow>
     validIndices isValid rows \<noteq> [] \<and> list_all (\<lambda>i. i \<in> selected) (validIndices isValid rows)"

definition toggleSelectAllValid :: "('a \<Rightarrow> bool) \<Rightarrow> 'a list \<Rightarrow> nat set \<Rightarrow> nat set" where
  "toggleSelectAllValid isValid rows selected =
     (if isAllValidSelected isValid selected rows then {} else set (validIndices isValid rows))"

definition toggleRowSelection :: "nat \<Rightarrow> nat set \<Rightarrow> nat set" where
  "toggleRowSelection index selected = (if index \<in> selected then selected - {index} else insert index selected)"

definition visibleRows :: "('a \<Rightarrow> bool) \<Rightarrow> preview_filter \<Rightarrow> nat set \<Rightarrow> 'a list \<Rightarrow> nat list" where
  "visibleRows isValid f selected rows =
     filter (\<lambda>i. case f of All \<Rightarrow> True | Selected \<Rightarrow> isValid (rows ! i) \<and> i \<in> selected | Invalid \<Rightarrow> \<not> isValid (rows ! i))
       [0..<length rows]"

text \<open>\<open>handleSubmit\<close> of the team import: the message shown, or the teams handed on.\<close>

definition team_payload :: "parsed_team \<Rightarrow> string \<times> team_member list option" where
  "team_payload t = (pt_name t, if pt_members t = [] then None else Some (pt_members t))"

definition team_handleSubmit :: "parsed_team list \<Rightarrow> nat set \<Rightarrow> string + (string \<times> team_member list option) list" where
  "team_handleSubmit parsedTeams selected =
     (if parsedTeams = [] then Inl ''Paste rows or upload a CSV file first.''
      else if selectedValid pt_isValid selected parsedTeams = [] then Inl ''Select at least one valid team to import.''
      else Inr (map team_payload (selectedValid pt_isValid selected parsedTeams)))"

definition user_handleSubmit :: "ParsedCsvRow list \<Rightarrow> nat set \<Rightarrow> string + ParsedCsvRow list" where
  "user_handleSubmit parsedRows selected =
     (if parsedRows = [] then Inl ''Paste rows or upload a CSV file first.''
      else if selectedValid row_isValid selected parsedRows = [] then Inl ''Select at least one valid row to import.''
      else Inr (selectedValid row_isValid selected parsedRows))"

definition MAX_CSV_BYTES :: nat where
  "MAX_CSV_BYTES = 512 * 1024"

section \<open>What is imported\<close>

text \<open>Teams that may be created together beside the existing ones.\<close>

definition importable :: "string list \<Rightarrow> parsed_team list \<Rightarrow> bool" where
  "importable existing ts \<longleftrightarrow>
     distinct (map (js_lower \<circ> pt_name) ts) \<and>
     (\<forall>t\<in>set ts. pt_name t \<noteq> [] \<and> js_lower (pt_name t) \<notin> set existing \<and> length (pt_members t) \<le> MAX_MEMBERS_PER_TEAM)"

lemma selectedValid_sub:
  "\<exists>ns. selectedValid isValid selected rows = map ((!) (filter isValid rows)) ns \<and> distinct ns \<and>
        (\<forall>i\<in>set ns. i < length (filter isValid rows))"
proof (induction rows rule: rev_induct)
  case Nil
  then show ?case by (intro exI [of _ "[]"]) (simp add: selectedValid_def)
next
  case (snoc r rows)
  then obtain is' where old_rows: "selectedValid isValid selected rows = map ((!) (filter isValid rows)) is'" "distinct is'"
      "\<forall>i\<in>set is'. i < length (filter isValid rows)" by blast
  have step: "selectedValid isValid selected (rows @ [r]) =
      selectedValid isValid selected rows @ (if isValid r \<and> length rows \<in> selected then [r] else [])"
  proof -
    have "filter (\<lambda>i. isValid ((rows @ [r]) ! i) \<and> i \<in> selected) [0..<length rows] =
        filter (\<lambda>i. isValid (rows ! i) \<and> i \<in> selected) [0..<length rows]"
      by (rule filter_cong) (auto simp: nth_append)
    moreover have "map ((!) (rows @ [r])) (filter P [0..<length rows]) = map ((!) rows) (filter P [0..<length rows])" for P
      by (simp add: nth_append)
    ultimately show ?thesis by (simp add: selectedValid_def)
  qed
  have old: "map ((!) (filter isValid rows @ xs)) is' = map ((!) (filter isValid rows)) is'" for xs
    using old_rows(3) by (simp add: nth_append)
  show ?case
  proof (cases "isValid r \<and> length rows \<in> selected")
    case True
    then show ?thesis using old_rows old [of "[r]"] step
      by (intro exI [of _ "is' @ [length (filter isValid rows)]"]) (auto simp: nth_append)
  next
    case False
    then show ?thesis using old_rows old [of "if isValid r then [r] else []"] step
      by (intro exI [of _ is']) (auto split: if_splits)
  qed
qed

lemma importable_part:
  assumes "importable existing (filter pt_isValid ts)"
  shows "importable existing (selectedValid pt_isValid selected ts)"
proof -
  obtain ns where ns: "selectedValid pt_isValid selected ts = map ((!) (filter pt_isValid ts)) ns" "distinct ns"
      "\<forall>i\<in>set ns. i < length (filter pt_isValid ts)" using selectedValid_sub by blast
  let ?names = "map (js_lower \<circ> pt_name) (filter pt_isValid ts)"
  have "map (js_lower \<circ> pt_name) (selectedValid pt_isValid selected ts) = map ((!) ?names) ns"
    using ns(3) by (simp add: ns(1))
  moreover have "inj_on ((!) ?names) (set ns)"
    using assms ns(3) by (intro inj_on_nth) (auto simp: importable_def)
  ultimately have "distinct (map (js_lower \<circ> pt_name) (selectedValid pt_isValid selected ts))"
    using ns(2) by (simp only: distinct_map)
  moreover have "set (selectedValid pt_isValid selected ts) \<subseteq> set (filter pt_isValid ts)"
    using ns(3) nth_mem [of _ "filter pt_isValid ts"] unfolding ns(1) by fastforce
  ultimately show ?thesis using assms unfolding importable_def by blast
qed

lemma team_names_importable:
  "importable existing (filter pt_isValid (team_names existing seen lines)) \<and>
   (\<forall>t\<in>set (filter pt_isValid (team_names existing seen lines)). js_lower (pt_name t) \<notin> set seen)"
proof (induction lines arbitrary: seen)
  case (Cons line lines)
  let ?n = "column (splitDelimitedLine line) 0"
  have "filter pt_isValid (team_names existing seen (line # lines)) =
      (if ?n = [] \<or> js_lower ?n \<in> set existing \<or> js_lower ?n \<in> set seen
       then filter pt_isValid (team_names existing seen lines)
       else good_team ?n [] # filter pt_isValid (team_names existing (js_lower ?n # seen) lines))"
    by (simp add: Let_def bad_team_def good_team_def)
  then show ?case using Cons [of seen] Cons [of "js_lower ?n # seen"]
    by (auto simp: importable_def good_team_def MAX_MEMBERS_PER_TEAM_def split: if_splits)
qed (simp add: importable_def)

definition grouped :: "(string, string \<times> team_member list) jsmap \<Rightarrow> bool" where
  "grouped m \<longleftrightarrow> distinct (map fst m) \<and> (\<forall>(k, n, ms)\<in>set m. n \<noteq> [] \<and> k = js_lower n)"

lemma grouped_set: "grouped m \<Longrightarrow> n \<noteq> [] \<Longrightarrow> grouped (map_set (js_lower n) (n, ms) m)"
proof -
  assume g: "grouped m" "n \<noteq> []"
  have "set (map_set k v m) \<subseteq> insert (k, v) (set m)" for k v
    by (induction m) (auto split: if_splits)
  moreover have "distinct (map fst (map_set k v m))" for k v
    using g(1) map_set_keys [of k v m] by (auto simp: grouped_def map_keys_def split: if_splits)
  ultimately show ?thesis using g unfolding grouped_def by fastforce
qed

lemma grouped_get: "grouped m \<Longrightarrow> map_get m k = Some (n, ms) \<Longrightarrow> n \<noteq> [] \<and> k = js_lower n"
  by (auto simp: grouped_def map_get_def dest!: map_of_SomeD)

lemma add_team_row_grouped: "grouped m \<Longrightarrow> grouped (add_team_row m line)"
proof -
  assume g: "grouped m"
  let ?raw = "column (splitDelimitedLine line) 0"
  show ?thesis
  proof (cases "map_get m (js_lower ?raw)")
    case None
    then show ?thesis using g grouped_set [OF g, of ?raw] by (auto simp: add_team_row_def Let_def)
  next
    case (Some d)
    obtain n ms where d: "d = (n, ms)" by (cases d)
    then have "n \<noteq> []" "js_lower ?raw = js_lower n" using grouped_get [OF g] Some by auto
    then show ?thesis using g grouped_set [OF g, of n] Some d by (auto simp: add_team_row_def Let_def)
  qed
qed

lemma group_rows_grouped: "grouped m \<Longrightarrow> grouped (foldl add_team_row m lines)"
  by (induction lines arbitrary: m) (simp_all add: add_team_row_grouped)

lemma team_items_importable:
  assumes "grouped m"
  shows "importable existing (filter pt_isValid (map (team_item existing) m))"
  using assms
proof (induction m)
  case (Cons e m)
  obtain k n ms where e: "e = (k, n, ms)" by (cases e)
  have item: "pt_name (team_item existing (k', n', ms')) = n'" for k' n' ms'
    by (simp add: team_item_def bad_team_def good_team_def)
  have keys: "n \<noteq> []" "k = js_lower n" "k \<notin> fst ` set m" "grouped m"
    using Cons.prems by (auto simp: grouped_def e)
  have other: "js_lower (pt_name t) \<noteq> k" if t: "t \<in> set (map (team_item existing) m)" for t
  proof -
    obtain x where x: "x \<in> set m" "t = team_item existing x"
      using t unfolding set_map by blast
    obtain k' n' ms' where x3: "x = (k', n', ms')" by (cases x)
    have "fst x \<in> fst ` set m" using x(1) by (rule imageI)
    then have "k' \<noteq> k" using keys(3) x3 by auto
    moreover have "k' = js_lower n'" using keys(4) x(1) x3 by (auto simp: grouped_def)
    ultimately show ?thesis by (simp add: x(2) x3 item)
  qed
  have tail: "importable existing (filter pt_isValid (map (team_item existing) m))" using Cons.IH keys(4) by blast
  show ?case
  proof (cases "pt_isValid (team_item existing e)")
    case True
    then have good: "team_item existing e = good_team n ms" "k \<notin> set existing" "length ms \<le> MAX_MEMBERS_PER_TEAM"
      by (auto simp: team_item_def e bad_team_def split: if_splits)
    have "k \<notin> set (map (js_lower \<circ> pt_name) (filter pt_isValid (map (team_item existing) m)))" using other by auto
    then show ?thesis using tail True keys good unfolding importable_def by (simp add: good_team_def)
  next
    case False
    then show ?thesis using tail by simp
  qed
qed (simp add: importable_def)

text \<open>
  What the team import sends can be created: whatever file is pasted, in either mode and whatever rows are ticked, the
  teams handed on have names that are not empty, differ from each other and from every existing team without regard to
  case, and at most three members each; with no valid row ticked nothing is sent.
\<close>

theorem team_import_sound:
  assumes "team_handleSubmit (parseTeamsInput text mode existing) selected = Inr payload"
  shows "payload \<noteq> [] \<and> distinct (map (js_lower \<circ> fst) payload) \<and>
         (\<forall>(name, members)\<in>set payload. name \<noteq> [] \<and> js_lower name \<notin> set existing \<and>
            (\<forall>ms. members = Some ms \<longrightarrow> ms \<noteq> [] \<and> length ms \<le> 3))"
proof -
  let ?ts = "parseTeamsInput text mode existing"
  have "importable existing (filter pt_isValid ?ts)"
    using team_names_importable [of existing "[]"] team_items_importable [OF group_rows_grouped, of "[]"]
    by (cases mode) (simp_all add: parseTeamsInput_def grouped_def)
  then have imp: "importable existing (selectedValid pt_isValid selected ?ts)" by (rule importable_part)
  have payload: "payload = map team_payload (selectedValid pt_isValid selected ?ts)" "payload \<noteq> []"
    using assms by (auto simp: team_handleSubmit_def split: if_splits)
  have "map (js_lower \<circ> fst) payload = map (js_lower \<circ> pt_name) (selectedValid pt_isValid selected ?ts)"
    by (simp add: payload(1) team_payload_def o_def)
  then have "distinct (map (js_lower \<circ> fst) payload)" using imp by (simp add: importable_def)
  moreover have "name \<noteq> [] \<and> js_lower name \<notin> set existing \<and> (\<forall>ms. members = Some ms \<longrightarrow> ms \<noteq> [] \<and> length ms \<le> 3)"
    if "(name, members) \<in> set payload" for name members
    using that imp unfolding payload(1)
    by (auto simp: importable_def team_payload_def MAX_MEMBERS_PER_TEAM_def split: if_splits)
  ultimately show ?thesis using payload(2) by blast
qed

theorem team_import_sound_witness:
  "distinct (map (js_lower \<circ> fst) [(''Zeta'', None :: team_member list option), (''Eta'', None)])"
proof -
  have "team_handleSubmit (parseTeamsInput (join_with [CHR 0x0A] [''Zeta'', ''Eta'', ''zeta'']) NamesOnly []) {0, 1, 2} =
      Inr [(''Zeta'', None), (''Eta'', None)]"
    by code_simp
  from team_import_sound [OF this] show ?thesis by blast
qed

text \<open>
  A list of names without a header loses its first team as soon as that name contains the word team: the header test
  looks for it anywhere in the first line. The sample names the dialog offers are of that kind.
\<close>

theorem first_team_lost:
  "parseTeamsInput (join_with [CHR 0x0A] [''Team Alpha'', ''Team Beta'']) NamesOnly [] = [good_team ''Team Beta'' []]"
  by code_simp

end
