(* ===== verification/EvidenceTimeline.thy ===== *)
theory EvidenceTimeline
  imports AdminContest JsDate
begin

text \<open>
  The evidence an organizer reads about one contestant: the names and durations of \<open>admin-frontend/src/lib/monitoring.ts\<close>
  and the timeline of \<open>app/(dashboard)/monitoring/[userId]/page.tsx\<close>, which gathers the entries of the backend into
  moments. Weights and counts are whole numbers, as the backend sends them.
\<close>

section \<open>Names and durations\<close>

text \<open>
  Reading a key of an object literal gives its own value or a member every object inherits; both are truthy here.
\<close>

datatype member = Own string | Inherited string

definition object_members :: "string list" where
  "object_members =
     [''constructor'', ''__proto__'', ''hasOwnProperty'', ''isPrototypeOf'', ''propertyIsEnumerable'', ''toLocaleString'',
      ''toString'', ''valueOf'', ''__defineGetter__'', ''__defineSetter__'', ''__lookupGetter__'', ''__lookupSetter__'']"

definition read_member :: "(string \<times> string) list \<Rightarrow> string \<Rightarrow> member option" where
  "read_member r k =
     (case map_of r k of
        Some v \<Rightarrow> Some (Own v)
      | None \<Rightarrow> if k \<in> set object_members then Some (Inherited k) else None)"

text \<open>\<open>loc\<close> is the locale's time of day.\<close>

definition formatClock :: "(int \<Rightarrow> string) \<Rightarrow> string option \<Rightarrow> string" where
  "formatClock loc stamp =
     (case stamp of
        None \<Rightarrow> em_dash
      | Some s \<Rightarrow> if s = [] then em_dash else (case iso_ms s of None \<Rightarrow> em_dash | Some t \<Rightarrow> loc t))"

definition formatDuration :: "int \<Rightarrow> string" where
  "formatDuration seconds =
     (if seconds \<le> 0 then em_dash
      else if seconds < 60 then show_int seconds @ ''s''
      else
        let minutes = seconds div 60
        in if minutes < 60 then show_int minutes @ ''m '' @ show_int (seconds mod 60) @ ''s''
           else show_int (minutes div 60) @ ''h '' @ show_int (minutes mod 60) @ ''m'')"

definition KNOWN_APP_NAMES :: "(string \<times> string) list" where
  "KNOWN_APP_NAMES =
     [(''com.google.antigravity-ide'', ''Antigravity IDE''), (''com.google.antigravity'', ''Antigravity IDE''),
      (''antigravity-ide'', ''Antigravity IDE''), (''antigravity'', ''Antigravity IDE''),
      (''com.microsoft.vscode'', ''VS Code''), (''com.microsoft.vscodeinsiders'', ''VS Code Insiders''),
      (''vscode'', ''VS Code''), (''code'', ''VS Code''), (''com.google.chrome'', ''Google Chrome''),
      (''chrome'', ''Google Chrome''), (''google-chrome'', ''Google Chrome''), (''org.mozilla.firefox'', ''Firefox''),
      (''firefox'', ''Firefox''), (''com.apple.safari'', ''Safari''), (''safari'', ''Safari''),
      (''com.anysphere.cursor'', ''Cursor''), (''cursor'', ''Cursor''), (''com.exafunction.windsurf'', ''Windsurf''),
      (''windsurf'', ''Windsurf''), (''com.openai.chat'', ''ChatGPT''), (''chatgpt'', ''ChatGPT''),
      (''com.anthropic.claude'', ''Claude''), (''claude'', ''Claude''), (''com.apple.terminal'', ''Terminal''),
      (''terminal'', ''Terminal''), (''com.googlecode.iterm2'', ''iTerm2''), (''iterm2'', ''iTerm2''), (''iterm'', ''iTerm2''),
      (''com.apple.finder'', ''Finder''), (''finder'', ''Finder''), (''github.copilot'', ''GitHub Copilot''),
      (''copilot'', ''GitHub Copilot''), (''copilot-agent'', ''GitHub Copilot Agent''),
      (''copilot-language-server'', ''GitHub Copilot LSP''), (''ollama'', ''Ollama''), (''lmstudio'', ''LM Studio''),
      (''lm studio'', ''LM Studio''), (''aider'', ''Aider AI'')]"

text \<open>\<open>parts[parts.length - 1] || whole\<close>\<close>

definition last_part :: "string list \<Rightarrow> string \<Rightarrow> string" where
  "last_part parts whole = (if parts = [] \<or> last parts = [] then whole else last parts)"

definition base_name :: "string \<Rightarrow> string" where
  "base_name s =
     (if CHR ''/'' \<in> set s \<or> CHR 0x5C \<in> set s
      then last_part (split_char CHR ''/'' (map (\<lambda>c. if c = CHR 0x5C then CHR ''/'' else c) s)) s else s)"

definition drop_app_suffix :: "string \<Rightarrow> string" where
  "drop_app_suffix s =
     (if ends_with (js_lower s) ''.app'' \<or> ends_with (js_lower s) ''.exe'' then take (length s - 4) s else s)"

definition last_segment :: "string \<Rightarrow> string" where
  "last_segment s = (if CHR ''.'' \<in> set s then last_part (split_char CHR ''.'' s) s else s)"

definition formatAppName :: "string option \<Rightarrow> member" where
  "formatAppName raw =
     (case raw of
        None \<Rightarrow> Own []
      | Some r \<Rightarrow>
          if r = [] then Own []
          else
            let trimmed = js_trim r
            in case read_member KNOWN_APP_NAMES (js_lower trimmed) of
                 Some m \<Rightarrow> m
               | None \<Rightarrow>
                   let cleaned = last_segment (drop_app_suffix (base_name trimmed))
                   in case read_member KNOWN_APP_NAMES (js_lower cleaned) of Some m \<Rightarrow> m | None \<Rightarrow> Own cleaned)"

definition rule_titles :: "(string \<times> string) list" where
  "rule_titles =
     [(''web.fullscreen_exit'', ''Browser Exited Fullscreen''), (''web.window_blur'', ''Window Focus Lost (App Switch)''),
      (''web.tab_switch'', ''Browser Tab Switched / Hidden''),
      (''web.devtools_attempt'', ''Developer Tools / Inspection Attempt''),
      (''web.lockout_exceeded'', ''Browser Lockout Violations Exceeded''),
      (''ai.proc.denylist'', ''Restricted AI Process Running''),
      (''ai.fg.denylist'', ''Restricted Application in Focus''),
      (''app.unauthorized_foreground'', ''Unauthorized Application in Foreground''),
      (''net.internet'', ''Public Internet Route Reachable'')]"

definition formatRuleTitle :: "string \<Rightarrow> string option \<Rightarrow> member" where
  "formatRuleTitle ruleId fallback =
     (case read_member rule_titles ruleId of
        Some m \<Rightarrow> m
      | None \<Rightarrow> (case fallback of None \<Rightarrow> Own ruleId | Some f \<Rightarrow> Own (if f = [] then ruleId else f)))"

text \<open>
  The names of \<open>components/monitoring/evidence-card.tsx\<close>: the process list shows the friendly name and, when it differs,
  the raw one; lower-casing anything but a text throws.
\<close>

definition member_lower :: "member \<Rightarrow> exn + string" where
  "member_lower m =
     (case m of Own s \<Rightarrow> Inr (js_lower s) | Inherited k \<Rightarrow> Inl (Error ''friendly.toLowerCase is not a function''))"

definition process_label :: "string \<Rightarrow> exn + (member \<times> string option)" where
  "process_label m =
     (let friendly = formatAppName (Some m)
      in case member_lower friendly of
           Inl x \<Rightarrow> Inl x
         | Inr l \<Rightarrow> Inr (friendly, if l \<noteq> js_lower m then Some m else None))"


section \<open>The timeline\<close>

datatype entry_kind = EventEntry | GapEntry | FindingEntry | SubmissionEntry | EnrollmentEntry

record timeline_entry =
  en_kind :: entry_kind
  en_at :: string
  en_endedAt :: "string option"
  en_label :: string
  en_detail :: "string option"
  en_weight :: "int option"
  en_count :: "int option"
  en_payload :: "(string \<times> jsv) list option"

record finding_detail =
  fd_ruleId :: string
  fd_title :: string
  fd_weight :: int
  fd_evidence :: "(string \<times> jsv) list option"

datatype moment_kind = GapMoment | SubmissionMoment | ViolationMoment | ActivityMoment

datatype moment_severity = CRITICAL | HIGH | MEDIUM | LOW | NORMAL

record submission_detail =
  sd_problemTitle :: string
  sd_verdict :: string
  sd_score :: int
  sd_language :: jsv
  sd_maxScore :: jsv

record moment =
  mo_id :: string
  mo_timestamp :: string
  mo_timeFormatted :: string
  mo_endedAt :: "string option"
  mo_kind :: moment_kind
  mo_primaryTitle :: string
  mo_details :: "string list"
  mo_severity :: moment_severity
  mo_foregroundApp :: "string option"
  mo_processMatches :: "string list"
  mo_totalProcesses :: "jsnum option"
  mo_lanIp :: "string option"
  mo_internetReachable :: "bool option"
  mo_gapDuration :: "int option"
  mo_findings :: "finding_detail list"
  mo_submission :: "submission_detail option"
  mo_rawSignals :: "(string \<times> jsv) list option"

text \<open>\<open>s || d\<close> of an optional text.\<close>

definition text_or :: "string option \<Rightarrow> string \<Rightarrow> string" where
  "text_or t d = (case t of None \<Rightarrow> d | Some s \<Rightarrow> if s = [] then d else s)"

definition within_4s :: "string \<Rightarrow> string \<Rightarrow> bool" where
  "within_4s a b = (case (iso_ms a, iso_ms b) of (Some x, Some y) \<Rightarrow> abs (x - y) \<le> 4000 | _ \<Rightarrow> False)"

definition new_moment :: "(int \<Rightarrow> string) \<Rightarrow> nat \<Rightarrow> timeline_entry \<Rightarrow> moment" where
  "new_moment loc n entry =
     \<lparr>mo_id = en_at entry @ ''-'' @ show_nat n, mo_timestamp = en_at entry,
      mo_timeFormatted = formatClock loc (Some (en_at entry)), mo_endedAt = en_endedAt entry,
      mo_kind = ActivityMoment, mo_primaryTitle = en_label entry, mo_details = [], mo_severity = NORMAL,
      mo_foregroundApp = None, mo_processMatches = [], mo_totalProcesses = None, mo_lanIp = None,
      mo_internetReachable = None, mo_gapDuration = None, mo_findings = [], mo_submission = None, mo_rawSignals = None\<rparr>"

definition absorb_gap :: "timeline_entry \<Rightarrow> moment \<Rightarrow> moment" where
  "absorb_gap entry s =
     s\<lparr>mo_kind := GapMoment, mo_severity := CRITICAL,
       mo_primaryTitle := (if en_label entry = [] then ''Blackout / Disconnection Gap'' else en_label entry),
       mo_gapDuration := Some (case en_count entry of None \<Rightarrow> 0 | Some n \<Rightarrow> n),
       mo_endedAt := en_endedAt entry,
       mo_details := (if text_or (en_detail entry) [] = [] then mo_details s
                      else mo_details s @ [text_or (en_detail entry) []])\<rparr>"

definition payload_value :: "timeline_entry \<Rightarrow> string \<Rightarrow> jsv" where
  "payload_value entry k = (case en_payload entry of None \<Rightarrow> Undefined | Some fs \<Rightarrow> field fs k)"

definition absorb_submission :: "timeline_entry \<Rightarrow> moment \<Rightarrow> moment" where
  "absorb_submission entry s =
     s\<lparr>mo_kind := SubmissionMoment, mo_primaryTitle := ''Submission: '' @ en_label entry,
       mo_submission := Some \<lparr>sd_problemTitle = en_label entry, sd_verdict = text_or (en_detail entry) ''Evaluating'',
          sd_score = (case en_weight entry of None \<Rightarrow> 0 | Some w \<Rightarrow> w),
          sd_language = payload_value entry ''language'', sd_maxScore = payload_value entry ''max_score''\<rparr>\<rparr>"

definition finding_weight :: "timeline_entry \<Rightarrow> int" where
  "finding_weight entry =
     (case en_weight entry of Some w \<Rightarrow> w | None \<Rightarrow> (case en_count entry of Some n \<Rightarrow> n | None \<Rightarrow> 25))"

definition finding_of :: "timeline_entry \<Rightarrow> finding_detail" where
  "finding_of entry =
     \<lparr>fd_ruleId = en_label entry, fd_title = text_or (en_detail entry) (en_label entry),
      fd_weight = finding_weight entry, fd_evidence = en_payload entry\<rparr>"

definition raised :: "int \<Rightarrow> moment_severity \<Rightarrow> moment_severity" where
  "raised weight sev =
     (if 30 \<le> weight then CRITICAL
      else if 20 \<le> weight \<and> sev \<noteq> CRITICAL then HIGH
      else if sev = NORMAL then MEDIUM else sev)"

definition absorb_finding :: "timeline_entry \<Rightarrow> moment \<Rightarrow> moment" where
  "absorb_finding entry s =
     s\<lparr>mo_findings := mo_findings s @ [finding_of entry],
       mo_kind := (if mo_kind s \<noteq> GapMoment \<and> mo_kind s \<noteq> SubmissionMoment then ViolationMoment else mo_kind s),
       mo_severity := raised (finding_weight entry) (mo_severity s)\<rparr>"

definition push_new :: "string list \<Rightarrow> jsv list \<Rightarrow> string list" where
  "push_new seen vs = foldl (\<lambda>ps v. if js_String v \<in> set ps then ps else ps @ [js_String v]) seen vs"

text \<open>The signals of one payload: the object spread, then the fields that have the type expected.\<close>

definition absorb_payload :: "(string \<times> jsv) list \<Rightarrow> moment \<Rightarrow> moment" where
  "absorb_payload payload s =
     s\<lparr>mo_rawSignals := Some (foldl (\<lambda>raw (k, v). map_set k v raw) (case mo_rawSignals s of None \<Rightarrow> [] | Some r \<Rightarrow> r) payload),
       mo_foregroundApp := (case field payload ''foreground_app'' of
          Str a \<Rightarrow> if a = [] then mo_foregroundApp s else Some a | _ \<Rightarrow> mo_foregroundApp s),
       mo_processMatches := (case field payload ''process_matches'' of
          Arr vs \<Rightarrow> push_new (mo_processMatches s) vs | _ \<Rightarrow> mo_processMatches s),
       mo_totalProcesses := (case field payload ''total_processes'' of Num n \<Rightarrow> Some n | _ \<Rightarrow> mo_totalProcesses s),
       mo_lanIp := (case field payload ''lan_ip'' of Str a \<Rightarrow> Some a | _ \<Rightarrow> mo_lanIp s),
       mo_internetReachable := (case field payload ''internet_reachable'' of Bool b \<Rightarrow> Some b
          | _ \<Rightarrow> mo_internetReachable s)\<rparr>"

definition absorb_event :: "timeline_entry \<Rightarrow> moment \<Rightarrow> moment" where
  "absorb_event entry s =
     (let s1 = (if starts_with (js_lower (en_label entry)) ''switched to'' then s\<lparr>mo_primaryTitle := en_label entry\<rparr> else s);
          d = text_or (en_detail entry) [];
          s2 = (if d \<noteq> [] \<and> d \<notin> set (mo_details s1) then s1\<lparr>mo_details := mo_details s1 @ [d]\<rparr> else s1)
      in case en_payload entry of None \<Rightarrow> s2 | Some p \<Rightarrow> absorb_payload p s2)"

definition absorb :: "timeline_entry \<Rightarrow> moment \<Rightarrow> moment" where
  "absorb entry s =
     (case en_kind entry of
        GapEntry \<Rightarrow> absorb_gap entry s
      | SubmissionEntry \<Rightarrow> absorb_submission entry s
      | FindingEntry \<Rightarrow> absorb_finding entry s
      | EventEntry \<Rightarrow> absorb_event entry s
      | EnrollmentEntry \<Rightarrow> s)"

text \<open>One turn of the loop: the first moment within four seconds takes the entry, or a new one at the end does.\<close>

fun place :: "(int \<Rightarrow> string) \<Rightarrow> nat \<Rightarrow> timeline_entry \<Rightarrow> moment list \<Rightarrow> moment list" where
  "place loc n entry [] = [absorb entry (new_moment loc n entry)]"
| "place loc n entry (s # ss) =
     (if within_4s (mo_timestamp s) (en_at entry) then absorb entry s # ss else s # place loc n entry ss)"

definition cluster :: "(int \<Rightarrow> string) \<Rightarrow> timeline_entry list \<Rightarrow> moment list" where
  "cluster loc entries = foldl (\<lambda>ss entry. place loc (length ss) entry ss) [] entries"

definition newest_moment_first :: "moment \<Rightarrow> moment \<Rightarrow> int" where
  "newest_moment_first a b =
     (case (iso_ms (mo_timestamp a), iso_ms (mo_timestamp b)) of (Some x, Some y) \<Rightarrow> y - x | _ \<Rightarrow> 0)"

definition groupTimelineEntries :: "(int \<Rightarrow> string) \<Rightarrow> timeline_entry list \<Rightarrow> moment list" where
  "groupTimelineEntries loc entries = js_sort newest_moment_first (cluster loc entries)"

datatype timeline_filter = FilterAll | FilterGaps | FilterFindings | FilterBrowser | FilterSubmissions | FilterApps

definition isBrowserMoment :: "moment \<Rightarrow> bool" where
  "isBrowserMoment s \<longleftrightarrow>
     list_ex (\<lambda>f. starts_with (fd_ruleId f) ''web.'') (mo_findings s) \<or>
     list_ex (str_includes (js_lower (mo_primaryTitle s))) [''fullscreen'', ''focus lost'', ''tab switched'', ''devtools'', ''lockdown'']"

definition moment_shown :: "timeline_filter \<Rightarrow> moment \<Rightarrow> bool" where
  "moment_shown f s =
     (case f of
        FilterAll \<Rightarrow> True
      | FilterGaps \<Rightarrow> mo_kind s = GapMoment
      | FilterFindings \<Rightarrow> mo_findings s \<noteq> [] \<or> mo_kind s = ViolationMoment
      | FilterBrowser \<Rightarrow> isBrowserMoment s
      | FilterSubmissions \<Rightarrow> mo_kind s = SubmissionMoment
      | FilterApps \<Rightarrow> text_or (mo_foregroundApp s) [] \<noteq> [] \<or> str_includes (js_lower (mo_primaryTitle s)) ''switched'')"

definition filteredMoments :: "timeline_filter \<Rightarrow> moment list \<Rightarrow> moment list" where
  "filteredMoments f snapshots = filter (moment_shown f) snapshots"

definition moment_counts :: "moment list \<Rightarrow> nat \<times> nat \<times> nat \<times> nat" where
  "moment_counts snapshots =
     (length (filter (\<lambda>s. mo_kind s = GapMoment) snapshots), length (filter (\<lambda>s. mo_findings s \<noteq> []) snapshots),
      length (filter isBrowserMoment snapshots), length (filter (\<lambda>s. mo_kind s = SubmissionMoment) snapshots))"


section \<open>What the timeline shows\<close>

definition is_finding :: "timeline_entry \<Rightarrow> bool" where
  "is_finding entry \<longleftrightarrow> en_kind entry = FindingEntry"

text \<open>The entries that make a moment critical.\<close>

definition is_grave :: "timeline_entry \<Rightarrow> bool" where
  "is_grave entry \<longleftrightarrow> en_kind entry = GapEntry \<or> (en_kind entry = FindingEntry \<and> 30 \<le> finding_weight entry)"

definition covers :: "moment \<Rightarrow> timeline_entry \<Rightarrow> bool" where
  "covers s entry \<longleftrightarrow> mo_timestamp s = en_at entry \<or> within_4s (mo_timestamp s) (en_at entry)"

lemmas absorb_defs = absorb_def absorb_gap_def absorb_submission_def absorb_finding_def absorb_event_def absorb_payload_def

lemma absorb_timestamp [simp]: "mo_timestamp (absorb e s) = mo_timestamp s"
  by (simp add: absorb_defs Let_def split: entry_kind.split option.split)

lemma absorb_findings: "mo_findings (absorb e s) = mo_findings s @ (if is_finding e then [finding_of e] else [])"
  by (simp add: absorb_defs is_finding_def Let_def split: entry_kind.split option.split)

lemma absorb_severity:
  "mo_severity (absorb e s) =
     (case en_kind e of GapEntry \<Rightarrow> CRITICAL | FindingEntry \<Rightarrow> raised (finding_weight e) (mo_severity s) | _ \<Rightarrow> mo_severity s)"
  by (simp add: absorb_defs Let_def split: entry_kind.split option.split)

lemma raised_critical [simp]: "raised w CRITICAL = CRITICAL"
  by (simp add: raised_def)

lemma absorb_stays_critical: "mo_severity s = CRITICAL \<Longrightarrow> mo_severity (absorb e s) = CRITICAL"
  by (simp add: absorb_severity split: entry_kind.split)

lemma absorb_grave: "is_grave e \<Longrightarrow> mo_severity (absorb e s) = CRITICAL"
  by (auto simp: absorb_severity is_grave_def raised_def)

lemma place_timestamps:
  "map mo_timestamp (place loc n e ss) =
     map mo_timestamp ss @ (if \<exists>s\<in>set ss. within_4s (mo_timestamp s) (en_at e) then [] else [en_at e])"
  by (induction ss) (auto simp: new_moment_def)

lemma place_findings:
  "mset (concat (map mo_findings (place loc n e ss))) =
     mset (concat (map mo_findings ss)) + (if is_finding e then {#finding_of e#} else {#})"
  by (induction ss) (auto simp: absorb_findings new_moment_def)

lemma place_covers: "\<exists>s\<in>set (place loc n e ss). covers s e \<and> (is_grave e \<longrightarrow> mo_severity s = CRITICAL)"
proof (induction ss)
  case Nil
  then show ?case by (simp add: covers_def new_moment_def absorb_grave)
next
  case (Cons s ss)
  then show ?case by (auto simp: covers_def absorb_grave)
qed

lemma place_keeps:
  "s \<in> set ss \<Longrightarrow> \<exists>s'\<in>set (place loc n e ss). mo_timestamp s' = mo_timestamp s \<and>
     (mo_severity s = CRITICAL \<longrightarrow> mo_severity s' = CRITICAL)"
  by (induction ss) (auto simp: absorb_stays_critical)

lemma cluster_snoc: "cluster loc (es @ [e]) = place loc (length (cluster loc es)) e (cluster loc es)"
  by (simp add: cluster_def)

lemma cluster_spaced: "sorted_wrt (\<lambda>a b. \<not> within_4s a b) (map mo_timestamp (cluster loc es))"
proof (induction es rule: rev_induct)
  case (snoc e es)
  then show ?case by (simp add: cluster_snoc place_timestamps sorted_wrt_append)
qed (simp add: cluster_def)

lemma cluster_timestamps: "set (map mo_timestamp (cluster loc es)) \<subseteq> set (map en_at es)"
proof (induction es rule: rev_induct)
  case (snoc e es)
  then show ?case unfolding cluster_snoc place_timestamps by auto
qed (simp add: cluster_def)

lemma cluster_findings:
  "mset (concat (map mo_findings (cluster loc es))) = mset (map finding_of (filter is_finding es))"
proof (induction es rule: rev_induct)
  case (snoc e es)
  then show ?case unfolding cluster_snoc place_findings by simp
qed (simp add: cluster_def)

lemma cluster_covers:
  "e \<in> set es \<Longrightarrow> \<exists>s\<in>set (cluster loc es). covers s e \<and> (is_grave e \<longrightarrow> mo_severity s = CRITICAL)"
proof (induction es rule: rev_induct)
  case (snoc x es)
  show ?case
  proof (cases "e \<in> set es")
    case True
    then obtain s where s: "s \<in> set (cluster loc es)" "covers s e" "is_grave e \<longrightarrow> mo_severity s = CRITICAL"
      using snoc.IH by blast
    obtain s' where "s' \<in> set (cluster loc (es @ [x]))" "mo_timestamp s' = mo_timestamp s"
        "mo_severity s = CRITICAL \<longrightarrow> mo_severity s' = CRITICAL"
      using place_keeps [OF s(1)] unfolding cluster_snoc by blast
    then show ?thesis using s(2,3) by (intro bexI [of _ s']) (auto simp: covers_def)
  next
    case False
    then show ?thesis using snoc.prems place_covers unfolding cluster_snoc by auto
  qed
qed simp

lemma within_4s_sym: "within_4s a b = within_4s b a"
  by (auto simp: within_4s_def abs_minus_commute split: option.split)

lemma sorted_wrt_perm:
  "(\<And>a b. P a b \<Longrightarrow> P b a) \<Longrightarrow> mset xs = mset ys \<Longrightarrow> sorted_wrt P xs \<Longrightarrow> sorted_wrt P ys"
proof (induction ys arbitrary: xs)
  case (Cons y ys)
  then have "y \<in> set xs" by (metis list.set_intros(1) mset_eq_setD)
  then obtain a b where xs: "xs = a @ y # b" by (meson split_list)
  have rest: "mset (a @ b) = mset ys" using Cons.prems(2) xs by simp
  have "sorted_wrt P (a @ b)" using Cons.prems(3) xs by (simp add: sorted_wrt_append)
  then have "sorted_wrt P ys" using Cons.IH [OF Cons.prems(1) rest] by blast
  moreover have "P y z" if "z \<in> set ys" for z
  proof -
    have "z \<in> set a \<or> z \<in> set b" using that mset_eq_setD [OF rest] by auto
    then show ?thesis using Cons.prems(1,3) xs by (auto simp: sorted_wrt_append)
  qed
  ultimately show ?case by simp
qed simp

lemma mset_concat_perm:
  assumes "mset xs = mset ys"
  shows "mset (concat (map f xs)) = mset (concat (map f ys))"
proof -
  have "mset (concat (map f zs)) = (\<Sum>x\<in>#mset zs. mset (f x))" for zs by (induction zs) simp_all
  then show ?thesis using assms by simp
qed

lemma newest_moments_sorted:
  assumes "\<forall>s\<in>set ms. iso_ms (mo_timestamp s) \<noteq> None"
  shows "sorted_wrt (\<lambda>a b. the (iso_ms (mo_timestamp b)) \<le> the (iso_ms (mo_timestamp a))) (js_sort newest_moment_first ms)"
proof -
  let ?k = "by_key_desc (\<lambda>s. the (iso_ms (mo_timestamp s)))"
  have "js_sort newest_moment_first ms = js_sort ?k ms"
  proof (rule js_sort_cong)
    fix x y assume "x \<in> set ms" "y \<in> set ms"
    then obtain t u where "iso_ms (mo_timestamp x) = Some t" "iso_ms (mo_timestamp y) = Some u" using assms by blast
    then show "newest_moment_first x y = by_key_desc (\<lambda>s. the (iso_ms (mo_timestamp s))) x y"
      by (simp add: newest_moment_first_def by_key_desc_def)
  qed
  then show ?thesis using key_desc.sorted_js_sort [of "\<lambda>s. the (iso_ms (mo_timestamp s))" ms]
    by (simp add: by_key_desc_def)
qed

text \<open>
  C18: The timeline loses no evidence and separates the moments: whatever entries the backend sends, the findings of all
  moments together are exactly the finding entries, every entry is covered by a moment at most four seconds away, a
  blackout or a finding of weight thirty or more always ends in a critical moment whatever else falls into it, no two
  moments are within four seconds of each other, and with readable times they are listed newest first.
\<close>

theorem timeline_sound:
  assumes "ms = groupTimelineEntries loc es"
  shows "mset (concat (map mo_findings ms)) = mset (map finding_of (filter is_finding es)) \<and>
         (\<forall>e\<in>set es. \<exists>s\<in>set ms. covers s e \<and> (is_grave e \<longrightarrow> mo_severity s = CRITICAL)) \<and>
         sorted_wrt (\<lambda>a b. \<not> within_4s (mo_timestamp a) (mo_timestamp b)) ms \<and>
         ((\<forall>e\<in>set es. iso_ms (en_at e) \<noteq> None) \<longrightarrow>
            sorted_wrt (\<lambda>a b. the (iso_ms (mo_timestamp b)) \<le> the (iso_ms (mo_timestamp a))) ms)"
proof (intro conjI impI)
  have perm: "mset ms = mset (cluster loc es)" by (simp add: assms groupTimelineEntries_def)
  then have "mset (concat (map mo_findings ms)) = mset (concat (map mo_findings (cluster loc es)))"
    by (rule mset_concat_perm)
  then show "mset (concat (map mo_findings ms)) = mset (map finding_of (filter is_finding es))"
    by (simp add: cluster_findings)
  show "\<forall>e\<in>set es. \<exists>s\<in>set ms. covers s e \<and> (is_grave e \<longrightarrow> mo_severity s = CRITICAL)"
    using cluster_covers mset_eq_setD [OF perm] by metis
  have "sorted_wrt (\<lambda>a b. \<not> within_4s (mo_timestamp a) (mo_timestamp b)) (cluster loc es)"
    using cluster_spaced by (simp add: sorted_wrt_map)
  then show "sorted_wrt (\<lambda>a b. \<not> within_4s (mo_timestamp a) (mo_timestamp b)) ms"
    by (rule sorted_wrt_perm [rotated 2]) (simp_all add: perm within_4s_sym)
  assume valid: "\<forall>e\<in>set es. iso_ms (en_at e) \<noteq> None"
  then have "\<forall>s\<in>set (cluster loc es). iso_ms (mo_timestamp s) \<noteq> None"
    using cluster_timestamps [of loc es] by auto
  then show "sorted_wrt (\<lambda>a b. the (iso_ms (mo_timestamp b)) \<le> the (iso_ms (mo_timestamp a))) ms"
    unfolding assms groupTimelineEntries_def by (rule newest_moments_sorted)
qed

definition entry_at :: "entry_kind \<Rightarrow> string \<Rightarrow> string \<Rightarrow> timeline_entry" where
  "entry_at k t label =
     \<lparr>en_kind = k, en_at = t, en_endedAt = None, en_label = label, en_detail = None, en_weight = None, en_count = None,
      en_payload = None\<rparr>"

theorem timeline_sound_witness:
  "\<exists>s\<in>set (groupTimelineEntries (\<lambda>_. []) [entry_at GapEntry ''2026-01-01T10:00:00Z'' ''Gap'',
       entry_at SubmissionEntry ''2026-01-01T10:00:03Z'' ''A'']).
     covers s (entry_at GapEntry ''2026-01-01T10:00:00Z'' ''Gap'') \<and> mo_severity s = CRITICAL"
proof -
  have "is_grave (entry_at GapEntry ''2026-01-01T10:00:00Z'' ''Gap'')" by (simp add: is_grave_def entry_at_def)
  then show ?thesis
    using timeline_sound [OF refl, of "\<lambda>_. []" "[entry_at GapEntry ''2026-01-01T10:00:00Z'' ''Gap'',
       entry_at SubmissionEntry ''2026-01-01T10:00:03Z'' ''A'']"] by simp
qed

text \<open>
  A submission within four seconds of a blackout takes over its kind and title: the moment counts as a submission,
  the number of blackouts stays zero and the filter for blackouts shows nothing.
\<close>

theorem submission_hides_blackout:
  "moment_counts (groupTimelineEntries (\<lambda>_. []) [entry_at GapEntry ''2026-01-01T10:00:00Z'' ''Gap'',
      entry_at SubmissionEntry ''2026-01-01T10:00:03Z'' ''A'']) = (0, 0, 0, 1) \<and>
   filteredMoments FilterGaps (groupTimelineEntries (\<lambda>_. []) [entry_at GapEntry ''2026-01-01T10:00:00Z'' ''Gap'',
      entry_at SubmissionEntry ''2026-01-01T10:00:03Z'' ''A'']) = []"
  by code_simp

text \<open>
  A process named like a member every object has crashes the evidence card of its contestant: the table of known
  names answers with that member, which is not a text.
\<close>

theorem inherited_name_crashes:
  "process_label ''Constructor.exe'' = Inl (Error ''friendly.toLowerCase is not a function'') \<and>
   process_label ''/usr/bin/Code'' = Inr (Own ''VS Code'', Some ''/usr/bin/Code'')"
  by code_simp

end
