(* ===== verification/MonitoringConsole.thy ===== *)
theory MonitoringConsole
  imports EvidenceTimeline
begin

text \<open>
  The monitoring console of the admin portal: the provider that polls the backend
  (\<open>admin-frontend/src/components/monitoring/monitoring-context.tsx\<close>) as a state machine over polls, answers, navigation and
  leaving; the filters, badges and counts of its pages; the risk page with its evidence panel and the dialog that asks
  for a reason (\<open>app/(dashboard)/monitoring/(console)\<close>, \<open>components/monitoring\<close>, \<open>components/proctoring\<close>).
\<close>

section \<open>The provider\<close>

definition POLL_INTERVAL_MS :: nat where
  "POLL_INTERVAL_MS = 10000"

definition sectionsForPath :: "string \<Rightarrow> string list" where
  "sectionsForPath pathname =
     (if starts_with pathname ''/monitoring/risk'' then [''overview'', ''risk'']
      else if starts_with pathname ''/monitoring/agents'' then [''overview'', ''agents'']
      else [''overview'', ''telemetry''])"

text \<open>
  A request in flight: its generation, the sections asked for, and the run of the polling effect that awaits it
  (none for a manual refresh). \<open>co_run\<close> is the current run; the flag \<open>stopped\<close> of every other run is set.
\<close>

record poll_request =
  pq_generation :: nat
  pq_sections :: "string list"
  pq_run :: "nat option"

record console =
  co_overview :: jsv
  co_telemetry :: jsv
  co_risk :: jsv
  co_agents :: jsv
  co_loaded :: "string set"
  co_isRefreshing :: bool
  co_loadError :: jsv
  co_auto :: bool
  co_searchQuery :: string
  co_statusFilter :: string
  co_pathname :: string
  co_generation :: nat
  co_run :: nat
  co_timer :: bool
  co_mounted :: bool
  co_login :: bool
  co_pending :: "poll_request list"

text \<open>\<open>load\<close> up to its \<open>await\<close>.\<close>

definition load_start :: "string list \<Rightarrow> nat option \<Rightarrow> console \<Rightarrow> console" where
  "load_start sections run s =
     s\<lparr>co_generation := Suc (co_generation s), co_isRefreshing := True,
       co_pending := \<lparr>pq_generation = Suc (co_generation s), pq_sections = sections, pq_run = run\<rparr> # co_pending s\<rparr>"

definition object_keys :: "jsv \<Rightarrow> string list" where
  "object_keys v =
     (case v of
        Obj fs \<Rightarrow> map fst fs
      | Arr xs \<Rightarrow> map show_nat [0..<length xs]
      | Str t \<Rightarrow> map show_nat [0..<length t]
      | _ \<Rightarrow> [])"

definition or_keep :: "jsv \<Rightarrow> jsv \<Rightarrow> jsv" where
  "or_keep new old = (if truthy new then new else old)"

definition apply_snapshot :: "string list \<Rightarrow> jsv \<Rightarrow> console \<Rightarrow> console" where
  "apply_snapshot sections snapshot s =
     (let errors = js_coalesce (get_opt snapshot ''errors'') (Obj []); failed = object_keys errors
      in s\<lparr>co_overview := or_keep (get_opt snapshot ''overview'') (co_overview s),
           co_telemetry := or_keep (get_opt snapshot ''telemetry'') (co_telemetry s),
           co_risk := or_keep (get_opt snapshot ''risk'') (co_risk s),
           co_agents := or_keep (get_opt snapshot ''agents'') (co_agents s),
           co_loaded := co_loaded s \<union> {section \<in> set sections. \<not> truthy (get_opt errors section)},
           co_loadError := (if failed \<noteq> [] then Str (''Could not refresh: '' @ join_with '', '' failed @ ''.'') else Null)\<rparr>)"

text \<open>The rest of \<open>load\<close> when the action settles, the \<open>finally\<close> block included.\<close>

definition load_settle :: "poll_request \<Rightarrow> exn + snapshot_result \<Rightarrow> console \<Rightarrow> console" where
  "load_settle q result s =
     (if pq_generation q \<noteq> co_generation s then s
      else
        (case result of
           Inl x \<Rightarrow> s
         | Inr r \<Rightarrow>
             if sn_unauthenticated r then s\<lparr>co_login := True\<rparr>
             else if truthy (sn_error r) \<or> \<not> truthy (sn_snapshot r)
             then s\<lparr>co_loadError := js_coalesce (sn_error r) (Str ''Monitoring feed unavailable.'')\<rparr>
             else apply_snapshot (pq_sections q) (sn_snapshot r) s)\<lparr>co_isRefreshing := False\<rparr>)"

text \<open>
  An answer arrives: \<open>load\<close> finishes, and the tick that awaited it, unless it was stopped or \<open>load\<close> threw, sets the next timer.
\<close>

definition arrive :: "poll_request \<Rightarrow> exn + snapshot_result \<Rightarrow> console \<Rightarrow> console" where
  "arrive q result s =
     (let s1 = load_settle q result (s\<lparr>co_pending := remove1 q (co_pending s)\<rparr>)
      in if pq_run q = Some (co_run s) \<and> co_auto s \<and> (case result of Inr _ \<Rightarrow> True | Inl _ \<Rightarrow> False)
         then s1\<lparr>co_timer := True\<rparr> else s1)"

definition console_tick :: "console \<Rightarrow> console" where
  "console_tick s = load_start (sectionsForPath (co_pathname s)) (Some (co_run s)) (s\<lparr>co_timer := False\<rparr>)"

definition refreshNow :: "console \<Rightarrow> console" where
  "refreshNow s = load_start MONITORING_SECTIONS None s"

text \<open>The cleanup of the effect, and its start.\<close>

definition effect_cleanup :: "console \<Rightarrow> console" where
  "effect_cleanup s = s\<lparr>co_run := Suc (co_run s), co_generation := Suc (co_generation s), co_timer := False\<rparr>"

definition effect_start :: "console \<Rightarrow> console" where
  "effect_start s = load_start MONITORING_SECTIONS (Some (co_run s)) s"

definition go_to :: "string \<Rightarrow> console \<Rightarrow> console" where
  "go_to path s =
     (if path = co_pathname s then s else effect_start (effect_cleanup (s\<lparr>co_pathname := path\<rparr>)))"

definition setAutoRefreshActive :: "bool \<Rightarrow> console \<Rightarrow> console" where
  "setAutoRefreshActive active s =
     (if active = co_auto s then s else effect_start (effect_cleanup (s\<lparr>co_auto := active\<rparr>)))"

definition leave_console :: "console \<Rightarrow> console" where
  "leave_console s = effect_cleanup (s\<lparr>co_mounted := False\<rparr>)"

definition enter_console :: "string \<Rightarrow> console" where
  "enter_console path =
     effect_start \<lparr>co_overview = Null, co_telemetry = Arr [], co_risk = Arr [], co_agents = Arr [], co_loaded = {},
       co_isRefreshing = False, co_loadError = Null, co_auto = True, co_searchQuery = [], co_statusFilter = ''ALL'',
       co_pathname = path, co_generation = 0, co_run = 0, co_timer = False, co_mounted = True, co_login = False,
       co_pending = []\<rparr>"

text \<open>Whether the call of the action itself can fail, as it does when the admin server restarts.\<close>

inductive console_step :: "bool \<Rightarrow> console \<Rightarrow> console \<Rightarrow> bool" for rejects :: bool where
  Tick: "co_timer s \<Longrightarrow> console_step rejects s (console_tick s)"
| Arrive: "q \<in> set (co_pending s) \<Longrightarrow> rejects \<or> (\<exists>r. result = Inr r) \<Longrightarrow> console_step rejects s (arrive q result s)"
| Refresh: "co_mounted s \<Longrightarrow> console_step rejects s (refreshNow s)"
| Navigate: "co_mounted s \<Longrightarrow> console_step rejects s (go_to path s)"
| Toggle: "co_mounted s \<Longrightarrow> console_step rejects s (setAutoRefreshActive active s)"
| Search: "co_mounted s \<Longrightarrow> console_step rejects s (s\<lparr>co_searchQuery := query, co_statusFilter := status\<rparr>)"
| Leave: "co_mounted s \<Longrightarrow> console_step rejects s (leave_console s)"

text \<open>How many polls are alive: the timer, and the requests the current run of the effect awaits.\<close>

definition awaited :: "console \<Rightarrow> nat" where
  "awaited s = length (filter (\<lambda>q. pq_run q = Some (co_run s)) (co_pending s))"

definition polls_alive :: "console \<Rightarrow> nat" where
  "polls_alive s = awaited s + (if co_timer s then 1 else 0)"

definition console_inv :: "bool \<Rightarrow> console \<Rightarrow> bool" where
  "console_inv rejects s \<longleftrightarrow>
     distinct (map pq_generation (co_pending s)) \<and>
     (\<forall>q\<in>set (co_pending s). pq_generation q \<le> co_generation s \<and> (\<forall>k. pq_run q = Some k \<longrightarrow> k \<le> co_run s)) \<and>
     (co_mounted s \<longrightarrow> (co_isRefreshing s \<longleftrightarrow> co_generation s \<in> pq_generation ` set (co_pending s))) \<and>
     polls_alive s \<le> 1 \<and> (co_timer s \<longrightarrow> co_auto s \<and> co_mounted s) \<and> (\<not> co_mounted s \<longrightarrow> awaited s = 0) \<and>
     (\<not> rejects \<and> co_mounted s \<and> co_auto s \<longrightarrow> polls_alive s = 1)"

definition requests_ok :: "console \<Rightarrow> bool" where
  "requests_ok s \<longleftrightarrow>
     distinct (map pq_generation (co_pending s)) \<and>
     (\<forall>q\<in>set (co_pending s). pq_generation q \<le> co_generation s \<and> (\<forall>k. pq_run q = Some k \<longrightarrow> k \<le> co_run s))"

lemma load_start_ok:
  assumes "requests_ok s" "\<And>k. run = Some k \<Longrightarrow> k \<le> co_run s"
  shows "requests_ok (load_start sections run s)"
  using assms by (fastforce simp: requests_ok_def load_start_def)

lemma load_start_simps [simp]:
  "co_isRefreshing (load_start sections run s)" "co_run (load_start sections run s) = co_run s"
  "co_timer (load_start sections run s) = co_timer s" "co_auto (load_start sections run s) = co_auto s"
  "co_mounted (load_start sections run s) = co_mounted s"
  "co_generation (load_start sections run s) \<in> pq_generation ` set (co_pending (load_start sections run s))"
  "awaited (load_start sections run s) = awaited s + (if run = Some (co_run s) then 1 else 0)"
  by (simp_all add: load_start_def awaited_def)

lemma cleanup_ok: "requests_ok s \<Longrightarrow> requests_ok (effect_cleanup s)"
  by (fastforce simp: requests_ok_def effect_cleanup_def)

lemma cleanup_awaited: "requests_ok s \<Longrightarrow> awaited (effect_cleanup s) = 0"
  by (fastforce simp: requests_ok_def effect_cleanup_def awaited_def filter_empty_conv)

lemma cleanup_simps [simp]:
  "co_timer (effect_cleanup s) = False" "co_auto (effect_cleanup s) = co_auto s" "co_mounted (effect_cleanup s) = co_mounted s"
  by (simp_all add: effect_cleanup_def)

lemma console_inv_alt:
  "console_inv rejects s \<longleftrightarrow> requests_ok s \<and>
     (co_mounted s \<longrightarrow> (co_isRefreshing s \<longleftrightarrow> co_generation s \<in> pq_generation ` set (co_pending s))) \<and>
     polls_alive s \<le> 1 \<and> (co_timer s \<longrightarrow> co_auto s \<and> co_mounted s) \<and> (\<not> co_mounted s \<longrightarrow> awaited s = 0) \<and>
     (\<not> rejects \<and> co_mounted s \<and> co_auto s \<longrightarrow> polls_alive s = 1)"
  by (auto simp: console_inv_def requests_ok_def)

lemma restart_inv:
  assumes "requests_ok s" "co_mounted s"
  shows "console_inv rejects (effect_start (effect_cleanup s))"
  using assms cleanup_ok [OF assms(1)]
  by (auto simp: console_inv_alt effect_start_def polls_alive_def cleanup_awaited intro: load_start_ok)

lemma load_settle_simps [simp]:
  "co_generation (load_settle q r s) = co_generation s" "co_run (load_settle q r s) = co_run s"
  "co_timer (load_settle q r s) = co_timer s" "co_auto (load_settle q r s) = co_auto s"
  "co_mounted (load_settle q r s) = co_mounted s" "co_pending (load_settle q r s) = co_pending s"
  "co_isRefreshing (load_settle q r s) = (co_isRefreshing s \<and> pq_generation q \<noteq> co_generation s)"
  by (simp_all add: load_settle_def apply_snapshot_def Let_def split: sum.split)

lemma load_settle_awaited [simp]: "awaited (load_settle q r s) = awaited s"
  by (simp add: awaited_def)

lemma distinct_map_remove1:
  assumes "distinct (map f xs)" "q \<in> set xs"
  shows "distinct (map f (remove1 q xs)) \<and> f ` set (remove1 q xs) = f ` set xs - {f q}"
  using assms by (induction xs) auto

lemma awaited_removed:
  "q \<in> set (co_pending s) \<Longrightarrow>
     awaited (s\<lparr>co_pending := remove1 q (co_pending s)\<rparr>) = awaited s - (if pq_run q = Some (co_run s) then 1 else 0)"
  by (simp add: awaited_def filter_remove1 length_remove1)

lemma awaited_pos: "q \<in> set (co_pending s) \<Longrightarrow> pq_run q = Some (co_run s) \<Longrightarrow> 0 < awaited s"
  by (auto simp: awaited_def filter_empty_conv)

lemma arrive_inv:
  assumes inv: "console_inv rejects s" and q: "q \<in> set (co_pending s)" and r: "rejects \<or> (\<exists>r. result = Inr r)"
  shows "console_inv rejects (arrive q result s)"
proof -
  let ?s = "s\<lparr>co_pending := remove1 q (co_pending s)\<rparr>"
  have ok: "requests_ok s" using inv by (simp add: console_inv_alt)
  have gone: "distinct (map pq_generation (remove1 q (co_pending s)))"
    "pq_generation ` set (remove1 q (co_pending s)) = pq_generation ` set (co_pending s) - {pq_generation q}"
    using distinct_map_remove1 [OF _ q, of pq_generation] ok by (simp_all add: requests_ok_def)
  have ok': "requests_ok (load_settle q result ?s)"
    using ok gone(1) set_remove1_subset [of q "co_pending s"] by (auto simp: requests_ok_def)
  have alive: "polls_alive (load_settle q result ?s) = polls_alive s - (if pq_run q = Some (co_run s) then 1 else 0)"
    using awaited_removed [OF q] awaited_pos [OF q] by (auto simp: polls_alive_def)
  show ?thesis
  proof (cases "pq_run q = Some (co_run s)")
    case True
    then have "awaited s = 1" "\<not> co_timer s" "co_mounted s"
      using inv awaited_pos [OF q True] by (auto simp: console_inv_alt polls_alive_def split: if_splits)
    then have "awaited ?s = 0" using awaited_removed [OF q] True by simp
    then have "awaited (load_settle q result ?s) = 0" by simp
    then show ?thesis using inv r ok' gone(2) True \<open>\<not> co_timer s\<close> \<open>co_mounted s\<close>
      by (auto simp: console_inv_alt arrive_def Let_def requests_ok_def polls_alive_def awaited_def split: sum.split)
  next
    case False
    then show ?thesis using inv ok' gone(2) alive awaited_removed [OF q]
      by (auto simp: console_inv_alt arrive_def Let_def polls_alive_def)
  qed
qed

lemma console_step_inv:
  assumes "console_inv rejects s" "console_step rejects s s'"
  shows "console_inv rejects s'"
  using assms(2)
proof cases
  case Tick
  have "requests_ok (s\<lparr>co_timer := False\<rparr>)" using assms(1) by (simp add: console_inv_alt requests_ok_def)
  then have "requests_ok s'" unfolding Tick(1) console_tick_def by (rule load_start_ok) simp
  moreover have "awaited s = 0" "co_mounted s" using assms(1) Tick(2) by (auto simp: console_inv_alt polls_alive_def)
  then have "awaited (s\<lparr>co_timer := False\<rparr>) = 0" by (simp add: awaited_def)
  ultimately show ?thesis using \<open>co_mounted s\<close> by (simp add: console_inv_alt Tick(1) console_tick_def polls_alive_def)
next
  case (Arrive q result)
  then show ?thesis using arrive_inv [OF assms(1)] by simp
next
  case Refresh
  have "requests_ok s'" unfolding Refresh(1) refreshNow_def
    by (rule load_start_ok) (use assms(1) in \<open>simp_all add: console_inv_alt\<close>)
  then show ?thesis using assms(1) by (simp add: console_inv_alt Refresh refreshNow_def polls_alive_def)
next
  case (Navigate path)
  have "requests_ok (s\<lparr>co_pathname := path\<rparr>)" using assms(1) by (simp add: console_inv_alt requests_ok_def)
  then show ?thesis using assms(1) restart_inv [of "s\<lparr>co_pathname := path\<rparr>"] Navigate by (simp add: go_to_def)
next
  case (Toggle active)
  have "requests_ok (s\<lparr>co_auto := active\<rparr>)" using assms(1) by (simp add: console_inv_alt requests_ok_def)
  then show ?thesis using assms(1) restart_inv [of "s\<lparr>co_auto := active\<rparr>" rejects] Toggle
    by (cases "active = co_auto s") (simp_all add: setAutoRefreshActive_def)
next
  case (Search query status)
  then show ?thesis using assms(1) by (simp add: console_inv_alt requests_ok_def polls_alive_def awaited_def)
next
  case Leave
  have "requests_ok (s\<lparr>co_mounted := False\<rparr>)" using assms(1) by (simp add: console_inv_alt requests_ok_def)
  then show ?thesis using cleanup_ok cleanup_awaited
    by (simp add: console_inv_alt Leave leave_console_def polls_alive_def)
qed

lemma enter_console_inv: "console_inv rejects (enter_console path)"
  by (simp add: enter_console_def effect_start_def console_inv_def load_start_def polls_alive_def awaited_def)

interpretation monitoring: state_machine "\<lambda>s. \<exists>path. s = enter_console path" "console_step rejects" "console_inv rejects"
  for rejects
  by unfold_locales (auto intro: enter_console_inv console_step_inv)

text \<open>
  C19: The monitoring console polls with exactly one chain: in every state it can reach over any interleaving of timers,
  answers, manual refreshes, navigation, pausing and leaving, at most one poll is alive, none after the page was left,
  the timer runs only while refreshing is switched on, and the spinner shows exactly while the newest request is
  outstanding. As long as the calls themselves return, the switched-on console never stops polling.
\<close>

theorem console_polls_once:
  assumes "reaches (\<lambda>s. \<exists>path. s = enter_console path) (console_step rejects) s"
  shows "polls_alive s \<le> 1 \<and> (\<not> co_mounted s \<longrightarrow> polls_alive s = 0) \<and> (co_timer s \<longrightarrow> co_auto s) \<and>
         (co_mounted s \<longrightarrow> (co_isRefreshing s \<longleftrightarrow> co_generation s \<in> pq_generation ` set (co_pending s))) \<and>
         (\<not> rejects \<and> co_mounted s \<and> co_auto s \<longrightarrow> polls_alive s = 1)"
  using monitoring.reaches_inv [OF assms] by (auto simp: console_inv_alt polls_alive_def)

theorem console_polls_once_witness:
  "polls_alive (refreshNow (enter_console ''/monitoring/risk'')) = 1"
proof -
  have "reaches (\<lambda>s. \<exists>path. s = enter_console path) (console_step False) (refreshNow (enter_console ''/monitoring/risk''))"
    by (rule reaches_step [where s = "enter_console ''/monitoring/risk''"])
       (auto intro: reaches_init Refresh simp: enter_console_def effect_start_def)
  from console_polls_once [OF this] show ?thesis by (simp add: refreshNow_def enter_console_def effect_start_def)
qed

definition shown :: "console \<Rightarrow> jsv \<times> jsv \<times> jsv \<times> jsv \<times> string set \<times> jsv" where
  "shown s = (co_overview s, co_telemetry s, co_risk s, co_agents s, co_loaded s, co_loadError s)"

definition section_rows :: "string \<Rightarrow> console \<Rightarrow> jsv" where
  "section_rows k s =
     (if k = ''overview'' then co_overview s else if k = ''telemetry'' then co_telemetry s
      else if k = ''risk'' then co_risk s else if k = ''agents'' then co_agents s else Undefined)"

lemma apply_snapshot_section:
  assumes "get_opt snapshot k = Undefined"
  shows "section_rows k (apply_snapshot sections snapshot s) = section_rows k s"
proof -
  have kept: "or_keep Undefined old = old" for old by (simp add: or_keep_def)
  consider "k = ''overview''" | "k = ''telemetry''" | "k = ''risk''" | "k = ''agents''"
    | "k \<notin> {''overview'', ''telemetry'', ''risk'', ''agents''}" by blast
  then show ?thesis using assms by cases (simp_all add: section_rows_def apply_snapshot_def Let_def kept)
qed

lemma section_rows_updates [simp]:
  "section_rows k (s\<lparr>co_isRefreshing := b\<rparr>) = section_rows k s" "section_rows k (s\<lparr>co_login := b\<rparr>) = section_rows k s"
  "section_rows k (s\<lparr>co_loadError := v\<rparr>) = section_rows k s" "section_rows k (s\<lparr>co_timer := b\<rparr>) = section_rows k s"
  "section_rows k (s\<lparr>co_pending := ps\<rparr>) = section_rows k s"
  by (simp_all add: section_rows_def)

lemma load_settle_section:
  "get_opt (sn_snapshot r) k = Undefined \<Longrightarrow> section_rows k (load_settle q (Inr r) s) = section_rows k s"
  by (simp add: load_settle_def apply_snapshot_section)

text \<open>
  Old rows never replace newer ones: the tables, the error line and the marks of what has loaded change only when the
  newest request is answered; a section that answered stays loaded, and a section that is absent from an answer or
  reported as failed keeps its rows.
\<close>

theorem console_rows_newest:
  assumes "console_step rejects s s'"
  shows "(shown s' \<noteq> shown s \<longrightarrow>
            (\<exists>q r. q \<in> set (co_pending s) \<and> pq_generation q = co_generation s \<and> s' = arrive q (Inr r) s)) \<and>
         co_loaded s \<subseteq> co_loaded s' \<and>
         (\<forall>q r k. s' = arrive q (Inr r) s \<and> get_opt (sn_snapshot r) k = Undefined \<longrightarrow> section_rows k s' = section_rows k s)"
proof (intro conjI allI impI)
  show "co_loaded s \<subseteq> co_loaded s'" using assms
    by cases (auto simp: arrive_def load_settle_def apply_snapshot_def Let_def console_tick_def load_start_def refreshNow_def
        go_to_def effect_start_def effect_cleanup_def setAutoRefreshActive_def leave_console_def split: sum.split)
next
  assume changed: "shown s' \<noteq> shown s"
  from assms show "\<exists>q r. q \<in> set (co_pending s) \<and> pq_generation q = co_generation s \<and> s' = arrive q (Inr r) s"
  proof cases
    case (Arrive q result)
    moreover have "pq_generation q = co_generation s \<and> (\<exists>r. result = Inr r)"
      using changed unfolding Arrive(1)
      by (auto simp: arrive_def load_settle_def shown_def Let_def split: sum.splits if_splits)
    ultimately show ?thesis by blast
  qed (use changed in \<open>auto simp: shown_def console_tick_def load_start_def refreshNow_def go_to_def effect_start_def
        effect_cleanup_def setAutoRefreshActive_def leave_console_def\<close>)
next
  fix q r k assume "s' = arrive q (Inr r) s \<and> get_opt (sn_snapshot r) k = Undefined"
  then show "section_rows k s' = section_rows k s"
    by (simp add: arrive_def Let_def load_settle_section)
qed

text \<open>
  A call that fails ends the polling for good: \<open>load\<close> has no handler, so the tick that awaited it throws before it sets the
  next timer. The page stays open, refreshing stays switched on, and nothing is asked again until someone acts.
\<close>

theorem failed_call_stops_polling:
  "\<exists>s. reaches (\<lambda>s. \<exists>path. s = enter_console path) (console_step True) s \<and>
       co_mounted s \<and> co_auto s \<and> polls_alive s = 0 \<and> co_pending s = [] \<and> co_loadError s = Null"
proof -
  let ?s0 = "enter_console ''/monitoring/telemetry''"
  let ?q = "hd (co_pending ?s0)"
  have "reaches (\<lambda>s. \<exists>path. s = enter_console path) (console_step True) (arrive ?q (Inl (Error ''Failed to fetch'')) ?s0)"
    by (rule reaches_step [where s = ?s0], blast intro: reaches_init, rule Arrive)
       (auto simp: enter_console_def effect_start_def load_start_def)
  then show ?thesis
    by (intro exI conjI) (auto simp: enter_console_def effect_start_def load_start_def arrive_def load_settle_def
        polls_alive_def awaited_def)
qed

section \<open>The pages\<close>

text \<open>\<open>MonitoringFilters\<close>: the effect that resets a filter the page does not offer, and a press of a chip.\<close>

definition filter_effect :: "string list \<Rightarrow> string \<Rightarrow> string" where
  "filter_effect options statusFilter = (if statusFilter \<in> set options then statusFilter else ''ALL'')"

definition press_chip :: "string list \<Rightarrow> string \<Rightarrow> string" where
  "press_chip next_values statusFilter =
     (case List.find (\<lambda>v. v \<noteq> statusFilter) next_values of Some v \<Rightarrow> v | None \<Rightarrow> statusFilter)"

definition SEVERITY_OPTIONS :: "string list" where
  "SEVERITY_OPTIONS = [''ALL'', ''HIGH'', ''MEDIUM'', ''LOW'']"

definition TELEMETRY_STATUS_OPTIONS :: "string list" where
  "TELEMETRY_STATUS_OPTIONS = [''ALL'', ''ONLINE'', ''STALE'', ''OFFLINE'', ''GAP'']"

datatype telemetry_status = ONLINE | STALE | OFFLINE

definition status_name :: "telemetry_status \<Rightarrow> string" where
  "status_name t = (case t of ONLINE \<Rightarrow> ''ONLINE'' | STALE \<Rightarrow> ''STALE'' | OFFLINE \<Rightarrow> ''OFFLINE'')"

record heartbeat =
  hb_user_id :: string
  hb_username :: string
  hb_display_name :: string
  hb_team_id :: "string option"
  hb_team_name :: "string option"
  hb_active_window :: string
  hb_os_info :: string
  hb_ip_address :: string
  hb_agent_version :: string
  hb_shell_alive :: bool
  hb_internet_reachable :: bool
  hb_process_matches :: "string list"
  hb_client_type :: string
  hb_last_ping_at :: string
  hb_status :: telemetry_status
  hb_enrolled :: bool
  hb_offline_seconds :: int
  hb_in_gap :: bool
  hb_gap_started_at :: "string option"
  hb_stopped_reason :: string
  hb_risk_score :: int
  hb_severity :: string
  hb_proctor_exempt :: "bool option"

definition heartbeat_shown :: "string \<Rightarrow> string \<Rightarrow> heartbeat \<Rightarrow> bool" where
  "heartbeat_shown statusFilter searchQuery item =
     (let query = js_lower (js_trim searchQuery)
      in (statusFilter = ''ALL'' \<or> status_name (hb_status item) = statusFilter) \<and>
         (query = [] \<or> str_includes (js_lower (hb_username item)) query \<or>
          str_includes (js_lower (hb_display_name item)) query \<or>
          (text_or (hb_team_name item) [] \<noteq> [] \<and> str_includes (js_lower (text_or (hb_team_name item) [])) query) \<or>
          str_includes (hb_ip_address item) searchQuery))"

text \<open>\<open>formatTimeAgo\<close> of \<open>badges.tsx\<close>, at the time \<open>now\<close>.\<close>

definition formatTimeAgo :: "int \<Rightarrow> string \<Rightarrow> string" where
  "formatTimeAgo now stamp =
     (case iso_ms stamp of
        None \<Rightarrow> ''Never''
      | Some t \<Rightarrow>
          let diffSeconds = (now - t) div 1000
          in if diffSeconds < 10 then ''Just now''
             else if diffSeconds < 60 then show_int diffSeconds @ ''s ago''
             else if diffSeconds < 3600 then show_int (diffSeconds div 60) @ ''m ago''
             else show_int (diffSeconds div 3600) @ ''h ago'')"

definition status_badge :: "telemetry_status \<Rightarrow> bool \<Rightarrow> string" where
  "status_badge status inGap = (if inGap then ''BLACKOUT'' else status_name status)"

record fleet =
  fl_competitors :: int
  fl_enrolled :: int
  fl_online :: int
  fl_stale :: int
  fl_offline :: int
  fl_neverReported :: int
  fl_inGap :: int
  fl_stopped :: int
  fl_browserActive :: int
  fl_exempt :: int
  fl_highRisk :: int
  fl_mediumRisk :: int

text \<open>The tiles of the fleet header that carry a warning, with the number they show.\<close>

definition fleet_tiles :: "fleet \<Rightarrow> (string \<times> int \<times> bool) list" where
  "fleet_tiles f =
     (let notReporting = fl_stale f + fl_offline f; missing = fl_competitors f - fl_enrolled f
      in [(''Not reporting'', notReporting, notReporting > 0), (''In blackout'', fl_inGap f, fl_inGap f > 0),
          (''Never started'', fl_neverReported f + missing, fl_neverReported f + missing > 0),
          (''High risk'', fl_highRisk f, fl_highRisk f > 0)])"

record agent_row =
  ag_id :: string
  ag_userId :: string
  ag_username :: string
  ag_displayName :: string
  ag_machineId :: string
  ag_platform :: string
  ag_agentVersion :: string
  ag_loopbackPort :: int
  ag_enrolledAt :: string
  ag_lastSeenAt :: "string option"
  ag_stoppedAt :: "string option"
  ag_stoppedReason :: string
  ag_revokedAt :: "string option"
  ag_revokedReason :: string
  ag_inGap :: bool
  ag_binaryHash :: "string option"

definition enrolmentCounts :: "agent_row list \<Rightarrow> (string, nat) jsmap" where
  "enrolmentCounts agents =
     foldl (\<lambda>acc agent. map_set (ag_userId agent)
              ((case map_get acc (ag_userId agent) of None \<Rightarrow> 0 | Some n \<Rightarrow> n) + 1) acc) [] agents"

definition agent_state :: "agent_row \<Rightarrow> string" where
  "agent_state agent =
     (if text_or (ag_revokedAt agent) [] \<noteq> [] then ''REVOKED''
      else if ag_inGap agent then ''BLACKOUT''
      else if text_or (ag_stoppedAt agent) [] \<noteq> [] then ''STOPPED'' else ''ACTIVE'')"

lemma enrolmentCounts_count:
  "map_get (enrolmentCounts agents) u =
     (if count_list (map ag_userId agents) u = 0 then None else Some (count_list (map ag_userId agents) u))"
proof (induction agents rule: rev_induct)
  case (snoc a agents)
  have "enrolmentCounts (agents @ [a]) = map_set (ag_userId a)
      ((case map_get (enrolmentCounts agents) (ag_userId a) of None \<Rightarrow> 0 | Some n \<Rightarrow> n) + 1) (enrolmentCounts agents)"
    by (simp add: enrolmentCounts_def)
  then show ?case using snoc by (auto simp: map_get_set)
qed (simp add: enrolmentCounts_def map_get_def)

section \<open>The risk page\<close>

record risk_user =
  ru_userId :: string
  ru_username :: string
  ru_displayName :: string
  ru_exempt :: bool
  ru_score :: int
  ru_severity :: string
  ru_findingCount :: nat
  ru_lastPingAt :: "string option"
  ru_allowWebOnly :: "bool option"

definition risk_shown :: "string \<Rightarrow> string \<Rightarrow> risk_user \<Rightarrow> bool" where
  "risk_shown searchQuery statusFilter item =
     (let query = js_lower (js_trim searchQuery)
      in (query = [] \<or> str_includes (js_lower (ru_username item)) query \<or>
          str_includes (js_lower (ru_displayName item)) query) \<and>
         (statusFilter = ''ALL'' \<or> ru_severity item = statusFilter))"

record risk_page =
  rk_selected :: "risk_user option"
  rk_findings :: jsv
  rk_loading :: bool
  rk_target :: "risk_user option"
  rk_pending :: bool
  rk_toast :: "string option"
  rk_refreshes :: nat

text \<open>
  \<open>openFindings\<close> up to its \<open>await\<close>, and its rest; the exemption commands likewise. An answer carries no mark of the user
  it was asked for, as in the code.
\<close>

definition risk_start :: risk_page where
  "risk_start = \<lparr>rk_selected = None, rk_findings = Arr [], rk_loading = False, rk_target = None, rk_pending = False,
     rk_toast = None, rk_refreshes = 0\<rparr>"

definition openFindings :: "risk_user \<Rightarrow> risk_page \<Rightarrow> risk_page" where
  "openFindings user s = s\<lparr>rk_selected := Some user, rk_findings := Arr [], rk_loading := True\<rparr>"

definition openFindings_settle :: "exn + findings_result \<Rightarrow> risk_page \<Rightarrow> risk_page" where
  "openFindings_settle result s =
     (case result of
        Inl x \<Rightarrow> s\<lparr>rk_toast := Some (getErrorMessage x ''Failed to load the evidence findings.'')\<rparr>
      | Inr r \<Rightarrow> if truthy (fr_error r) then s\<lparr>rk_toast := Some (js_String (fr_error r))\<rparr>
                else s\<lparr>rk_findings := fr_findings r\<rparr>)\<lparr>rk_loading := False\<rparr>"

definition risk_applyExemption_settle :: "risk_user \<Rightarrow> bool \<Rightarrow> exn + status_result \<Rightarrow> risk_page \<Rightarrow> risk_page" where
  "risk_applyExemption_settle user enabled result s =
     (case result of
        Inl x \<Rightarrow> s\<lparr>rk_toast := Some (getErrorMessage x ''Failed to update the exemption.'')\<rparr>
      | Inr r \<Rightarrow>
          if truthy (sr_error r) then s\<lparr>rk_toast := Some (js_String (sr_error r))\<rparr>
          else s\<lparr>rk_target := None,
                 rk_selected := (case rk_selected s of
                    Some p \<Rightarrow> if ru_userId p = ru_userId user then Some (p\<lparr>ru_exempt := enabled\<rparr>) else Some p
                  | None \<Rightarrow> None),
                 rk_toast := Some (if enabled then ''Exemption granted'' else ''Exemption revoked''),
                 rk_refreshes := Suc (rk_refreshes s)\<rparr>)\<lparr>rk_pending := False\<rparr>"

text \<open>A toggle either applies at once (taking an exemption away) or asks for the reason first.\<close>

definition requestExemptionToggle :: "risk_user \<Rightarrow> risk_page \<Rightarrow> risk_page" where
  "requestExemptionToggle user s = (if ru_exempt user then s\<lparr>rk_pending := True\<rparr> else s\<lparr>rk_target := Some user\<rparr>)"

text \<open>
  Opening the evidence of a second contestant before the first request was answered shows the first contestant's evidence
  under the second one's name when the answers arrive in the other order.
\<close>

theorem evidence_misattributed:
  assumes "\<not> truthy (fr_error ra)" "\<not> truthy (fr_error rb)"
  shows "rk_selected (openFindings_settle (Inr ra) (openFindings_settle (Inr rb) (openFindings b (openFindings a s)))) = Some b \<and>
         rk_findings (openFindings_settle (Inr ra) (openFindings_settle (Inr rb) (openFindings b (openFindings a s))))
           = fr_findings ra \<and>
         \<not> rk_loading (openFindings_settle (Inr rb) (openFindings b (openFindings a s)))"
  using assms by (simp add: openFindings_settle_def openFindings_def)

definition some_risk :: "string \<Rightarrow> risk_user" where
  "some_risk u = \<lparr>ru_userId = u, ru_username = u, ru_displayName = u, ru_exempt = False, ru_score = 0, ru_severity = ''LOW'',
     ru_findingCount = 0, ru_lastPingAt = None, ru_allowWebOnly = None\<rparr>"

theorem evidence_misattributed_witness:
  "rk_findings (openFindings_settle (Inr \<lparr>fr_findings = Arr [Str ''of alice''], fr_error = Undefined\<rparr>)
     (openFindings_settle (Inr \<lparr>fr_findings = Arr [], fr_error = Undefined\<rparr>)
       (openFindings (some_risk ''bob'') (openFindings (some_risk ''alice'') risk_start))))
   = Arr [Str ''of alice'']"
  using evidence_misattributed [of "\<lparr>fr_findings = Arr [Str ''of alice''], fr_error = Undefined\<rparr>"
      "\<lparr>fr_findings = Arr [], fr_error = Undefined\<rparr>"] by simp

section \<open>Asking for a reason\<close>

text \<open>
  The dialog keeps what is typed and, in an effect, sets it back whenever it is handed another request object. \<open>rd_object\<close>
  is the identity of the request it last saw; a parent that builds the request while rendering hands a fresh one every time.
\<close>

record access_request =
  ar_title :: string
  ar_consequence :: string
  ar_subject :: string
  ar_defaultReason :: string
  ar_confirmLabel :: string

record reason_dialog =
  rd_reason :: string
  rd_object :: "nat option"

definition render_dialog :: "(nat \<times> access_request) option \<Rightarrow> reason_dialog \<Rightarrow> reason_dialog" where
  "render_dialog request s =
     (if map_option fst request = rd_object s then s
      else \<lparr>rd_reason = (case request of None \<Rightarrow> [] | Some (_, r) \<Rightarrow> ar_defaultReason r), rd_object = map_option fst request\<rparr>)"

definition type_reason :: "string \<Rightarrow> reason_dialog \<Rightarrow> reason_dialog" where
  "type_reason text s = s\<lparr>rd_reason := text\<rparr>"

text \<open>The text handed on by the confirm button, which is disabled for a blank reason or while a call is pending.\<close>

definition confirm_reason :: "bool \<Rightarrow> reason_dialog \<Rightarrow> string option" where
  "confirm_reason pending s = (if js_trim (rd_reason s) = [] \<or> pending then None else Some (js_trim (rd_reason s)))"

definition risk_request :: "string \<Rightarrow> string \<Rightarrow> access_request" where
  "risk_request displayName username =
     \<lparr>ar_title = ''Grant proctoring exemption'',
      ar_consequence = displayName @ '' will be able to submit without a reporting proctor agent. The exemption expires in 4 hours.'',
      ar_subject = displayName @ '' (@'' @ username @ '')'', ar_defaultReason = [], ar_confirmLabel = ''Grant exemption''\<rparr>"

definition revoke_request :: "string \<Rightarrow> string \<Rightarrow> access_request" where
  "revoke_request displayName machineId =
     \<lparr>ar_title = ''Revoke proctor enrolment'',
      ar_consequence = displayName @ '' must enrol a proctor agent again before they can submit.'',
      ar_subject = displayName @ '' '' @ middle_dot @ '' '' @ take 12 machineId,
      ar_defaultReason = ''revoked by organizer'', ar_confirmLabel = ''Revoke enrolment''\<rparr>"

lemma rendered_object [simp]:
  "rd_object (render_dialog r d) = map_option fst r" "rd_object (type_reason t d) = rd_object d"
  by (auto simp: render_dialog_def type_reason_def)

lemma fresh_request:
  "map_option fst r \<noteq> rd_object d \<Longrightarrow>
     rd_reason (render_dialog r d) = (case r of None \<Rightarrow> [] | Some (_, q) \<Rightarrow> ar_defaultReason q)"
  by (simp add: render_dialog_def)

text \<open>
  What an organizer types as the reason of an exemption does not survive the next poll: the risk page renders again
  with every answer, builds a new request object and the dialog goes back to its default, which for an exemption is
  empty, so the confirm button is disabled again.
\<close>

theorem poll_wipes_reason:
  assumes "n \<noteq> n'"
  shows "rd_reason (render_dialog (Some (n', req)) (type_reason text (render_dialog (Some (n, req)) d))) = ar_defaultReason req \<and>
         confirm_reason False
           (render_dialog (Some (n', risk_request name user)) (type_reason text (render_dialog (Some (n, risk_request name user)) d)))
         = None"
  using assms by (simp add: fresh_request confirm_reason_def risk_request_def)

theorem poll_wipes_reason_witness:
  "rd_reason (render_dialog (Some (2, risk_request ''Ann'' ''ann'')) (type_reason ''lost power''
     (render_dialog (Some (1, risk_request ''Ann'' ''ann'')) \<lparr>rd_reason = [], rd_object = None\<rparr>))) = []"
  using poll_wipes_reason [of 1 2 "risk_request ''Ann'' ''ann''" "''lost power''" "\<lparr>rd_reason = [], rd_object = None\<rparr>"]
  by (simp add: risk_request_def)

text \<open>No contestant is ever listed under the chip \<open>GAP\<close>: blackouts are a flag of their own, not a status.\<close>

theorem gap_chip_shows_nobody:
  "''GAP'' \<in> set TELEMETRY_STATUS_OPTIONS \<and> filter (heartbeat_shown ''GAP'' query) items = []"
  by (simp add: TELEMETRY_STATUS_OPTIONS_def filter_empty_conv heartbeat_shown_def Let_def status_name_def
      split: telemetry_status.split)

end
