(* ===== verification/PeoplePages.thy ===== *)
theory PeoplePages
  imports AdminPeople AdminContest AdminHooks RosterImport
begin

text \<open>
  The pages that administer users and teams: \<open>admin-frontend/src/components/admin-users.tsx\<close>, its table
  (\<open>components/users/user-table.tsx\<close>), the panel of generated credentials (\<open>components/credentials-alert.tsx\<close>) and
  \<open>components/admin-teams.tsx\<close>. A handler is cut at its \<open>await\<close>: what it does before, and what it does with the answer.
\<close>

section \<open>Generated credentials\<close>

record credential =
  cr_username :: string
  cr_password :: string
  cr_teamName :: "string option"

definition nonempty :: "string option \<Rightarrow> bool" where
  "nonempty t \<longleftrightarrow> t \<noteq> None \<and> t \<noteq> Some []"

definition toTsv :: "credential list \<Rightarrow> string" where
  "toTsv credentials =
     join_with [CHR 0x0A]
       (map (\<lambda>c. if nonempty (cr_teamName c)
                 then cr_username c @ [CHR 0x09] @ the (cr_teamName c) @ [CHR 0x09] @ cr_password c
                 else cr_username c @ [CHR 0x09] @ cr_password c) credentials)"

definition csvCell :: "string \<Rightarrow> string" where
  "csvCell v = (if quote_char \<in> set v \<or> CHR '','' \<in> set v \<or> CHR 0x0A \<in> set v then quote_field v else v)"

definition credential_row :: "credential \<Rightarrow> string list" where
  "credential_row c = [cr_username c, (case cr_teamName c of None \<Rightarrow> [] | Some t \<Rightarrow> t), cr_password c]"

definition credentials_csv :: "credential list \<Rightarrow> string" where
  "credentials_csv credentials =
     join_with [CHR 0x0A] (map (\<lambda>row. join_with '','' (map csvCell row))
       ([''username'', ''team'', ''password''] # map credential_row credentials))"

definition plain_cell :: "string \<Rightarrow> bool" where
  "plain_cell v \<longleftrightarrow> js_trim v = v \<and> CHR 0x09 \<notin> set v \<and> CHR 0x0A \<notin> set v \<and> CHR 0x0D \<notin> set v"

lemma split_plain:
  assumes "quote_char \<notin> set v" "d \<notin> set v"
  shows "split_fields d cur False (v @ rest) = split_fields d (cur @ v) False rest"
  using assms by (induction v arbitrary: cur) auto

lemma split_cell:
  assumes "rest = [] \<or> hd rest \<noteq> quote_char"
  shows "split_fields (CHR '','') [] False (csvCell v @ rest) = split_fields (CHR '','') v False rest"
proof (cases "quote_char \<in> set v \<or> CHR '','' \<in> set v \<or> CHR 0x0A \<in> set v")
  case True
  then show ?thesis
    using split_quoted_body [OF assms, of "CHR '',''" "[]" v] by (simp add: csvCell_def quote_field_def)
next
  case False
  then show ?thesis using split_plain [of v "CHR '',''" "[]" rest] by (simp add: csvCell_def)
qed

lemma split_cells:
  assumes "fs \<noteq> []" "\<forall>f\<in>set fs. js_trim f = f"
  shows "split_fields (CHR '','') [] False (join_with '','' (map csvCell fs)) = fs"
  using assms
proof (induction fs)
  case (Cons f fs)
  show ?case
  proof (cases "fs = []")
    case True
    then show ?thesis using split_cell [of "[]" f] Cons.prems by simp
  next
    case False
    then have "join_with '','' (map csvCell (f # fs)) = csvCell f @ CHR '','' # join_with '','' (map csvCell fs)"
      by (cases fs) simp_all
    then show ?thesis using split_cell [of "CHR '','' # join_with '','' (map csvCell fs)" f] Cons False by simp
  qed
qed simp

lemma csvCell_set: "set (csvCell v) \<subseteq> insert quote_char (set v)"
  using escape_quotes_set [of v] by (auto simp: csvCell_def quote_field_def)

lemma row_text_set:
  assumes "\<forall>f\<in>set row. c \<notin> set f" "c \<noteq> quote_char" "c \<noteq> CHR '',''"
  shows "c \<notin> set (join_with '','' (map csvCell row))"
proof
  assume "c \<in> set (join_with '','' (map csvCell row))"
  then obtain f where "f \<in> set row" "c \<in> set (csvCell f)"
    using join_with_set [of "'',''" "map csvCell row"] assms(3) by auto
  then show False using assms(1,2) csvCell_set [of f] by auto
qed

lemma split_char_join:
  assumes "ls \<noteq> []" "\<forall>l\<in>set ls. d \<notin> set l"
  shows "split_char d (join_with [d] ls) = ls"
proof -
  have piece: "split_char d (l @ d # t) = l # split_char d t" if "d \<notin> set l" for l t
    using that by (induction l) auto
  have single: "split_char d l = [l]" if "d \<notin> set l" for l
    using that by (induction l) auto
  show ?thesis using assms
  proof (induction ls)
    case (Cons l ls)
    then show ?case by (cases ls) (simp_all add: piece single)
  qed simp
qed

lemma csv_lines_join:
  assumes "ls \<noteq> []" "\<forall>l\<in>set ls. CHR 0x0A \<notin> set l \<and> CHR 0x0D \<notin> set l"
  shows "csv_lines (join_with [CHR 0x0A] ls) = ls"
proof -
  have kept: "drop_cr l = l" if "l \<in> set ls" for l
  proof -
    have "last l \<noteq> CHR 0x0D" if "l \<noteq> []"
      using last_in_set [OF that] assms(2) \<open>l \<in> set ls\<close> by metis
    then show ?thesis by (auto simp: drop_cr_def)
  qed
  then have "map drop_cr ls' = ls'" if "set ls' \<subseteq> set ls" for ls'
    using that by (intro map_idI) auto
  moreover have "set (butlast ls) \<subseteq> set ls" by (auto dest: in_set_butlastD)
  ultimately have "map drop_cr (butlast ls) @ [last ls] = ls" using assms(1) by simp
  then show ?thesis using split_char_join [OF assms(1), of "CHR 0x0A"] assms(2) by (simp add: csv_lines_def)
qed

text \<open>
  C25: The file of generated credentials can be read back: for credentials without line breaks, tabs or outer blanks, the
  lines the import reader finds in the downloaded text are the header and one line per credential, and splitting each
  gives the user name, the team and the password exactly, commas and quotes included.
\<close>

theorem credentials_csv_round_trip:
  assumes "\<forall>c\<in>set cs. \<forall>v\<in>set (credential_row c). plain_cell v"
  shows "map splitDelimitedLine (csv_lines (credentials_csv cs)) =
           [''username'', ''team'', ''password''] # map credential_row cs"
proof -
  let ?rows = "[''username'', ''team'', ''password''] # map credential_row cs"
  have header: "plain_cell ''username''" "plain_cell ''team''" "plain_cell ''password''" by code_simp+
  then have plain: "\<forall>row\<in>set ?rows. \<forall>v\<in>set row. plain_cell v" using assms by auto
  have lines: "csv_lines (credentials_csv cs) = map (\<lambda>row. join_with '','' (map csvCell row)) ?rows"
    unfolding credentials_csv_def
  proof (rule csv_lines_join)
    have clean: "CHR 0x0A \<notin> set (join_with '','' (map csvCell row)) \<and> CHR 0x0D \<notin> set (join_with '','' (map csvCell row))"
      if "row \<in> set ?rows" for row
      using plain that by (intro conjI row_text_set) (auto simp: plain_cell_def)
    then show "\<forall>l\<in>set (map (\<lambda>row. join_with '','' (map csvCell row)) ?rows). CHR 0x0A \<notin> set l \<and> CHR 0x0D \<notin> set l"
      unfolding set_map by blast
  qed simp
  have row: "splitDelimitedLine (join_with '','' (map csvCell row)) = row" if "row \<in> set ?rows" for row
  proof -
    have "row \<noteq> []" using that by (auto simp: credential_row_def)
    moreover have "CHR 0x09 \<notin> set (join_with '','' (map csvCell row))"
      using plain that by (intro row_text_set) (auto simp: plain_cell_def)
    moreover have "\<forall>f\<in>set row. js_trim f = f" using plain that by (auto simp: plain_cell_def)
    ultimately show ?thesis using split_cells [of row] by (simp add: splitDelimitedLine_def)
  qed
  have all: "map splitDelimitedLine (map g rows) = rows"
    if "\<And>row. row \<in> set rows \<Longrightarrow> splitDelimitedLine (g row) = row" for g rows
    using that by (induction rows) auto
  show ?thesis unfolding lines by (rule all) (rule row)
qed

theorem credentials_csv_round_trip_witness:
  "map splitDelimitedLine (csv_lines (credentials_csv [\<lparr>cr_username = ''ann'', cr_password = ''a,b'', cr_teamName = Some ''Alpha''\<rparr>]))
     = [[''username'', ''team'', ''password''], [''ann'', ''Alpha'', ''a,b'']]"
proof -
  have "\<forall>c\<in>set [\<lparr>cr_username = ''ann'', cr_password = ''a,b'', cr_teamName = Some ''Alpha''\<rparr>]. \<forall>v\<in>set (credential_row c). plain_cell v"
    by code_simp
  from credentials_csv_round_trip [OF this] show ?thesis by (simp add: credential_row_def)
qed

section \<open>The table of users\<close>

record user =
  us_id :: string
  us_username :: string
  us_displayName :: string
  us_role :: string
  us_createdAt :: string
  us_lastLoginAt :: "string option"
  us_teamId :: "string option"
  us_teamName :: "string option"
  us_proctorExempt :: "bool option"
  us_proctorAllowWebOnly :: "bool option"
  us_proctorAccessReason :: "string option"
  us_isSuspended :: "bool option"
  us_suspendedReason :: "string option"
  us_suspendedAt :: "string option"

definition grantOf :: "user \<Rightarrow> bool" where
  "grantOf u = (case us_proctorAllowWebOnly u of None \<Rightarrow> False | Some b \<Rightarrow> b)"

datatype sub_tab = Competitors | Admins

definition currentList :: "sub_tab \<Rightarrow> user list \<Rightarrow> user list" where
  "currentList tab users =
     filter (\<lambda>u. us_role u = (case tab of Competitors \<Rightarrow> ''competitor'' | Admins \<Rightarrow> ''admin'')) users"

definition user_matches :: "string \<Rightarrow> user \<Rightarrow> bool" where
  "user_matches query u \<longleftrightarrow>
     str_includes (js_lower (us_username u)) query \<or> str_includes (js_lower (us_displayName u)) query \<or>
     (case us_teamName u of None \<Rightarrow> False | Some t \<Rightarrow> str_includes (js_lower t) query)"

definition filteredUsers :: "sub_tab \<Rightarrow> string \<Rightarrow> user list \<Rightarrow> user list" where
  "filteredUsers tab searchQuery users =
     (let query = js_lower (js_trim searchQuery)
      in if query = [] then currentList tab users else filter (user_matches query) (currentList tab users))"

definition selectedUsers :: "string set \<Rightarrow> user list \<Rightarrow> user list" where
  "selectedUsers ids listed = filter (\<lambda>u. us_id u \<in> ids) listed"

definition all_selected :: "user list \<Rightarrow> string set \<Rightarrow> bool" where
  "all_selected items ids \<longleftrightarrow> items \<noteq> [] \<and> list_all (\<lambda>u. us_id u \<in> ids) items"

definition some_selected :: "user list \<Rightarrow> string set \<Rightarrow> bool" where
  "some_selected items ids \<longleftrightarrow> \<not> all_selected items ids \<and> list_ex (\<lambda>u. us_id u \<in> ids) items"

definition handleToggleSelectAll :: "bool \<Rightarrow> user list \<Rightarrow> string set \<Rightarrow> string set" where
  "handleToggleSelectAll checked items ids = (if checked then ids \<union> us_id ` set items else ids - us_id ` set items)"

definition handleToggleRow :: "string \<Rightarrow> bool \<Rightarrow> string set \<Rightarrow> string set" where
  "handleToggleRow i checked ids = (if checked then insert i ids else ids - {i})"

definition select_all_filtered :: "user list \<Rightarrow> string set" where
  "select_all_filtered listed = us_id ` set listed"

text \<open>The table as a state: the effect on tab and search clears the selection; the list comes from the page above.\<close>

record user_table =
  ut_users :: "user list"
  ut_subTab :: sub_tab
  ut_searchQuery :: string
  ut_selectedIds :: "string set"
  ut_bulkDelete :: "user list option"

definition listed :: "user_table \<Rightarrow> user list" where
  "listed s = filteredUsers (ut_subTab s) (ut_searchQuery s) (ut_users s)"

definition bulk_targets :: "user_table \<Rightarrow> user list" where
  "bulk_targets s = selectedUsers (ut_selectedIds s) (listed s)"

definition set_view :: "sub_tab \<Rightarrow> string \<Rightarrow> user_table \<Rightarrow> user_table" where
  "set_view tab query s =
     (if tab = ut_subTab s \<and> query = ut_searchQuery s then s
      else s\<lparr>ut_subTab := tab, ut_searchQuery := query, ut_selectedIds := {}\<rparr>)"

definition confirm_bulk_delete :: "user_table \<Rightarrow> user list option \<times> user_table" where
  "confirm_bulk_delete s =
     (case ut_bulkDelete s of None \<Rightarrow> (None, s) | Some us \<Rightarrow> (Some us, s\<lparr>ut_bulkDelete := None, ut_selectedIds := {}\<rparr>))"

text \<open>The buttons of one row, and those of the bar above the table once something is selected.\<close>

definition suspend_disabled :: "bool \<Rightarrow> string option \<Rightarrow> user \<Rightarrow> bool" where
  "suspend_disabled pending currentUserId u \<longleftrightarrow> pending \<or> currentUserId = Some (us_id u) \<or> us_role u = ''admin''"

definition delete_disabled :: "bool \<Rightarrow> string option \<Rightarrow> user \<Rightarrow> bool" where
  "delete_disabled pending currentUserId u \<longleftrightarrow> pending \<or> currentUserId = Some (us_id u) \<or> us_role u = ''admin''"

definition reset_disabled :: "bool \<Rightarrow> string option \<Rightarrow> user \<Rightarrow> bool" where
  "reset_disabled pending currentUserId u \<longleftrightarrow> pending \<or> (us_role u = ''admin'' \<and> currentUserId \<noteq> Some (us_id u))"

datatype bulk_action = AllowBrowser | RequireDesktop | ExemptProctoring | EnforceProctoring | SuspendAll | RestoreAll | DeleteAll

definition bulk_bar :: "bool \<Rightarrow> user_table \<Rightarrow> bulk_action list" where
  "bulk_bar pending s =
     (if bulk_targets s = [] \<or> pending then []
      else (if ut_subTab s = Competitors then [AllowBrowser, RequireDesktop, ExemptProctoring, EnforceProctoring] else []) @
           [SuspendAll, RestoreAll, DeleteAll])"

lemma filteredUsers_sub: "set (filteredUsers tab q users) \<subseteq> set (currentList tab users)"
  by (auto simp: filteredUsers_def Let_def)

lemma toggle_pages:
  "foldl (\<lambda>ids p. handleToggleSelectAll True (items p) ids) ids ps = ids \<union> us_id ` set (concat (map items ps))"
  by (induction ps arbitrary: ids) (auto simp: handleToggleSelectAll_def)


definition plain_user :: "string \<Rightarrow> string \<Rightarrow> string option \<Rightarrow> user" where
  "plain_user i role team =
     \<lparr>us_id = i, us_username = i, us_displayName = i, us_role = role, us_createdAt = [], us_lastLoginAt = None,
      us_teamId = team, us_teamName = team, us_proctorExempt = None, us_proctorAllowWebOnly = None,
      us_proctorAccessReason = None, us_isSuspended = None, us_suspendedReason = None, us_suspendedAt = None\<rparr>"

definition some_table :: user_table where
  "some_table = \<lparr>ut_users = [plain_user ''root'' ''admin'' None, plain_user ''ann'' ''competitor'' None], ut_subTab = Admins,
     ut_searchQuery = [], ut_selectedIds = {''root''}, ut_bulkDelete = None\<rparr>"


text \<open>
  Row by row the table refuses to suspend or delete an administrator, or oneself; the bar above it offers both for
  the selected administrators, the one signed in included.
\<close>

theorem bulk_bar_ignores_admins:
  "suspend_disabled False (Some ''root'') (plain_user ''root'' ''admin'' None) \<and>
   delete_disabled False (Some ''root'') (plain_user ''root'' ''admin'' None) \<and>
   bulk_targets some_table = [plain_user ''root'' ''admin'' None] \<and>
   SuspendAll \<in> set (bulk_bar False some_table) \<and> DeleteAll \<in> set (bulk_bar False some_table)"
  by code_simp

section \<open>The page of users\<close>

datatype notice = Done string | Failed string | Warned string

datatype access_override = Exemption user | Fallback user

record users_page =
  up_creds :: "credential list"
  up_resetTarget :: "user option"
  up_deleteTarget :: "user option"
  up_suspendTarget :: "user option"
  up_assignTarget :: "user option"
  up_override :: "access_override option"
  up_pending :: bool
  up_showAdd :: bool
  up_showBulk :: bool
  up_bulkErrors :: "(string \<times> string) list"
  up_notice :: "notice option"
  up_refreshes :: nat

definition users_start :: users_page where
  "users_start = \<lparr>up_creds = [], up_resetTarget = None, up_deleteTarget = None, up_suspendTarget = None,
     up_assignTarget = None, up_override = None, up_pending = False, up_showAdd = False, up_showBulk = False,
     up_bulkErrors = [], up_notice = None, up_refreshes = 0\<rparr>"

text \<open>The shape every handler shares: \<open>catch\<close> shows the message, \<open>finally\<close> clears the flag.\<close>

definition settled :: "string \<Rightarrow> ('a \<Rightarrow> users_page \<Rightarrow> users_page) \<Rightarrow> exn + 'a \<Rightarrow> users_page \<Rightarrow> users_page" where
  "settled fallback ok result s =
     (case result of
        Inl x \<Rightarrow> s\<lparr>up_notice := Some (Failed (getErrorMessage x fallback))\<rparr>
      | Inr a \<Rightarrow> ok a s)\<lparr>up_pending := False\<rparr>"

definition succeed :: "string \<Rightarrow> users_page \<Rightarrow> users_page" where
  "succeed message s = s\<lparr>up_notice := Some (Done message), up_refreshes := Suc (up_refreshes s)\<rparr>"

definition new_credential :: "user \<Rightarrow> string \<Rightarrow> credential" where
  "new_credential u pw = \<lparr>cr_username = us_username u, cr_password = pw, cr_teamName = us_teamName u\<rparr>"

definition created_credential :: "user \<times> string option \<Rightarrow> credential list" where
  "created_credential data = (if nonempty (snd data) then [new_credential (fst data) (the (snd data))] else [])"

definition handleCreateUser_settle :: "exn + (user \<times> string option) \<Rightarrow> users_page \<Rightarrow> users_page" where
  "handleCreateUser_settle =
     settled ''Failed to create the competitor.''
       (\<lambda>data s. succeed ''Competitor created'' (s\<lparr>up_creds := created_credential data @ up_creds s, up_showAdd := False\<rparr>))"

record bulk_result =
  br_username :: string
  br_status :: string
  br_error :: "string option"
  br_password :: "string option"
  br_teamName :: "string option"
  br_user :: "user option"

definition bulk_team :: "bulk_result \<Rightarrow> string option" where
  "bulk_team r = (if nonempty (br_teamName r) then br_teamName r else (case br_user r of None \<Rightarrow> None | Some u \<Rightarrow> us_teamName u))"

definition createdCredentials :: "bulk_result list \<Rightarrow> credential list" where
  "createdCredentials results =
     map (\<lambda>r. \<lparr>cr_username = br_username r, cr_password = the (br_password r), cr_teamName = bulk_team r\<rparr>)
       (filter (\<lambda>r. br_status r = ''created'' \<and> nonempty (br_password r)) results)"

definition failedResults :: "bulk_result list \<Rightarrow> (string \<times> string) list" where
  "failedResults results =
     map (\<lambda>r. (br_username r, if nonempty (br_error r) then the (br_error r) else ''Creation failed''))
       (filter (\<lambda>r. br_status r = ''error'') results)"

definition bulk_rows :: "ParsedCsvRow list \<Rightarrow> jsv" where
  "bulk_rows rows =
     (let opt = (\<lambda>t. case t of None \<Rightarrow> Undefined | Some v \<Rightarrow> Str v)
      in Arr (map (\<lambda>r. Obj [(''username'', Str (row_username r)), (''displayName'', opt (row_displayName r)),
                            (''teamName'', opt (row_teamName r)), (''password'', opt (row_password r))]) rows))"

definition handleBulkCreate_start :: "users_page \<Rightarrow> users_page" where
  "handleBulkCreate_start s = s\<lparr>up_bulkErrors := [], up_pending := True\<rparr>"

definition handleBulkCreate_settle :: "exn + bulk_result list \<Rightarrow> users_page \<Rightarrow> users_page" where
  "handleBulkCreate_settle =
     settled ''Failed to import users.''
       (\<lambda>results s.
          let created = createdCredentials results; failed = failedResults results;
              s1 = (if created \<noteq> [] then s\<lparr>up_creds := created @ up_creds s\<rparr> else s)
          in if failed \<noteq> []
             then s1\<lparr>up_bulkErrors := failed,
                     up_notice := Some (Warned (show_nat (length created) @ '' created, '' @ show_nat (length failed) @ '' failed'')),
                     up_refreshes := Suc (up_refreshes s1)\<rparr>
             else succeed (show_nat (length created) @ '' competitor(s) imported'') (s1\<lparr>up_showBulk := False\<rparr>))"

definition confirmResetPassword_start :: "users_page \<Rightarrow> users_page" where
  "confirmResetPassword_start s =
     (case up_resetTarget s of None \<Rightarrow> s | Some t \<Rightarrow> s\<lparr>up_resetTarget := None, up_pending := True\<rparr>)"

definition confirmResetPassword_settle :: "user \<Rightarrow> exn + string \<Rightarrow> users_page \<Rightarrow> users_page" where
  "confirmResetPassword_settle target =
     settled ''Failed to reset the password.''
       (\<lambda>pw s. s\<lparr>up_creds := new_credential target pw # up_creds s, up_notice := Some (Done ''Password reset'')\<rparr>)"

definition confirmDeleteUser_start :: "users_page \<Rightarrow> users_page" where
  "confirmDeleteUser_start s =
     (case up_deleteTarget s of None \<Rightarrow> s | Some t \<Rightarrow> s\<lparr>up_deleteTarget := None, up_pending := True\<rparr>)"

definition confirmDeleteUser_settle :: "exn + unit \<Rightarrow> users_page \<Rightarrow> users_page" where
  "confirmDeleteUser_settle = settled ''Failed to delete the user.'' (\<lambda>_. succeed ''User deleted'')"

definition confirmToggleSuspension_start :: "users_page \<Rightarrow> users_page" where
  "confirmToggleSuspension_start s =
     (case up_suspendTarget s of None \<Rightarrow> s | Some t \<Rightarrow> s\<lparr>up_suspendTarget := None, up_pending := True\<rparr>)"

definition confirmToggleSuspension_settle :: "user \<Rightarrow> exn + unit \<Rightarrow> users_page \<Rightarrow> users_page" where
  "confirmToggleSuspension_settle target =
     settled ''Failed to update the suspension.''
       (\<lambda>_. succeed (if us_isSuspended target = Some True then ''User restored'' else ''User suspended''))"

text \<open>Taking an override away applies at once; granting one asks for the reason first.\<close>

definition requestExemptionToggle_users :: "user \<Rightarrow> users_page \<Rightarrow> users_page" where
  "requestExemptionToggle_users u s =
     (if us_proctorExempt u = Some True then s\<lparr>up_pending := True\<rparr> else s\<lparr>up_override := Some (Exemption u)\<rparr>)"

definition requestFallbackToggle :: "user \<Rightarrow> bool \<Rightarrow> users_page \<Rightarrow> users_page" where
  "requestFallbackToggle u enabled s =
     (if \<not> enabled then s\<lparr>up_pending := True\<rparr> else s\<lparr>up_override := Some (Fallback u)\<rparr>)"

definition apply_override_settle :: "string \<Rightarrow> string \<Rightarrow> exn + status_result \<Rightarrow> users_page \<Rightarrow> users_page" where
  "apply_override_settle fallback message =
     settled fallback
       (\<lambda>r s. if truthy (sr_error r) then s\<lparr>up_notice := Some (Failed (js_String (sr_error r)))\<rparr>
              else succeed message (s\<lparr>up_override := None\<rparr>))"

definition applyExemption_settle :: "bool \<Rightarrow> exn + status_result \<Rightarrow> users_page \<Rightarrow> users_page" where
  "applyExemption_settle enabled =
     apply_override_settle ''Failed to update the proctoring exemption.''
       (if enabled then ''Proctoring exemption granted'' else ''Proctoring exemption revoked'')"

definition applyFallback_settle :: "bool \<Rightarrow> exn + status_result \<Rightarrow> users_page \<Rightarrow> users_page" where
  "applyFallback_settle enabled =
     apply_override_settle ''Failed to update submission access.''
       (if enabled then ''Submission override granted'' else ''Submission override revoked'')"

text \<open>The bulk commands: what is sent for the targets, and the message on success.\<close>

definition bulk_input :: "bulk_action \<Rightarrow> user list \<Rightarrow> jsv" where
  "bulk_input action targets =
     (let name = (case action of AllowBrowser \<Rightarrow> ''allow_web_only'' | RequireDesktop \<Rightarrow> ''require_desktop''
                    | ExemptProctoring \<Rightarrow> ''exempt_proctor'' | EnforceProctoring \<Rightarrow> ''enforce_proctor''
                    | SuspendAll \<Rightarrow> ''suspend'' | RestoreAll \<Rightarrow> ''restore'' | DeleteAll \<Rightarrow> ''delete'')
      in Obj ([(''userIds'', Arr (map (\<lambda>u. Str (us_id u)) targets)), (''action'', Str name)] @
              (if action = DeleteAll then [] else [(''reason'', Str ''Bulk operation by organizer'')])))"

definition handleBulk :: "bulk_action \<Rightarrow> user list \<Rightarrow> jsv io option" where
  "handleBulk action targets = (if targets = [] then None else Some (bulkUserAction (bulk_input action targets)))"

text \<open>Moving a user: leaving the old team and joining the new one are two requests.\<close>

definition same_team :: "string option \<Rightarrow> string \<Rightarrow> bool" where
  "same_team previous target \<longleftrightarrow> previous = Some target"

definition assign_calls :: "parser \<Rightarrow> string option \<Rightarrow> string \<Rightarrow> string \<Rightarrow> unit io" where
  "assign_calls sp previous target userId =
     bind (if nonempty previous then bind (removeTeamMemberAction (the previous) userId) (\<lambda>_. ret ()) else ret ()) (\<lambda>_.
     if target \<noteq> [] then bind (addTeamMemberAction sp target (Obj [(''userId'', Str userId)])) (\<lambda>_. ret ()) else ret ())"

definition handleAssignTeam :: "parser \<Rightarrow> string \<Rightarrow> string \<Rightarrow> users_page \<Rightarrow> env \<Rightarrow> world \<Rightarrow> users_page \<times> world" where
  "handleAssignTeam sp userId target s e w =
     (case up_assignTarget s of
        None \<Rightarrow> (s, w)
      | Some u \<Rightarrow>
          if same_team (us_teamId u) target then (s\<lparr>up_assignTarget := None\<rparr>, w)
          else
            let (r, w') = assign_calls sp (us_teamId u) target userId e w
            in (settled ''Failed to update the team assignment.''
                  (\<lambda>_ s. succeed (if target \<noteq> [] then ''Team assignment updated'' else ''Removed from team'')
                           (s\<lparr>up_assignTarget := None\<rparr>)) r s, w'))"

section \<open>What the page keeps\<close>

datatype users_event =
    CreateSettle "exn + (user \<times> string option)"
  | BulkStart
  | BulkSettle "exn + bulk_result list"
  | ResetStart
  | ResetSettle user "exn + string"
  | DeleteStart
  | DeleteSettle "exn + unit"
  | SuspendStart
  | SuspendSettle user "exn + unit"
  | ExemptionSettle bool "exn + status_result"
  | FallbackSettle bool "exn + status_result"
  | DismissCredentials

fun users_apply :: "users_event \<Rightarrow> users_page \<Rightarrow> users_page" where
  "users_apply (CreateSettle r) s = handleCreateUser_settle r s"
| "users_apply BulkStart s = handleBulkCreate_start s"
| "users_apply (BulkSettle r) s = handleBulkCreate_settle r s"
| "users_apply ResetStart s = confirmResetPassword_start s"
| "users_apply (ResetSettle u r) s = confirmResetPassword_settle u r s"
| "users_apply DeleteStart s = confirmDeleteUser_start s"
| "users_apply (DeleteSettle r) s = confirmDeleteUser_settle r s"
| "users_apply SuspendStart s = confirmToggleSuspension_start s"
| "users_apply (SuspendSettle u r) s = confirmToggleSuspension_settle u r s"
| "users_apply (ExemptionSettle b r) s = applyExemption_settle b r s"
| "users_apply (FallbackSettle b r) s = applyFallback_settle b r s"
| "users_apply DismissCredentials s = s\<lparr>up_creds := []\<rparr>"

text \<open>The passwords an answer carries.\<close>

fun delivered :: "users_event \<Rightarrow> credential list" where
  "delivered (CreateSettle (Inr data)) = created_credential data"
| "delivered (BulkSettle (Inr results)) = createdCredentials results"
| "delivered (ResetSettle u (Inr pw)) = [new_credential u pw]"
| "delivered _ = []"

lemma users_apply_creds:
  "ev \<noteq> DismissCredentials \<Longrightarrow> up_creds (users_apply ev s) = delivered ev @ up_creds s"
  by (cases ev)
     (auto simp: handleCreateUser_settle_def settled_def succeed_def handleBulkCreate_start_def handleBulkCreate_settle_def
       confirmResetPassword_start_def confirmResetPassword_settle_def confirmDeleteUser_start_def confirmDeleteUser_settle_def
       confirmToggleSuspension_start_def confirmToggleSuspension_settle_def applyExemption_settle_def applyFallback_settle_def
       apply_override_settle_def Let_def split: sum.split option.split)

text \<open>
  A generated password, which the backend tells only once, stays on screen: whatever other commands start, succeed or
  fail in any order, the panel holds every credential delivered since it was last dismissed, newest first, and no other.
\<close>

theorem credentials_kept:
  assumes "DismissCredentials \<notin> set evs"
  shows "up_creds (fold users_apply evs (users_apply DismissCredentials s)) = concat (rev (map delivered evs))"
proof -
  have "up_creds (fold users_apply evs t) = concat (rev (map delivered evs)) @ up_creds t" for t
    using assms by (induction evs arbitrary: t) (auto simp: users_apply_creds)
  then show ?thesis by simp
qed

theorem credentials_kept_witness:
  "up_creds (fold users_apply [ResetSettle (plain_user ''ann'' ''competitor'' None) (Inr ''pw1''), DeleteSettle (Inl (Error ''x'')), BulkStart]
     (users_apply DismissCredentials users_start)) = [\<lparr>cr_username = ''ann'', cr_password = ''pw1'', cr_teamName = None\<rparr>]"
proof -
  have "DismissCredentials \<notin> set [ResetSettle (plain_user ''ann'' ''competitor'' None) (Inr ''pw1''), DeleteSettle (Inl (Error ''x'')), BulkStart]"
    by simp
  from credentials_kept [OF this] show ?thesis by (simp add: new_credential_def plain_user_def)
qed

text \<open>
  Moving a user between teams is two requests: when the second fails the first stays done. The user has no team, while
  the page, which was not reloaded, still shows the old one and keeps the dialog open, so a second try starts by leaving the
  old team again.
\<close>

definition add_refused :: env where
  "add_refused = (answering 200 ''{}'')\<lparr>env_fetch :=
     (\<lambda>log q. if req_method q = ''DELETE'' then Inr \<lparr>rsp_status = 200, rsp_headers = [], rsp_body = Inr ''{}''\<rparr>
              else Inl (Error ''fetch failed''))\<rparr>"

definition moving :: users_page where
  "moving = users_start\<lparr>up_assignTarget := Some (plain_user ''ann'' ''competitor'' (Some ''a''))\<rparr>"

lemma move_accepted:
  "zod_ref addTeamMemberPayloadSchema (Obj [(''userId'', Str ''ann'')]) = Inr (Obj [(''userId'', Str ''ann'')])"
  by (simp add: zod_ref_def addTeamMemberPayloadSchema_def drop_undefined_def)

lemma empty_object: "json_parse ''{}'' = Some (Obj [])"
  by code_simp

theorem assign_not_atomic:
  "let (s, w) = handleAssignTeam zod_ref ''ann'' ''b'' moving add_refused (with_cookie ''admin_session'' ''t'')
   in map req_method (sent w) = [''DELETE'', ''POST''] \<and> up_notice s = Some (Failed ''fetch failed'') \<and>
      up_refreshes s = 0 \<and> up_assignTarget s = up_assignTarget moving"
proof -
  have readable: "js_trim ''fetch failed'' \<noteq> []" by code_simp
  have msg: "getErrorMessage (Error (getErrorMessage (Error ''fetch failed'') f)) g = ''fetch failed''" for f g
    by (simp only: getErrorMessage.simps if_P [OF readable])
  show ?thesis using readable
    by (simp add: handleAssignTeam_def moving_def plain_user_def same_team_def assign_calls_def nonempty_def
        removeTeamMemberAction_def addTeamMemberAction_def api_call_def move_accepted io_simps add_refused_def answering_def
        rsp_ok_def pick_field_def json_value_def empty_object settled_def succeed_def users_start_def backend_request_def
        method_init_def json_init_def init_method_def with_cookie_def msg readable Let_def)
qed

section \<open>The page of teams\<close>

record team =
  tm_id :: string
  tm_name :: string
  tm_createdAt :: string
  tm_members :: "user list option"

definition unassignedCompetitors :: "user list \<Rightarrow> user list" where
  "unassignedCompetitors competitors = filter (\<lambda>c. \<not> nonempty (us_teamId c)) competitors"

definition filteredTeams :: "string \<Rightarrow> team list \<Rightarrow> team list" where
  "filteredTeams searchQuery teams =
     (let query = js_lower (js_trim searchQuery)
      in if query = [] then teams
         else filter (\<lambda>t. str_includes (js_lower (tm_name t)) query \<or>
                (case tm_members t of None \<Rightarrow> False
                 | Some ms \<Rightarrow> list_ex (\<lambda>m. str_includes (js_lower (us_username m)) query \<or>
                                         str_includes (js_lower (us_displayName m)) query) ms)) teams)"

record teams_page =
  te_creds :: "credential list"
  te_showCreate :: bool
  te_showBulk :: bool
  te_bulkErrors :: "(string \<times> string) list"
  te_editTarget :: "team option"
  te_deleteTarget :: "team option"
  te_addTarget :: "team option"
  te_removeTarget :: "(team \<times> user) option"
  te_pending :: bool
  te_notice :: "notice option"
  te_refreshes :: nat

definition te_settled :: "string \<Rightarrow> ('a \<Rightarrow> teams_page \<Rightarrow> teams_page) \<Rightarrow> exn + 'a \<Rightarrow> teams_page \<Rightarrow> teams_page" where
  "te_settled fallback ok result s =
     (case result of
        Inl x \<Rightarrow> s\<lparr>te_notice := Some (Failed (getErrorMessage x fallback))\<rparr>
      | Inr a \<Rightarrow> ok a s)\<lparr>te_pending := False\<rparr>"

definition te_succeed :: "string \<Rightarrow> teams_page \<Rightarrow> teams_page" where
  "te_succeed message s = s\<lparr>te_notice := Some (Done message), te_refreshes := Suc (te_refreshes s)\<rparr>"

text \<open>A created team answers with its members and the passwords generated for them.\<close>

definition member_credentials :: "string option \<Rightarrow> (user \<times> string option) list \<Rightarrow> credential list" where
  "member_credentials teamName members =
     map (\<lambda>(u, pw). \<lparr>cr_username = us_username u, cr_password = the pw, cr_teamName = teamName\<rparr>)
       (filter (\<lambda>(u, pw). nonempty pw) members)"

definition handleCreateTeam_settle :: "exn + (user \<times> string option) list option \<Rightarrow> teams_page \<Rightarrow> teams_page" where
  "handleCreateTeam_settle =
     te_settled ''Failed to create the team.''
       (\<lambda>members s. te_succeed ''Team created''
          (s\<lparr>te_creds := member_credentials None (case members of None \<Rightarrow> [] | Some ms \<Rightarrow> ms) @ te_creds s,
             te_showCreate := False\<rparr>))"

definition handleBulkCreateTeams_start :: "teams_page \<Rightarrow> teams_page" where
  "handleBulkCreateTeams_start s = s\<lparr>te_pending := True, te_bulkErrors := []\<rparr>"

definition handleBulkCreateTeams_settle ::
  "exn + (team \<times> (user \<times> string option) list option) list \<times> (string \<times> string) list \<Rightarrow> teams_page \<Rightarrow> teams_page" where
  "handleBulkCreateTeams_settle =
     te_settled ''Failed to import teams.''
       (\<lambda>(created, errors) s.
          let creds = concat (map (\<lambda>(t, ms). case ms of None \<Rightarrow> [] | Some l \<Rightarrow> member_credentials (Some (tm_name t)) l) created);
              s1 = (if creds \<noteq> [] then s\<lparr>te_creds := creds @ te_creds s\<rparr> else s)
          in if errors \<noteq> []
             then s1\<lparr>te_bulkErrors := errors,
                     te_notice := Some (Warned (show_nat (length created) @ '' team(s) created, '' @ show_nat (length errors) @ '' failed'')),
                     te_refreshes := Suc (te_refreshes s1)\<rparr>
             else te_succeed (show_nat (length created) @ '' team(s) created'') (s1\<lparr>te_showBulk := False\<rparr>))"

definition handleUpdateTeam_settle :: "exn + unit \<Rightarrow> teams_page \<Rightarrow> teams_page" where
  "handleUpdateTeam_settle =
     te_settled ''Failed to rename the team.'' (\<lambda>_ s. te_succeed ''Team renamed'' (s\<lparr>te_editTarget := None\<rparr>))"

definition confirmDeleteTeam_start :: "teams_page \<Rightarrow> teams_page" where
  "confirmDeleteTeam_start s =
     (case te_deleteTarget s of None \<Rightarrow> s | Some t \<Rightarrow> s\<lparr>te_deleteTarget := None, te_pending := True\<rparr>)"

definition confirmDeleteTeam_settle :: "exn + unit \<Rightarrow> teams_page \<Rightarrow> teams_page" where
  "confirmDeleteTeam_settle = te_settled ''Failed to delete the team.'' (\<lambda>_. te_succeed ''Team deleted'')"

definition handleAddMember_settle :: "exn + unit \<Rightarrow> teams_page \<Rightarrow> teams_page" where
  "handleAddMember_settle =
     te_settled ''Failed to add the member.'' (\<lambda>_ s. te_succeed ''Member added to team'' (s\<lparr>te_addTarget := None\<rparr>))"

definition confirmRemoveMember_start :: "teams_page \<Rightarrow> teams_page" where
  "confirmRemoveMember_start s =
     (case te_removeTarget s of None \<Rightarrow> s | Some p \<Rightarrow> s\<lparr>te_removeTarget := None, te_pending := True\<rparr>)"

definition confirmRemoveMember_settle :: "exn + unit \<Rightarrow> teams_page \<Rightarrow> teams_page" where
  "confirmRemoveMember_settle = te_settled ''Failed to remove the member.'' (\<lambda>_. te_succeed ''Member removed'')"

section \<open>The form for one competitor\<close>

record create_form =
  cf_username :: string
  cf_displayName :: string
  cf_password :: string
  cf_existing :: bool
  cf_selectedTeamId :: string
  cf_newTeamName :: string

text \<open>\<open>handleSubmit\<close> of \<open>users/user-create-dialog.tsx\<close>: the message shown, or what is handed on.\<close>

definition trimmed_or_undefined :: "string \<Rightarrow> jsv" where
  "trimmed_or_undefined s = js_or (Str (js_trim s)) Undefined"

definition create_handleSubmit :: "create_form \<Rightarrow> string + jsv" where
  "create_handleSubmit f =
     (if js_trim (cf_username f) = [] then Inl ''A username is required.''
      else if cf_existing f \<and> cf_selectedTeamId f = [] then Inl ''Select an existing team for this competitor.''
      else if \<not> cf_existing f \<and> js_trim (cf_newTeamName f) = [] then Inl ''Enter a name for the new team.''
      else Inr (Obj [(''username'', Str (js_trim (cf_username f))),
                     (''displayName'', trimmed_or_undefined (cf_displayName f)),
                     (''password'', trimmed_or_undefined (cf_password f)),
                     (''teamId'', if cf_existing f then Str (cf_selectedTeamId f) else Undefined),
                     (''teamName'', if cf_existing f then Undefined else Str (js_trim (cf_newTeamName f)))]))"

text \<open>
  Every competitor belongs to exactly one team: what the form hands on names a user and either an existing team or a new
  one, never both and never neither.
\<close>

theorem form_names_one_team:
  "create_handleSubmit f = Inr payload \<Longrightarrow>
     get_opt payload ''username'' \<noteq> Str [] \<and> (truthy (get_opt payload ''teamId'') \<noteq> truthy (get_opt payload ''teamName''))"
  by (auto simp: create_handleSubmit_def split: if_splits)

text \<open>A finished team command always leaves the page ready for the next one, whatever it answered.\<close>

theorem team_commands_finish:
  "\<not> te_pending (handleCreateTeam_settle r1 s) \<and> \<not> te_pending (handleBulkCreateTeams_settle r2 s) \<and>
   \<not> te_pending (handleUpdateTeam_settle r3 s) \<and> \<not> te_pending (confirmDeleteTeam_settle r3 s) \<and>
   \<not> te_pending (handleAddMember_settle r3 s) \<and> \<not> te_pending (confirmRemoveMember_settle r3 s)"
  by (simp add: handleCreateTeam_settle_def handleBulkCreateTeams_settle_def handleUpdateTeam_settle_def
      confirmDeleteTeam_settle_def handleAddMember_settle_def confirmRemoveMember_settle_def te_settled_def)

end
