(* ===== verification/SubmissionsConsole.thy ===== *)
theory SubmissionsConsole
  imports AdminProblems AdminPeople AdminHooks AdminState TestcaseUtils JsDate
begin

text \<open>
  The submissions page of the admin console (\<open>admin-frontend/src/app/(dashboard)/submissions/page.tsx\<close>): the loading hook of
  \<open>AdminState\<close> driven by the page's filter, its pager and the commands on a submission, and the inspector dialog.
\<close>

section \<open>The submissions page\<close>

definition SUBMISSION_STATUS_OPTIONS :: "string list" where
  "SUBMISSION_STATUS_OPTIONS = [''all'', ''queued'', ''running'', ''passed'', ''failed'']"

record page_data =
  pd_submissions :: jsv
  pd_total :: nat
  pd_counts :: jsv

definition EMPTY_COUNTS :: jsv where
  "EMPTY_COUNTS = Obj [(''queued'', IntV 0), (''running'', IntV 0), (''passed'', IntV 0), (''failed'', IntV 0), (''rejected'', IntV 0)]"

definition EMPTY_PAGE_DATA :: page_data where
  "EMPTY_PAGE_DATA = \<lparr>pd_submissions = Arr [], pd_total = 0, pd_counts = EMPTY_COUNTS\<rparr>"

text \<open>What the page asks for: the status filter, the page (from 1) and the page size. The total is a whole number.\<close>

type_synonym page_query = "string \<times> nat \<times> nat"

definition whole :: "jsv \<Rightarrow> nat" where
  "whole v = (case v of Num (Fin r) \<Rightarrow> nat \<lfloor>r\<rfloor> | _ \<Rightarrow> 0)"

definition submissions_loader :: "page_query \<Rightarrow> page_data io" where
  "submissions_loader key =
     (case key of (statusFilter, page, pageSize) \<Rightarrow>
        let offset = (page - 1) * pageSize
        in bind (listAdminSubmissionsAction (if statusFilter = ''all'' then [] else statusFilter) [] []
                   (IntV (int pageSize)) (IntV (int offset))) (\<lambda>res.
           bind (lift (get res ''submissions'')) (\<lambda>submissions.
           ret \<lparr>pd_submissions = js_or submissions (Arr []), pd_total = whole (js_or (get_opt res ''total'') (IntV 0)),
                pd_counts = js_or (get_opt res ''counts'') EMPTY_COUNTS\<rparr>)))"

text \<open>
  The page: the filter and pager, the loading hook, whose answers are kept with the query they were asked for, and which
  query each request of the hook carries.
\<close>

record submissions_page =
  sp_query :: page_query
  sp_load :: "(page_query \<times> page_data) loading"
  sp_asked :: "nat \<Rightarrow> page_query"
  sp_running :: "page_query list"

text \<open>
  A request of the loader of the render it is made from, whose query is the first argument; \<open>sp_running\<close> holds, for every
  command on a submission that has not ended, the query of the render it was started from.
\<close>

definition ask_from :: "page_query \<Rightarrow> bool \<Rightarrow> submissions_page \<Rightarrow> submissions_page" where
  "ask_from key isRefresh s =
     s\<lparr>sp_load := start_request isRefresh (sp_load s),
       sp_asked := (sp_asked s)(Suc (ld_request (sp_load s)) := key)\<rparr>"

definition ask :: "bool \<Rightarrow> submissions_page \<Rightarrow> submissions_page" where
  "ask isRefresh s = ask_from (sp_query s) isRefresh s"

text \<open>A new query is a new loader, which the hook runs at once.\<close>

definition change_query :: "page_query \<Rightarrow> submissions_page \<Rightarrow> submissions_page" where
  "change_query key s = (if key = sp_query s then s else ask False (s\<lparr>sp_query := key\<rparr>))"

definition set_status :: "string \<Rightarrow> submissions_page \<Rightarrow> submissions_page" where
  "set_status f s = (case sp_query s of (_, _, sz) \<Rightarrow> change_query (f, 1, sz) s)"

definition onPageChange :: "nat \<Rightarrow> submissions_page \<Rightarrow> submissions_page" where
  "onPageChange p s = (case sp_query s of (f, _, sz) \<Rightarrow> change_query (f, p, sz) s)"

definition onPageSizeChange :: "nat \<Rightarrow> submissions_page \<Rightarrow> submissions_page" where
  "onPageSizeChange sz s = (case sp_query s of (f, _, _) \<Rightarrow> change_query (f, 1, sz) s)"

definition show_all_statuses :: "submissions_page \<Rightarrow> submissions_page" where
  "show_all_statuses s = (case sp_query s of (_, p, sz) \<Rightarrow> change_query (''all'', p, sz) s)"

text \<open>A command keeps the \<open>refresh\<close> of the render it was started from, and calls it when the backend has accepted.\<close>

definition start_command :: "submissions_page \<Rightarrow> submissions_page" where
  "start_command s = s\<lparr>sp_running := sp_query s # sp_running s\<rparr>"

definition end_command :: "bool \<Rightarrow> page_query \<Rightarrow> submissions_page \<Rightarrow> submissions_page" where
  "end_command succeeded key s =
     (let s1 = s\<lparr>sp_running := remove1 key (sp_running s)\<rparr> in if succeeded then ask_from key True s1 else s1)"

definition answer :: "nat \<Rightarrow> exn + page_data \<Rightarrow> submissions_page \<Rightarrow> submissions_page" where
  "answer k result s =
     s\<lparr>sp_load := settle_request ''Failed to load submissions.'' k
         (case result of Inl x \<Rightarrow> Inl x | Inr d \<Rightarrow> Inr (sp_asked s k, d)) (sp_load s)\<rparr>"

definition open_page :: submissions_page where
  "open_page =
     \<lparr>sp_query = (''all'', 1, 25), sp_load = first_render ((''all'', 1, 25), EMPTY_PAGE_DATA), sp_asked = (\<lambda>_. (''all'', 1, 25)),
      sp_running = []\<rparr>"

datatype page_view =
    Loading
  | LoadError string
  | NothingFound string
  | RowsShown jsv nat nat nat

definition js_empty :: "jsv \<Rightarrow> bool" where
  "js_empty v \<longleftrightarrow> v = Arr [] \<or> v = Str []"

text \<open>What is rendered: in a table, the rows with the label "first - last of total".\<close>

definition submissions_view :: "submissions_page \<Rightarrow> page_view" where
  "submissions_view s =
     (let ld = sp_load s; d = snd (ld_data ld); rows = pd_submissions d
      in if ld_loading ld then Loading
         else if js_empty rows \<and> ld_error ld \<noteq> None then LoadError (the (ld_error ld))
         else if js_empty rows then
           NothingFound (if fst (sp_query s) = ''all'' then ''Nothing has been submitted yet.''
                         else ''No submission currently has the '' @ [CHR 0x22] @ fst (sp_query s) @ [CHR 0x22] @ '' status.'')
         else
           let pg = useServerPagination ([] :: jsv list) (pd_total d) (int (fst (snd (sp_query s)))) (snd (snd (sp_query s)))
           in RowsShown rows (pg_firstItem pg) (pg_lastItem pg) (pg_totalItems pg))"

text \<open>
  The steps of the page. With \<open>undisturbed\<close>, the filter and the pager are left alone while a command on a submission runs.
\<close>

inductive submissions_step :: "bool \<Rightarrow> submissions_page \<Rightarrow> submissions_page \<Rightarrow> bool" for undisturbed :: bool where
  Filter: "undisturbed \<longrightarrow> sp_running s = [] \<Longrightarrow> submissions_step undisturbed s (set_status f s)"
| TurnPage: "undisturbed \<longrightarrow> sp_running s = [] \<Longrightarrow> submissions_step undisturbed s (onPageChange p s)"
| Resize: "undisturbed \<longrightarrow> sp_running s = [] \<Longrightarrow> submissions_step undisturbed s (onPageSizeChange sz s)"
| ShowAll: "undisturbed \<longrightarrow> sp_running s = [] \<Longrightarrow> submissions_step undisturbed s (show_all_statuses s)"
| RefreshRows: "submissions_step undisturbed s (ask True s)"
| StartCommand: "submissions_step undisturbed s (start_command s)"
| EndCommand: "key \<in> set (sp_running s) \<Longrightarrow> submissions_step undisturbed s (end_command succeeded key s)"
| Answered: "k \<in> ld_pending (sp_load s) \<Longrightarrow> submissions_step undisturbed s (answer k result s)"

text \<open>Undisturbed, every command runs under the selected query, which is also the newest request's.\<close>

definition submissions_inv :: "submissions_page \<Rightarrow> bool" where
  "submissions_inv s \<longleftrightarrow>
     loading_inv (sp_load s) \<and> ld_mounted (sp_load s) \<and> sp_asked s (ld_request (sp_load s)) = sp_query s \<and>
     set (sp_running s) \<subseteq> {sp_query s} \<and>
     (\<not> ld_loading (sp_load s) \<and> ld_error (sp_load s) = None \<longrightarrow> fst (ld_data (sp_load s)) = sp_query s)"

lemmas ask_defs = ask_def ask_from_def start_request_def

lemma ask_inv:
  "loading_inv (sp_load s) \<Longrightarrow> ld_mounted (sp_load s) \<Longrightarrow> set (sp_running s) \<subseteq> {sp_query s} \<Longrightarrow>
   r = False \<or> submissions_inv s \<Longrightarrow> submissions_inv (ask r s)"
  using start_request_inv [of "sp_load s" r]
  by (auto simp: submissions_inv_def ask_defs Let_def loading_inv_def)

lemma change_query_inv: "submissions_inv s \<Longrightarrow> sp_running s = [] \<Longrightarrow> submissions_inv (change_query key s)"
  by (auto simp: change_query_def intro!: ask_inv) (auto simp: submissions_inv_def)

lemma answer_inv: "submissions_inv s \<Longrightarrow> submissions_inv (answer k result s)"
  using settle_request_inv [of "sp_load s" "''Failed to load submissions.''" k]
  by (auto simp: submissions_inv_def answer_def settle_request_def Let_def split: sum.split)

lemma end_command_inv:
  assumes "submissions_inv s" "key \<in> set (sp_running s)"
  shows "submissions_inv (end_command ok key s)"
proof -
  let ?s = "s\<lparr>sp_running := remove1 key (sp_running s)\<rparr>"
  have key: "key = sp_query s" and s: "submissions_inv ?s"
    using assms set_remove1_subset [of key "sp_running s"] by (auto simp: submissions_inv_def)
  have "submissions_inv (ask True ?s)" by (rule ask_inv) (use s in \<open>auto simp: submissions_inv_def\<close>)
  then show ?thesis using s by (simp add: end_command_def key ask_def Let_def)
qed

lemma submissions_step_inv: "submissions_step True s s' \<Longrightarrow> submissions_inv s \<Longrightarrow> submissions_inv s'"
proof (induction rule: submissions_step.induct)
  case (RefreshRows s)
  then show ?case by (intro ask_inv) (auto simp: submissions_inv_def)
next
  case (StartCommand s)
  then show ?case by (simp add: submissions_inv_def start_command_def)
qed (auto simp: set_status_def onPageChange_def onPageSizeChange_def show_all_statuses_def
      intro: change_query_inv answer_inv end_command_inv split: prod.split)

lemma open_page_inv: "submissions_inv open_page"
  using first_render_inv [of "((''all'', 1 :: nat, 25 :: nat), EMPTY_PAGE_DATA)"]
  by (simp add: submissions_inv_def open_page_def first_render_def remount_def start_request_def Let_def)

interpretation submissions_page: state_machine "\<lambda>s. s = open_page" "submissions_step True" submissions_inv
  by unfold_locales (auto intro: open_page_inv submissions_step_inv)

text \<open>
  C20: The rows under a filter are that filter's rows, as long as the filter and the pager are left alone while a command on a
  submission runs: over any interleaving of filter changes, page turns, refreshes, commands and late answers, a table
  shown without an error holds the answer to a request for exactly the filter, page and page size selected now; while that
  answer is missing, the page shows the placeholder instead.
\<close>

theorem rows_match_query:
  assumes "reaches (\<lambda>s. s = open_page) (submissions_step True) s" "ld_error (sp_load s) = None"
  shows "(submissions_view s = Loading \<or> fst (ld_data (sp_load s)) = sp_query s) \<and>
         (submissions_view s = Loading \<longrightarrow> ld_request (sp_load s) \<in> ld_pending (sp_load s))"
proof
  have inv: "submissions_inv s" by (rule submissions_page.reaches_inv [OF assms(1)])
  show "submissions_view s = Loading \<or> fst (ld_data (sp_load s)) = sp_query s"
    using inv assms(2) by (auto simp: submissions_inv_def submissions_view_def Let_def)
  have "submissions_view s = Loading \<longleftrightarrow> ld_loading (sp_load s)"
    by (simp add: submissions_view_def Let_def)
  then show "submissions_view s = Loading \<longrightarrow> ld_request (sp_load s) \<in> ld_pending (sp_load s)"
    using inv by (auto simp: submissions_inv_def loading_inv_def)
qed

theorem rows_match_query_witness:
  "submissions_view (set_status ''failed'' open_page) = Loading \<and>
     ld_request (sp_load (set_status ''failed'' open_page)) \<in> ld_pending (sp_load (set_status ''failed'' open_page))"
proof -
  have "reaches (\<lambda>s. s = open_page) (submissions_step True) (set_status ''failed'' open_page)"
    by (rule reaches_step [where s = open_page]) (auto intro: reaches_init Filter simp: open_page_def)
  moreover have "ld_error (sp_load (set_status ''failed'' open_page)) = None"
    by (simp add: set_status_def change_query_def ask_defs open_page_def first_render_def remount_def Let_def)
  moreover have "submissions_view (set_status ''failed'' open_page) = Loading"
    by (simp add: submissions_view_def set_status_def change_query_def ask_defs open_page_def first_render_def remount_def Let_def)
  ultimately show ?thesis using rows_match_query [of "set_status ''failed'' open_page"] by simp
qed

text \<open>
  A command overtaken by a change of filter brings the old filter's rows back: it refreshes with the loader of the render it
  was started from, and that request is the newest, so the page ends, idle and without an error, with the rows of "all"
  under the filter "failed".
\<close>

definition overtaken :: "page_data \<Rightarrow> page_data \<Rightarrow> submissions_page" where
  "overtaken d1 d2 =
     answer 3 (Inr d2) (end_command True (''all'', 1, 25)
       (answer 2 (Inr d1) (set_status ''failed'' (start_command (answer 1 (Inr d2) open_page)))))"

lemmas page_run =
  overtaken_def answer_def settle_request_def end_command_def start_command_def set_status_def change_query_def ask_defs open_page_def
  first_render_def remount_def Let_def

theorem overtaken_command_shows_old_filter:
  "reaches (\<lambda>s. s = open_page) (submissions_step False) (overtaken d1 d2) \<and>
   \<not> ld_loading (sp_load (overtaken d1 d2)) \<and> \<not> ld_refreshing (sp_load (overtaken d1 d2)) \<and>
   ld_error (sp_load (overtaken d1 d2)) = None \<and> ld_pending (sp_load (overtaken d1 d2)) = {} \<and>
   fst (sp_query (overtaken d1 d2)) = ''failed'' \<and> ld_data (sp_load (overtaken d1 d2)) = ((''all'', 1, 25), d2)"
proof -
  let ?a = "answer 1 (Inr d2) open_page" let ?b = "start_command ?a"
  let ?c = "set_status ''failed'' ?b" let ?d = "answer 2 (Inr d1) ?c" let ?e = "end_command True (''all'', 1, 25) ?d"
  let ?R = "reaches (\<lambda>s. s = open_page) (submissions_step False)"
  have "?R open_page" by (rule reaches_init) simp
  then have "?R ?a" by (rule reaches_step) (rule Answered, simp add: page_run)
  then have "?R ?b" by (rule reaches_step) (rule StartCommand)
  then have "?R ?c" by (rule reaches_step) (rule Filter, simp)
  then have "?R ?d" by (rule reaches_step) (rule Answered, simp add: page_run)
  then have "?R ?e" by (rule reaches_step) (rule EndCommand, simp add: page_run)
  then have "?R (overtaken d1 d2)" unfolding overtaken_def by (rule reaches_step) (rule Answered, simp add: page_run)
  moreover have "\<not> ld_loading (sp_load (overtaken d1 d2)) \<and> \<not> ld_refreshing (sp_load (overtaken d1 d2)) \<and>
      ld_error (sp_load (overtaken d1 d2)) = None \<and> ld_pending (sp_load (overtaken d1 d2)) = {} \<and>
      fst (sp_query (overtaken d1 d2)) = ''failed'' \<and> ld_data (sp_load (overtaken d1 d2)) = ((''all'', 1, 25), d2)"
    by (simp add: page_run)
  ultimately show ?thesis by blast
qed

text \<open>
  An outage reads as an empty contest: when the backend cannot be reached or refuses, the action answers with an empty
  list, so the page says that nothing has been submitted and shows no error.
\<close>

definition settled_page :: "page_data \<Rightarrow> submissions_page" where
  "settled_page d = answer 1 (Inr d) open_page"

theorem outage_reads_as_empty:
  assumes "case env_fetch e (sent w) (backend_request e w
              (with_query ''/api/v1/admin/submissions'' (submission_params [] [] [] (IntV 25) (IntV 0))) (method_init ''GET'')) of
            Inl _ \<Rightarrow> True | Inr r \<Rightarrow> \<not> rsp_ok r"
  shows "\<exists>w'. submissions_loader (''all'', 1, 25) e w = (Inr EMPTY_PAGE_DATA, w') \<and>
           submissions_view (settled_page EMPTY_PAGE_DATA) = NothingFound ''Nothing has been submitted yet.''"
proof -
  have "fst (listAdminSubmissionsAction [] [] [] (IntV 25) (IntV 0) e w) = Inr (Obj [(''submissions'', Arr []), (''total'', IntV 0)])"
    unfolding listAdminSubmissions_result using assms by (auto split: sum.splits)
  then obtain w' where "listAdminSubmissionsAction [] [] [] (IntV 25) (IntV 0) e w =
      (Inr (Obj [(''submissions'', Arr []), (''total'', IntV 0)]), w')"
    by (cases "listAdminSubmissionsAction [] [] [] (IntV 25) (IntV 0) e w") auto
  then have "submissions_loader (''all'', 1, 25) e w = (Inr EMPTY_PAGE_DATA, w')"
    by (simp add: submissions_loader_def io_simps EMPTY_PAGE_DATA_def js_or_def whole_def)
  moreover have "submissions_view (settled_page EMPTY_PAGE_DATA) = NothingFound ''Nothing has been submitted yet.''"
    by (simp add: submissions_view_def settled_page_def answer_def settle_request_def open_page_def first_render_def
        remount_def start_request_def EMPTY_PAGE_DATA_def js_empty_def Let_def)
  ultimately show ?thesis by blast
qed

theorem outage_reads_as_empty_witness:
  "\<exists>w'. submissions_loader (''all'', 1, 25) offline (with_cookie ''admin_session'' ''t'') = (Inr EMPTY_PAGE_DATA, w') \<and>
     submissions_view (settled_page EMPTY_PAGE_DATA) = NothingFound ''Nothing has been submitted yet.''"
  by (rule outage_reads_as_empty) (simp add: offline_def)

text \<open>
  A page past the end claims that there is nothing: the page number is never brought back into range, so a queue that
  drains while its second page is open shows that no submission is queued although some are, and the pager that would lead
  back is not rendered.
\<close>

definition drained :: submissions_page where
  "drained = answer 3 (Inr \<lparr>pd_submissions = Arr [], pd_total = 20, pd_counts = EMPTY_COUNTS\<rparr>)
     (onPageChange 2 (set_status ''queued'' open_page))"

theorem page_past_end_claims_empty:
  "submissions_view drained = NothingFound (''No submission currently has the '' @ [CHR 0x22] @ ''queued'' @ [CHR 0x22] @ '' status.'') \<and>
   pd_total (snd (ld_data (sp_load drained))) = 20"
  by (simp add: submissions_view_def drained_def answer_def settle_request_def open_page_def first_render_def onPageChange_def
      set_status_def change_query_def ask_defs remount_def js_empty_def Let_def)

text \<open>
  A failed change of filter leaves the old filter's rows on screen under the new filter, with no error: the message is shown
  only when there are no rows.
\<close>

definition failed_filter :: submissions_page where
  "failed_filter = answer 2 (Inl (Error ''Failed to fetch''))
     (set_status ''failed'' (settled_page \<lparr>pd_submissions = Arr [Str ''a passed one''], pd_total = 1, pd_counts = EMPTY_COUNTS\<rparr>))"

theorem failed_filter_shows_old_rows:
  "submissions_view failed_filter = RowsShown (Arr [Str ''a passed one'']) 1 1 1 \<and> fst (sp_query failed_filter) = ''failed'' \<and>
   ld_error (sp_load failed_filter) \<noteq> None"
  by (simp add: submissions_view_def failed_filter_def settled_page_def answer_def settle_request_def open_page_def
      first_render_def set_status_def change_query_def ask_defs remount_def js_empty_def
      useServerPagination_def page_count_def Let_def)

section \<open>Commands on submissions\<close>

record submission_commands =
  sm_selected :: jsv
  sm_reviewTarget :: jsv
  sm_reviewReason :: string
  sm_unstickTarget :: jsv
  sm_busyId :: jsv
  sm_reviewing :: bool
  sm_notice :: "(bool \<times> string) option"
  sm_refreshes :: nat

definition no_commands :: submission_commands where
  "no_commands = \<lparr>sm_selected = Null, sm_reviewTarget = Null, sm_reviewReason = [], sm_unstickTarget = Null, sm_busyId = Null,
     sm_reviewing = False, sm_notice = None, sm_refreshes = 0\<rparr>"

definition inspect_start :: "jsv \<Rightarrow> submission_commands \<Rightarrow> submission_commands" where
  "inspect_start sub s = s\<lparr>sm_selected := sub\<rparr>"

definition inspect_settle :: "jsv \<Rightarrow> submission_commands \<Rightarrow> submission_commands" where
  "inspect_settle full s =
     (if truthy full \<and> get_opt (sm_selected s) ''submissionId'' = get_opt full ''submissionId''
      then s\<lparr>sm_selected := full\<rparr> else s)"

text \<open>\<open>try\<close> with the error of a refused command thrown, \<open>catch\<close> and what follows; \<open>refresh\<close> never throws.\<close>

definition command_failure :: "string \<Rightarrow> exn + ok_result \<Rightarrow> string option" where
  "command_failure fallback result =
     (case result of
        Inl x \<Rightarrow> Some (getErrorMessage x fallback)
      | Inr r \<Rightarrow> if ok_success r then None else Some (getErrorMessage (Error (js_String (ok_error r))) fallback))"

definition busy_settle :: "string \<Rightarrow> string \<Rightarrow> exn + ok_result \<Rightarrow> submission_commands \<Rightarrow> submission_commands" where
  "busy_settle fallback message result s =
     (case command_failure fallback result of
        Some m \<Rightarrow> s\<lparr>sm_notice := Some (False, m)\<rparr>
      | None \<Rightarrow> s\<lparr>sm_notice := Some (True, message), sm_refreshes := Suc (sm_refreshes s)\<rparr>)\<lparr>sm_busyId := Null\<rparr>"

definition busy_start :: "jsv \<Rightarrow> submission_commands \<Rightarrow> submission_commands" where
  "busy_start sub s = s\<lparr>sm_busyId := get_opt sub ''submissionId''\<rparr>"

definition handleRejudge_settle :: "exn + ok_result \<Rightarrow> submission_commands \<Rightarrow> submission_commands" where
  "handleRejudge_settle = busy_settle ''Failed to re-judge the submission.'' ''Re-queued for judging''"

definition handleRestore_settle :: "exn + review_result \<Rightarrow> submission_commands \<Rightarrow> submission_commands" where
  "handleRestore_settle result =
     busy_settle ''Failed to restore the submission.'' ''Submission restored''
       (map_sum id (\<lambda>r. \<lparr>ok_success = rv_success r, ok_error = rv_error r\<rparr>) result)"

definition confirmUnstick_start :: "submission_commands \<Rightarrow> submission_commands" where
  "confirmUnstick_start s =
     (if truthy (sm_unstickTarget s) then (busy_start (sm_unstickTarget s) s)\<lparr>sm_unstickTarget := Null\<rparr> else s)"

definition confirmUnstick_settle :: "exn + ok_result \<Rightarrow> submission_commands \<Rightarrow> submission_commands" where
  "confirmUnstick_settle = busy_settle ''Failed to clear the submission lock.'' ''Submission locks cleared''"

text \<open>The call a rejection makes: none without a target or with a blank reason.\<close>

definition handleReject :: "parser \<Rightarrow> submission_commands \<Rightarrow> review_result io option" where
  "handleReject sp s =
     (if \<not> truthy (sm_reviewTarget s) \<or> js_trim (sm_reviewReason s) = [] then None
      else Some (reviewSubmissionAction sp (js_String (get_opt (sm_reviewTarget s) ''submissionId'')) (Str ''rejected'')
                   (Str (js_trim (sm_reviewReason s)))))"

definition handleReject_settle :: "exn + review_result \<Rightarrow> submission_commands \<Rightarrow> submission_commands" where
  "handleReject_settle result s =
     (case command_failure ''Failed to reject the submission.''
             (map_sum id (\<lambda>r. \<lparr>ok_success = rv_success r, ok_error = rv_error r\<rparr>) result) of
        Some m \<Rightarrow> s\<lparr>sm_notice := Some (False, m)\<rparr>
      | None \<Rightarrow> s\<lparr>sm_reviewTarget := Null, sm_reviewReason := [], sm_notice := Some (True, ''Submission rejected''),
                  sm_refreshes := Suc (sm_refreshes s)\<rparr>)\<lparr>sm_reviewing := False\<rparr>"

datatype inspection = Inspect jsv | Loaded jsv | CloseInspector

fun inspect_apply :: "inspection \<Rightarrow> submission_commands \<Rightarrow> submission_commands" where
  "inspect_apply (Inspect sub) s = inspect_start sub s"
| "inspect_apply (Loaded full) s = inspect_settle full s"
| "inspect_apply CloseInspector s = s\<lparr>sm_selected := Null\<rparr>"

definition is_loaded :: "inspection \<Rightarrow> bool" where
  "is_loaded ev = (case ev of Loaded _ \<Rightarrow> True | _ \<Rightarrow> False)"

text \<open>
  The inspector always shows the submission that was opened last: full records that arrive late or out of order, or after
  the dialog was closed, never replace it with another submission; each is either the record of the submission on
  screen or dropped.
\<close>

theorem inspector_shows_last_opened:
  "get_opt (sm_selected (fold inspect_apply evs s)) ''submissionId'' =
     get_opt (sm_selected (fold inspect_apply (filter (\<lambda>ev. \<not> is_loaded ev) evs) s)) ''submissionId''"
proof -
  have step: "get_opt (sm_selected (inspect_apply ev t)) ''submissionId'' = get_opt (sm_selected (inspect_apply ev u)) ''submissionId''"
    if "get_opt (sm_selected t) ''submissionId'' = get_opt (sm_selected u) ''submissionId''" "\<not> is_loaded ev" for ev t u
    using that by (cases ev) (auto simp: inspect_start_def is_loaded_def)
  have late: "get_opt (sm_selected (inspect_apply ev t)) ''submissionId'' = get_opt (sm_selected t) ''submissionId''"
    if "is_loaded ev" for ev t
    using that by (cases ev) (auto simp: inspect_settle_def is_loaded_def)
  have "get_opt (sm_selected (fold inspect_apply evs t)) ''submissionId'' =
     get_opt (sm_selected (fold inspect_apply (filter (\<lambda>ev. \<not> is_loaded ev) evs) u)) ''submissionId''"
    if "get_opt (sm_selected t) ''submissionId'' = get_opt (sm_selected u) ''submissionId''" for t u
    using that
  proof (induction evs arbitrary: t u)
    case (Cons ev evs)
    show ?case
    proof (cases "is_loaded ev")
      case True
      then show ?thesis using Cons.IH [of "inspect_apply ev t" u] late [OF True, of t] Cons.prems by simp
    next
      case False
      then show ?thesis using Cons.IH [OF step [OF Cons.prems False]] by simp
    qed
  qed simp
  then show ?thesis by blast
qed

text \<open>The commands a row offers; they are disabled while the row is the busy one.\<close>

datatype row_action = RejudgeRow | RestoreRow | RejectRow | UnstickRow

definition row_actions :: "jsv \<Rightarrow> row_action list" where
  "row_actions sub =
     [RejudgeRow, if get_opt sub ''reviewStatus'' = Str ''rejected'' then RestoreRow else RejectRow] @
     (if truthy (get_opt sub ''teamId'') then [UnstickRow] else [])"

definition row_busy :: "submission_commands \<Rightarrow> jsv \<Rightarrow> bool" where
  "row_busy s sub \<longleftrightarrow> sm_busyId s = get_opt sub ''submissionId''"

text \<open>
  One flag marks the busy row: a second command moves it to its own row, and the first one's answer clears it, so the
  second row's buttons are enabled again while its command is still running.
\<close>

theorem busy_flag_lost:
  "row_busy (busy_start (Obj [(''submissionId'', Str b)]) (busy_start a s)) (Obj [(''submissionId'', Str b)]) \<and>
   \<not> row_busy (handleRejudge_settle result (busy_start (Obj [(''submissionId'', Str b)]) (busy_start a s)))
       (Obj [(''submissionId'', Str b)])"
  by (simp add: handleRejudge_settle_def busy_settle_def row_busy_def busy_start_def get_opt_def field_def)

text \<open>
  Rejecting and restoring are each other's way back: a row offers exactly one of them, and a submission cannot be rejected
  without a reason.
\<close>

theorem reject_needs_reason:
  "(RejectRow \<in> set (row_actions sub)) \<noteq> (RestoreRow \<in> set (row_actions sub)) \<and>
   (handleReject sp s \<noteq> None \<longleftrightarrow> truthy (sm_reviewTarget s) \<and> js_trim (sm_reviewReason s) \<noteq> [])"
  by (auto simp: row_actions_def handleReject_def)

end
