(* ===== verification/OverviewPages.thy ===== *)
theory OverviewPages
  imports SubmissionsConsole AdminContest
begin

text \<open>
  The pages that summarise: the audit log (\<open>admin-frontend/src/app/(dashboard)/audit/page.tsx\<close>) and the overview
  (\<open>app/(dashboard)/page.tsx\<close> with \<open>components/dashboard\<close>). Rows are the backend's objects.
\<close>

section \<open>The audit log\<close>

record audit_filters =
  af_action :: string
  af_status :: string
  af_target :: string
  af_actor :: string

definition AUDIT_STATUS_OPTIONS :: "string list" where
  "AUDIT_STATUS_OPTIONS = [''all'', ''success'', ''failure'', ''locked'', ''blocked'']"

definition TARGET_TYPE_OPTIONS :: "string list" where
  "TARGET_TYPE_OPTIONS = [''all'', ''auth'', ''user'', ''team'', ''contest'', ''problem'', ''submission'', ''proctor'']"

definition ACTION_OPTIONS :: "string list" where
  "ACTION_OPTIONS =
     [''all'', ''auth.login.success'', ''auth.login.failure'', ''auth.login.locked'', ''auth.logout'', ''auth.password_change'',
      ''user.create'', ''user.bulk_create'', ''user.delete'', ''user.suspend'', ''user.restore'', ''user.role_update'',
      ''user.reset_password'', ''user.exemption_update'', ''user.access_update'', ''team.create'', ''team.update'',
      ''team.delete'', ''team.member_add'', ''team.member_remove'', ''contest.start'', ''contest.pause'', ''contest.resume'',
      ''contest.extend'', ''contest.freeze'', ''contest.unfreeze'', ''contest.reset'', ''contest.end'',
      ''contest.settings_update'', ''problem.create'', ''problem.update'', ''problem.delete'', ''problem.publish'',
      ''problem.rejudge'', ''submission.rejudge'', ''submission.cancel'', ''submission.review'', ''proctor.revoke'',
      ''proctor.readmit'']"

definition all_filters :: audit_filters where
  "all_filters = \<lparr>af_action = ''all'', af_status = ''all'', af_target = ''all'', af_actor = []\<rparr>"

definition chosen :: "string \<Rightarrow> jsv" where
  "chosen f = (if f = ''all'' then Undefined else Str f)"

definition audit_filter :: "audit_filters \<Rightarrow> jsv" where
  "audit_filter f =
     Obj [(''limit'', IntV 50), (''offset'', IntV 0), (''action'', chosen (af_action f)), (''status'', chosen (af_status f)),
          (''targetType'', chosen (af_target f)), (''actorUsername'', js_or (Str (js_trim (af_actor f))) Undefined)]"

definition audit_loader :: "audit_filters \<Rightarrow> jsv list io" where
  "audit_loader f = bind (getAuditLogsAction (audit_filter f)) (\<lambda>res. ret (arr_of (js_or (al_logs res) (Arr []))))"

record audit_counts =
  ac_total :: nat
  ac_failures :: nat
  ac_authEvents :: nat
  ac_adminChanges :: nat

definition is_auth :: "jsv \<Rightarrow> bool" where
  "is_auth l = starts_with (js_String (get_opt l ''action'')) ''auth.''"

definition count_logs :: "jsv list \<Rightarrow> audit_counts" where
  "count_logs logs =
     \<lparr>ac_total = length logs,
      ac_failures = length (filter (\<lambda>l. get_opt l ''status'' \<in> {Str ''failure'', Str ''locked'', Str ''blocked''}) logs),
      ac_authEvents = length (filter is_auth logs),
      ac_adminChanges = length (filter (\<lambda>l. \<not> is_auth l) logs)\<rparr>"

datatype tone = Positive | Negative | Cautious | Highlighted | Neutral

definition audit_status_badge :: "string \<Rightarrow> tone \<times> string" where
  "audit_status_badge status =
     (if status = ''success'' then (Positive, ''Success'')
      else if status = ''failure'' then (Negative, ''Failure'')
      else if status = ''locked'' then (Cautious, ''Locked'')
      else if status = ''blocked'' then (Negative, ''Blocked'')
      else (Neutral, status))"

definition action_badge :: "string \<Rightarrow> tone \<times> string" where
  "action_badge action =
     ((if starts_with action ''auth.login.failure'' \<or> starts_with action ''auth.login.locked'' then Negative
       else if starts_with action ''contest.'' then Highlighted
       else if starts_with action ''user.delete'' \<or> starts_with action ''user.suspend'' then Negative
       else Neutral), action)"

definition clear_audit_filters :: "audit_filters \<Rightarrow> audit_filters" where
  "clear_audit_filters f = f\<lparr>af_action := ''all'', af_status := ''all'', af_target := ''all'', af_actor := []\<rparr>"

text \<open>The clearing button is offered when the table is empty and some filter is set.\<close>

definition can_clear :: "audit_filters \<Rightarrow> bool" where
  "can_clear f \<longleftrightarrow> af_action f \<noteq> ''all'' \<or> af_status f \<noteq> ''all'' \<or> af_target f \<noteq> ''all'' \<or> af_actor f \<noteq> []"

definition chosen_param :: "string \<Rightarrow> string \<Rightarrow> (string \<times> string) list" where
  "chosen_param k f = (if f = ''all'' \<or> f = [] then [] else [(k, f)])"

lemma show_audit_numbers: "nonneg_text 50 = ''50''" "nonneg_text 0 = ''0''"
  by code_simp+

lemma audit_query_filter:
  "audit_query (audit_filter f) =
     [(''limit'', ''50''), (''offset'', ''0'')] @ chosen_param ''action'' (af_action f) @ chosen_param ''status'' (af_status f) @
     (if js_trim (af_actor f) = [] then [] else [(''actorUsername'', js_trim (af_actor f))]) @
     chosen_param ''targetType'' (af_target f)"
  by (simp add: audit_query_def audit_filter_def chosen_def chosen_param_def js_or_def get_opt_def field_def show_audit_numbers)

lemma audit_request_log:
  "sent (snd (getAuditLogsAction flt e w)) =
     sent w @ [backend_request e w (with_query ''/api/v1/admin/audit-logs'' (audit_query flt)) no_init]"
proof -
  have "wp (getAuditLogsAction flt) (\<lambda>_ w'. sent w' = sent w @
      [backend_request e w (with_query ''/api/v1/admin/audit-logs'' (audit_query flt)) no_init]) e w"
    unfolding getAuditLogsAction_def by (intro admin_wp_rules) simp_all
  then show ?thesis by (simp add: wp_def split: prod.splits)
qed

text \<open>
  The audit page asks for exactly the filters on screen, and for nothing but the newest fifty events: whatever the
  filters, loading sends one request whose query is the limit 50, the offset 0 and each filter that is set. No older
  event can be asked for, and "Total Logged Events" is the number of rows of that one answer. The cards add up: every
  event counts as an authentication event or as an operational modification.
\<close>

theorem audit_newest_fifty:
  "sent (snd (audit_loader f e w)) = sent w @ [backend_request e w (with_query ''/api/v1/admin/audit-logs''
     ([(''limit'', ''50''), (''offset'', ''0'')] @ chosen_param ''action'' (af_action f) @ chosen_param ''status'' (af_status f) @
      (if js_trim (af_actor f) = [] then [] else [(''actorUsername'', js_trim (af_actor f))]) @
      chosen_param ''targetType'' (af_target f))) no_init] \<and>
   ac_total (count_logs logs) = length logs \<and>
   ac_authEvents (count_logs logs) + ac_adminChanges (count_logs logs) = ac_total (count_logs logs) \<and>
   ac_failures (count_logs logs) \<le> ac_total (count_logs logs)"
proof -
  have "sent (snd (audit_loader f e w)) = sent (snd (getAuditLogsAction (audit_filter f) e w))"
    by (simp add: audit_loader_def io_simps split: prod.split sum.split)
  then show ?thesis
    by (simp add: audit_request_log audit_query_filter count_logs_def sum_length_filter_compl)
qed

text \<open>Every event the page's own filter names gets its badge, and a cleared filter cannot be cleared again.\<close>

theorem audit_badges:
  "map (fst \<circ> action_badge) [''auth.login.failure'', ''auth.login.locked'', ''contest.start'', ''user.delete'', ''team.delete''] =
     [Negative, Negative, Highlighted, Negative, Neutral] \<and>
   list_all (\<lambda>s. s = ''all'' \<or> fst (audit_status_badge s) \<noteq> Neutral) AUDIT_STATUS_OPTIONS \<and>
   distinct ACTION_OPTIONS \<and> distinct TARGET_TYPE_OPTIONS \<and> \<not> can_clear (clear_audit_filters f)"
  by (simp add: action_badge_def audit_status_badge_def AUDIT_STATUS_OPTIONS_def ACTION_OPTIONS_def TARGET_TYPE_OPTIONS_def
      can_clear_def clear_audit_filters_def)

section \<open>The overview\<close>

record dashboard_data =
  da_problems :: "jsv list"
  da_users :: "jsv list"
  da_teams :: "jsv list"
  da_submissions :: "jsv list"
  da_contest :: "contest_state option"
  da_proctor :: jsv

definition EMPTY_DASHBOARD :: dashboard_data where
  "EMPTY_DASHBOARD = \<lparr>da_problems = [], da_users = [], da_teams = [], da_submissions = [], da_contest = None, da_proctor = Null\<rparr>"

text \<open>\<open>action().catch(() => fallback)\<close>. The server runs the six actions one after the other.\<close>

definition or_else :: "'a \<Rightarrow> 'a io \<Rightarrow> 'a io" where
  "or_else fallback m = catch m (\<lambda>_. ret fallback)"

definition overview_loader :: "dashboard_data io" where
  "overview_loader =
     bind (or_else [] (bind listProblemsAction (\<lambda>v. ret (arr_of v)))) (\<lambda>problems.
     bind (or_else [] (bind listUsersAction (\<lambda>v. ret (arr_of v)))) (\<lambda>users.
     bind (or_else [] (bind listTeamsAction (\<lambda>v. ret (arr_of v)))) (\<lambda>teams.
     bind (or_else [] (bind (listAdminSubmissionsAction [] [] [] Undefined Undefined) (\<lambda>res.
             bind (lift (get res ''submissions'')) (\<lambda>v. ret (arr_of (js_or v (Arr [])))))))  (\<lambda>submissions.
     bind (or_else None (bind getAdminContestStateAction (\<lambda>c. ret (Some c)))) (\<lambda>contest.
     bind (or_else Undefined (bind (getMonitoringSnapshotAction [''overview'']) (\<lambda>r. ret (sn_snapshot r)))) (\<lambda>snapshot.
     ret \<lparr>da_problems = problems, da_users = users, da_teams = teams, da_submissions = submissions, da_contest = contest,
          da_proctor = js_coalesce (get_opt snapshot ''overview'') Null\<rparr>))))))"

definition js_length :: "jsv \<Rightarrow> jsv" where
  "js_length v = (case v of Arr xs \<Rightarrow> IntV (int (length xs)) | Str s \<Rightarrow> IntV (int (length s)) | _ \<Rightarrow> Undefined)"

definition testCountOf :: "jsv \<Rightarrow> jsv" where
  "testCountOf problem =
     js_coalesce (js_coalesce (get_opt problem ''testCount'') (js_length (get_opt problem ''tests''))) (IntV 0)"

definition below :: "jsv \<Rightarrow> nat \<Rightarrow> bool" where
  "below v n = (num_le (js_Number v) (Fin (of_nat n)) \<and> js_Number v \<noteq> Fin (of_nat n))"

record figures =
  fi_problems :: nat
  fi_published :: nat
  fi_underTested :: nat
  fi_competitors :: nat
  fi_suspended :: nat
  fi_unassigned :: nat
  fi_teams :: nat
  fi_emptyTeams :: nat
  fi_queued :: nat
  fi_running :: nat
  fi_failed :: nat
  fi_rejected :: nat

definition count :: "('a \<Rightarrow> bool) \<Rightarrow> 'a list \<Rightarrow> nat" where
  "count P xs = length (filter P xs)"

definition in_role :: "string \<Rightarrow> jsv \<Rightarrow> bool" where
  "in_role r u = (get_opt u ''role'' = Str r)"

definition in_status :: "string \<Rightarrow> jsv \<Rightarrow> bool" where
  "in_status st sub = (get_opt sub ''status'' = Str st)"

definition dashboard_figures :: "dashboard_data \<Rightarrow> figures" where
  "dashboard_figures d =
     (let competitors = filter (in_role ''competitor'') (da_users d); subs = da_submissions d
      in \<lparr>fi_problems = length (da_problems d),
          fi_published = count (\<lambda>p. truthy (get_opt p ''published'')) (da_problems d),
          fi_underTested = count (\<lambda>p. below (testCountOf p) MIN_EVALUATION_TEST_CASES) (da_problems d),
          fi_competitors = length competitors,
          fi_suspended = count (\<lambda>u. truthy (get_opt u ''isSuspended'')) competitors,
          fi_unassigned = count (\<lambda>u. \<not> truthy (get_opt u ''teamId'')) competitors,
          fi_teams = length (da_teams d),
          fi_emptyTeams = count (\<lambda>t. js_coalesce (js_length (get_opt t ''members'')) (IntV 0) = IntV 0) (da_teams d),
          fi_queued = count (in_status ''queued'') subs,
          fi_running = count (in_status ''running'') subs,
          fi_failed = count (in_status ''failed'') subs,
          fi_rejected = count (\<lambda>s. get_opt s ''reviewStatus'' = Str ''rejected'') subs\<rparr>)"

definition fleet_of :: "dashboard_data \<Rightarrow> jsv" where
  "fleet_of d = get_opt (da_proctor d) ''fleet''"

definition fleet_number :: "jsv \<Rightarrow> string \<Rightarrow> rat" where
  "fleet_number fleet k = (case get_opt fleet k of Num (Fin r) \<Rightarrow> r | _ \<Rightarrow> 0)"

definition notReporting :: "jsv \<Rightarrow> rat" where
  "notReporting fleet = (if truthy fleet then fleet_number fleet ''stale'' + fleet_number fleet ''offline'' else 0)"

text \<open>The readiness checks; the texts that explain a check are left out.\<close>

datatype check_status = Blocked | Warn | OkCheck

record readiness_check =
  rc_id :: string
  rc_status :: check_status
  rc_href :: string
  rc_action :: string

definition readiness_checks :: "dashboard_data \<Rightarrow> readiness_check list" where
  "readiness_checks d =
     (let f = dashboard_figures d; fleet = fleet_of d
      in [\<lparr>rc_id = ''problems'', rc_status = (if fi_published f > 0 then OkCheck else Blocked), rc_href = ''/problems'',
           rc_action = ''Publish''\<rparr>,
          \<lparr>rc_id = ''tests'', rc_status = (if fi_underTested f = 0 then OkCheck else Warn), rc_href = ''/problems'',
           rc_action = ''Add tests''\<rparr>,
          \<lparr>rc_id = ''roster'', rc_status = (if fi_competitors f = 0 then Blocked else OkCheck), rc_href = ''/users'',
           rc_action = ''Add''\<rparr>,
          \<lparr>rc_id = ''teams'', rc_status = (if fi_unassigned f = 0 \<and> fi_emptyTeams f = 0 then OkCheck else Warn),
           rc_href = ''/teams'', rc_action = ''Assign''\<rparr>,
          \<lparr>rc_id = ''proctoring'', rc_status = (if \<not> truthy fleet then Warn else if notReporting fleet > 0 then Warn else OkCheck),
           rc_href = ''/monitoring/telemetry'', rc_action = ''Inspect''\<rparr>])"

primrec check_order :: "check_status \<Rightarrow> int" where
  "check_order Blocked = 0"
| "check_order Warn = 1"
| "check_order OkCheck = 2"

definition sorted_checks :: "readiness_check list \<Rightarrow> readiness_check list" where
  "sorted_checks checks = js_sort (by_key (\<lambda>c. check_order (rc_status c))) checks"

definition blocking :: "readiness_check list \<Rightarrow> nat" where
  "blocking checks = count (\<lambda>c. rc_status c = Blocked) checks"

definition shows_action :: "readiness_check \<Rightarrow> bool" where
  "shows_action c \<longleftrightarrow> rc_href c \<noteq> [] \<and> rc_status c \<noteq> OkCheck"

text \<open>The newest eight submissions: a difference of dates that is not a number counts as 0 to the sort.\<close>

definition newer :: "jsv \<Rightarrow> jsv \<Rightarrow> int" where
  "newer a b =
     (case (date_time (get_opt b ''createdAt''), date_time (get_opt a ''createdAt'')) of
        (Fin x, Fin y) \<Rightarrow> \<lfloor>x\<rfloor> - \<lfloor>y\<rfloor> | _ \<Rightarrow> 0)"

definition recentSubmissions :: "jsv list \<Rightarrow> jsv list" where
  "recentSubmissions submissions = take 8 (js_sort newer submissions)"

definition verdict_badge :: "jsv \<Rightarrow> tone \<times> string" where
  "verdict_badge sub =
     (if in_status ''queued'' sub then (Cautious, ''Queued'')
      else if in_status ''running'' sub then (Highlighted, ''Running'')
      else if in_status ''passed'' sub then (Positive, js_String (js_or (get_opt sub ''verdict'') (Str ''AC'')))
      else (Negative, js_String (js_or (get_opt sub ''verdict'') (Str ''Failed''))))"

section \<open>What the overview guarantees\<close>

lemma count_pos: "count P xs > 0 \<longleftrightarrow> (\<exists>x\<in>set xs. P x)"
  by (auto simp: count_def filter_empty_conv)

lemma count_zero: "count P xs = 0 \<longleftrightarrow> (\<forall>x\<in>set xs. \<not> P x)"
  by (simp add: count_def filter_empty_conv)

lemma sorted_checks_order: "sorted_wrt (\<lambda>x y. check_order (rc_status x) \<le> check_order (rc_status y)) (sorted_checks cs)"
  using key_asc.sorted_js_sort [of "\<lambda>c. check_order (rc_status c)" cs] by (simp add: sorted_checks_def by_key_def)

text \<open>
  The readiness list tells whether the contest can start, worst first: a row is blocking exactly when no problem is
  published or no competitor exists; the rows are the five checks, ordered so that whatever blocks comes before every
  warning and every warning before what is fine, so if anything blocks, the first row does; and a link to the page that
  fixes a check is offered exactly while the check is not fine.
\<close>

theorem readiness_worst_first:
  "mset (sorted_checks (readiness_checks d)) = mset (readiness_checks d) \<and> length (sorted_checks (readiness_checks d)) = 5 \<and>
   (blocking (readiness_checks d) = 0 \<longleftrightarrow>
      (\<exists>p\<in>set (da_problems d). truthy (get_opt p ''published'')) \<and> (\<exists>u\<in>set (da_users d). in_role ''competitor'' u)) \<and>
   (blocking (readiness_checks d) > 0 \<longrightarrow> rc_status (hd (sorted_checks (readiness_checks d))) = Blocked) \<and>
   sorted_wrt (\<lambda>x y. check_order (rc_status x) \<le> check_order (rc_status y)) (sorted_checks (readiness_checks d)) \<and>
   (\<forall>c\<in>set (readiness_checks d). shows_action c \<longleftrightarrow> rc_status c \<noteq> OkCheck)"
proof (intro conjI)
  let ?cs = "readiness_checks d"
  show "mset (sorted_checks ?cs) = mset ?cs" "length (sorted_checks ?cs) = 5"
    by (simp_all add: sorted_checks_def readiness_checks_def Let_def)
  show "blocking ?cs = 0 \<longleftrightarrow>
      (\<exists>p\<in>set (da_problems d). truthy (get_opt p ''published'')) \<and> (\<exists>u\<in>set (da_users d). in_role ''competitor'' u)"
    by (auto simp: blocking_def count_zero readiness_checks_def dashboard_figures_def Let_def count_pos filter_empty_conv)
  show "sorted_wrt (\<lambda>x y. check_order (rc_status x) \<le> check_order (rc_status y)) (sorted_checks ?cs)"
    by (rule sorted_checks_order)
  show "\<forall>c\<in>set ?cs. shows_action c \<longleftrightarrow> rc_status c \<noteq> OkCheck"
    by (auto simp: readiness_checks_def shows_action_def Let_def)
  show "blocking ?cs > 0 \<longrightarrow> rc_status (hd (sorted_checks ?cs)) = Blocked"
  proof
    assume "blocking ?cs > 0"
    then obtain c where "c \<in> set ?cs" "rc_status c = Blocked" by (auto simp: blocking_def count_pos)
    then have "by_key (\<lambda>c. check_order (rc_status c)) (hd (sorted_checks ?cs)) c \<le> 0"
      unfolding sorted_checks_def by (intro key_asc.js_sort_hd_minimal)
    then show "rc_status (hd (sorted_checks ?cs)) = Blocked"
      using \<open>rc_status c = Blocked\<close> by (cases "rc_status (hd (sorted_checks ?cs))") (auto simp: by_key_def)
  qed
qed

theorem readiness_worst_first_witness:
  "blocking (readiness_checks EMPTY_DASHBOARD) > 0 \<and>
   rc_status (hd (sorted_checks (readiness_checks EMPTY_DASHBOARD))) = Blocked"
proof -
  have b: "blocking (readiness_checks EMPTY_DASHBOARD) > 0"
    by (simp add: blocking_def count_def readiness_checks_def dashboard_figures_def EMPTY_DASHBOARD_def Let_def)
  have "blocking (readiness_checks EMPTY_DASHBOARD) > 0 \<longrightarrow> rc_status (hd (sorted_checks (readiness_checks EMPTY_DASHBOARD))) = Blocked"
    using readiness_worst_first [of EMPTY_DASHBOARD] by blast
  then show ?thesis using b by blast
qed

lemma or_else_total: "\<exists>a. fst (or_else v m e w) = Inr a"
  by (auto simp: or_else_def io_simps split: prod.split sum.split)

lemma bind_total:
  assumes "\<exists>a. fst (m e w) = Inr a" "\<And>a w'. \<exists>b. fst (f a e w') = Inr b"
  shows "\<exists>b. fst (bind m f e w) = Inr b"
proof (cases "m e w")
  case (Pair r w')
  with assms(1) obtain a where "r = Inr a" by auto
  then show ?thesis using assms(2) [of a w'] by (simp add: Pair io_simps)
qed

text \<open>
  The overview never reports that anything is out of date: whatever the backend answers, every panel's failure becomes an
  empty panel, the loader itself never fails, so in every state of the page the error is absent and neither its alert nor
  its error page can be shown. In an outage it says instead that the contest is not ready.
\<close>

theorem overview_never_fails:
  "(\<exists>d. fst (overview_loader e w) = Inr d) \<and>
   (\<forall>s. reaches (\<lambda>s. s = first_render EMPTY_DASHBOARD)
      (\<lambda>s s'. (\<exists>r. s' = start_request r s) \<or> (\<exists>k e w. s' = settle_request ''Failed to load the contest overview.'' k
                (fst (overview_loader e w)) s)) s \<longrightarrow> ld_error s = None) \<and>
   blocking (readiness_checks EMPTY_DASHBOARD) = 2"
proof (intro conjI allI impI)
  have total: "\<exists>d. fst (overview_loader e w) = Inr d" for e w
    unfolding overview_loader_def by (intro bind_total or_else_total) (simp add: io_simps)
  then show "\<exists>d. fst (overview_loader e w) = Inr d" .
  fix s
  assume "reaches (\<lambda>s. s = first_render EMPTY_DASHBOARD)
      (\<lambda>s s'. (\<exists>r. s' = start_request r s) \<or> (\<exists>k e w. s' = settle_request ''Failed to load the contest overview.'' k
                (fst (overview_loader e w)) s)) s"
  then show "ld_error s = None"
  proof (induction rule: reaches.induct)
    case (reaches_init s)
    then show ?case by (simp add: first_render_def remount_def start_request_def Let_def)
  next
    case (reaches_step s s')
    from reaches_step.hyps(2) consider r where "s' = start_request r s"
      | k e w where "s' = settle_request ''Failed to load the contest overview.'' k (fst (overview_loader e w)) s" by blast
    then show ?case
    proof cases
      case (2 k e w)
      obtain d where "fst (overview_loader e w) = Inr d" using total by blast
      then show ?thesis using 2 reaches_step.IH by (simp add: settle_request_def Let_def)
    qed (use reaches_step.IH in \<open>simp add: start_request_def Let_def\<close>)
  qed
next
  show "blocking (readiness_checks EMPTY_DASHBOARD) = 2"
    by (simp add: blocking_def count_def readiness_checks_def dashboard_figures_def EMPTY_DASHBOARD_def Let_def)
qed

text \<open>
  The judge queue of the overview is counted on one page of rows: the request carries no limit, so the backend's default
  applies, while the totals the answer carries are not read.
\<close>

theorem overview_queue_one_page:
  "submission_params [] [] [] Undefined Undefined = [] \<and>
   fi_queued (dashboard_figures d) + fi_running (dashboard_figures d) + fi_failed (dashboard_figures d) \<le> length (da_submissions d)"
proof -
  have "count (in_status ''queued'') xs + count (in_status ''running'') xs + count (in_status ''failed'') xs \<le> length xs" for xs
    by (induction xs) (auto simp: count_def in_status_def)
  then show ?thesis by (simp add: submission_params_def dashboard_figures_def Let_def)
qed

definition created :: "jsv \<Rightarrow> int" where
  "created sub = (case date_time (get_opt sub ''createdAt'') of Fin x \<Rightarrow> \<lfloor>x\<rfloor> | _ \<Rightarrow> 0)"

text \<open>The recent submissions are the newest ones, newest first, when every row carries a date.\<close>

theorem recent_are_newest:
  assumes "\<forall>s\<in>set subs. \<exists>x. date_time (get_opt s ''createdAt'') = Fin x"
  shows "sorted_wrt (\<lambda>a b. created b \<le> created a) (recentSubmissions subs) \<and> length (recentSubmissions subs) = min 8 (length subs) \<and>
         (\<forall>a\<in>set (recentSubmissions subs). \<forall>b\<in>set (drop 8 (js_sort newer subs)). created b \<le> created a)"
proof -
  have eq: "js_sort newer subs = js_sort (by_key_desc created) subs"
  proof (rule js_sort_cong)
    fix a b assume "a \<in> set subs" "b \<in> set subs"
    then obtain x y where "date_time (get_opt a ''createdAt'') = Fin x" "date_time (get_opt b ''createdAt'') = Fin y"
      using assms by blast
    then show "newer a b = by_key_desc created a b" by (simp add: newer_def by_key_desc_def created_def)
  qed
  let ?xs = "js_sort newer subs"
  have "sorted_wrt (\<lambda>a b. created b \<le> created a) ?xs"
    using key_desc.sorted_js_sort [of created subs] by (simp add: eq by_key_desc_def)
  then have "sorted_wrt (\<lambda>a b. created b \<le> created a) (take 8 ?xs @ drop 8 ?xs)" by simp
  then show ?thesis
    unfolding sorted_wrt_append by (simp add: recentSubmissions_def min.commute)
qed

theorem recent_are_newest_witness:
  "length (recentSubmissions [Obj [(''createdAt'', Str ''1970-01-01T00:00:00Z'')]]) = min 8 (length [Obj [(''createdAt'', Str ''1970-01-01T00:00:00Z'')]])"
  by (rule recent_are_newest [THEN conjunct2, THEN conjunct1])
    (simp add: get_opt_def field_def date_time_def date_parse_epoch)

end
