(* ===== verification/ProblemEditor.thy ===== *)
theory ProblemEditor
  imports AdminProblems AdminState TestcaseUtils
begin

text \<open>
  The problem editor (\<open>admin-frontend/src/components/problem-editor.tsx\<close> with \<open>lib/templates.ts\<close>, \<open>samples-tab.tsx\<close>,
  \<open>problem-metadata-card.tsx\<close>): the form, the slug made from the title, the samples, what saving checks and sends, and the
  draft kept in the browser. The table of evaluation tests has its own theory, \<open>TestsTab\<close>.
\<close>

section \<open>The form\<close>

record sample_row =
  sa_ordinal :: nat
  sa_input :: string
  sa_output :: string
  sa_explanation :: "string option"

datatype workspace_tab = StatementTab | SamplesTab | TestsTabOpen

record 't editor =
  ed_isEditing :: bool
  ed_slug :: string
  ed_title :: string
  ed_slugAutoGenerated :: bool
  ed_difficulty :: string
  ed_maxScore :: jsnum
  ed_timeLimitMs :: jsnum
  ed_memoryLimitMb :: jsnum
  ed_published :: bool
  ed_statement :: string
  ed_constraints :: string
  ed_samples :: "sample_row list"
  ed_tests :: "'t list"
  ed_lastInitialTests :: "'t list option"
  ed_tab :: workspace_tab
  ed_lastInitialTab :: "workspace_tab option"
  ed_error :: "string option"
  ed_notice :: "string option"

definition nl :: string where "nl = [CHR 0x0A]"
definition backslash :: string where "backslash = [CHR 0x5C]"

definition template_statement :: string where
  "template_statement = join_with nl
     [''Given an array of integers $A$ of size $N$, find the sum of all elements in the array.'', [],
      ''### Input Format'', ''- The first line contains an integer $N$.'',
      ''- The second line contains $N$ space-separated integers $A_1, A_2, '' @ backslash @ ''dots, A_N$.'', [],
      ''### Output Format'', ''- Print a single integer representing the total sum.'']"

definition template_constraints :: string where
  "template_constraints = join_with nl
     [''- $1 '' @ backslash @ ''le N '' @ backslash @ ''le 10^5$'',
      ''- $-10^9 '' @ backslash @ ''le A_i '' @ backslash @ ''le 10^9$'']"

text \<open>The form of a new problem: the starter template.\<close>

definition new_editor :: "'t editor" where
  "new_editor =
     \<lparr>ed_isEditing = False, ed_slug = ''sample-problem'', ed_title = ''Sample Problem Title'', ed_slugAutoGenerated = True,
      ed_difficulty = ''Easy'', ed_maxScore = Fin 100, ed_timeLimitMs = Fin 2000, ed_memoryLimitMb = Fin 256,
      ed_published = False, ed_statement = template_statement, ed_constraints = template_constraints,
      ed_samples = [\<lparr>sa_ordinal = 1, sa_input = ''5'' @ nl @ ''1 2 3 4 5'', sa_output = ''15'',
                     sa_explanation = Some ''1 + 2 + 3 + 4 + 5 = 15''\<rparr>],
      ed_tests = [], ed_lastInitialTests = None, ed_tab = StatementTab, ed_lastInitialTab = None,
      ed_error = None, ed_notice = None\<rparr>"

text \<open>The form of a stored problem: its fields where it has them, the template's otherwise.\<close>

definition text_nn :: "jsv \<Rightarrow> string \<Rightarrow> string \<Rightarrow> string" where
  "text_nn d k old = (let v = get_opt d k in if nullish v then old else js_String v)"

definition number_nn :: "jsv \<Rightarrow> string \<Rightarrow> jsnum \<Rightarrow> jsnum" where
  "number_nn d k old = (let v = get_opt d k in if nullish v then old else js_Number v)"

definition row_of :: "jsv \<Rightarrow> sample_row" where
  "row_of v =
     \<lparr>sa_ordinal = (case get_opt v ''ordinal'' of Num (Fin r) \<Rightarrow> nat \<lfloor>r\<rfloor> | _ \<Rightarrow> 0),
      sa_input = (case get_opt v ''input'' of Str t \<Rightarrow> t | _ \<Rightarrow> []),
      sa_output = (case get_opt v ''output'' of Str t \<Rightarrow> t | _ \<Rightarrow> []),
      sa_explanation = (case get_opt v ''explanation'' of Str t \<Rightarrow> Some t | _ \<Rightarrow> None)\<rparr>"

definition edit_editor :: "jsv \<Rightarrow> 't list \<Rightarrow> workspace_tab \<Rightarrow> 't editor" where
  "edit_editor d tests tab =
     (let t = (new_editor :: 't editor)
      in t\<lparr>ed_isEditing := True, ed_slugAutoGenerated := False,
           ed_slug := text_nn d ''slug'' (ed_slug t), ed_title := text_nn d ''title'' (ed_title t),
           ed_difficulty := text_nn d ''difficulty'' (ed_difficulty t),
           ed_maxScore := number_nn d ''maxScore'' (ed_maxScore t),
           ed_timeLimitMs := number_nn d ''timeLimitMs'' (ed_timeLimitMs t),
           ed_memoryLimitMb := number_nn d ''memoryLimitMb'' (ed_memoryLimitMb t),
           ed_published := (if nullish (get_opt d ''published'') then ed_published t else truthy (get_opt d ''published'')),
           ed_statement := text_nn d ''statement'' (ed_statement t),
           ed_constraints := text_nn d ''constraints'' (ed_constraints t),
           ed_samples := (if nullish (get_opt d ''samples'') then ed_samples t else map row_of (arr_of (get_opt d ''samples''))),
           ed_tests := tests, ed_lastInitialTests := Some tests, ed_tab := tab, ed_lastInitialTab := Some tab\<rparr>)"

text \<open>New properties while rendering: another list of tests is taken over unless it is empty, another tab is opened.\<close>

definition render_editor :: "'t list option \<Rightarrow> workspace_tab option \<Rightarrow> 't editor \<Rightarrow> 't editor" where
  "render_editor initialTests initialTab s =
     (let s1 = (if initialTests \<noteq> ed_lastInitialTests s
                then (let s' = s\<lparr>ed_lastInitialTests := initialTests\<rparr>
                      in case initialTests of Some (t # ts) \<Rightarrow> s'\<lparr>ed_tests := t # ts\<rparr> | _ \<Rightarrow> s')
                else s)
      in case initialTab of
           Some tab \<Rightarrow> if initialTab \<noteq> ed_lastInitialTab s1 then s1\<lparr>ed_lastInitialTab := initialTab, ed_tab := tab\<rparr> else s1
         | None \<Rightarrow> s1)"

section \<open>The slug\<close>

text \<open>
  \<open>toLowerCase()\<close>, \<open>replace(/[^a-z0-9]+/g, "-")\<close> and \<open>replace(/(^-|-$)+/g, "")\<close>: a run of other characters is one hyphen,
  one hyphen is dropped at either end.
\<close>

fun hyphenate :: "bool \<Rightarrow> string \<Rightarrow> string" where
  "hyphenate in_run [] = []"
| "hyphenate in_run (c # cs) =
     (if slug_char c then c # hyphenate False cs
      else if in_run then hyphenate True cs else CHR ''-'' # hyphenate True cs)"

definition drop_hyphen :: "string \<Rightarrow> string" where
  "drop_hyphen s = (case s of [] \<Rightarrow> [] | c # cs \<Rightarrow> if c = CHR ''-'' then cs else s)"

definition generated_slug :: "string \<Rightarrow> string" where
  "generated_slug title = rev (drop_hyphen (rev (drop_hyphen (hyphenate False (js_lower title)))))"

definition handleTitleChange :: "string \<Rightarrow> 't editor \<Rightarrow> 't editor" where
  "handleTitleChange newTitle s =
     (let s1 = s\<lparr>ed_title := newTitle\<rparr>
      in if ed_slugAutoGenerated s \<and> \<not> ed_isEditing s then s1\<lparr>ed_slug := generated_slug newTitle\<rparr> else s1)"

definition handleSlugChange :: "string \<Rightarrow> 't editor \<Rightarrow> 't editor" where
  "handleSlugChange newSlug s = s\<lparr>ed_slug := newSlug, ed_slugAutoGenerated := False\<rparr>"

section \<open>Samples\<close>

definition handleAddSample :: "'t editor \<Rightarrow> 't editor" where
  "handleAddSample s = s\<lparr>ed_samples := ed_samples s @
     [\<lparr>sa_ordinal = Suc (length (ed_samples s)), sa_input = [], sa_output = [], sa_explanation = Some []\<rparr>]\<rparr>"

definition remove_at :: "nat \<Rightarrow> 'a list \<Rightarrow> 'a list" where
  "remove_at k xs = take k xs @ drop (Suc k) xs"

definition handleRemoveSample :: "nat \<Rightarrow> 't editor \<Rightarrow> 't editor" where
  "handleRemoveSample index s = s\<lparr>ed_samples := remove_at index (ed_samples s)\<rparr>"

text \<open>The button for it is shown while there is more than one sample.\<close>

definition can_remove_sample :: "'t editor \<Rightarrow> bool" where
  "can_remove_sample s \<longleftrightarrow> length (ed_samples s) > 1"

datatype sample_field = SampleInput | SampleOutput | SampleExplanation

fun set_sample_field :: "sample_field \<Rightarrow> string \<Rightarrow> sample_row \<Rightarrow> sample_row" where
  "set_sample_field SampleInput v r = r\<lparr>sa_input := v\<rparr>"
| "set_sample_field SampleOutput v r = r\<lparr>sa_output := v\<rparr>"
| "set_sample_field SampleExplanation v r = r\<lparr>sa_explanation := Some v\<rparr>"

definition handleSampleChange :: "nat \<Rightarrow> sample_field \<Rightarrow> string \<Rightarrow> 't editor \<Rightarrow> 't editor" where
  "handleSampleChange index k v s =
     (if index < length (ed_samples s)
      then s\<lparr>ed_samples := (ed_samples s)[index := set_sample_field k v (ed_samples s ! index)]\<rparr> else s)"

section \<open>Saving\<close>

definition sample_payload :: "nat \<Rightarrow> sample_row \<Rightarrow> jsv" where
  "sample_payload idx r =
     Obj [(''ordinal'', IntV (int idx + 1)), (''input'', Str (sa_input r)), (''output'', Str (sa_output r)),
          (''explanation'', case sa_explanation r of Some (c # cs) \<Rightarrow> Str (c # cs) | _ \<Rightarrow> Undefined)]"

definition save_payload :: "bool \<Rightarrow> 't editor \<Rightarrow> jsv" where
  "save_payload finalPublished s =
     Obj [(''slug'', Str (js_trim (ed_slug s))), (''title'', Str (js_trim (ed_title s))), (''difficulty'', Str (ed_difficulty s)),
          (''maxScore'', Num (ed_maxScore s)), (''timeLimitMs'', Num (ed_timeLimitMs s)),
          (''memoryLimitMb'', Num (ed_memoryLimitMb s)), (''published'', Bool finalPublished),
          (''statement'', Str (ed_statement s)), (''constraints'', Str (ed_constraints s)),
          (''samples'', Arr (map (\<lambda>(i, r). sample_payload i r) (zip [0..<length (ed_samples s)] (ed_samples s))))]"

text \<open>Up to \<open>await onSave(...)\<close>: what is handed to the page, if anything, and the state the page waits in.\<close>

definition handleSaveInternal :: "bool option \<Rightarrow> 't editor \<Rightarrow> 't editor \<times> jsv option" where
  "handleSaveInternal shouldPublish s0 =
     (let s = s0\<lparr>ed_error := None\<rparr>; finalPublished = (case shouldPublish of Some b \<Rightarrow> b | None \<Rightarrow> ed_published s)
      in if js_trim (ed_slug s) = [] \<or> js_trim (ed_title s) = []
         then (s\<lparr>ed_notice := Some ''A slug and a title are required.''\<rparr>, None)
         else if js_trim (ed_statement s) = []
         then (s\<lparr>ed_notice := Some ''The problem statement is required.'', ed_tab := StatementTab\<rparr>, None)
         else if finalPublished \<and> length (ed_tests s) < MIN_EVALUATION_TEST_CASES
         then (s\<lparr>ed_notice := Some ''Not enough evaluation test cases'', ed_tab := TestsTabOpen\<rparr>, None)
         else (s\<lparr>ed_published := finalPublished\<rparr>, Some (save_payload finalPublished s)))"

definition save_settle :: "bool \<Rightarrow> exn + unit \<Rightarrow> 't editor \<Rightarrow> 't editor" where
  "save_settle finalPublished result s =
     (case result of
        Inl x \<Rightarrow> s\<lparr>ed_error := Some (getErrorMessage x ''Failed to save the problem.'')\<rparr>
      | Inr _ \<Rightarrow> s\<lparr>ed_notice := Some (if finalPublished then ''Problem saved and published'' else ''Draft saved'')\<rparr>)"

text \<open>The two buttons of the header, and the calls of the tests tab for a problem that is not stored yet.\<close>

definition save_draft :: "'t editor \<Rightarrow> 't editor \<times> jsv option" where
  "save_draft = handleSaveInternal (Some False)"

definition save_and_publish :: "'t editor \<Rightarrow> 't editor \<times> jsv option" where
  "save_and_publish = handleSaveInternal (Some True)"

definition setPublished :: "bool \<Rightarrow> 't editor \<Rightarrow> 't editor" where
  "setPublished b s = s\<lparr>ed_published := b\<rparr>"

definition publish_switch_disabled :: "'t editor \<Rightarrow> bool" where
  "publish_switch_disabled s \<longleftrightarrow> length (ed_tests s) < MIN_EVALUATION_TEST_CASES \<and> \<not> ed_published s"

definition status_word :: "'t editor \<Rightarrow> string" where
  "status_word s = (if ed_published s then ''Published'' else ''Draft'')"

text \<open>The pages around the editor: a new problem is created, an existing one updated; a refusal is thrown.\<close>

datatype destination = ToProblems | ToTests string

definition new_problem_save :: "parser \<Rightarrow> jsv \<Rightarrow> destination io" where
  "new_problem_save sp inp =
     bind (createProblemAction sp inp) (\<lambda>res.
     if \<not> pr_success res then throw (Error (js_String (js_or (pr_error res) (Str ''Failed to create problem''))))
     else if truthy (get_opt inp ''published'') then ret ToProblems
     else bind (lift (get (pr_problem res) ''id'')) (\<lambda>i. ret (ToTests (js_String i))))"

definition edit_problem_save :: "parser \<Rightarrow> string \<Rightarrow> jsv \<Rightarrow> destination io" where
  "edit_problem_save sp pid inp =
     bind (updateProblemAction sp pid inp) (\<lambda>res.
     if \<not> pr_success res then throw (Error (js_String (js_or (pr_error res) (Str ''Failed to save problem''))))
     else ret ToProblems)"

section \<open>The draft\<close>

definition sample_state :: "sample_row \<Rightarrow> jsv" where
  "sample_state r =
     Obj ([(''ordinal'', IntV (int (sa_ordinal r))), (''input'', Str (sa_input r)), (''output'', Str (sa_output r))] @
          (case sa_explanation r of Some e \<Rightarrow> [(''explanation'', Str e)] | None \<Rightarrow> []))"

definition current_state :: "'t editor \<Rightarrow> jsv" where
  "current_state s =
     Obj [(''slug'', Str (ed_slug s)), (''title'', Str (ed_title s)), (''difficulty'', Str (ed_difficulty s)),
          (''maxScore'', Num (ed_maxScore s)), (''timeLimitMs'', Num (ed_timeLimitMs s)),
          (''memoryLimitMb'', Num (ed_memoryLimitMb s)), (''statement'', Str (ed_statement s)),
          (''constraints'', Str (ed_constraints s)), (''samples'', Arr (map sample_state (ed_samples s))),
          (''published'', Bool (ed_published s))]"

text \<open>Applying a draft: a field counts when it is truthy, \<open>published\<close> when it is there.\<close>

definition text_or :: "jsv \<Rightarrow> string \<Rightarrow> string \<Rightarrow> string" where
  "text_or draft k old = (let v = get_opt draft k in if truthy v then js_String v else old)"

definition number_or :: "jsv \<Rightarrow> string \<Rightarrow> jsnum \<Rightarrow> jsnum" where
  "number_or draft k old = (let v = get_opt draft k in if truthy v then js_Number v else old)"

definition applyDraft :: "jsv \<Rightarrow> 't editor \<Rightarrow> 't editor" where
  "applyDraft draft s =
     s\<lparr>ed_slug := text_or draft ''slug'' (ed_slug s), ed_title := text_or draft ''title'' (ed_title s),
       ed_difficulty := text_or draft ''difficulty'' (ed_difficulty s),
       ed_maxScore := number_or draft ''maxScore'' (ed_maxScore s),
       ed_timeLimitMs := number_or draft ''timeLimitMs'' (ed_timeLimitMs s),
       ed_memoryLimitMb := number_or draft ''memoryLimitMb'' (ed_memoryLimitMb s),
       ed_statement := text_or draft ''statement'' (ed_statement s),
       ed_constraints := text_or draft ''constraints'' (ed_constraints s),
       ed_samples := (if truthy (get_opt draft ''samples'') then map row_of (arr_of (get_opt draft ''samples'')) else ed_samples s),
       ed_published := (if get_opt draft ''published'' \<noteq> Undefined then truthy (get_opt draft ''published'') else ed_published s)\<rparr>"

section \<open>What the editor guarantees\<close>

text \<open>
  Texts over the slug characters and hyphens, read from the left: \<open>b\<close> says that a slug character came last.
  \<open>slug_closed\<close> ends on a slug character; \<open>slug_open\<close> may end on a hyphen.
\<close>

fun slug_closed :: "bool \<Rightarrow> string \<Rightarrow> bool" where
  "slug_closed b [] = b"
| "slug_closed b (c # cs) = (if c = CHR ''-'' then b \<and> slug_closed False cs else slug_char c \<and> slug_closed True cs)"

fun slug_open :: "bool \<Rightarrow> string \<Rightarrow> bool" where
  "slug_open b [] = True"
| "slug_open b (c # cs) = (if c = CHR ''-'' then b \<and> slug_open False cs else slug_char c \<and> slug_open True cs)"

lemma slug_char_hyphen [simp]: "\<not> slug_char CHR ''-''"
  by (simp add: slug_char_def is_digit_def)

lemma slug_closed_groups:
  "slug_closed b s \<longleftrightarrow>
     (b \<or> hd (split_char CHR ''-'' s) \<noteq> []) \<and> list_all slug_char (hd (split_char CHR ''-'' s)) \<and>
     list_all (\<lambda>g. g \<noteq> [] \<and> list_all slug_char g) (tl (split_char CHR ''-'' s))"
proof (induction s arbitrary: b)
  case (Cons c cs)
  obtain g gs where g: "split_char CHR ''-'' cs = g # gs"
    using split_char_nonempty [of "CHR ''-''" cs] by (cases "split_char CHR ''-'' cs") auto
  show ?case
    using Cons.IH [of False] Cons.IH [of True] g by (cases "c = CHR ''-''") auto
qed simp

lemma slug_pattern_closed: "slug_pattern s \<longleftrightarrow> slug_closed False s"
proof -
  obtain g gs where g: "split_char CHR ''-'' s = g # gs"
    using split_char_nonempty [of "CHR ''-''" s] by (cases "split_char CHR ''-'' s") auto
  show ?thesis unfolding slug_closed_groups slug_pattern_def g by auto
qed

lemma hyphenate_open: "slug_open (\<not> r) (hyphenate r s)"
  by (induction s arbitrary: r) (auto, metis+)

lemma open_end_snoc: "slug_open b (s @ [CHR ''-'']) \<Longrightarrow> slug_closed b s"
  by (induction s arbitrary: b) (auto split: if_splits)

lemma open_end_last: "slug_open b s \<Longrightarrow> s \<noteq> [] \<Longrightarrow> last s \<noteq> CHR ''-'' \<Longrightarrow> slug_closed b s"
proof (induction s arbitrary: b)
  case (Cons c cs)
  then show ?case by (cases cs) (auto split: if_splits)
qed simp

lemma drop_hyphen_hyphenate: "drop_hyphen (hyphenate False s) = hyphenate True s"
  by (cases s) (auto simp: drop_hyphen_def)

text \<open>
  The slug made from a title is one the server accepts, or there is none: whatever the title, it is empty or consists of
  groups of lower case letters and digits joined by single hyphens; it is empty exactly when the title has no letter or
  digit, and then saving is refused. Once the slug is edited by hand, or for a stored problem, the title no longer
  changes it.
\<close>

theorem generated_slug_valid:
  "(generated_slug title = [] \<or> slug_pattern (generated_slug title)) \<and>
   (generated_slug title = [] \<longrightarrow> \<not> list_ex slug_char (js_lower title)) \<and>
   (\<not> list_ex slug_char (js_lower title) \<longrightarrow> generated_slug title = [] \<and>
      (ed_slugAutoGenerated s \<and> \<not> ed_isEditing s \<longrightarrow> snd (handleSaveInternal b (handleTitleChange title s)) = None)) \<and>
   ed_slug (handleTitleChange title (handleSlugChange x s)) = x \<and>
   (ed_isEditing s \<longrightarrow> ed_slug (handleTitleChange title s) = ed_slug s)"
proof -
  let ?h = "hyphenate True (js_lower title)"
  have slug: "generated_slug title = rev (drop_hyphen (rev ?h))" by (simp add: generated_slug_def drop_hyphen_hyphenate)
  have opened: "slug_open False ?h" using hyphenate_open [of True "js_lower title"] by simp
  have form: "generated_slug title = [] \<or> slug_closed False (generated_slug title)"
  proof (cases ?h rule: rev_cases)
    case (snoc t c)
    then show ?thesis using opened open_end_snoc [of False t] open_end_last [of False ?h]
      by (auto simp: slug drop_hyphen_def)
  qed (simp add: slug drop_hyphen_def)
  have none: "hyphenate True t = [] \<longleftrightarrow> \<not> list_ex slug_char t" for t
    by (induction t) auto
  have one: "?h \<noteq> [CHR ''-'']" using opened by auto
  have empty: "generated_slug title = [] \<longleftrightarrow> ?h = []"
  proof (cases ?h rule: rev_cases)
    case (snoc t c)
    then show ?thesis using one by (auto simp: slug drop_hyphen_def)
  qed (simp add: slug drop_hyphen_def)
  show ?thesis using form none empty
    by (auto simp: slug_pattern_closed handleSaveInternal_def handleTitleChange_def handleSlugChange_def js_trim_def Let_def)
qed

theorem generated_slug_valid_witness:
  "generated_slug ''  '' = [] \<and> snd (handleSaveInternal (Some False) (handleTitleChange ''  '' (new_editor :: nat editor))) = None \<and>
   generated_slug ''Two Sum: #1!'' = ''two-sum-1''"
proof -
  have "\<not> list_ex slug_char (js_lower ''  '')" by code_simp
  moreover have "ed_slugAutoGenerated (new_editor :: nat editor) \<and> \<not> ed_isEditing (new_editor :: nat editor)"
    by (simp add: new_editor_def)
  moreover have "generated_slug ''Two Sum: #1!'' = ''two-sum-1''" by code_simp
  ultimately show ?thesis using generated_slug_valid [of "''  ''" "new_editor :: nat editor" "Some False"] by blast
qed

text \<open>The slug is not cut: a title of 65 letters, which is allowed, makes a slug that no longer is.\<close>

theorem long_title_slug_too_long:
  "length (generated_slug (replicate 65 CHR ''a'')) = 65 \<and> 65 \<le> (120 :: nat)"
  by code_simp

lemma samples_numbered:
  "map (\<lambda>v. get_opt v ''ordinal'') (map (\<lambda>(i, r). sample_payload i r) (zip [k..<k + length rs] rs)) =
     map (\<lambda>i. IntV (int i + 1)) [k..<k + length rs]"
proof (induction rs arbitrary: k)
  case (Cons r rs)
  have "[k..<k + length (r # rs)] = k # [Suc k..<Suc k + length rs]" by (simp add: upt_rec)
  then show ?case using Cons.IH [of "Suc k"] by (simp add: sample_payload_def get_opt_def field_def)
qed simp


definition ready_editor :: "nat editor" where
  "ready_editor = new_editor\<lparr>ed_tests := [1, 2, 3, 4, 5]\<rparr>"


text \<open>
  The switch "Published to contestants" does nothing but change the badge: both buttons pass their own flag, so what is sent
  never depends on it, and saving the edits of a published problem without publishing again withdraws it.
\<close>

theorem publish_switch_inert:
  "snd (save_draft (setPublished b s)) = snd (save_draft s) \<and> snd (save_and_publish (setPublished b s)) = snd (save_and_publish s) \<and>
   (snd (save_draft s) = Some v \<longrightarrow> get_opt v ''published'' = Bool False)"
  by (auto simp: save_draft_def save_and_publish_def handleSaveInternal_def setPublished_def save_payload_def get_opt_def field_def
      Let_def split: if_splits)

text \<open>
  A failed publication reads as published: the flag is set before the save and not taken back, so the badge says
  "Published" under the error, although nothing was stored.
\<close>

theorem failed_publish_reads_published:
  "status_word ready_editor = ''Draft'' \<and>
   (snd (save_and_publish ready_editor) \<noteq> None \<longrightarrow>
      status_word (save_settle True (Inl x) (fst (save_and_publish ready_editor))) = ''Published'' \<and>
      ed_error (save_settle True (Inl x) (fst (save_and_publish ready_editor))) \<noteq> None)"
  by (auto simp: status_word_def save_and_publish_def handleSaveInternal_def save_settle_def ready_editor_def new_editor_def Let_def)

lemma row_of_state: "row_of (sample_state r) = r"
  by (cases "sa_explanation r") (simp_all add: row_of_def sample_state_def get_opt_def field_def)

text \<open>
  A restored draft is the form that was left: with texts that are not empty and limits that are not zero, applying the state
  that was saved to any other form gives every field back, the samples with their explanations included.
\<close>

theorem draft_restores_form:
  assumes "list_all (\<lambda>t. t \<noteq> []) [ed_slug s, ed_title s, ed_difficulty s, ed_statement s, ed_constraints s]"
    and "list_all (\<lambda>n. n \<noteq> Fin 0 \<and> n \<noteq> NaN) [ed_maxScore s, ed_timeLimitMs s, ed_memoryLimitMb s]"
  shows "current_state (applyDraft (current_state s) t) = current_state s \<and>
         ed_samples (applyDraft (current_state s) t) = ed_samples s"
proof -
  have num: "truthy (Num n)" if "n \<noteq> Fin 0" "n \<noteq> NaN" for n using that by (cases n) auto
  have "map row_of (map sample_state (ed_samples s)) = ed_samples s" by (simp add: o_def row_of_state)
  then show ?thesis using assms num
    by (simp add: applyDraft_def current_state_def text_or_def number_or_def get_opt_def field_def arr_of_def Let_def)
qed

theorem draft_restores_form_witness:
  "current_state (applyDraft (current_state (new_editor :: nat editor)) (handleTitleChange ''X'' new_editor)) =
     current_state (new_editor :: nat editor)"
  by (rule draft_restores_form [THEN conjunct1])
    (simp_all add: new_editor_def template_statement_def template_constraints_def)

text \<open>
  The recovered draft is lost before it can be restored: the first render of the form starts the same autosave, so half a
  second later the stored draft is the starter template, while the page still offers to restore it; restoring then
  brings back the template.
\<close>

theorem draft_lost_before_restore:
  assumes "storage_set fits DRAFT_STORAGE_KEY (stringify (safe_payload (current_state (new_editor :: 't editor)))) st = Inr st'"
    and "case storage_get st DRAFT_STORAGE_KEY of Some t \<Rightarrow> t \<noteq> [] | None \<Rightarrow> False"
  shows "let v = autosave_draft fits False (current_state (new_editor :: 't editor)) (use_problem_draft False st)
         in dv_hasSavedDraft v \<and>
            (\<exists>d. dv_applied (restoreDraft v) = Some d \<and>
               (\<forall>k\<in>set draft_fields. get_opt d k = get_opt (current_state (new_editor :: 't editor)) k))"
proof -
  let ?c = "current_state (new_editor :: 't editor)"
  have "get_opt ?c k = Undefined \<or> json_ok (get_opt ?c k)" for k
    by (simp add: current_state_def new_editor_def get_opt_def field_def sample_state_def)
  from local_storage.load_save [OF safe_payload_ok [OF this] assms(1)] assms
  show ?thesis
    by (simp add: restoreDraft_def autosave_draft_def use_problem_draft_def safe_payload_field Let_def)
qed

theorem draft_lost_before_restore_witness:
  "dv_hasSavedDraft (autosave_draft (\<lambda>_. True) False (current_state (new_editor :: nat editor))
     (use_problem_draft False [(DRAFT_STORAGE_KEY, ''{}'')]))"
proof -
  have kept: "case storage_get [(DRAFT_STORAGE_KEY, ''{}'')] DRAFT_STORAGE_KEY of Some t \<Rightarrow> t \<noteq> [] | None \<Rightarrow> False"
    by (simp add: storage_get_def map_get_def)
  obtain st' where fits: "storage_set (\<lambda>_. True) DRAFT_STORAGE_KEY (stringify (safe_payload (current_state (new_editor :: nat editor))))
      [(DRAFT_STORAGE_KEY, ''{}'')] = Inr st'"
    by (simp add: storage_set_def Let_def)
  show ?thesis using draft_lost_before_restore [OF fits kept] by (simp add: Let_def)
qed

text \<open>A restored slug is overwritten: the form still counts it as generated, so the next change of the title replaces it.\<close>

theorem restored_slug_overwritten:
  "ed_slug (handleTitleChange title (applyDraft d (new_editor :: 't editor))) = generated_slug title"
  by (simp add: handleTitleChange_def applyDraft_def new_editor_def Let_def)

end
