(* ===== verification/TestsTab.thy ===== *)
theory TestsTab
  imports ProblemEditor TestUploader
begin

text \<open>
  The table of a problem's evaluation tests (\<open>admin-frontend/src/components/problem-editor/test-cases-tab.tsx\<close>): points,
  replacing and deleting, the inspector, and the dialog for one test (\<open>test-cases/single-test-dialog.tsx\<close>). The batch
  queue is in \<open>BatchUpload\<close>. A test is its ordinal, its points and the rest of its record.
\<close>

section \<open>Tests and their points\<close>

record test_meta =
  tm_ordinal :: nat
  tm_points :: int
  tm_rest :: jsv

record tests_tab =
  tt_problemId :: "string option"
  tt_tests :: "test_meta list"
  tt_maxScore :: int
  tt_pendingPoints :: "(nat, int) jsmap"
  tt_savingPoints :: bool
  tt_deleteOrdinal :: "nat option"
  tt_editTest :: "test_meta option"
  tt_singleOpen :: bool
  tt_notice :: "(bool \<times> string) option"

definition say :: "bool \<Rightarrow> string \<Rightarrow> tests_tab \<Rightarrow> tests_tab" where
  "say good m s = s\<lparr>tt_notice := Some (good, m)\<rparr>"

definition shown_points :: "(nat, int) jsmap \<Rightarrow> test_meta \<Rightarrow> int" where
  "shown_points pending t = (case map_get pending (tm_ordinal t) of Some p \<Rightarrow> p | None \<Rightarrow> tm_points t)"

definition handlePointChange :: "nat \<Rightarrow> int \<Rightarrow> tests_tab \<Rightarrow> tests_tab" where
  "handlePointChange ordinal pts s = s\<lparr>tt_pendingPoints := map_set ordinal pts (tt_pendingPoints s)\<rparr>"

definition hasPendingPointChanges :: "tests_tab \<Rightarrow> bool" where
  "hasPendingPointChanges s \<longleftrightarrow> length (map_keys (tt_pendingPoints s)) > 0"

definition mergedPoints :: "(nat, int) jsmap \<Rightarrow> test_meta list \<Rightarrow> (nat, int) jsmap" where
  "mergedPoints pending tests = foldl (\<lambda>m t. map_set (tm_ordinal t) (shown_points pending t) m) [] tests"

definition sum_values :: "(nat, int) jsmap \<Rightarrow> int" where
  "sum_values m = sum_list (map snd m)"

text \<open>Saving the edited points: what is sent, if anything; the answer is applied to the table the save began with.\<close>

definition handleSavePoints :: "tests_tab \<Rightarrow> tests_tab \<times> (nat, int) jsmap option" where
  "handleSavePoints s =
     (if tt_problemId s = None then (s, None)
      else let m = mergedPoints (tt_pendingPoints s) (tt_tests s)
           in if sum_values m \<noteq> tt_maxScore s
              then (say False ''Points do not add up'' (s\<lparr>tt_savingPoints := False\<rparr>), None)
              else (s\<lparr>tt_savingPoints := True\<rparr>, Some m))"

definition apply_points :: "(nat, int) jsmap \<Rightarrow> test_meta list \<Rightarrow> test_meta list" where
  "apply_points m = map (\<lambda>t. t\<lparr>tm_points := (case map_get m (tm_ordinal t) of Some p \<Rightarrow> p | None \<Rightarrow> tm_points t)\<rparr>)"

definition savePoints_settle ::
    "test_meta list \<Rightarrow> (nat, int) jsmap \<Rightarrow> exn + unit \<Rightarrow> tests_tab \<Rightarrow> tests_tab" where
  "savePoints_settle tests m result s =
     (case result of
        Inr _ \<Rightarrow> say True ''Test case points updated'' (s\<lparr>tt_tests := apply_points m tests, tt_pendingPoints := []\<rparr>)
      | Inl x \<Rightarrow> say False (getErrorMessage x ''Failed to update the points.'') s)\<lparr>tt_savingPoints := False\<rparr>"

definition evenPoints :: "tests_tab \<Rightarrow> int list" where
  "evenPoints s = generateEvenPoints (int (length (tt_tests s))) (tt_maxScore s)"

definition nth_or_zero :: "int list \<Rightarrow> nat \<Rightarrow> int" where
  "nth_or_zero ps i = (if i < length ps then ps ! i else 0)"

definition newPointsMap :: "int list \<Rightarrow> test_meta list \<Rightarrow> (nat, int) jsmap" where
  "newPointsMap ps tests =
     foldl (\<lambda>m (i, t). map_set (tm_ordinal t) (nth_or_zero ps i) m) [] (zip [0..<length tests] tests)"

definition handleSplitEvenly :: "tests_tab \<Rightarrow> tests_tab \<times> (nat, int) jsmap option" where
  "handleSplitEvenly s =
     (if tt_problemId s = None \<or> tt_tests s = [] then (s, None)
      else (s\<lparr>tt_savingPoints := True\<rparr>, Some (newPointsMap (evenPoints s) (tt_tests s))))"

definition splitEvenly_settle :: "test_meta list \<Rightarrow> int list \<Rightarrow> exn + unit \<Rightarrow> tests_tab \<Rightarrow> tests_tab" where
  "splitEvenly_settle tests ps result s =
     (case result of
        Inr _ \<Rightarrow> say True ''Points evenly distributed across test cases''
          (s\<lparr>tt_tests := map (\<lambda>(i, t). t\<lparr>tm_points := nth_or_zero ps i\<rparr>) (zip [0..<length tests] tests), tt_pendingPoints := []\<rparr>)
      | Inl x \<Rightarrow> say False (getErrorMessage x ''Failed to distribute points evenly.'') s)\<lparr>tt_savingPoints := False\<rparr>"

section \<open>Adding, replacing, deleting\<close>

text \<open>A test the server has saved, with the whole table where the answer carried it.\<close>

record saved_test =
  sv_test :: test_meta
  sv_allTests :: "test_meta list"

definition openAddSingleModal :: "tests_tab \<Rightarrow> tests_tab" where
  "openAddSingleModal s = s\<lparr>tt_editTest := None, tt_singleOpen := True\<rparr>"

definition openReplaceModal :: "test_meta \<Rightarrow> tests_tab \<Rightarrow> tests_tab" where
  "openReplaceModal t s = s\<lparr>tt_editTest := Some t, tt_singleOpen := True\<rparr>"

definition handleSingleSuccess :: "saved_test \<Rightarrow> bool \<Rightarrow> tests_tab \<Rightarrow> tests_tab" where
  "handleSingleSuccess v isEdit s =
     say True (if isEdit then ''Test case replaced'' else ''Test case added'')
       (s\<lparr>tt_tests :=
          (if sv_allTests v \<noteq> [] then sv_allTests v
           else if isEdit then map (\<lambda>t. if tm_ordinal t = tm_ordinal (sv_test v) then sv_test v else t) (tt_tests s)
           else tt_tests s @ [sv_test v])\<rparr>)"

definition confirmDeleteTest_start :: "tests_tab \<Rightarrow> tests_tab \<times> nat option" where
  "confirmDeleteTest_start s =
     (s\<lparr>tt_deleteOrdinal := None\<rparr>, if tt_problemId s = None then None else tt_deleteOrdinal s)"

definition resequence :: "nat \<Rightarrow> test_meta list \<Rightarrow> test_meta list" where
  "resequence ordinal tests =
     map (\<lambda>t. if ordinal < tm_ordinal t then t\<lparr>tm_ordinal := tm_ordinal t - 1\<rparr> else t)
       (filter (\<lambda>t. tm_ordinal t \<noteq> ordinal) tests)"

text \<open>The answer to the deletion and, after it, to reading the table again.\<close>

definition confirmDeleteTest_settle ::
    "nat \<Rightarrow> test_meta list \<Rightarrow> exn + unit \<Rightarrow> exn + test_meta list \<Rightarrow> tests_tab \<Rightarrow> tests_tab" where
  "confirmDeleteTest_settle ordinal tests result refreshed s =
     (case result of
        Inl x \<Rightarrow> say False (getErrorMessage x ''Failed to delete the test case.'') s
      | Inr _ \<Rightarrow> say True ''Test case deleted''
          (s\<lparr>tt_tests := (case refreshed of Inr ts \<Rightarrow> ts | Inl _ \<Rightarrow> resequence ordinal tests)\<rparr>))"

section \<open>The inspector\<close>

record inspect_modal =
  im_open :: bool
  im_ordinal :: nat
  im_field :: content_field
  im_loading :: bool
  im_content :: string
  im_error :: "string option"

definition handleInspect_start :: "nat \<Rightarrow> content_field \<Rightarrow> inspect_modal" where
  "handleInspect_start ordinal k =
     \<lparr>im_open = True, im_ordinal = ordinal, im_field = k, im_loading = True, im_content = [], im_error = None\<rparr>"

definition handleInspect_settle :: "exn + string \<Rightarrow> inspect_modal \<Rightarrow> inspect_modal" where
  "handleInspect_settle result m =
     (case result of
        Inr txt \<Rightarrow> m\<lparr>im_loading := False, im_content := txt\<rparr>
      | Inl x \<Rightarrow> m\<lparr>im_loading := False, im_error := Some (message_or x ''Failed to load content'')\<rparr>)"

section \<open>The dialog for one test\<close>

record single_form =
  sf_inputFile :: "upload_file option"
  sf_inputText :: string
  sf_expFile :: "upload_file option"
  sf_expText :: string
  sf_points :: int
  sf_uploading :: bool
  sf_error :: "string option"

definition reset_single :: "test_meta option \<Rightarrow> single_form \<Rightarrow> single_form" where
  "reset_single editTest f =
     f\<lparr>sf_inputFile := None, sf_inputText := [], sf_expFile := None, sf_expText := [],
       sf_points := (case editTest of Some t \<Rightarrow> tm_points t | None \<Rightarrow> 0), sf_error := None\<rparr>"

definition too_big :: "upload_file option \<Rightarrow> bool" where
  "too_big u = (case u of Some x \<Rightarrow> f_size x > MAX_SINGLE_TEST_FILE_BYTES | None \<Rightarrow> False)"

definition choose_input :: "upload_file \<Rightarrow> single_form \<Rightarrow> single_form" where
  "choose_input u f =
     (if f_size u > MAX_SINGLE_TEST_FILE_BYTES then f\<lparr>sf_error := Some ''Input file exceeds the 20 MB maximum limit.''\<rparr>
      else f\<lparr>sf_inputFile := Some u, sf_inputText := [], sf_error := None\<rparr>)"

definition choose_expected :: "upload_file \<Rightarrow> single_form \<Rightarrow> single_form" where
  "choose_expected u f =
     (if f_size u > MAX_SINGLE_TEST_FILE_BYTES then f\<lparr>sf_error := Some ''Expected output file exceeds the 20 MB maximum limit.''\<rparr>
      else f\<lparr>sf_expFile := Some u, sf_expText := [], sf_error := None\<rparr>)"

datatype single_call =
    CreateTest SingleTestUploadItem
  | UpdateTest nat "upload_body option" "upload_body option" "int option"

definition given :: "upload_file option \<Rightarrow> string \<Rightarrow> bool" where
  "given u txt \<longleftrightarrow> u \<noteq> None \<or> js_trim txt \<noteq> []"

definition body_of :: "upload_file option \<Rightarrow> string \<Rightarrow> upload_body" where
  "body_of u txt = (case u of Some x \<Rightarrow> FileBody (f_bytes x) | None \<Rightarrow> TextBody txt)"

definition body_opt :: "upload_file option \<Rightarrow> string \<Rightarrow> upload_body option" where
  "body_opt u txt = (if u = None \<and> txt = [] then None else Some (body_of u txt))"

definition handleSave :: "test_meta option \<Rightarrow> single_form \<Rightarrow> single_form \<times> single_call option" where
  "handleSave editTest f0 =
     (let f = f0\<lparr>sf_error := None\<rparr>
      in if editTest = None \<and> (\<not> given (sf_inputFile f) (sf_inputText f) \<or> \<not> given (sf_expFile f) (sf_expText f))
         then (f\<lparr>sf_error := Some ''Both input and expected output must be provided.''\<rparr>, None)
         else if too_big (sf_inputFile f) then (f\<lparr>sf_error := Some ''Input file exceeds the 20 MB limit.''\<rparr>, None)
         else if too_big (sf_expFile f) then (f\<lparr>sf_error := Some ''Expected output file exceeds the 20 MB limit.''\<rparr>, None)
         else (f\<lparr>sf_uploading := True\<rparr>,
               Some (case editTest of
                  Some t \<Rightarrow> UpdateTest (tm_ordinal t) (body_opt (sf_inputFile f) (sf_inputText f))
                              (body_opt (sf_expFile f) (sf_expText f)) (Some (sf_points f))
                | None \<Rightarrow> CreateTest
                    \<lparr>ui_input = body_of (sf_inputFile f) (sf_inputText f), ui_inputFileName = map_option f_name (sf_inputFile f),
                     ui_expected = body_of (sf_expFile f) (sf_expText f), ui_expectedFileName = map_option f_name (sf_expFile f),
                     ui_points = Some (sf_points f)\<rparr>)))"

definition single_call_run :: "string \<Rightarrow> single_call \<Rightarrow> jsv cached" where
  "single_call_run problemId call =
     (case call of
        CreateTest item \<Rightarrow> uploadSingleTestCase problemId item
      | UpdateTest ordinal inp expected points \<Rightarrow> updateSingleTestCase problemId (int ordinal) inp expected points)"

text \<open>The end of the save: the dialog closes on success and stays open with the message otherwise.\<close>

definition handleSave_settle :: "exn + unit \<Rightarrow> single_form \<Rightarrow> bool \<times> single_form" where
  "handleSave_settle result f =
     (case result of
        Inr _ \<Rightarrow> (False, f\<lparr>sf_uploading := False\<rparr>)
      | Inl x \<Rightarrow> (True, f\<lparr>sf_error := Some (message_or x ''Failed to upload test case.''), sf_uploading := False\<rparr>))"

section \<open>What the table guarantees\<close>

definition numbered_tests :: "test_meta list \<Rightarrow> bool" where
  "numbered_tests ts \<longleftrightarrow> map tm_ordinal ts = [1..<Suc (length ts)]"

lemma map_set_new: "k \<notin> fst ` set m \<Longrightarrow> map_set k v m = m @ [(k, v)]"
  by (induction k v m rule: map_set.induct) auto

lemma foldl_map_set:
  assumes "distinct (map f xs)" "\<forall>x\<in>set xs. f x \<notin> fst ` set m"
  shows "foldl (\<lambda>m x. map_set (f x) (g x) m) m xs = m @ map (\<lambda>x. (f x, g x)) xs"
  using assms
proof (induction xs arbitrary: m)
  case (Cons x xs)
  then have "foldl (\<lambda>m x. map_set (f x) (g x) m) (m @ [(f x, g x)]) xs = (m @ [(f x, g x)]) @ map (\<lambda>x. (f x, g x)) xs"
    by (intro Cons.IH) (auto dest: image_eqI [where f = f, OF sym])
  then show ?case using Cons.prems by (simp add: map_set_new)
qed simp

lemma mergedPoints_eq:
  "distinct (map tm_ordinal ts) \<Longrightarrow> mergedPoints pending ts = map (\<lambda>t. (tm_ordinal t, shown_points pending t)) ts"
  unfolding mergedPoints_def by (subst foldl_map_set) auto

lemma map_of_ordinals:
  "distinct (map tm_ordinal ts) \<Longrightarrow> t \<in> set ts \<Longrightarrow> map_get (map (\<lambda>t. (tm_ordinal t, g t)) ts) (tm_ordinal t) = Some (g t)"
  unfolding map_get_def by (intro map_of_is_SomeI) (auto simp: o_def)


definition two_tests :: tests_tab where
  "two_tests = \<lparr>tt_problemId = Some ''p'', tt_tests = [\<lparr>tm_ordinal = 1, tm_points = 50, tm_rest = Null\<rparr>,
     \<lparr>tm_ordinal = 2, tm_points = 50, tm_rest = Null\<rparr>], tt_maxScore = 100, tt_pendingPoints = [(1, 30), (2, 70)],
     tt_savingPoints = False, tt_deleteOrdinal = None, tt_editTest = None, tt_singleOpen = False, tt_notice = None\<rparr>"


lemma map_zip_upt:
  "map (\<lambda>x. f (snd x)) (zip [0..<length ts] ts) = map f ts"
  "map (\<lambda>x. g (fst x)) (zip [0..<length ts] ts) = map g [0..<length ts]"
  by (auto intro: nth_equalityI)

lemma newPointsMap_eq:
  assumes "distinct (map tm_ordinal ts)"
  shows "newPointsMap ps ts = map (\<lambda>(i, t). (tm_ordinal t, nth_or_zero ps i)) (zip [0..<length ts] ts)"
proof -
  let ?z = "zip [0..<length ts] ts"
  have "distinct (map (\<lambda>x. tm_ordinal (snd x)) ?z)" using assms by (simp only: map_zip_upt)
  then show ?thesis
    unfolding newPointsMap_def using foldl_map_set [of "\<lambda>x. tm_ordinal (snd x)" ?z "[]" "\<lambda>x. nth_or_zero ps (fst x)"]
    by (simp add: split_def)
qed

lemma map_nth_or_zero: "length ps = n \<Longrightarrow> map (nth_or_zero ps) [0..<n] = ps"
  by (intro nth_equalityI) (auto simp: nth_or_zero_def)

text \<open>
  Splitting evenly settles the score: with a positive maximum score, what is sent gives every test of the table a share
  and the shares total the maximum score; after the server has accepted, the table shows those points and the scores
  add up, so saving them again would be accepted.
\<close>

theorem split_evenly_adds_up:
  assumes "distinct (map tm_ordinal (tt_tests s))" "tt_problemId s = Some pid" "tt_tests s \<noteq> []" "0 < tt_maxScore s"
  shows "\<exists>m. snd (handleSplitEvenly s) = Some m \<and> map fst m = map tm_ordinal (tt_tests s) \<and> sum_values m = tt_maxScore s \<and>
           (let s' = splitEvenly_settle (tt_tests s) (evenPoints s) (Inr ()) s
            in map (\<lambda>t. (tm_ordinal t, tm_points t)) (tt_tests s') = m \<and> snd (handleSavePoints s') = Some m)"
proof -
  let ?n = "length (tt_tests s)" and ?ps = "evenPoints s"
  let ?z = "zip [0..<?n] (tt_tests s)"
  let ?m = "map (\<lambda>(i, t). (tm_ordinal t, nth_or_zero ?ps i)) ?z"
  let ?s = "splitEvenly_settle (tt_tests s) ?ps (Inr ()) s"
  have len: "length ?ps = ?n" using assms(3,4) by (simp add: evenPoints_def)
  have sum: "sum_list ?ps = tt_maxScore s"
    using assms(3,4) sum_even [of "int ?n" "tt_maxScore s"] by (simp add: evenPoints_def)
  have vals: "map snd ?m = ?ps"
    using map_zip_upt(2) [of "nth_or_zero ?ps" "tt_tests s"] map_nth_or_zero [OF len] by (simp add: split_def o_def)
  have keys: "map fst ?m = map tm_ordinal (tt_tests s)"
    using map_zip_upt(1) [of tm_ordinal "tt_tests s"] by (simp add: split_def o_def)
  have after: "map (\<lambda>t. (tm_ordinal t, tm_points t)) (tt_tests ?s) = ?m"
    by (simp add: splitEvenly_settle_def say_def split_def)
  have "map tm_ordinal (tt_tests ?s) = map fst (map (\<lambda>t. (tm_ordinal t, tm_points t)) (tt_tests ?s))" by simp
  then have "distinct (map tm_ordinal (tt_tests ?s))" using after keys assms(1) by metis
  moreover have pend: "tt_pendingPoints ?s = []" "tt_problemId ?s = Some pid" "tt_maxScore ?s = tt_maxScore s"
    using assms(2) by (simp_all add: splitEvenly_settle_def say_def)
  ultimately have "mergedPoints (tt_pendingPoints ?s) (tt_tests ?s) = map (\<lambda>t. (tm_ordinal t, tm_points t)) (tt_tests ?s)"
    by (simp add: mergedPoints_eq shown_points_def map_get_def)
  then have "mergedPoints (tt_pendingPoints ?s) (tt_tests ?s) = ?m" using after by simp
  moreover have total: "sum_values ?m = tt_maxScore s" unfolding sum_values_def vals by (rule sum)
  ultimately have "snd (handleSavePoints ?s) = Some ?m" using pend by (simp add: handleSavePoints_def Let_def)
  moreover have "snd (handleSplitEvenly s) = Some ?m"
    using assms newPointsMap_eq [OF assms(1)] by (simp add: handleSplitEvenly_def)
  ultimately show ?thesis using keys total after by (simp add: Let_def)
qed

theorem split_evenly_adds_up_witness:
  "\<exists>m. snd (handleSplitEvenly two_tests) = Some m \<and> sum_values m = 100"
proof -
  have "distinct (map tm_ordinal (tt_tests two_tests))" "tt_problemId two_tests = Some ''p''" "tt_tests two_tests \<noteq> []"
      "0 < tt_maxScore two_tests" "tt_maxScore two_tests = 100"
    by (simp_all add: two_tests_def)
  then show ?thesis using split_evenly_adds_up [of two_tests "''p''"] by auto
qed

text \<open>
  After a deletion the table is renumbered without gaps even when it cannot be read again: from tests numbered 1 to n,
  deleting the k-th leaves tests numbered 1 to n - 1, the others' points and contents in their order; a refused deletion
  changes nothing.
\<close>

theorem delete_resequences:
  assumes "numbered_tests ts" "1 \<le> k" "k \<le> length ts"
  shows "numbered_tests (tt_tests (confirmDeleteTest_settle k ts (Inr ()) (Inl x) s)) \<and>
         map (\<lambda>t. (tm_points t, tm_rest t)) (tt_tests (confirmDeleteTest_settle k ts (Inr ()) (Inl x) s)) =
           remove_at (k - 1) (map (\<lambda>t. (tm_points t, tm_rest t)) ts) \<and>
         tt_tests (confirmDeleteTest_settle k ts (Inl y) r s) = tt_tests s"
proof -
  let ?a = "take (k - Suc 0) ts" and ?b = "drop k ts"
  have ts: "ts = ?a @ ts ! (k - Suc 0) # ?b"
    using assms(2,3) id_take_nth_drop [of "k - Suc 0" ts] by simp
  have ord: "tm_ordinal (ts ! i) = Suc i" if "i < length ts" for i
  proof -
    have "map tm_ordinal ts ! i = [1..<Suc (length ts)] ! i" using assms(1) by (simp add: numbered_tests_def)
    then show ?thesis using that by (simp del: upt_Suc)
  qed
  have a: "tm_ordinal t < k" if "t \<in> set ?a" for t
    using that assms(2,3) by (auto simp: in_set_conv_nth ord)
  have b: "k < tm_ordinal t" if "t \<in> set ?b" for t
    using that assms(2,3) by (auto simp: in_set_conv_nth ord)
  have kk: "tm_ordinal (ts ! (k - Suc 0)) = k" using assms(2,3) by (simp add: ord)
  have fa: "filter (\<lambda>t. tm_ordinal t \<noteq> k) ?a = ?a" "filter (\<lambda>t. tm_ordinal t \<noteq> k) ?b = ?b"
    using a b by (fastforce intro!: filter_True)+
  have ma: "map (\<lambda>t. if k < tm_ordinal t then t\<lparr>tm_ordinal := tm_ordinal t - 1\<rparr> else t) ?a = ?a"
    using a by (intro map_idI) fastforce
  have mb: "map (\<lambda>t. if k < tm_ordinal t then t\<lparr>tm_ordinal := tm_ordinal t - 1\<rparr> else t) ?b =
      map (\<lambda>t. t\<lparr>tm_ordinal := tm_ordinal t - 1\<rparr>) ?b"
    using b by (intro map_cong) auto
  have "resequence k ts = ?a @ map (\<lambda>t. t\<lparr>tm_ordinal := tm_ordinal t - 1\<rparr>) ?b"
    unfolding resequence_def by (subst ts) (simp add: fa kk ma mb)
  moreover have "numbered_tests (?a @ map (\<lambda>t. t\<lparr>tm_ordinal := tm_ordinal t - 1\<rparr>) ?b)"
    unfolding numbered_tests_def
    by (intro nth_equalityI) (use assms(2,3) in \<open>auto simp: nth_append ord min_def simp del: upt_Suc\<close>)
  moreover have "map (\<lambda>t. (tm_points t, tm_rest t)) (?a @ map (\<lambda>t. t\<lparr>tm_ordinal := tm_ordinal t - 1\<rparr>) ?b) =
      remove_at (k - Suc 0) (map (\<lambda>t. (tm_points t, tm_rest t)) ts)"
    using assms(2) by (simp add: remove_at_def take_map drop_map o_def)
  ultimately show ?thesis by (simp add: confirmDeleteTest_settle_def say_def)
qed

theorem delete_resequences_witness:
  "numbered_tests (tt_tests (confirmDeleteTest_settle 1 (tt_tests two_tests) (Inr ()) (Inl (Error ''offline'')) two_tests))"
  by (rule delete_resequences [THEN conjunct1]) (simp_all add: two_tests_def numbered_tests_def upt_rec)

text \<open>
  An edit slips to another test: the edits are kept by ordinal and not renumbered with the table, so after the first test is
  deleted, the points typed for the second are shown for the one that was third.
\<close>

definition three_tests :: tests_tab where
  "three_tests = handlePointChange 2 70 (two_tests\<lparr>tt_pendingPoints := [], tt_tests := tt_tests two_tests @
     [\<lparr>tm_ordinal = 3, tm_points = 0, tm_rest = Str ''third''\<rparr>]\<rparr>)"

theorem pending_points_shift:
  "let s = confirmDeleteTest_settle 1 (tt_tests three_tests) (Inr ()) (Inl x) three_tests
   in map (\<lambda>t. (tm_rest t, shown_points (tt_pendingPoints s) t)) (tt_tests s) = [(Null, 50), (Str ''third'', 70)]"
  by (simp add: three_tests_def two_tests_def handlePointChange_def confirmDeleteTest_settle_def say_def resequence_def
      shown_points_def map_get_def Let_def)

text \<open>
  The inspector mixes up two tests: an answer is written into whatever the dialog shows when it arrives, so after the first
  test's window was closed and the second one's opened, the first one's content stands under the second one's title.
\<close>

theorem inspector_shows_other_test:
  "let m = handleInspect_settle (Inr txt) (handleInspect_start 2 InputField)
   in im_ordinal m = 2 \<and> im_content m = txt \<and> \<not> im_loading m"
  by (simp add: handleInspect_settle_def handleInspect_start_def)

section \<open>What the dialog for one test guarantees\<close>

definition file_within :: "upload_file option \<Rightarrow> bool" where
  "file_within u \<longleftrightarrow> (\<forall>x. u = Some x \<longrightarrow> f_size x \<le> MAX_SINGLE_TEST_FILE_BYTES)"

text \<open>
  Only complete tests within the limit are uploaded: a new test is sent only when both sides are given, no file larger than
  20 MB is ever sent, choosing such a file keeps the one before, and when a stored test is edited, a side that is left
  empty is not sent, so the server keeps it. On a refusal the dialog stays open with what was typed.
\<close>

theorem single_upload_checked:
  "(case snd (handleSave editTest f) of
      None \<Rightarrow> sf_error (fst (handleSave editTest f)) \<noteq> None \<and> \<not> sf_uploading (fst (handleSave editTest f)) \<or> sf_uploading f
    | Some (CreateTest item) \<Rightarrow>
        editTest = None \<and> given (sf_inputFile f) (sf_inputText f) \<and> given (sf_expFile f) (sf_expText f) \<and>
        file_within (sf_inputFile f) \<and> file_within (sf_expFile f)
    | Some (UpdateTest k i x p) \<Rightarrow>
        (\<exists>t. editTest = Some t \<and> k = tm_ordinal t) \<and> file_within (sf_inputFile f) \<and> file_within (sf_expFile f) \<and>
        (i = None \<longleftrightarrow> sf_inputFile f = None \<and> sf_inputText f = []) \<and> (x = None \<longleftrightarrow> sf_expFile f = None \<and> sf_expText f = [])) \<and>
   (file_within (sf_inputFile f) \<longrightarrow> file_within (sf_inputFile (choose_input u f))) \<and>
   (file_within (sf_expFile f) \<longrightarrow> file_within (sf_expFile (choose_expected u f))) \<and>
   fst (handleSave_settle (Inl e) f) \<and>
   (sf_inputText (snd (handleSave_settle r f)), sf_expText (snd (handleSave_settle r f)), sf_points (snd (handleSave_settle r f))) =
     (sf_inputText f, sf_expText f, sf_points f)"
proof -
  have big: "too_big u \<longleftrightarrow> \<not> file_within u" for u by (cases u) (auto simp: too_big_def file_within_def)
  have "case snd (handleSave editTest f) of
      None \<Rightarrow> sf_error (fst (handleSave editTest f)) \<noteq> None \<and> \<not> sf_uploading (fst (handleSave editTest f)) \<or> sf_uploading f
    | Some (CreateTest item) \<Rightarrow>
        editTest = None \<and> given (sf_inputFile f) (sf_inputText f) \<and> given (sf_expFile f) (sf_expText f) \<and>
        file_within (sf_inputFile f) \<and> file_within (sf_expFile f)
    | Some (UpdateTest k i x p) \<Rightarrow>
        (\<exists>t. editTest = Some t \<and> k = tm_ordinal t) \<and> file_within (sf_inputFile f) \<and> file_within (sf_expFile f) \<and>
        (i = None \<longleftrightarrow> sf_inputFile f = None \<and> sf_inputText f = []) \<and> (x = None \<longleftrightarrow> sf_expFile f = None \<and> sf_expText f = [])"
    by (cases editTest) (simp_all add: handleSave_def big body_opt_def Let_def)
  moreover have "file_within (sf_inputFile f) \<longrightarrow> file_within (sf_inputFile (choose_input u f))"
    "file_within (sf_expFile f) \<longrightarrow> file_within (sf_expFile (choose_expected u f))"
    by (auto simp: choose_input_def choose_expected_def file_within_def)
  moreover have "fst (handleSave_settle (Inl e) f)"
    "(sf_inputText (snd (handleSave_settle r f)), sf_expText (snd (handleSave_settle r f)), sf_points (snd (handleSave_settle r f))) =
     (sf_inputText f, sf_expText f, sf_points f)"
    by (simp_all add: handleSave_settle_def split: sum.split)
  ultimately show ?thesis by blast
qed

definition typed_form :: single_form where
  "typed_form = \<lparr>sf_inputFile = None, sf_inputText = ''1 2'', sf_expFile = Some \<lparr>f_name = ''a.out'', f_bytes = ''3''\<rparr>, sf_expText = [],
     sf_points = 10, sf_uploading = False, sf_error = None\<rparr>"

theorem single_upload_checked_witness:
  "file_within (sf_expFile (choose_expected \<lparr>f_name = ''b.out'', f_bytes = ''4''\<rparr> typed_form))"
proof -
  have "file_within (sf_expFile typed_form)"
    by (simp add: typed_form_def file_within_def f_size_def MAX_SINGLE_TEST_FILE_BYTES_def)
  then show ?thesis
    using single_upload_checked [where f = typed_form and u = "\<lparr>f_name = ''b.out'', f_bytes = ''4''\<rparr>"] by blast
qed

end
