(* ===== verification/BatchUpload.thy ===== *)
theory BatchUpload
  imports TestsTab
begin

text \<open>
  The queue of file pairs (\<open>admin-frontend/src/components/problem-editor/test-cases-tab.tsx\<close>, \<open>enqueueFiles\<close> to
  \<open>handleRetryBatchItem\<close>, and \<open>test-cases/batch-upload-dialog.tsx\<close>): filling the queue, choosing pairs, the run that
  uploads one pair after the other, retries and removals, as a state machine over the user's actions and the server's
  answers. A run works on the queue, the selection and the table it was started with; it marks what it does by position.
\<close>

section \<open>The queue\<close>

datatype item_status = Queued | Uploading | Success | Failed string

record queue_item =
  qi_id :: string
  qi_baseName :: string
  qi_inputFile :: upload_file
  qi_expectedFile :: upload_file
  qi_totalSize :: nat
  qi_points :: int
  qi_status :: item_status
  qi_progress :: nat

type_synonym file_pair = "upload_file \<times> upload_file"

definition pair_of :: "queue_item \<Rightarrow> file_pair" where
  "pair_of q = (qi_inputFile q, qi_expectedFile q)"

text \<open>
  A run: the queue and the selection it captured, the position it is at, the table as it knows it, and (for the proofs
  only) the positions it has uploaded. A retry: its position, the item and the table it captured.
\<close>

record batch_run =
  rn_queue :: "queue_item list"
  rn_selected :: "string set"
  rn_index :: nat
  rn_tests :: "test_meta list"
  rn_sent :: "nat list"

type_synonym retry = "nat \<times> queue_item \<times> test_meta list"

record batch =
  ba_queue :: "queue_item list"
  ba_notice :: "string option"
  ba_modalOpen :: bool
  ba_tests :: "test_meta list"
  ba_run :: "batch_run option"
  ba_retries :: "retry list"
  ba_accepted :: "file_pair set"

definition no_batch :: "test_meta list \<Rightarrow> batch" where
  "no_batch tests = \<lparr>ba_queue = [], ba_notice = None, ba_modalOpen = False, ba_tests = tests, ba_run = None,
     ba_retries = [], ba_accepted = {}\<rparr>"

definition batchIsRunning :: "batch \<Rightarrow> bool" where
  "batchIsRunning s \<longleftrightarrow> ba_run s \<noteq> None"

definition queued_item :: "nat \<Rightarrow> PairedTestFiles \<Rightarrow> queue_item" where
  "queued_item idx p = \<lparr>qi_id = pf_baseName p @ ''_'' @ show_nat idx, qi_baseName = pf_baseName p, qi_inputFile = pf_inputFile p,
     qi_expectedFile = pf_expectedFile p, qi_totalSize = pf_totalSize p, qi_points = 0, qi_status = Queued, qi_progress = 0\<rparr>"

definition queue_of :: "PairedTestFiles list \<Rightarrow> queue_item list" where
  "queue_of pairs = map (\<lambda>(i, p). queued_item i p) (zip [0..<length pairs] pairs)"

definition enqueueFiles :: "(string \<Rightarrow> string \<Rightarrow> int) \<Rightarrow> upload_file list \<Rightarrow> batch \<Rightarrow> batch" where
  "enqueueFiles collate files s =
     (if files = [] then s
      else case matchTestFilePairs collate files of (pairs, unmatched) \<Rightarrow>
        if pairs = []
        then s\<lparr>ba_notice := Some ''Could not detect matching input/output pairs.'', ba_modalOpen := True\<rparr>
        else s\<lparr>ba_notice := Some (''Found '' @ show_nat (length pairs) @ '' test case pair(s) ready to upload part-by-part.'' @
                 (if unmatched \<noteq> [] then '' Note: '' @ show_nat (length unmatched) @ '' file(s) had no match: '' @
                    join_with '', '' (take 5 unmatched) else [])),
               ba_queue := queue_of pairs, ba_modalOpen := True\<rparr>)"

text \<open>\<open>prev.map((q, idx) => idx === i ? f(q) : q)\<close>\<close>

definition update_at :: "nat \<Rightarrow> (queue_item \<Rightarrow> queue_item) \<Rightarrow> queue_item list \<Rightarrow> queue_item list" where
  "update_at i f qs = (if i < length qs then qs[i := f (qs ! i)] else qs)"

definition started :: "queue_item \<Rightarrow> queue_item" where
  "started q = q\<lparr>qi_status := Uploading, qi_progress := 0\<rparr>"

definition succeeded :: "queue_item \<Rightarrow> queue_item" where
  "succeeded q = q\<lparr>qi_status := Success, qi_progress := 100\<rparr>"

definition failed_with :: "string \<Rightarrow> queue_item \<Rightarrow> queue_item" where
  "failed_with m q = q\<lparr>qi_status := Failed m\<rparr>"

definition absorb_created :: "test_meta list \<Rightarrow> saved_test \<Rightarrow> test_meta list" where
  "absorb_created tests v = (if sv_allTests v \<noteq> [] then sv_allTests v else tests @ [sv_test v])"

section \<open>The run\<close>

definition run_eligible :: "batch_run \<Rightarrow> nat \<Rightarrow> bool" where
  "run_eligible r i \<longleftrightarrow> qi_status (rn_queue r ! i) \<noteq> Success \<and> qi_id (rn_queue r ! i) \<in> rn_selected r"

definition next_index :: "batch_run \<Rightarrow> nat" where
  "next_index r = (case filter (run_eligible r) [rn_index r..<length (rn_queue r)] of [] \<Rightarrow> length (rn_queue r) | i # _ \<Rightarrow> i)"

text \<open>From the position the run is at to the next upload, or to reading the table again at the end.\<close>

definition run_from :: "batch_run \<Rightarrow> batch \<Rightarrow> batch" where
  "run_from r s =
     (let i = next_index r
      in if i < length (rn_queue r)
         then s\<lparr>ba_run := Some (r\<lparr>rn_index := i, rn_sent := rn_sent r @ [i]\<rparr>), ba_queue := update_at i started (ba_queue s)\<rparr>
         else s\<lparr>ba_run := Some (r\<lparr>rn_index := i\<rparr>)\<rparr>)"

definition runBatchUploadQueue :: "string set \<Rightarrow> batch \<Rightarrow> batch" where
  "runBatchUploadQueue selectedIds s =
     (if batchIsRunning s then s
      else run_from \<lparr>rn_queue = ba_queue s, rn_selected = selectedIds, rn_index = 0, rn_tests = ba_tests s, rn_sent = []\<rparr> s)"

definition run_progress :: "nat \<Rightarrow> batch \<Rightarrow> batch" where
  "run_progress pct s =
     (case ba_run s of None \<Rightarrow> s | Some r \<Rightarrow> s\<lparr>ba_queue := update_at (rn_index r) (\<lambda>q. q\<lparr>qi_progress := pct\<rparr>) (ba_queue s)\<rparr>)"

definition run_answer :: "exn + saved_test \<Rightarrow> batch \<Rightarrow> batch" where
  "run_answer result s =
     (case ba_run s of
        None \<Rightarrow> s
      | Some r \<Rightarrow>
          (case result of
             Inr v \<Rightarrow>
               let ts = absorb_created (rn_tests r) v
               in run_from (r\<lparr>rn_tests := ts, rn_index := Suc (rn_index r)\<rparr>)
                    (s\<lparr>ba_tests := ts, ba_queue := update_at (rn_index r) succeeded (ba_queue s),
                       ba_accepted := insert (pair_of (rn_queue r ! rn_index r)) (ba_accepted s)\<rparr>)
           | Inl x \<Rightarrow>
               run_from (r\<lparr>rn_index := Suc (rn_index r)\<rparr>)
                 (s\<lparr>ba_queue := update_at (rn_index r) (failed_with (message_or x ''Upload error'')) (ba_queue s)\<rparr>)))"

definition run_finish :: "exn + test_meta list \<Rightarrow> batch \<Rightarrow> batch" where
  "run_finish latest s =
     s\<lparr>ba_run := None, ba_tests := (case latest of Inr (t # ts) \<Rightarrow> t # ts | _ \<Rightarrow> ba_tests s)\<rparr>"

section \<open>Retries and removals\<close>

definition handleRetryBatchItem :: "nat \<Rightarrow> batch \<Rightarrow> batch" where
  "handleRetryBatchItem index s =
     (if index < length (ba_queue s)
      then s\<lparr>ba_queue := update_at index started (ba_queue s),
             ba_retries := (index, ba_queue s ! index, ba_tests s) # ba_retries s\<rparr>
      else s)"

definition retry_answer :: "retry \<Rightarrow> exn + saved_test \<Rightarrow> batch \<Rightarrow> batch" where
  "retry_answer rt result s =
     (case rt of (index, item, tests) \<Rightarrow>
        (case result of
           Inr v \<Rightarrow> s\<lparr>ba_tests := absorb_created tests v, ba_queue := update_at index succeeded (ba_queue s),
                     ba_accepted := insert (pair_of item) (ba_accepted s)\<rparr>
         | Inl x \<Rightarrow> s\<lparr>ba_queue := update_at index (failed_with (message_or x ''Upload error'')) (ba_queue s)\<rparr>)
        \<lparr>ba_retries := remove1 rt (ba_retries s)\<rparr>)"

definition handleRemoveBatchItem :: "nat \<Rightarrow> batch \<Rightarrow> batch" where
  "handleRemoveBatchItem index s = s\<lparr>ba_queue := remove_at index (ba_queue s)\<rparr>"

text \<open>When the dialog offers the buttons.\<close>

definition can_retry :: "nat \<Rightarrow> batch \<Rightarrow> bool" where
  "can_retry i s \<longleftrightarrow> i < length (ba_queue s) \<and> \<not> batchIsRunning s \<and> (\<exists>m. qi_status (ba_queue s ! i) = Failed m)"

definition can_remove :: "nat \<Rightarrow> batch \<Rightarrow> bool" where
  "can_remove i s \<longleftrightarrow> i < length (ba_queue s) \<and> \<not> batchIsRunning s \<and> qi_status (ba_queue s ! i) \<noteq> Uploading"

definition quiet :: "batch \<Rightarrow> bool" where
  "quiet s \<longleftrightarrow> ba_run s = None \<and> ba_retries s = []"

text \<open>With \<open>undisturbed\<close>, files are dropped and pairs removed only while nothing is being uploaded.\<close>

inductive batch_step :: "(string \<Rightarrow> string \<Rightarrow> int) \<Rightarrow> bool \<Rightarrow> batch \<Rightarrow> batch \<Rightarrow> bool"
  for collate :: "string \<Rightarrow> string \<Rightarrow> int" and undisturbed :: bool where
  Drop: "undisturbed \<longrightarrow> quiet s \<Longrightarrow> batch_step collate undisturbed s (enqueueFiles collate files s)"
| StartRun: "ba_run s = None \<Longrightarrow> batch_step collate undisturbed s (runBatchUploadQueue sel s)"
| Progress: "batch_step collate undisturbed s (run_progress pct s)"
| RunAnswer: "ba_run s = Some r \<Longrightarrow> rn_index r < length (rn_queue r) \<Longrightarrow> batch_step collate undisturbed s (run_answer result s)"
| RunFinish: "ba_run s = Some r \<Longrightarrow> rn_index r = length (rn_queue r) \<Longrightarrow> batch_step collate undisturbed s (run_finish latest s)"
| RetryItem: "can_retry i s \<Longrightarrow> batch_step collate undisturbed s (handleRetryBatchItem i s)"
| RetryAnswer: "rt \<in> set (ba_retries s) \<Longrightarrow> batch_step collate undisturbed s (retry_answer rt result s)"
| RemoveItem: "can_remove i s \<Longrightarrow> undisturbed \<longrightarrow> quiet s \<Longrightarrow> batch_step collate undisturbed s (handleRemoveBatchItem i s)"

section \<open>Invariant\<close>

lemma pair_of_marks [simp]:
  "pair_of (started q) = pair_of q" "pair_of (succeeded q) = pair_of q" "pair_of (failed_with m q) = pair_of q"
  "pair_of (q\<lparr>qi_progress := n\<rparr>) = pair_of q"
  "qi_status (started q) = Uploading" "qi_status (succeeded q) = Success" "qi_status (failed_with m q) = Failed m"
  by (simp_all add: pair_of_def started_def succeeded_def failed_with_def)

lemma update_at_length [simp]: "length (update_at i f qs) = length qs"
  by (simp add: update_at_def)

lemma update_at_pairs [simp]:
  "(\<And>q. pair_of (f q) = pair_of q) \<Longrightarrow> map pair_of (update_at i f qs) = map pair_of qs"
  by (auto intro!: nth_equalityI simp: update_at_def nth_list_update)

lemma set_update_at: "q \<in> set (update_at i f qs) \<Longrightarrow> q \<in> set qs \<or> i < length qs \<and> q = f (qs ! i)"
  using set_update_subset_insert [of qs i "f (qs ! i)"] by (auto simp: update_at_def split: if_splits)

definition run_ok :: "batch_run \<Rightarrow> bool" where
  "run_ok r \<longleftrightarrow> rn_index r \<le> length (rn_queue r) \<and>
     rn_sent r = filter (run_eligible r) [0..<min (length (rn_queue r)) (Suc (rn_index r))]"

definition run_ready :: "batch_run \<Rightarrow> bool" where
  "run_ready r \<longleftrightarrow> rn_index r \<le> length (rn_queue r) \<and> rn_sent r = filter (run_eligible r) [0..<rn_index r]"

text \<open>Every pair marked as uploaded was accepted; a run and the retries in flight point at the pairs they began with.\<close>

definition marks_ok :: "batch \<Rightarrow> bool" where
  "marks_ok s \<longleftrightarrow>
     (\<forall>q\<in>set (ba_queue s). qi_status q = Success \<longrightarrow> pair_of q \<in> ba_accepted s) \<and>
     (\<forall>r. ba_run s = Some r \<longrightarrow> map pair_of (ba_queue s) = map pair_of (rn_queue r)) \<and>
     (\<forall>(i, q, ts)\<in>set (ba_retries s). i < length (ba_queue s) \<and> map pair_of (ba_queue s) ! i = pair_of q)"

definition batch_inv :: "bool \<Rightarrow> batch \<Rightarrow> bool" where
  "batch_inv undisturbed s \<longleftrightarrow>
     (\<forall>r. ba_run s = Some r \<longrightarrow> run_ok r) \<and> (undisturbed \<longrightarrow> marks_ok s)"

lemma run_eligible_updates [simp]:
  "run_eligible (r\<lparr>rn_index := i\<rparr>) = run_eligible r" "run_eligible (r\<lparr>rn_sent := xs\<rparr>) = run_eligible r"
  "run_eligible (r\<lparr>rn_tests := ts\<rparr>) = run_eligible r"
  by (auto simp: run_eligible_def fun_eq_iff)

lemma filter_upt_Cons:
  assumes "filter P [a..<n] = i # js"
  shows "a \<le> i \<and> i < n \<and> P i \<and> filter P [a..<i] = []"
proof -
  obtain us vs where us: "[a..<n] = us @ i # vs" "\<forall>u\<in>set us. \<not> P u" "P i"
    using assms unfolding filter_eq_Cons_iff by blast
  let ?k = "length us"
  have k: "?k < length [a..<n]" unfolding us(1) by simp
  have "i = [a..<n] ! ?k" unfolding us(1) by simp
  then have i: "i = a + ?k" using k by simp
  have "us = take ?k [a..<n]" unfolding us(1) by simp
  then have "us = [a..<i]" using k i by (simp add: take_upt)
  then show ?thesis using us(2,3) k i by (auto simp: filter_empty_conv)
qed

lemma next_index_spec:
  assumes "rn_index r \<le> length (rn_queue r)"
  shows "rn_index r \<le> next_index r \<and> next_index r \<le> length (rn_queue r) \<and>
         filter (run_eligible r) [rn_index r..<next_index r] = [] \<and>
         (next_index r < length (rn_queue r) \<longrightarrow> run_eligible r (next_index r))"
proof (cases "filter (run_eligible r) [rn_index r..<length (rn_queue r)]")
  case Nil
  then show ?thesis using assms by (simp add: next_index_def)
next
  case (Cons i js)
  then show ?thesis using filter_upt_Cons [OF Cons] by (simp add: next_index_def)
qed

lemma run_from_ok:
  assumes "run_ready r"
  shows "\<exists>r'. ba_run (run_from r s) = Some r' \<and> run_ok r' \<and> rn_queue r' = rn_queue r \<and> rn_selected r' = rn_selected r"
proof -
  let ?i = "next_index r" and ?n = "length (rn_queue r)" and ?P = "run_eligible r"
  have le: "rn_index r \<le> ?n" and sent: "rn_sent r = filter ?P [0..<rn_index r]" using assms by (auto simp: run_ready_def)
  note nx = next_index_spec [OF le]
  have "[0..<?i] = [0..<rn_index r] @ [rn_index r..<?i]" using nx by (metis le_Suc_ex upt_add_eq_append zero_le)
  then have skip: "filter ?P [0..<?i] = rn_sent r" using nx sent by simp
  show ?thesis
  proof (cases "?i < ?n")
    case True
    have "min ?n (Suc ?i) = Suc ?i" using True by simp
    then have "rn_sent r @ [?i] = filter ?P [0..<min ?n (Suc ?i)]" using True nx skip by simp
    then show ?thesis using True by (simp add: run_from_def run_ok_def Let_def)
  next
    case False
    then have "?i = ?n" using nx by simp
    then show ?thesis using skip by (simp add: run_from_def run_ok_def Let_def)
  qed
qed

lemma run_from_parts [simp]:
  "ba_accepted (run_from r s) = ba_accepted s" "ba_retries (run_from r s) = ba_retries s" "ba_tests (run_from r s) = ba_tests s"
  "map pair_of (ba_queue (run_from r s)) = map pair_of (ba_queue s)" "length (ba_queue (run_from r s)) = length (ba_queue s)"
  by (simp_all add: run_from_def Let_def)

lemma run_from_marks:
  "q \<in> set (ba_queue (run_from r s)) \<Longrightarrow> qi_status q = Success \<Longrightarrow> q \<in> set (ba_queue s)"
  by (auto simp: run_from_def Let_def dest!: set_update_at split: if_splits)

lemma run_from_inv:
  assumes "run_ready r" "undisturbed \<longrightarrow> marks_ok (s\<lparr>ba_run := None\<rparr>) \<and> map pair_of (ba_queue s) = map pair_of (rn_queue r)"
  shows "batch_inv undisturbed (run_from r s)"
proof -
  obtain r' where r': "ba_run (run_from r s) = Some r'" "run_ok r'" "rn_queue r' = rn_queue r"
    using run_from_ok [OF assms(1)] by blast
  then show ?thesis
    using assms(2) run_from_marks [of _ r s]
    by (fastforce simp: batch_inv_def marks_ok_def pair_of_def)
qed

lemma marks_ok_idle: "marks_ok s \<Longrightarrow> marks_ok (s\<lparr>ba_run := None\<rparr>)"
  by (simp add: marks_ok_def)

lemma marks_ok_run_pairs: "marks_ok s \<Longrightarrow> ba_run s = Some r \<Longrightarrow> map pair_of (ba_queue s) = map pair_of (rn_queue r)"
  by (simp add: marks_ok_def)

lemma marks_ok_pairs:
  assumes "map pair_of qs = map pair_of (ba_queue s)" "marks_ok s"
    and "\<And>q. q \<in> set qs \<Longrightarrow> qi_status q = Success \<Longrightarrow> pair_of q \<in> acc"
  shows "marks_ok (s\<lparr>ba_queue := qs, ba_accepted := acc\<rparr>)"
proof -
  have "length qs = length (ba_queue s)" by (rule map_eq_imp_length_eq [OF assms(1)])
  then show ?thesis using assms(2,3) by (simp add: marks_ok_def assms(1))
qed

lemma marks_ok_update:
  assumes "marks_ok s" "\<And>q. pair_of (f q) = pair_of q" "\<And>q. qi_status (f q) = Success \<Longrightarrow> qi_status q = Success"
  shows "marks_ok (s\<lparr>ba_queue := update_at i f (ba_queue s)\<rparr>)"
proof -
  have "marks_ok (s\<lparr>ba_queue := update_at i f (ba_queue s), ba_accepted := ba_accepted s\<rparr>)"
  proof (rule marks_ok_pairs [OF _ assms(1)])
    fix q assume "q \<in> set (update_at i f (ba_queue s))" "qi_status q = Success"
    then show "pair_of q \<in> ba_accepted s"
      using assms set_update_at [of q i f "ba_queue s"] by (auto simp: marks_ok_def)
  qed (simp_all add: assms(2))
  then show ?thesis by simp
qed

lemma marks_ok_succeed:
  assumes "marks_ok s" "i < length (ba_queue s) \<Longrightarrow> map pair_of (ba_queue s) ! i = p"
  shows "marks_ok (s\<lparr>ba_queue := update_at i succeeded (ba_queue s), ba_accepted := insert p (ba_accepted s)\<rparr>)"
proof (rule marks_ok_pairs [OF _ assms(1)])
  fix q assume "q \<in> set (update_at i succeeded (ba_queue s))" "qi_status q = Success"
  then show "pair_of q \<in> insert p (ba_accepted s)"
    using assms set_update_at [of q i succeeded "ba_queue s"] by (auto simp: marks_ok_def)
qed auto

lemma batch_step_inv:
  assumes "batch_step collate undisturbed s s'" "batch_inv undisturbed s"
  shows "batch_inv undisturbed s'"
  using assms
proof (induction rule: batch_step.induct)
  case (Drop s files)
  show ?case
  proof (cases "matchTestFilePairs collate files")
    case (Pair pairs unmatched)
    have "marks_ok s" if undisturbed using Drop.prems that by (simp add: batch_inv_def)
    moreover have "\<forall>q\<in>set (queue_of ps). qi_status q \<noteq> Success" for ps
      by (auto simp: queue_of_def queued_item_def)
    ultimately show ?thesis using Drop
      by (auto simp: batch_inv_def marks_ok_def enqueueFiles_def Pair quiet_def)
  qed
next
  case (StartRun s sel)
  then show ?case
    by (auto simp: runBatchUploadQueue_def batchIsRunning_def intro!: run_from_inv)
      (auto simp: run_ready_def batch_inv_def intro: marks_ok_idle)
next
  case (Progress s pct)
  then show ?case
    by (auto simp: batch_inv_def run_progress_def intro!: marks_ok_update split: option.split)
next
  case (RunAnswer s r result)
  then have ok: "run_ok r" and lt: "rn_index r < length (rn_queue r)" and run: "ba_run s = Some r" by (auto simp: batch_inv_def)
  have ready: "run_ready (r\<lparr>rn_index := Suc (rn_index r)\<rparr>)" for ts
    using ok lt by (simp add: run_ok_def run_ready_def min_absorb2)
  then have ready': "run_ready (r\<lparr>rn_tests := ts, rn_index := Suc (rn_index r)\<rparr>)" for ts
    by (simp add: run_ready_def)
  show ?case
  proof (cases result)
    case (Inl x)
    let ?s = "s\<lparr>ba_queue := update_at (rn_index r) (failed_with (message_or x ''Upload error'')) (ba_queue s)\<rparr>"
    have "undisturbed \<longrightarrow> marks_ok (?s\<lparr>ba_run := None\<rparr>) \<and> map pair_of (ba_queue ?s) = map pair_of (rn_queue r)"
      using RunAnswer.prems run by (auto simp: batch_inv_def marks_ok_run_pairs intro!: marks_ok_idle [OF marks_ok_update])
    then show ?thesis using run_from_inv [OF ready, of undisturbed ?s] run by (simp add: run_answer_def Inl)
  next
    case (Inr v)
    let ?ts = "absorb_created (rn_tests r) v"
    let ?s1 = "s\<lparr>ba_queue := update_at (rn_index r) succeeded (ba_queue s),
                 ba_accepted := insert (pair_of (rn_queue r ! rn_index r)) (ba_accepted s)\<rparr>"
    let ?s = "s\<lparr>ba_tests := ?ts, ba_queue := update_at (rn_index r) succeeded (ba_queue s),
                ba_accepted := insert (pair_of (rn_queue r ! rn_index r)) (ba_accepted s)\<rparr>"
    have pairs: "undisturbed \<longrightarrow> map pair_of (ba_queue ?s) = map pair_of (rn_queue r)"
      using RunAnswer.prems run by (auto simp: batch_inv_def marks_ok_run_pairs)
    have "undisturbed \<longrightarrow> marks_ok ?s1"
      using RunAnswer.prems run lt by (auto simp: batch_inv_def marks_ok_run_pairs intro!: marks_ok_succeed)
    then have "undisturbed \<longrightarrow> marks_ok ?s" by (simp add: marks_ok_def)
    then have "undisturbed \<longrightarrow> marks_ok (?s\<lparr>ba_run := None\<rparr>) \<and> map pair_of (ba_queue ?s) = map pair_of (rn_queue r)"
      using pairs marks_ok_idle by blast
    then show ?thesis using run_from_inv [OF ready' [of ?ts], of undisturbed ?s] run by (simp add: run_answer_def Inr Let_def)
  qed
next
  case (RunFinish s r latest)
  then show ?case by (auto simp: batch_inv_def run_finish_def marks_ok_def)
next
  case (RetryItem i s)
  let ?s = "s\<lparr>ba_queue := update_at i started (ba_queue s)\<rparr>"
  have i: "i < length (ba_queue s)" using RetryItem by (simp add: can_retry_def)
  have "undisturbed \<longrightarrow> marks_ok ?s" using RetryItem.prems by (auto simp: batch_inv_def intro: marks_ok_update)
  then show ?case using RetryItem.prems i
    by (auto simp: batch_inv_def handleRetryBatchItem_def marks_ok_def)
next
  case (RetryAnswer rt s result)
  obtain i q ts where rt: "rt = (i, q, ts)" by (cases rt)
  have fewer: "marks_ok (t\<lparr>ba_retries := remove1 rt (ba_retries t)\<rparr>)" if "marks_ok t" for t
    using that set_remove1_subset [of rt "ba_retries t"] unfolding marks_ok_def by fastforce
  show ?case
  proof (cases result)
    case (Inl x)
    let ?s = "s\<lparr>ba_queue := update_at i (failed_with (message_or x ''Upload error'')) (ba_queue s)\<rparr>"
    have "undisturbed \<longrightarrow> marks_ok ?s" using RetryAnswer.prems by (auto simp: batch_inv_def intro: marks_ok_update)
    then show ?thesis using RetryAnswer.prems fewer [of ?s] by (simp add: batch_inv_def retry_answer_def rt Inl)
  next
    case (Inr v)
    let ?s1 = "s\<lparr>ba_queue := update_at i succeeded (ba_queue s), ba_accepted := insert (pair_of q) (ba_accepted s)\<rparr>"
    let ?s = "s\<lparr>ba_tests := absorb_created ts v, ba_queue := update_at i succeeded (ba_queue s),
                ba_accepted := insert (pair_of q) (ba_accepted s)\<rparr>"
    have "marks_ok s \<Longrightarrow> map pair_of (ba_queue s) ! i = pair_of q"
      using RetryAnswer.hyps by (auto simp: marks_ok_def rt)
    then have "undisturbed \<longrightarrow> marks_ok ?s1"
      using RetryAnswer.prems marks_ok_succeed [of s i "pair_of q"] unfolding batch_inv_def by blast
    then have "undisturbed \<longrightarrow> marks_ok ?s" by (simp add: marks_ok_def)
    then show ?thesis using RetryAnswer.prems fewer [of ?s] by (simp add: batch_inv_def retry_answer_def rt Inr)
  qed
next
  case (RemoveItem i s)
  have sub: "set (remove_at i (ba_queue s)) \<subseteq> set (ba_queue s)"
    using set_take_subset [of i "ba_queue s"] set_drop_subset [of "Suc i" "ba_queue s"] by (auto simp: remove_at_def)
  have run: "ba_run s = None" using RemoveItem by (simp add: can_remove_def batchIsRunning_def)
  then show ?case using RemoveItem sub
    by (auto simp: batch_inv_def handleRemoveBatchItem_def quiet_def marks_ok_def)
qed

lemma no_batch_inv: "batch_inv undisturbed (no_batch tests)"
  by (simp add: batch_inv_def marks_ok_def no_batch_def)

interpretation batch_queue: state_machine "\<lambda>s. \<exists>tests. s = no_batch tests" "batch_step collate undisturbed"
    "batch_inv undisturbed" for collate undisturbed
  by unfold_locales (auto intro: no_batch_inv batch_step_inv)

section \<open>What the queue guarantees\<close>

text \<open>
  C21: A run uploads what was chosen, once and in order: over any interleaving of drops, runs, retries, removals and answers, a
  run that has come to its end has uploaded exactly the chosen pairs of the queue it began with that were not marked as
  uploaded, each once, from the first to the last. And while files are dropped and pairs removed only when nothing is being
  uploaded, a pair marked as uploaded is one the server accepted.
\<close>

theorem batch_uploads_chosen:
  assumes "reaches (\<lambda>s. \<exists>tests. s = no_batch tests) (batch_step collate undisturbed) s"
  shows "(\<forall>r. ba_run s = Some r \<and> rn_index r = length (rn_queue r) \<longrightarrow>
             rn_sent r = filter (\<lambda>i. qi_status (rn_queue r ! i) \<noteq> Success \<and> qi_id (rn_queue r ! i) \<in> rn_selected r)
                           [0..<length (rn_queue r)]) \<and>
         (undisturbed \<longrightarrow> (\<forall>q\<in>set (ba_queue s). qi_status q = Success \<longrightarrow> pair_of q \<in> ba_accepted s))"
proof -
  have "batch_inv undisturbed s" by (rule batch_queue.reaches_inv [OF assms])
  then show ?thesis by (auto simp: batch_inv_def marks_ok_def run_ok_def run_eligible_def [abs_def] min_def)
qed

text \<open>A run over one pair, from the drop to the answer.\<close>

definition small_file :: "string \<Rightarrow> upload_file" where
  "small_file n = \<lparr>f_name = n, f_bytes = ''1''\<rparr>"

definition dropped :: "string list \<Rightarrow> batch \<Rightarrow> batch" where
  "dropped ns = enqueueFiles (\<lambda>_ _. 0) (map small_file ns)"

lemma match_one:
  "matchTestFilePairs (\<lambda>_ _. 0) (map small_file [''01.in'', ''01.out'']) =
     ([\<lparr>pf_baseName = ''01'', pf_inputFile = small_file ''01.in'', pf_expectedFile = small_file ''01.out'', pf_totalSize = 2\<rparr>], [])"
  by code_simp

definition pair_01 :: PairedTestFiles where
  "pair_01 = \<lparr>pf_baseName = ''01'', pf_inputFile = small_file ''01.in'', pf_expectedFile = small_file ''01.out'', pf_totalSize = 2\<rparr>"

lemma dropped_one: "ba_queue (dropped [''01.in'', ''01.out''] s) = [queued_item 0 pair_01]"
    "ba_run (dropped [''01.in'', ''01.out''] s) = ba_run s" "ba_accepted (dropped [''01.in'', ''01.out''] s) = ba_accepted s"
    "ba_retries (dropped [''01.in'', ''01.out''] s) = ba_retries s"
  unfolding dropped_def enqueueFiles_def match_one by (simp_all add: queue_of_def pair_01_def)

lemma dropped_two:
  "ba_queue (dropped [''02.in'', ''02.out''] s) =
     [queued_item 0 \<lparr>pf_baseName = ''02'', pf_inputFile = small_file ''02.in'', pf_expectedFile = small_file ''02.out'',
        pf_totalSize = 2\<rparr>]"
  "ba_run (dropped [''02.in'', ''02.out''] s) = ba_run s" "ba_accepted (dropped [''02.in'', ''02.out''] s) = ba_accepted s"
proof -
  have "matchTestFilePairs (\<lambda>_ _. 0) (map small_file [''02.in'', ''02.out'']) =
     ([\<lparr>pf_baseName = ''02'', pf_inputFile = small_file ''02.in'', pf_expectedFile = small_file ''02.out'', pf_totalSize = 2\<rparr>], [])"
    by code_simp
  note m = this
  show "ba_queue (dropped [''02.in'', ''02.out''] s) =
     [queued_item 0 \<lparr>pf_baseName = ''02'', pf_inputFile = small_file ''02.in'', pf_expectedFile = small_file ''02.out'',
        pf_totalSize = 2\<rparr>]"
    "ba_run (dropped [''02.in'', ''02.out''] s) = ba_run s" "ba_accepted (dropped [''02.in'', ''02.out''] s) = ba_accepted s"
    unfolding dropped_def enqueueFiles_def m by (simp_all add: queue_of_def)
qed

definition run_one :: batch where
  "run_one = runBatchUploadQueue {''01_0''} (dropped [''01.in'', ''01.out''] (no_batch []))"

lemma show_nat_0: "show_nat 0 = ''0''"
  by code_simp

lemma run_one_run:
  "\<exists>r. ba_run run_one = Some r \<and> rn_index r = 0 \<and> rn_queue r = [queued_item 0 pair_01] \<and> rn_selected r = {''01_0''}"
  by (simp add: run_one_def runBatchUploadQueue_def batchIsRunning_def dropped_one no_batch_def run_from_def next_index_def
      run_eligible_def queued_item_def pair_01_def show_nat_0 Let_def)

lemma run_one_queue: "ba_queue run_one = [started (queued_item 0 pair_01)]"
  by (simp add: run_one_def runBatchUploadQueue_def batchIsRunning_def dropped_one no_batch_def run_from_def next_index_def
      run_eligible_def queued_item_def pair_01_def show_nat_0 update_at_def Let_def)

lemma run_one_reached: "reaches (\<lambda>s. \<exists>tests. s = no_batch tests) (batch_step (\<lambda>_ _. 0) u) run_one"
proof -
  have "reaches (\<lambda>s. \<exists>tests. s = no_batch tests) (batch_step (\<lambda>_ _. 0) u) (no_batch [])" by (rule reaches_init) blast
  then have "reaches (\<lambda>s. \<exists>tests. s = no_batch tests) (batch_step (\<lambda>_ _. 0) u) (dropped [''01.in'', ''01.out''] (no_batch []))"
    unfolding dropped_def by (rule reaches_step) (rule Drop, simp add: quiet_def no_batch_def)
  then show ?thesis unfolding run_one_def
    by (rule reaches_step) (rule StartRun, simp only: dropped_one no_batch_def batch.simps)
qed

definition saved_one :: saved_test where
  "saved_one = \<lparr>sv_test = \<lparr>tm_ordinal = 1, tm_points = 0, tm_rest = Null\<rparr>, sv_allTests = []\<rparr>"

theorem batch_uploads_chosen_witness:
  "\<exists>q. ba_queue (run_answer (Inr saved_one) run_one) = [q] \<and> qi_status q = Success \<and>
       pair_of q \<in> ba_accepted (run_answer (Inr saved_one) run_one)"
proof -
  obtain r where r: "ba_run run_one = Some r" "rn_index r = 0" "rn_queue r = [queued_item 0 pair_01]"
    using run_one_run by blast
  have "batch_step (\<lambda>_ _. 0) True run_one (run_answer (Inr saved_one) run_one)" by (rule RunAnswer [OF r(1)]) (simp add: r)
  then have "reaches (\<lambda>s. \<exists>tests. s = no_batch tests) (batch_step (\<lambda>_ _. 0) True) (run_answer (Inr saved_one) run_one)"
    by (rule reaches_step [OF run_one_reached])
  from batch_uploads_chosen [OF this] show ?thesis using r run_one_queue
    by (auto simp: run_answer_def run_from_def update_at_def succeeded_def next_index_def Let_def)
qed

text \<open>
  Files dropped during a run are marked as uploaded without being sent: the run goes on marking by position, so the answer for
  the first queue's pair turns the new queue's pair into a success, which every later run then skips.
\<close>

definition dropped_in_run :: batch where
  "dropped_in_run = run_answer (Inr saved_one) (dropped [''02.in'', ''02.out''] run_one)"

theorem drop_in_run_marks_wrong_pair:
  "reaches (\<lambda>s. \<exists>tests. s = no_batch tests) (batch_step (\<lambda>_ _. 0) False) dropped_in_run \<and>
   (\<exists>q\<in>set (ba_queue dropped_in_run). qi_status q = Success \<and> pair_of q = (small_file ''02.in'', small_file ''02.out'') \<and>
      pair_of q \<notin> ba_accepted dropped_in_run)"
proof
  obtain r where r: "ba_run run_one = Some r" "rn_index r = 0" "rn_queue r = [queued_item 0 pair_01]" "rn_selected r = {''01_0''}"
    using run_one_run by blast
  let ?d = "dropped [''02.in'', ''02.out''] run_one"
  have "reaches (\<lambda>s. \<exists>tests. s = no_batch tests) (batch_step (\<lambda>_ _. 0) False) ?d"
    unfolding dropped_def by (rule reaches_step [OF run_one_reached]) (rule Drop, simp)
  then show "reaches (\<lambda>s. \<exists>tests. s = no_batch tests) (batch_step (\<lambda>_ _. 0) False) dropped_in_run"
    unfolding dropped_in_run_def by (rule reaches_step) (rule RunAnswer [where r = r], simp_all add: dropped_two r)
  have accepted: "ba_accepted run_one = {}"
    by (simp add: run_one_def runBatchUploadQueue_def batchIsRunning_def dropped_one no_batch_def)
  show "\<exists>q\<in>set (ba_queue dropped_in_run). qi_status q = Success \<and> pair_of q = (small_file ''02.in'', small_file ''02.out'') \<and>
      pair_of q \<notin> ba_accepted dropped_in_run"
    by (simp add: dropped_in_run_def run_answer_def r dropped_two saved_one_def absorb_created_def run_from_def next_index_def
        update_at_def accepted pair_of_def succeeded_def queued_item_def pair_01_def small_file_def Let_def)
qed

text \<open>
  A retry does not count as a run: while it is being sent, the run can be started, and it uploads the same pair again.
\<close>

theorem retry_uploaded_twice:
  assumes "can_retry i s" "qi_id (ba_queue s ! i) \<in> sel" "\<forall>j<i. qi_status (ba_queue s ! j) = Success"
  shows "\<exists>r. ba_run (runBatchUploadQueue sel (handleRetryBatchItem i s)) = Some r \<and> rn_sent r = [i] \<and>
           i \<in> fst ` set (ba_retries (runBatchUploadQueue sel (handleRetryBatchItem i s)))"
proof -
  let ?s = "handleRetryBatchItem i s" and ?n = "length (ba_queue s)"
  have i: "i < ?n" and idle: "ba_run s = None" using assms(1) by (auto simp: can_retry_def batchIsRunning_def)
  let ?r = "\<lparr>rn_queue = ba_queue ?s, rn_selected = sel, rn_index = 0, rn_tests = ba_tests ?s, rn_sent = []\<rparr>"
  have q: "ba_queue ?s = (ba_queue s)[i := started (ba_queue s ! i)]"
    using i by (simp add: handleRetryBatchItem_def update_at_def)
  have "run_eligible ?r i" using i assms(2) by (simp add: run_eligible_def q started_def)
  moreover have "\<not> run_eligible ?r j" if "j < i" for j using that assms(3) by (simp add: run_eligible_def q)
  moreover have "[0..<?n] = [0..<i] @ i # [Suc i..<?n]" using i by (metis le0 less_imp_le upt_add_eq_append le_Suc_ex upt_conv_Cons)
  ultimately have "next_index ?r = i" by (simp add: next_index_def q filter_empty_conv)
  then show ?thesis using i idle
    by (simp add: runBatchUploadQueue_def batchIsRunning_def handleRetryBatchItem_def run_from_def Let_def)
qed

section \<open>Choosing pairs\<close>

definition within_limit :: "queue_item \<Rightarrow> bool" where
  "within_limit q \<longleftrightarrow>
     f_size (qi_inputFile q) \<le> MAX_SINGLE_TEST_FILE_BYTES \<and> f_size (qi_expectedFile q) \<le> MAX_SINGLE_TEST_FILE_BYTES"

definition validIds :: "queue_item list \<Rightarrow> string set" where
  "validIds queue = set (map qi_id (filter within_limit queue))"

text \<open>The effect that runs on every new value of the queue.\<close>

definition selection_effect :: "queue_item list \<Rightarrow> string set \<Rightarrow> string set" where
  "selection_effect queue selectedIds = validIds queue"

definition pendingQueue :: "queue_item list \<Rightarrow> queue_item list" where
  "pendingQueue queue = filter (\<lambda>q. qi_status q \<noteq> Success) queue"

definition successCount :: "queue_item list \<Rightarrow> nat" where
  "successCount queue = length (filter (\<lambda>q. qi_status q = Success) queue)"

definition selectedPendingCount :: "queue_item list \<Rightarrow> string set \<Rightarrow> nat" where
  "selectedPendingCount queue selectedIds = length (filter (\<lambda>q. qi_id q \<in> selectedIds) (pendingQueue queue))"

definition selectedPendingBytes :: "queue_item list \<Rightarrow> string set \<Rightarrow> nat" where
  "selectedPendingBytes queue selectedIds = sum_list (map qi_totalSize (filter (\<lambda>q. qi_id q \<in> selectedIds) (pendingQueue queue)))"

definition totalQueueBytes :: "queue_item list \<Rightarrow> nat" where
  "totalQueueBytes queue = sum_list (map qi_totalSize queue)"

definition isAllPendingSelected :: "queue_item list \<Rightarrow> string set \<Rightarrow> bool" where
  "isAllPendingSelected queue selectedIds \<longleftrightarrow>
     pendingQueue queue \<noteq> [] \<and> list_all (\<lambda>q. qi_id q \<in> selectedIds) (filter within_limit (pendingQueue queue))"

definition toggleSelectAll :: "queue_item list \<Rightarrow> string set \<Rightarrow> string set" where
  "toggleSelectAll queue selectedIds = (if isAllPendingSelected queue selectedIds then {} else set (map qi_id queue))"

definition toggleItemSelection :: "string \<Rightarrow> string set \<Rightarrow> string set" where
  "toggleItemSelection i selectedIds = (if i \<in> selectedIds then selectedIds - {i} else insert i selectedIds)"

definition start_disabled :: "bool \<Rightarrow> queue_item list \<Rightarrow> string set \<Rightarrow> bool" where
  "start_disabled isRunning queue selectedIds \<longleftrightarrow> isRunning \<or> selectedPendingCount queue selectedIds = 0"

definition item_toggle_disabled :: "bool \<Rightarrow> queue_item \<Rightarrow> bool" where
  "item_toggle_disabled isRunning q \<longleftrightarrow> isRunning \<or> qi_status q = Uploading \<or> \<not> within_limit q"

lemma queued_id_inj: "qi_id (queued_item i p) = qi_id (queued_item j p') \<Longrightarrow> i = j"
proof -
  assume eq: "qi_id (queued_item i p) = qi_id (queued_item j p')"
  have no: "CHR ''_'' \<notin> set (show_nat n)" for n
    using show_nat_digits [of "CHR ''_''" n] by (auto simp: is_digit_def)
  have tail: "takeWhile (\<lambda>c. c \<noteq> CHR ''_'') (rev (b @ ''_'' @ show_nat n)) = rev (show_nat n)" for b n
  proof -
    have "takeWhile (\<lambda>c. c \<noteq> CHR ''_'') (rev (show_nat n) @ CHR ''_'' # rev b) =
        rev (show_nat n) @ takeWhile (\<lambda>c. c \<noteq> CHR ''_'') (CHR ''_'' # rev b)"
      by (rule takeWhile_append2) (use no in auto)
    then show ?thesis by simp
  qed
  have "rev (show_nat i) = rev (show_nat j)"
    using tail [of "pf_baseName p" i, symmetric] tail [of "pf_baseName p'" j] eq
    unfolding queued_item_def queue_item.simps by (simp only:)
  then show "i = j" by simp
qed

lemma queue_of_distinct: "distinct (map qi_id (queue_of pairs))"
proof -
  have "inj_on (\<lambda>x. qi_id (queued_item (fst x) (snd x))) (set (zip [0..<length pairs] pairs))"
  proof (rule inj_onI)
    fix x y assume x: "x \<in> set (zip [0..<length pairs] pairs)" and y: "y \<in> set (zip [0..<length pairs] pairs)"
      and eq: "qi_id (queued_item (fst x) (snd x)) = qi_id (queued_item (fst y) (snd y))"
    have "fst x = fst y" by (rule queued_id_inj [OF eq])
    then show "x = y" using x y by (auto simp: set_zip)
  qed
  then show ?thesis by (simp add: queue_of_def distinct_map distinct_zipI1 split_def o_def)
qed

text \<open>
  A freshly filled queue offers what may be sent: its ids are distinct, the selection that goes with it is exactly the pairs
  within the limit of 20 MB, the totals shown are those of the chosen pairs, and a checkbox can only be operated on a pair
  within the limit; so a run started on it uploads no larger file.
\<close>

theorem fresh_selection_fits:
  "distinct (map qi_id (queue_of pairs)) \<and>
   (\<forall>q\<in>set (queue_of pairs). qi_id q \<in> selection_effect (queue_of pairs) sel \<longleftrightarrow> within_limit q) \<and>
   selectedPendingCount (queue_of pairs) (selection_effect (queue_of pairs) sel) = length (filter within_limit (queue_of pairs)) \<and>
   selectedPendingBytes (queue_of pairs) (selection_effect (queue_of pairs) sel) \<le> totalQueueBytes (queue_of pairs) \<and>
   (\<not> item_toggle_disabled False q \<longrightarrow> within_limit q)"
proof -
  let ?q = "queue_of pairs" and ?sel = "selection_effect (queue_of pairs) sel"
  have inj: "a = b" if "a \<in> set ?q" "b \<in> set ?q" "qi_id a = qi_id b" for a b
    using that queue_of_distinct [of pairs] by (auto simp: distinct_map dest: inj_onD)
  have iff: "qi_id q \<in> ?sel \<longleftrightarrow> within_limit q" if "q \<in> set ?q" for q
    using that inj by (auto simp: selection_effect_def validIds_def)
  have fresh: "qi_status q \<noteq> Success" if "q \<in> set ?q" for q using that by (auto simp: queue_of_def queued_item_def)
  then have pend: "pendingQueue ?q = ?q" by (auto simp: pendingQueue_def intro!: filter_True)
  have same: "filter (\<lambda>q. qi_id q \<in> ?sel) ?q = filter within_limit ?q" by (rule filter_cong) (simp_all add: iff)
  have le: "sum_list (map qi_totalSize (filter within_limit xs)) \<le> sum_list (map qi_totalSize xs)" for xs
    by (induction xs) auto
  show ?thesis
    using iff by (simp add: queue_of_distinct selectedPendingCount_def selectedPendingBytes_def totalQueueBytes_def pend same le
        item_toggle_disabled_def)
qed

theorem fresh_selection_fits_witness:
  "qi_id (queued_item 0 pair_01) \<in> selection_effect (queue_of [pair_01]) {} \<longleftrightarrow> within_limit (queued_item 0 pair_01)"
proof -
  have "queued_item 0 pair_01 \<in> set (queue_of [pair_01])" by (simp add: queue_of_def)
  then show ?thesis using fresh_selection_fits [of "[pair_01]" "{}"] by blast
qed

text \<open>
  Selecting all selects what may not be sent: once a pair has been unchecked, the box over the list takes in every pair, the
  ones over the limit and the ones already uploaded included, and a run then sends the former.
\<close>

theorem select_all_takes_oversized:
  assumes "q \<in> set queue" "qi_status q \<noteq> Success" "within_limit q" "qi_id q \<notin> sel"
  shows "toggleSelectAll queue sel = set (map qi_id queue)"
  using assms by (auto simp: toggleSelectAll_def isAllPendingSelected_def list_all_iff pendingQueue_def)

text \<open>
  A choice does not last: every change of the queue, each step of a progress bar included, selects every pair within the limit
  again, so what was unchecked is checked by the time the run ends.
\<close>

theorem progress_resets_selection:
  assumes "i < length queue" "within_limit (queue ! i)" "pair_of (f (queue ! i)) = pair_of (queue ! i)" "qi_id (f (queue ! i)) = qi_id (queue ! i)"
  shows "qi_id (queue ! i) \<in> selection_effect (update_at i f queue) (toggleItemSelection (qi_id (queue ! i)) {qi_id (queue ! i)})"
proof -
  have "f (queue ! i) \<in> set (update_at i f queue)" using assms(1) by (simp add: update_at_def set_update_memI)
  moreover have "within_limit (f (queue ! i))" using assms(2,3) by (simp add: within_limit_def pair_of_def)
  ultimately show ?thesis using assms(4) by (auto simp: selection_effect_def validIds_def intro!: image_eqI [of _ _ "f (queue ! i)"])
qed

end
