(* ===== verification/ContestHeader.thy ===== *)
theory ContestHeader
  imports ContestTimer
begin

text \<open>
  The contest controls in the header of the admin console (\<open>admin-frontend/src/components/contest/contest-header-controls.tsx\<close>)
  and the settings dialog they open (\<open>contest-settings-dialog.tsx\<close>). The clock of the header is the control bar's
  (\<open>ContestTimer\<close>); here its polling is a state machine in which answers may arrive in any order.
\<close>

section \<open>The controls\<close>

datatype control = StartContest | PauseContest | ResumeContest | ExtendContest nat | ToggleFreeze | EndContest | OpenSettings | ResetContest

definition EXTEND_PRESETS :: "nat list" where
  "EXTEND_PRESETS = [5, 15, 30]"

definition has_status :: "string \<Rightarrow> contest_state \<Rightarrow> bool" where
  "has_status st c \<longleftrightarrow> cs_status c = Str st"

text \<open>
  The buttons beside the clock, from left to right, and the entries of the overflow menu. Which of the two copies of a control is
  visible is a matter of the width of the window.
\<close>

definition primary_controls :: "contest_state \<Rightarrow> control list" where
  "primary_controls c =
     (if has_status ''NOT_STARTED'' c then [StartContest] else []) @ (if has_status ''RUNNING'' c then [PauseContest] else []) @
     (if has_status ''PAUSED'' c then [ResumeContest] else [])"

definition isLive :: "contest_state \<Rightarrow> bool" where
  "isLive c \<longleftrightarrow> has_status ''RUNNING'' c \<or> has_status ''PAUSED'' c"

definition canExtend :: "contest_state \<Rightarrow> bool" where
  "canExtend c \<longleftrightarrow> isLive c \<or> has_status ''ENDED'' c"

definition desktop_controls :: "contest_state \<Rightarrow> control list" where
  "desktop_controls c =
     (if canExtend c then map ExtendContest EXTEND_PRESETS else []) @ (if canExtend c then [ToggleFreeze] else []) @
     (if isLive c then [EndContest] else [])"

definition menu_controls :: "contest_state \<Rightarrow> control list" where
  "menu_controls c =
     (if canExtend c then map ExtendContest EXTEND_PRESETS else []) @ (if canExtend c then [ToggleFreeze] else []) @
     [OpenSettings] @ (if isLive c then [EndContest] else []) @ [ResetContest]"

definition shown_buttons :: "string \<Rightarrow> contest_state option \<Rightarrow> control list" where
  "shown_buttons pathname state =
     (case state of None \<Rightarrow> [] | Some c \<Rightarrow> if starts_with pathname ''/timer'' then [] else primary_controls c @ desktop_controls c)"

definition shown_menu :: "string \<Rightarrow> contest_state option \<Rightarrow> control list" where
  "shown_menu pathname state =
     (case state of None \<Rightarrow> [] | Some c \<Rightarrow> if starts_with pathname ''/timer'' then [] else menu_controls c)"

definition control_action :: "parser \<Rightarrow> contest_state \<Rightarrow> control \<Rightarrow> contest_state io option" where
  "control_action sp c k =
     (case k of
        StartContest \<Rightarrow> Some (startContestAction sp Undefined)
      | PauseContest \<Rightarrow> Some pauseContestAction
      | ResumeContest \<Rightarrow> Some resumeContestAction
      | ExtendContest mins \<Rightarrow> Some (extendContestAction sp (IntV (int mins)))
      | ToggleFreeze \<Rightarrow> Some (if cs_is_frozen c then unfreezeContestAction else freezeContestAction)
      | EndContest \<Rightarrow> Some endContestAction
      | ResetContest \<Rightarrow> Some resetContestAction
      | OpenSettings \<Rightarrow> None)"

text \<open>
  \<open>formatDuration\<close> of whole seconds.
\<close>

definition pad_number :: "int \<Rightarrow> string" where
  "pad_number n = (let t = show_int n in if length t < 2 then CHR ''0'' # t else t)"

definition header_formatDuration :: "int \<Rightarrow> string" where
  "header_formatDuration totalSeconds =
     (let safe = max 0 totalSeconds; hours = safe div 3600; minutes = (safe mod 3600) div 60; seconds = safe mod 60
      in if hours > 0 then pad_number hours @ '':'' @ pad_number minutes @ '':'' @ pad_number seconds
         else pad_number minutes @ '':'' @ pad_number seconds)"

section \<open>Polling\<close>

text \<open>
  The header with the requests for the contest's state that are under way, numbered in the order they were sent, and (for
  the proofs only) the number of the request whose answer is shown.
\<close>

record header =
  hd_bar :: control_bar
  hd_sent :: nat
  hd_pending :: "nat set"
  hd_shown :: nat

definition header_start :: header where
  "header_start = \<lparr>hd_bar = \<lparr>cb_state = None, cb_loading = False, cb_offset = Fin 0, cb_remaining = Fin 0, cb_settingsOpen = False,
     cb_toast = None\<rparr>, hd_sent = 0, hd_pending = {}, hd_shown = 0\<rparr>"

definition loadState_start :: "header \<Rightarrow> header" where
  "loadState_start s = s\<lparr>hd_sent := Suc (hd_sent s), hd_pending := insert (Suc (hd_sent s)) (hd_pending s)\<rparr>"

definition loadState_settle :: "nat \<Rightarrow> int \<Rightarrow> exn + contest_state \<Rightarrow> header \<Rightarrow> header" where
  "loadState_settle k date_now answer s =
     s\<lparr>hd_bar := bar_load date_now answer (hd_bar s), hd_pending := hd_pending s - {k},
       hd_shown := (case answer of Inr _ \<Rightarrow> k | Inl _ \<Rightarrow> hd_shown s)\<rparr>"

text \<open>The interval asks only while the page is visible.\<close>

definition header_poll :: "bool \<Rightarrow> header \<Rightarrow> header" where
  "header_poll visible s = (if visible then loadState_start s else s)"

definition header_tick :: "int \<Rightarrow> header \<Rightarrow> header" where
  "header_tick date_now s = s\<lparr>hd_bar := bar_tick date_now (hd_bar s)\<rparr>"

inductive header_step :: "bool \<Rightarrow> header \<Rightarrow> header \<Rightarrow> bool" for in_order :: bool where
  Poll: "header_step in_order s (header_poll visible s)"
| Tick: "header_step in_order s (header_tick date_now s)"
| Answer: "k \<in> hd_pending s \<Longrightarrow> in_order \<longrightarrow> (\<forall>j\<in>hd_pending s. k \<le> j) \<Longrightarrow>
     header_step in_order s (loadState_settle k date_now answer s)"

section \<open>The settings dialog\<close>

record settings_dialog =
  fo_title :: string
  fo_durationMinutes :: string
  fo_requireFullscreen :: bool
  fo_minClientVersion :: string
  fo_enforceBinaryHash :: bool
  fo_authorizedBinaryHashes :: string
  fo_downloadEnabled :: bool

definition formOf :: "contest_state option \<Rightarrow> settings_dialog" where
  "formOf state =
     (case state of
        None \<Rightarrow> \<lparr>fo_title = [], fo_durationMinutes = ''120'', fo_requireFullscreen = False, fo_minClientVersion = ''0.2.0'',
                 fo_enforceBinaryHash = False, fo_authorizedBinaryHashes = [], fo_downloadEnabled = False\<rparr>
      | Some c \<Rightarrow>
          \<lparr>fo_title = js_String (js_coalesce (cs_title c) (Str [])),
           fo_durationMinutes = num_text (num_floor_div (cs_duration_seconds c) 60),
           fo_requireFullscreen = cs_require_fullscreen c,
           fo_minClientVersion = js_String (js_or (cs_min_client_version c) (Str ''0.2.0'')),
           fo_enforceBinaryHash = cs_enforce_binary_hash c,
           fo_authorizedBinaryHashes = js_String (js_or (cs_authorized_binary_hashes c) (Str [])),
           fo_downloadEnabled = cs_download_enabled c\<rparr>)"

text \<open>What happens to the dialog: it is opened or closed, something is typed, a poll brings another contest state.\<close>

datatype dialog_event = SetOpen bool | Edit "settings_dialog \<Rightarrow> settings_dialog" | NewState contest_state

record dialog_view =
  dg_open :: bool
  dg_state :: "contest_state option"
  dg_form :: settings_dialog

fun dialog_apply :: "dialog_event \<Rightarrow> dialog_view \<Rightarrow> dialog_view" where
  "dialog_apply (SetOpen b) s = (let s1 = s\<lparr>dg_open := b\<rparr> in if b \<and> \<not> dg_open s then s1\<lparr>dg_form := formOf (dg_state s)\<rparr> else s1)"
| "dialog_apply (Edit f) s = s\<lparr>dg_form := f (dg_form s)\<rparr>"
| "dialog_apply (NewState c) s = s\<lparr>dg_state := Some c\<rparr>"

definition durationInvalid :: "settings_dialog \<Rightarrow> bool" where
  "durationInvalid f \<longleftrightarrow> (case parse_int (fo_durationMinutes f) of None \<Rightarrow> True | Some d \<Rightarrow> d < 1 \<or> d > 525600)"

definition dialog_payload :: "contest_state option \<Rightarrow> int \<Rightarrow> settings_dialog \<Rightarrow> jsv" where
  "dialog_payload state duration f =
     Obj [(''title'', Str (js_trim (fo_title f))), (''durationMinutes'', IntV duration),
          (''freezeMinutes'', case state of Some c \<Rightarrow> Num (cs_freeze_minutes c) | None \<Rightarrow> IntV 30),
          (''requireFullscreen'', Bool (fo_requireFullscreen f)), (''minClientVersion'', Str (js_trim (fo_minClientVersion f))),
          (''enforceBinaryHash'', Bool (fo_enforceBinaryHash f)),
          (''authorizedBinaryHashes'', Str (js_trim (fo_authorizedBinaryHashes f))),
          (''downloadEnabled'', Bool (fo_downloadEnabled f))]"

definition dialog_handleSubmit :: "contest_state option \<Rightarrow> settings_dialog \<Rightarrow> jsv option" where
  "dialog_handleSubmit state f =
     (if durationInvalid f then None else map_option (\<lambda>d. dialog_payload state d f) (parse_int (fo_durationMinutes f)))"

section \<open>What the header guarantees\<close>

text \<open>
  The header offers what the state of the contest allows: exactly one of starting, pausing and resuming, or none of them
  once it has ended; extending and freezing from the start on; ending only while it is live; settings and reset always. The
  menu has every secondary button, so a narrow window loses none. Nothing is offered before the state is known or beside the
  projector, and freezing undoes itself.
\<close>

theorem controls_match_status:
  assumes "cs_status c \<in> {Str ''NOT_STARTED'', Str ''RUNNING'', Str ''PAUSED'', Str ''ENDED''}" "\<not> starts_with p ''/timer''"
  shows "length (primary_controls c) = (if has_status ''ENDED'' c then 0 else 1) \<and>
         (EndContest \<in> set (menu_controls c) \<longleftrightarrow> has_status ''RUNNING'' c \<or> has_status ''PAUSED'' c) \<and>
         (ToggleFreeze \<in> set (menu_controls c) \<longleftrightarrow> \<not> has_status ''NOT_STARTED'' c) \<and>
         set (desktop_controls c) \<union> {OpenSettings, ResetContest} = set (menu_controls c) \<and>
         distinct (shown_buttons p (Some c)) \<and> distinct (shown_menu p (Some c)) \<and>
         shown_buttons p None @ shown_menu p None @ shown_buttons (''/timer'' @ x) (Some c) @ shown_menu (''/timer'' @ x) (Some c) = [] \<and>
         control_action sp (c\<lparr>cs_is_frozen := True\<rparr>) ToggleFreeze = Some unfreezeContestAction \<and>
         control_action sp (c\<lparr>cs_is_frozen := False\<rparr>) ToggleFreeze = Some freezeContestAction"
  using assms
  by (auto simp: primary_controls_def desktop_controls_def menu_controls_def isLive_def canExtend_def has_status_def EXTEND_PRESETS_def
      shown_buttons_def shown_menu_def control_action_def starts_with_iff)

definition paused_contest :: contest_state where
  "paused_contest =
     \<lparr>cs_title = Str ''Finals'', cs_status = Str ''PAUSED'', cs_start_time = Null, cs_end_time = Null, cs_duration_seconds = Fin 7200,
      cs_freeze_minutes = Fin 30, cs_paused_at = Null, cs_remaining_seconds = Fin 600, cs_elapsed_seconds = Fin 6600,
      cs_is_frozen = False, cs_require_fullscreen = True, cs_min_client_version = Str ''0.2.0'', cs_enforce_binary_hash = False,
      cs_authorized_binary_hashes = Str [], cs_download_enabled = True, cs_server_time = Null\<rparr>"

theorem controls_match_status_witness:
  "EndContest \<in> set (menu_controls paused_contest) \<longleftrightarrow> has_status ''RUNNING'' paused_contest \<or> has_status ''PAUSED'' paused_contest"
  by (rule controls_match_status [where p = "''/problems''", THEN conjunct2, THEN conjunct1]) (simp_all add: paused_contest_def starts_with_iff)

definition header_inv :: "bool \<Rightarrow> header \<Rightarrow> bool" where
  "header_inv in_order s \<longleftrightarrow> (\<forall>k\<in>hd_pending s. 1 \<le> k \<and> k \<le> hd_sent s) \<and> hd_shown s \<le> hd_sent s \<and>
     (in_order \<longrightarrow> (\<forall>k\<in>hd_pending s. hd_shown s < k))"

lemma header_step_inv: "header_step in_order s s' \<Longrightarrow> header_inv in_order s \<Longrightarrow> header_inv in_order s'"
proof (induction rule: header_step.induct)
  case (Answer k s date_now answer)
  then have "\<forall>j\<in>hd_pending s - {k}. in_order \<longrightarrow> k < j" by fastforce
  then show ?case using Answer by (auto simp: header_inv_def loadState_settle_def split: sum.split)
qed (auto simp: header_inv_def header_poll_def loadState_start_def header_tick_def less_Suc_eq_le)

interpretation header_polls: state_machine "\<lambda>s. s = header_start" "header_step in_order" "header_inv in_order" for in_order
  by unfold_locales (simp add: header_inv_def header_start_def, rule header_step_inv)

text \<open>
  Nothing orders the polls: when answers arrive in the order of the requests, every request that is still under way is newer
  than what is shown; but an answer that was overtaken is shown all the same, so the header goes back to an older state
  of the contest, with that state's buttons, until the next poll.
\<close>

definition overtaken_poll :: "contest_state \<Rightarrow> contest_state \<Rightarrow> header" where
  "overtaken_poll older newer =
     loadState_settle 1 0 (Inr older) (loadState_settle 2 0 (Inr newer) (loadState_start (loadState_start header_start)))"

theorem overtaken_poll_shown:
  "(reaches (\<lambda>s. s = header_start) (header_step True) s \<longrightarrow> (\<forall>k\<in>hd_pending s. hd_shown s < k)) \<and>
   reaches (\<lambda>s. s = header_start) (header_step False) (overtaken_poll older newer) \<and>
   cb_state (hd_bar (overtaken_poll older newer)) = Some older \<and> hd_shown (overtaken_poll older newer) = 1 \<and>
   hd_pending (overtaken_poll older newer) = {}"
proof (intro conjI impI)
  assume "reaches (\<lambda>s. s = header_start) (header_step True) s"
  from header_polls.reaches_inv [OF this] show "\<forall>k\<in>hd_pending s. hd_shown s < k" by (simp add: header_inv_def)
next
  let ?R = "reaches (\<lambda>s. s = header_start) (header_step False)"
  have poll: "header_step False s (loadState_start s)" for s
    using Poll [of False s True] by (simp add: header_poll_def)
  have "?R header_start" by (rule reaches_init) simp
  then have "?R (loadState_start header_start)" by (rule reaches_step) (rule poll)
  then have "?R (loadState_start (loadState_start header_start))" by (rule reaches_step) (rule poll)
  then have "?R (loadState_settle 2 0 (Inr newer) (loadState_start (loadState_start header_start)))"
    by (rule reaches_step) (rule Answer, simp_all add: loadState_start_def header_start_def)
  then show "?R (overtaken_poll older newer)" unfolding overtaken_poll_def
    by (rule reaches_step) (rule Answer, simp_all add: loadState_start_def header_start_def loadState_settle_def)
qed (simp_all add: overtaken_poll_def loadState_settle_def loadState_start_def header_start_def bar_load_def)

text \<open>
  What is typed into the settings survives the polls: whatever contest states arrive while the dialog is open, its form is
  the one seeded when it opened with the edits applied in order, and opening it again starts from the newest state.
\<close>

definition edits_of :: "dialog_event list \<Rightarrow> (settings_dialog \<Rightarrow> settings_dialog) list" where
  "edits_of evs = concat (map (\<lambda>ev. case ev of Edit f \<Rightarrow> [f] | _ \<Rightarrow> []) evs)"

definition no_toggle :: "dialog_event \<Rightarrow> bool" where
  "no_toggle ev = (case ev of SetOpen _ \<Rightarrow> False | _ \<Rightarrow> True)"

theorem dialog_edits_survive_polls:
  assumes "list_all no_toggle evs" "\<not> dg_open s"
  shows "dg_form (fold dialog_apply evs (dialog_apply (SetOpen True) s)) = fold (\<lambda>f. f) (edits_of evs) (formOf (dg_state s))"
proof -
  have "dg_form (fold dialog_apply evs t) = fold (\<lambda>f. f) (edits_of evs) (dg_form t)" for t
    using assms(1)
  proof (induction evs arbitrary: t)
    case (Cons ev evs)
    then show ?case by (cases ev) (simp_all add: edits_of_def no_toggle_def)
  qed (simp add: edits_of_def)
  then show ?thesis using assms(2) by simp
qed

theorem dialog_edits_survive_polls_witness:
  "fo_title (dg_form (fold dialog_apply [Edit (\<lambda>f. f\<lparr>fo_title := ''Semifinals''\<rparr>), NewState paused_contest]
     (dialog_apply (SetOpen True) \<lparr>dg_open = False, dg_state = None, dg_form = formOf None\<rparr>))) = ''Semifinals''"
proof -
  have "list_all no_toggle [Edit (\<lambda>f. f\<lparr>fo_title := ''Semifinals''\<rparr>), NewState paused_contest]" by (simp add: no_toggle_def)
  from dialog_edits_survive_polls [OF this, of "\<lparr>dg_open = False, dg_state = None, dg_form = formOf None\<rparr>"]
  show ?thesis by (simp add: edits_of_def)
qed

section \<open>What the dialog can save\<close>

text \<open>
  Which settings are accepted: with a state whose freeze window is \<open>w\<close>, a form with a valid duration passes the server
  action's schema exactly when the trimmed title has 1 to 100 characters and \<open>w\<close> is a whole number from 0 to the new
  duration. The dialog has no field for the freeze window, so a contest cannot be made shorter than it here.
\<close>

theorem dialog_accepted_iff:
  assumes "cs_freeze_minutes c = Fin w" "dialog_handleSubmit (Some c) f = Some v"
  shows "\<exists>d. parse_int (fo_durationMinutes f) = Some d \<and> 1 \<le> d \<and> d \<le> 525600 \<and>
         (zod_eval updateContestSettingsSchema v \<noteq> None \<longleftrightarrow>
            1 \<le> length (js_trim (fo_title f)) \<and> length (js_trim (fo_title f)) \<le> 100 \<and>
            of_int \<lfloor>w\<rfloor> = w \<and> 0 \<le> w \<and> w \<le> of_int d)"
proof -
  obtain d where d: "parse_int (fo_durationMinutes f) = Some d" "1 \<le> d" "d \<le> 525600" "v = dialog_payload (Some c) d f"
    using assms(2) by (auto simp: dialog_handleSubmit_def durationInvalid_def split: option.splits if_splits)
  have dd: "of_int d \<le> (525600 :: rat)" "1 \<le> (of_int d :: rat)" using d(2,3) by simp_all
  have "zod_eval updateContestSettingsSchema v \<noteq> None \<longleftrightarrow>
            1 \<le> length (js_trim (fo_title f)) \<and> length (js_trim (fo_title f)) \<le> 100 \<and>
            of_int \<lfloor>w\<rfloor> = w \<and> 0 \<le> w \<and> w \<le> of_int d"
    using d(2,3) dd
    by (auto simp: d(4) updateContestSettingsSchema_def settings_shape_def dialog_payload_def assms(1) field_def drop_undefined_def
        get_opt_def js_trimmed_trim)
  then show ?thesis using d(1,2,3) by blast
qed

theorem dialog_accepted_iff_witness:
  "\<exists>v. dialog_handleSubmit (Some paused_contest) ((formOf (Some paused_contest))\<lparr>fo_durationMinutes := ''20''\<rparr>) = Some v \<and>
       zod_eval updateContestSettingsSchema v = None"
proof -
  let ?f = "(formOf (Some paused_contest))\<lparr>fo_durationMinutes := ''20''\<rparr>"
  have p: "parse_int ''20'' = Some 20" by code_simp
  then obtain v where v: "dialog_handleSubmit (Some paused_contest) ?f = Some v"
    by (simp add: dialog_handleSubmit_def durationInvalid_def)
  have "cs_freeze_minutes paused_contest = Fin 30" by (simp add: paused_contest_def)
  from dialog_accepted_iff [OF this v] have "zod_eval updateContestSettingsSchema v = None" by (auto simp: p)
  then show ?thesis using v by blast
qed

text \<open>
  A contest without a freeze window gets one: reading the state turns the window 0 into the default of 30 minutes, and saving
  the settings, whatever was edited, sends those 30 minutes back.
\<close>

theorem zero_freeze_window_lost:
  assumes "normalizeState now data = Inr c" "get_opt data ''freezeMinutes'' = IntV 0" "dialog_handleSubmit (Some c) f = Some v"
  shows "get_opt v ''freezeMinutes'' = IntV 30"
proof -
  have "cs_freeze_minutes c = Fin 30"
    using assms(1,2) by (auto simp: normalizeState_def num_or_def Let_def split: sum.splits)
  then show ?thesis using assms(3)
    by (auto simp: dialog_handleSubmit_def dialog_payload_def get_opt_def field_def split: if_splits)
qed

theorem zero_freeze_window_lost_witness:
  "\<exists>c v. normalizeState ''now'' (Obj [(''freezeMinutes'', IntV 0)]) = Inr c \<and>
      dialog_handleSubmit (Some c) ((formOf (Some c))\<lparr>fo_durationMinutes := ''90''\<rparr>) = Some v \<and> get_opt v ''freezeMinutes'' = IntV 30"
proof -
  obtain c where c: "normalizeState ''now'' (Obj [(''freezeMinutes'', IntV 0)]) = Inr c"
    by (simp add: normalizeState_def Let_def)
  have "parse_int ''90'' = Some 90" by code_simp
  then obtain v where v: "dialog_handleSubmit (Some c) ((formOf (Some c))\<lparr>fo_durationMinutes := ''90''\<rparr>) = Some v"
    by (simp add: dialog_handleSubmit_def durationInvalid_def)
  have "get_opt (Obj [(''freezeMinutes'', IntV 0)]) ''freezeMinutes'' = IntV 0" by (simp add: get_opt_def field_def)
  from zero_freeze_window_lost [OF c this v] show ?thesis using c v by blast
qed

end
