(* ===== verification/PortalPages.thy ===== *)
theory PortalPages
  imports ProctorGate
begin

text \<open>
  The server side of the competitor portal's pages (\<open>competitor-frontend/src/app\<close>): the layout every page of the portal is
  wrapped in, the pages themselves and the login page, as actions that read the backend and answer with a redirect or with
  what is served. \<open>readProctorGate\<close> is memoized for one request, so the layout and the page share one reading of it; the
  calls that \<open>Promise.all\<close> starts together are taken in the order of the text. The texts of the guides are left out.
\<close>

section \<open>Guides\<close>

fun doc_slug :: "language_doc \<Rightarrow> string" where
  "doc_slug CPP_DOC = ''cpp''"
| "doc_slug PYTHON_DOC = ''python''"
| "doc_slug JAVA_DOC = ''java''"
| "doc_slug RUST_DOC = ''rust''"
| "doc_slug C_DOC = ''c''"
| "doc_slug JAVASCRIPT_DOC = ''javascript''"
| "doc_slug ALGORITHMS_DOC = ''algorithms''"

section \<open>Pages\<close>

datatype route = ChallengesRoute | ChallengeRoute string | LeaderboardRoute | SubmissionsRoute | DocsRoute | DocsLanguageRoute string

datatype content =
  Blank
| MissingPage
| ChallengeCards "portal_problem list" jsv
| PausedNotice
| LockedNotice
| WorkspacePage portal_problem
| Standings jsv jsv
| SubmissionTable "submission_item list"
| DocsHub
| DocsGuide language_doc

definition challenges_page :: "parser \<Rightarrow> string \<Rightarrow> jsv \<Rightarrow> content io" where
  "challenges_page sp loaded_at proctor =
     bind (getContestStateAction sp loaded_at) (\<lambda>contest.
     if get_opt contest ''status'' \<noteq> Str ''NOT_STARTED'' \<and> proctorLocksContest proctor then ret Blank
     else bind portal_listProblemsAction (\<lambda>(problems, progress). ret (ChallengeCards problems progress)))"

definition challenge_page :: "parser \<Rightarrow> string \<Rightarrow> string \<Rightarrow> jsv \<Rightarrow> content io" where
  "challenge_page sp loaded_at i proctor =
     bind (getContestStateAction sp loaded_at) (\<lambda>contest.
     bind (getProblemAction i) (\<lambda>problem.
     ret (if proctorLocksContest proctor then Blank
          else if get_opt contest ''status'' = Str ''PAUSED'' then PausedNotice
          else if get_opt contest ''status'' = Str ''NOT_STARTED'' then LockedNotice
          else case problem of
                 None \<Rightarrow> if truthy proctor \<and> \<not> truthy (get_opt proctor ''allowed'') then Blank else MissingPage
               | Some p \<Rightarrow> WorkspacePage p)))"

definition leaderboard_page :: "jsv \<Rightarrow> content io" where
  "leaderboard_page proctor =
     (if proctorLocksContest proctor then ret Blank
      else bind portal_getSessionUserAction (\<lambda>currentUser. bind getLeaderboardAction (\<lambda>rows. ret (Standings rows currentUser))))"

definition submissions_page_render :: "(jsnum \<Rightarrow> string) \<Rightarrow> jsv \<Rightarrow> content io" where
  "submissions_page_render clock proctor =
     (if proctorLocksContest proctor then ret Blank
      else bind (listSubmissionsAction clock [] Undefined Undefined) (\<lambda>rows. ret (SubmissionTable rows)))"

definition docs_page :: "jsv \<Rightarrow> content io" where
  "docs_page proctor = ret (if proctorLocksContest proctor then Blank else DocsHub)"

definition docs_language_page :: "string \<Rightarrow> jsv \<Rightarrow> content io" where
  "docs_language_page language proctor =
     ret (if proctorLocksContest proctor then Blank
          else case getLanguageDoc language of None \<Rightarrow> MissingPage | Some doc \<Rightarrow> DocsGuide doc)"

fun portal_page :: "parser \<Rightarrow> (jsnum \<Rightarrow> string) \<Rightarrow> string \<Rightarrow> route \<Rightarrow> jsv \<Rightarrow> content io" where
  "portal_page sp clock loaded_at ChallengesRoute proctor = challenges_page sp loaded_at proctor"
| "portal_page sp clock loaded_at (ChallengeRoute i) proctor = challenge_page sp loaded_at i proctor"
| "portal_page sp clock loaded_at LeaderboardRoute proctor = leaderboard_page proctor"
| "portal_page sp clock loaded_at SubmissionsRoute proctor = submissions_page_render clock proctor"
| "portal_page sp clock loaded_at DocsRoute proctor = docs_page proctor"
| "portal_page sp clock loaded_at (DocsLanguageRoute l) proctor = docs_language_page l proctor"

section \<open>The layout and the login page\<close>

record served =
  sv_user :: jsv
  sv_proctor :: jsv
  sv_contest :: jsv
  sv_content :: content

datatype 'a page_answer = SendTo string | Serve 'a

definition portal_layout :: "parser \<Rightarrow> string \<Rightarrow> (jsv \<Rightarrow> content io) \<Rightarrow> served page_answer io" where
  "portal_layout sp loaded_at children =
     bind portal_getSessionUserAction (\<lambda>user.
     if \<not> truthy user then ret (SendTo ''/login'')
     else
       bind (fetchProctorGate True) (\<lambda>proctor.
       bind (getContestStateAction sp loaded_at) (\<lambda>contest.
       bind (children proctor) (\<lambda>content.
       ret (Serve \<lparr>sv_user = user, sv_proctor = proctor, sv_contest = contest, sv_content = content\<rparr>)))))"

definition render_portal :: "parser \<Rightarrow> (jsnum \<Rightarrow> string) \<Rightarrow> string \<Rightarrow> route \<Rightarrow> served page_answer io" where
  "render_portal sp clock loaded_at route = portal_layout sp loaded_at (portal_page sp clock loaded_at route)"

definition login_page :: "unit page_answer io" where
  "login_page = bind portal_getSessionUserAction (\<lambda>user. ret (if truthy user then SendTo ''/challenges'' else Serve ()))"

section \<open>What a locked contestant is served\<close>


lemma total_run: "total_io m \<Longrightarrow> \<exists>a w'. m e w = (Inr a, w')"
  unfolding total_io_def by (metis prod.exhaust_sel)

lemma read_actions_total:
  "total_io (getContestStateAction sp s)" "total_io portal_listProblemsAction" "total_io (getProblemAction s)"
  "total_io (listSubmissionsAction clock s limit offset)" "total_io getLeaderboardAction" "total_io (fetchProctorGate b)"
  unfolding getContestStateAction_def portal_listProblemsAction_def getProblemAction_def listSubmissionsAction_def
    getLeaderboardAction_def fetchProctorGate_def
  by (intro total_catch total_ret)+

lemma session_user_total: "total_io portal_getSessionUserAction"
  unfolding portal_getSessionUserAction_def fetchSessionUser_def total_io_def
  by (auto simp: io_simps in_headers_or_null_def split: sum.split)

lemma total_bind: "total_io m \<Longrightarrow> (\<And>a. total_io (f a)) \<Longrightarrow> total_io (bind m f)"
  unfolding total_io_def bind_def by (metis (no_types, lifting) case_prod_beta' old.sum.simps(6))

lemma portal_page_total: "total_io (portal_page sp clock loaded_at route proctor)"
  by (cases route)
     (auto simp: challenges_page_def challenge_page_def leaderboard_page_def submissions_page_render_def docs_page_def
        docs_language_page_def intro!: total_bind read_actions_total session_user_total)

text \<open>
  C33: Whoever the proctoring gate locks out is served nothing of the contest: for every page but the list of challenges the
  answer is blank whatever the backend says about the contest, and apart from the workspace page nothing is even asked for;
  the list is blank as well unless the contest has not started. Rendering never throws.
\<close>

theorem locked_page_blank:
  assumes "proctorLocksContest proctor"
  shows "(\<exists>content w'. portal_page sp clock loaded_at route proctor e w = (Inr content, w') \<and>
            (route \<noteq> ChallengesRoute \<longrightarrow> content = Blank) \<and>
            (route \<noteq> ChallengesRoute \<and> (\<forall>i. route \<noteq> ChallengeRoute i) \<longrightarrow> w' = w)) \<and>
         (fst (getContestStateAction sp loaded_at e w) = Inr contest \<and> get_opt contest ''status'' \<noteq> Str ''NOT_STARTED'' \<longrightarrow>
            fst (portal_page sp clock loaded_at ChallengesRoute proctor e w) = Inr Blank)"
proof
  obtain content w' where run: "portal_page sp clock loaded_at route proctor e w = (Inr content, w')"
    using total_run [OF portal_page_total] by blast
  have "content = Blank" if "route \<noteq> ChallengesRoute"
    using run that assms
    by (cases route) (auto simp: challenge_page_def leaderboard_page_def submissions_page_render_def docs_page_def
        docs_language_page_def io_simps split: prod.splits sum.splits)
  moreover have "w' = w" if "route \<noteq> ChallengesRoute" "\<forall>i. route \<noteq> ChallengeRoute i"
    using run that assms
    by (cases route) (auto simp: leaderboard_page_def submissions_page_render_def docs_page_def docs_language_page_def io_simps)
  ultimately show "\<exists>content w'. portal_page sp clock loaded_at route proctor e w = (Inr content, w') \<and>
            (route \<noteq> ChallengesRoute \<longrightarrow> content = Blank) \<and>
            (route \<noteq> ChallengesRoute \<and> (\<forall>i. route \<noteq> ChallengeRoute i) \<longrightarrow> w' = w)" using run by blast
  show "fst (getContestStateAction sp loaded_at e w) = Inr contest \<and> get_opt contest ''status'' \<noteq> Str ''NOT_STARTED'' \<longrightarrow>
            fst (portal_page sp clock loaded_at ChallengesRoute proctor e w) = Inr Blank"
    using assms by (auto simp: challenges_page_def io_simps split: prod.split)
qed

definition locked_gate :: jsv where
  "locked_gate = Obj [(''allowed'', Bool False), (''exempt'', Bool False), (''code'', Str ''NOT_ATTESTED'')]"

lemma locked_gate: "proctorLocksContest locked_gate"
  by (simp add: locked_gate_def proctorLocksContest_def get_opt_def field_def)

theorem locked_page_blank_witness:
  "\<exists>w'. portal_page zod_ref (\<lambda>_. []) [] (ChallengeRoute ''two-sum'') locked_gate (answering 200 ''{}'') (with_cookie ''s'' ''t'') =
        (Inr Blank, w')"
  using locked_page_blank [OF locked_gate, where route = "ChallengeRoute ''two-sum''"] by blast


text \<open>A backend that knows one contestant and one problem: the status of the contest and the gate are free.\<close>

definition ann :: jsv where
  "ann = Obj [(''username'', Str ''ann'')]"

definition one_problem :: jsv where
  "one_problem = Obj [(''id'', Str ''p1'')]"

definition open_gate :: jsv where
  "open_gate = Obj [(''allowed'', Bool True), (''access_mode'', Str ''DESKTOP'')]"

definition contest_in :: "string \<Rightarrow> jsv" where
  "contest_in st = Obj [(''status'', Str st)]"

definition says :: "nat \<Rightarrow> jsv \<Rightarrow> exn + response" where
  "says status v = Inr \<lparr>rsp_status = status, rsp_headers = [], rsp_body = Inr (stringify v)\<rparr>"

definition small_backend :: "nat \<Rightarrow> string \<Rightarrow> jsv \<Rightarrow> env" where
  "small_backend contest_answer st gate =
     (answering 200 [])\<lparr>env_fetch := \<lambda>_ q.
        if req_url q = ''http://api/api/v1/me'' then says 200 ann
        else if req_url q = ''http://api/api/v1/telemetry/self?tab_visible=true'' then says 200 gate
        else if req_url q = ''http://api/api/v1/contest/state'' then says contest_answer (contest_in st)
        else if req_url q = ''http://api/api/v1/problems'' then says 200 (Obj [(''problems'', Arr [one_problem])])
        else says 200 (Obj [(''problem'', one_problem)])\<rparr>"

lemma says_json:
  assumes "json_ok v"
  shows "\<exists>r. says status v = Inr r \<and> rsp_status r = status \<and> json_value e r = Inr v"
  by (rule exI [of _ "\<lparr>rsp_status = status, rsp_headers = [], rsp_body = Inr (stringify v)\<rparr>"])
    (simp add: says_def json_value_def json_round_trip [OF assms])

lemma small_backend_env [simp]:
  "env_in_headers (small_backend n st gate) = Inr [(''x-forwarded-for'', ''1.1.1.1, 10.0.0.7'')]"
  "env_api_url (small_backend n st gate) = ''http://api''"
  by (simp_all add: small_backend_def answering_def)

lemma small_backend_answers:
  "req_url q = ''http://api/api/v1/me'' \<Longrightarrow> env_fetch (small_backend n st gate) qs q = says 200 ann"
  "req_url q = ''http://api/api/v1/telemetry/self?tab_visible=true'' \<Longrightarrow> env_fetch (small_backend n st gate) qs q = says 200 gate"
  "req_url q = ''http://api/api/v1/contest/state'' \<Longrightarrow> env_fetch (small_backend n st gate) qs q = says n (contest_in st)"
  "req_url q = ''http://api/api/v1/problems'' \<Longrightarrow>
     env_fetch (small_backend n st gate) qs q = says 200 (Obj [(''problems'', Arr [one_problem])])"
  "req_url q = ''http://api/api/v1/problems/two-sum'' \<Longrightarrow> env_fetch (small_backend n st gate) qs q = says 200 (Obj [(''problem'', one_problem)])"
  by (simp_all add: small_backend_def)

lemma small_backend_run:
  assumes cookie: "jar_value (jar w) SESSION_COOKIE = Str ''t''" and gate: "json_ok gate"
  defines "e \<equiv> small_backend 200 ''RUNNING'' gate"
  shows "\<exists>w'. portal_getSessionUserAction e w = (Inr ann, w') \<and> jar w' = jar w"
    and "\<exists>w'. fetchProctorGate True e w = (Inr gate, w') \<and> jar w' = jar w"
    and "\<exists>w' c. getContestStateAction zod_ref [] e w = (Inr c, w') \<and> jar w' = jar w \<and> get_opt c ''status'' = Str ''RUNNING''"
    and "\<exists>w' p. getProblemAction ''two-sum'' e w = (Inr (Some p), w') \<and> jar w' = jar w"
proof -
  have "json_ok ann" by (simp add: ann_def)
  from says_json [OF this, of 200 e] obtain r where r: "says 200 ann = Inr r" "rsp_ok r" "json_value e r = Inr ann"
    by (auto simp: rsp_ok_def)
  show "\<exists>w'. portal_getSessionUserAction e w = (Inr ann, w') \<and> jar w' = jar w"
    using r by (simp add: e_def portal_getSessionUserAction_def fetchSessionUser_def io_simps in_headers_or_null_def cookie small_backend_answers)
  from says_json [OF gate, of 200 e] obtain g where g: "says 200 gate = Inr g" "rsp_ok g" "json_value e g = Inr gate"
    by (auto simp: rsp_ok_def)
  show "\<exists>w'. fetchProctorGate True e w = (Inr gate, w') \<and> jar w' = jar w"
    using g by (simp add: e_def fetchProctorGate_def io_simps small_backend_answers)
  have "json_ok (contest_in ''RUNNING'')" by (simp add: contest_in_def)
  from says_json [OF this, of 200 e] obtain c where c: "says 200 (contest_in ''RUNNING'') = Inr c" "rsp_ok c"
    "json_value e c = Inr (contest_in ''RUNNING'')" by (auto simp: rsp_ok_def)
  have "\<exists>d. zod_eval (contestStateSchema (env_now_iso e)) (contest_in ''RUNNING'') = Some d \<and> get_opt d ''status'' = Str ''RUNNING''"
    by (simp add: contestStateSchema_def contest_shape_def contest_in_def field_def drop_undefined_def get_opt_def
        contestStatusSchema_def CONTEST_STATUSES_def seconds_schema_def)
  then show "\<exists>w' d. getContestStateAction zod_ref [] e w = (Inr d, w') \<and> jar w' = jar w \<and> get_opt d ''status'' = Str ''RUNNING''"
    using c by (auto simp: e_def getContestStateAction_def io_simps small_backend_answers zod_ref_def)
  have "json_ok (Obj [(''problem'', one_problem)])" by (simp add: one_problem_def)
  from says_json [OF this, of 200 e] obtain p where p: "says 200 (Obj [(''problem'', one_problem)]) = Inr p" "rsp_ok p"
    "json_value e p = Inr (Obj [(''problem'', one_problem)])" by (auto simp: rsp_ok_def)
  have url: "''http://api'' @ ''/api/v1/problems/'' @ encodeURIComponent ''two-sum'' = ''http://api/api/v1/problems/two-sum''" by code_simp
  show "\<exists>w' q. getProblemAction ''two-sum'' e w = (Inr (Some q), w') \<and> jar w' = jar w"
    using p url by (simp add: e_def getProblemAction_def io_simps small_backend_answers field_def one_problem_def mapToProblem_def js_map_def js_coalesce_def Let_def)
qed


text \<open>
  The lock screen is not part of the first render: whatever status the server rendered with, the client's first state is not
  locked, because a status that would lock counts as unresolved until the client has probed the machine itself. The pages
  are blank until then; the screen that says why comes with the first poll.
\<close>

theorem lock_screen_not_in_first_render:
  "\<not> contestLocked (proctor_seed self)"
  by (auto simp: contestLocked_def proctor_seed_def needs_local_proof_def INITIAL_PROCTOR_STATE_def proctor_resolve_def proctor_base_def Let_def)

text \<open>
  An outage of the contest state lifts the lock from the list of challenges: the action then answers with a contest that has
  not started, and before the start the page does not look at the gate, so a locked contestant is served every problem that
  the backend lists although the contest is running.
\<close>

theorem state_outage_serves_list:
  assumes "getContestStateAction sp loaded_at e w = (Inr (defaultContestState loaded_at), w1)"
    and "portal_listProblemsAction e w1 = (Inr (problems, progress), w2)"
  shows "portal_page sp clock loaded_at ChallengesRoute proctor e w = (Inr (ChallengeCards problems progress), w2)"
  using assms by (simp add: challenges_page_def io_simps defaultContestState_def get_opt_def field_def)

theorem state_outage_serves_list_witness:
  "\<exists>p ps progress w'. portal_page zod_ref (\<lambda>_. []) [] ChallengesRoute locked_gate (small_backend 500 ''RUNNING'' locked_gate)
     (with_cookie SESSION_COOKIE ''t'') = (Inr (ChallengeCards (p # ps) progress), w')"
proof -
  let ?e = "small_backend 500 ''RUNNING'' locked_gate" and ?w = "with_cookie SESSION_COOKIE ''t''"
  obtain r where r: "says 500 (contest_in ''RUNNING'') = Inr r" "\<not> rsp_ok r" by (simp add: says_def rsp_ok_def)
  obtain w1 where state: "getContestStateAction zod_ref [] ?e ?w = (Inr (defaultContestState []), w1)"
    using r by (simp add: getContestStateAction_def io_simps small_backend_answers)
  have "json_ok (Obj [(''problems'', Arr [one_problem])])" by (simp add: one_problem_def)
  from says_json [OF this, of 200 ?e] obtain q where q: "says 200 (Obj [(''problems'', Arr [one_problem])]) = Inr q" "rsp_ok q"
    "json_value ?e q = Inr (Obj [(''problems'', Arr [one_problem])])" by (auto simp: rsp_ok_def)
  obtain p progress w2 where list: "portal_listProblemsAction ?e w1 = (Inr ([p], progress), w2)"
    using q by (simp add: portal_listProblemsAction_def io_simps small_backend_answers field_def one_problem_def mapToProblem_def js_map_def js_coalesce_def Let_def)
  from state_outage_serves_list [OF state list] show ?thesis by blast
qed

text \<open>
  A backend that cannot be reached sends everyone to the login page, which then is served without a redirect: no page of the
  portal throws, no page loops, and the session cookie is still there when the backend is back.
\<close>

theorem outage_reads_as_signed_out:
  assumes "\<forall>qs q. \<exists>x. env_fetch e qs q = Inl x"
  shows "(\<exists>w'. render_portal sp clock loaded_at route e w = (Inr (SendTo ''/login''), w') \<and> jar w' = jar w) \<and>
         (\<exists>w'. login_page e w = (Inr (Serve ()), w') \<and> jar w' = jar w)"
proof -
  have "\<exists>w'. portal_getSessionUserAction e w = (Inr Null, w') \<and> jar w' = jar w"
    using assms [THEN spec, THEN spec]
    by (auto simp: portal_getSessionUserAction_def fetchSessionUser_def io_simps in_headers_or_null_def split: sum.split)
      (metis Inl_Inr_False)+
  then show ?thesis by (auto simp: render_portal_def portal_layout_def login_page_def io_simps)
qed

theorem outage_reads_as_signed_out_witness:
  "\<exists>w'. render_portal zod_ref (\<lambda>_. []) [] DocsRoute offline (with_cookie SESSION_COOKIE ''t'') = (Inr (SendTo ''/login''), w') \<and>
        jar_value (jar w') SESSION_COOKIE = Str ''t''"
proof -
  have "\<forall>qs q. \<exists>x. env_fetch offline qs q = Inl x" by (simp add: offline_def)
  from outage_reads_as_signed_out [OF this, of zod_ref "\<lambda>_. []" "[]" DocsRoute "with_cookie SESSION_COOKIE ''t''"]
  show ?thesis by (auto simp: with_cookie_def jar_value_def map_get_def)
qed

text \<open>
  Every language of the editor has its guide, under its own id in any spelling of case, and every guide is found under its
  own slug; a name that is no guide's is answered with the missing page, unless the contestant is locked.
\<close>

theorem guides_cover_languages:
  "(\<forall>l\<in>set LANGUAGES. getLanguageDoc (lg_id l) \<noteq> None) \<and> (\<forall>d\<in>set DOC_LANGUAGES. getLanguageDoc (doc_slug d) = Some d) \<and>
   getLanguageDoc (js_lower s) = getLanguageDoc s \<and> (case getLanguageDoc s of Some d \<Rightarrow> d \<in> set DOC_LANGUAGES | None \<Rightarrow> True)"
proof (intro conjI)
  have "list_all (\<lambda>i. getLanguageDoc i \<noteq> None) language_ids" by code_simp
  then show "\<forall>l\<in>set LANGUAGES. getLanguageDoc (lg_id l) \<noteq> None"
    unfolding language_ids [symmetric] by (simp add: list_all_iff)
  have "list_all (\<lambda>d. getLanguageDoc (doc_slug d) = Some d) DOC_LANGUAGES" by code_simp
  then show "\<forall>d\<in>set DOC_LANGUAGES. getLanguageDoc (doc_slug d) = Some d" by (simp add: list_all_iff)
  show "getLanguageDoc (js_lower s) = getLanguageDoc s" by (simp add: getLanguageDoc_def js_lower_idem)
  show "case getLanguageDoc s of Some d \<Rightarrow> d \<in> set DOC_LANGUAGES | None \<Rightarrow> True"
    by (simp add: getLanguageDoc_def DOC_LANGUAGES_def Let_def)
qed

end
