(* ===== verification/PortalChrome.thy ===== *)
theory PortalChrome
  imports PortalPages
begin

text \<open>
  Entering and leaving the competitor portal: the login form (\<open>components/auth/login-form.tsx\<close>), signing out
  (\<open>sign-out-button.tsx\<close> and the same handler in \<open>portal/user-account-menu.tsx\<close>), the password dialog
  (\<open>change-password-dialog.tsx\<close>), the window controls of the desktop client (\<open>portal/desktop-window-controls.tsx\<close>) and the
  links of the navigation (\<open>lib/constants.ts\<close>, \<open>portal/top-nav.tsx\<close>). A server action called from the browser either reaches the
  server and runs there, or the call itself fails.
\<close>

definition server_call :: "bool \<Rightarrow> 'a io \<Rightarrow> 'a io" where
  "server_call reached m = (if reached then m else throw (Error ''Failed to fetch''))"

section \<open>Signing in\<close>

record login_form =
  lf_authenticating :: bool
  lf_error :: "string option"

datatype departure = Stay | ToChallenges | ToLogin | AppClosed

definition login_submit :: "login_form \<Rightarrow> login_form" where
  "login_submit s = s\<lparr>lf_authenticating := True, lf_error := None\<rparr>"

definition login_settle :: "exn + auth_result \<Rightarrow> login_form \<Rightarrow> login_form \<times> departure" where
  "login_settle result s =
     (let (s1, go) =
        (case result of
           Inl _ \<Rightarrow> (s\<lparr>lf_error := Some ''Something went wrong. Please try again.''\<rparr>, Stay)
         | Inr r \<Rightarrow>
             if \<not> ar_success r
             then (s\<lparr>lf_error := Some (js_String (js_or (ar_error r) (Str ''Invalid username or password.'')))\<rparr>, Stay)
             else (s, ToChallenges))
      in (s1\<lparr>lf_authenticating := False\<rparr>, go))"

section \<open>Signing out\<close>

definition handleSignOut :: "bool \<Rightarrow> page_window \<Rightarrow> nat option \<Rightarrow> departure io" where
  "handleSignOut reached p loopback_port =
     bind (catch (server_call reached portal_logoutAction) (\<lambda>_. ret ())) (\<lambda>_.
     if isDesktopClient p
     then bind (stopLocalAgent loopback_port) (\<lambda>_. bind (closeDesktopApp True) (\<lambda>_. ret AppClosed))
     else ret ToLogin)"

record sign_out_view =
  so_confirming :: bool
  so_signingOut :: bool

text \<open>In the desktop client the first click asks; the second component says whether signing out begins.\<close>

definition sign_out_click :: "page_window \<Rightarrow> sign_out_view \<Rightarrow> sign_out_view \<times> bool" where
  "sign_out_click p s =
     (if so_signingOut s then (s, False)
      else if isDesktopClient p \<and> \<not> so_confirming s then (s\<lparr>so_confirming := True\<rparr>, False)
      else (s\<lparr>so_signingOut := True\<rparr>, True))"

definition sign_out_cancel :: "sign_out_view \<Rightarrow> sign_out_view" where
  "sign_out_cancel s = (if so_signingOut s then s else s\<lparr>so_confirming := False\<rparr>)"

definition sign_out_end :: "sign_out_view \<Rightarrow> sign_out_view" where
  "sign_out_end s = s\<lparr>so_confirming := False, so_signingOut := False\<rparr>"

section \<open>Changing the password\<close>

record password_form =
  pd_current :: string
  pd_new :: string
  pd_confirm :: string
  pd_submitting :: bool
  pd_error :: "string option"
  pd_success :: "string option"

definition password_problem :: "password_form \<Rightarrow> string option" where
  "password_problem s =
     (if length (pd_new s) < 8 then Some ''New password must be at least 8 characters long.''
      else if pd_new s \<noteq> pd_confirm s then Some ''New passwords do not match. Please verify.''
      else if pd_current s = pd_new s then Some ''New password must be different from your current password.''
      else None)"

definition password_submit :: "password_form \<Rightarrow> password_form \<times> (string \<times> string) option" where
  "password_submit s =
     (let s1 = s\<lparr>pd_error := None, pd_success := None\<rparr>
      in case password_problem s of
           Some m \<Rightarrow> (s1\<lparr>pd_error := Some m\<rparr>, None)
         | None \<Rightarrow> (s1\<lparr>pd_submitting := True\<rparr>, Some (pd_current s, pd_new s)))"

definition password_settle :: "page_window \<Rightarrow> exn + ok_result \<Rightarrow> password_form \<Rightarrow> password_form \<times> bool" where
  "password_settle p result s =
     (let (s1, leaves) =
        (case result of
           Inl _ \<Rightarrow> (s\<lparr>pd_error := Some ''An unexpected error occurred. Please try again.''\<rparr>, False)
         | Inr r \<Rightarrow>
             if \<not> ok_success r then (s\<lparr>pd_error := Some (js_String (js_or (ok_error r) (Str ''Failed to update password.'')))\<rparr>, False)
             else (s\<lparr>pd_current := [], pd_new := [], pd_confirm := [],
                     pd_success := Some (if isDesktopClient p then ''Password updated. Closing application...''
                                         else ''Password updated. Logging out...'')\<rparr>, True))
      in (s1\<lparr>pd_submitting := False\<rparr>, leaves))"

definition password_close :: "password_form \<Rightarrow> password_form \<times> bool" where
  "password_close s =
     (if pd_submitting s then (s, False)
      else (s\<lparr>pd_current := [], pd_new := [], pd_confirm := [], pd_error := None, pd_success := None\<rparr>, True))"

text \<open>What the timer does after a change was accepted.\<close>

definition password_leave :: "bool \<Rightarrow> page_window \<Rightarrow> departure io" where
  "password_leave reached p =
     bind (catch (server_call reached portal_logoutAction) (\<lambda>_. ret ())) (\<lambda>_.
     if isDesktopClient p then bind (closeDesktopApp True) (\<lambda>_. ret AppClosed) else ret ToLogin)"

section \<open>The window controls of the desktop client\<close>

definition shell_request :: "string \<Rightarrow> request" where
  "shell_request path = \<lparr>req_url = ''http://127.0.0.1:47620/'' @ path, req_method = ''POST'', req_headers = [], req_body = NoBody\<rparr>"

text \<open>
  Asking to leave: through the bridge of the window where there is one (\<open>bridge\<close> is what its call did), else over the loopback
  address. The result says whether the page has to ask for itself.
\<close>

definition handleRequestExit :: "(exn + unit) option \<Rightarrow> bool io" where
  "handleRequestExit bridge =
     (case bridge of
        Some (Inr _) \<Rightarrow> ret False
      | _ \<Rightarrow> catch (bind (fetch (shell_request ''request-exit'')) (\<lambda>_. ret False)) (\<lambda>_. ret True))"

text \<open>The result says whether the window closes itself because the shell did not answer.\<close>

definition handleConfirmLeave :: "bool \<Rightarrow> bool io" where
  "handleConfirmLeave reached =
     bind (catch (bind (server_call reached leaveContestAction) (\<lambda>_. ret ())) (\<lambda>_. ret ())) (\<lambda>_.
     catch (bind (fetch (shell_request ''quit'')) (\<lambda>_. ret False)) (\<lambda>_. ret True))"

section \<open>Navigation\<close>

definition NAV_LINKS :: "string list" where
  "NAV_LINKS = [''/challenges'', ''/leaderboard'', ''/submissions'', ''/docs'']"

definition active_links :: "string \<Rightarrow> string list" where
  "active_links pathname = filter (starts_with pathname) NAV_LINKS"

section \<open>Leaving for good\<close>

lemma logout_run:
  "\<exists>w'. catch (server_call reached portal_logoutAction) (\<lambda>_. ret ()) e w = (Inr (), w') \<and>
        (if reached then \<not> truthy (jar_value (jar w') SESSION_COOKIE) else w' = w)"
proof (cases reached)
  case True
  obtain w' where "portal_logoutAction e w = (Inr (), w')" "\<not> truthy (jar_value (jar w') SESSION_COOKIE)"
    using revokeUserSession_clears [of SESSION_COOKIE e w] by (auto simp: portal_logoutAction_def)
  then show ?thesis using True by (simp add: server_call_def io_simps)
qed (simp add: server_call_def io_simps)

lemma stopLocalAgent_run: "\<exists>b w'. stopLocalAgent port e w = (Inr b, w') \<and> jar w' = jar w"
proof -
  have "\<exists>b w'. stop_ports ports e w = (Inr b, w') \<and> jar w' = jar w" for ports
  proof (induction ports arbitrary: w)
    case (Cons port ports)
    have "\<exists>b w1. catch (bind (fetch (agent_request port ''/stop'' ''POST'')) (\<lambda>res. ret (rsp_ok res))) (\<lambda>_. ret False) e w =
        (Inr b, w1) \<and> jar w1 = jar w"
      by (cases "env_fetch e (sent w) (agent_request port ''/stop'' ''POST'')") (auto simp: io_simps)
    then obtain w1 b where step: "catch (bind (fetch (agent_request port ''/stop'' ''POST'')) (\<lambda>res. ret (rsp_ok res))) (\<lambda>_. ret False) e w =
        (Inr b, w1)" "jar w1 = jar w" by blast
    then show ?case using Cons.IH [of w1] by (cases b) (auto simp: bind_def ret_def)
  qed (auto simp: io_simps)
  then show ?thesis by (simp add: stopLocalAgent_def)
qed

lemma closeDesktopApp_run: "closeDesktopApp True e w = (Inr (), w\<lparr>sent := sent w @ [shell_request ''quit'']\<rparr>)"
  by (simp add: closeDesktopApp_def shell_request_def io_simps split: sum.split)

text \<open>
  C36: Signing out always comes to its end: whatever the backend, the agent and the shell answer, the browser goes to the login
  page and the desktop client is told to quit, as the last thing that is sent; and when the call reached the server, the
  session cookie is gone afterwards. When it did not reach the server, the browser goes to the login page with the session
  untouched.
\<close>

theorem sign_out_final:
  "\<exists>w'. handleSignOut reached p port e w = (Inr (if isDesktopClient p then AppClosed else ToLogin), w') \<and>
        (reached \<longrightarrow> \<not> truthy (jar_value (jar w') SESSION_COOKIE)) \<and>
        (isDesktopClient p \<longrightarrow> (\<exists>qs. sent w' = qs @ [shell_request ''quit''])) \<and>
        (\<not> isDesktopClient p \<and> \<not> reached \<longrightarrow> w' = w)"
proof -
  obtain w1 where out: "catch (server_call reached portal_logoutAction) (\<lambda>_. ret ()) e w = (Inr (), w1)"
      "if reached then \<not> truthy (jar_value (jar w1) SESSION_COOKIE) else w1 = w"
    using logout_run by blast
  obtain b w2 where stop: "stopLocalAgent port e w1 = (Inr b, w2)" "jar w2 = jar w1" using stopLocalAgent_run by blast
  show ?thesis
  proof (cases "isDesktopClient p")
    case True
    have "handleSignOut reached p port e w = (Inr AppClosed, w2\<lparr>sent := sent w2 @ [shell_request ''quit'']\<rparr>)"
      by (simp add: handleSignOut_def bind_def out(1) True stop(1) closeDesktopApp_run ret_def)
    then show ?thesis using True out(2) stop(2) by (auto split: if_splits)
  next
    case False
    then have "handleSignOut reached p port e w = (Inr ToLogin, w1)"
      by (simp add: handleSignOut_def bind_def out(1) ret_def)
    then show ?thesis using False out(2) by (auto split: if_splits)
  qed
qed

definition desktop_window :: page_window where
  "desktop_window = \<lparr>pw_document = Some ''labyrithm-client=desktop'', pw_desktop_flag = False, pw_search = []\<rparr>"

definition browser_window :: page_window where
  "browser_window = \<lparr>pw_document = Some ''theme=dark'', pw_desktop_flag = False, pw_search = []\<rparr>"

lemma windows: "isDesktopClient desktop_window" "\<not> isDesktopClient browser_window"
  by code_simp+

theorem sign_out_final_witness:
  "\<exists>w'. handleSignOut True desktop_window (Some 47611) offline (with_cookie SESSION_COOKIE ''t'') = (Inr AppClosed, w') \<and>
        \<not> truthy (jar_value (jar w') SESSION_COOKIE) \<and> (\<exists>qs. sent w' = qs @ [shell_request ''quit''])"
  using sign_out_final [of True desktop_window "Some 47611" offline "with_cookie SESSION_COOKIE ''t''"] windows(1) by auto

text \<open>
  A sign-out that did not reach the server looks like one that did: the browser goes to the login page, and the login page,
  which still finds the session, sends it back into the portal.
\<close>

theorem failed_sign_out_bounces:
  assumes "\<not> isDesktopClient p" "portal_getSessionUserAction e w = (Inr user, w1)" "truthy user"
  shows "handleSignOut False p port e w = (Inr ToLogin, w) \<and> login_page e w = (Inr (SendTo ''/challenges''), w1)"
  using assms by (simp add: handleSignOut_def server_call_def login_page_def io_simps)

theorem failed_sign_out_bounces_witness:
  "\<exists>w1. handleSignOut False browser_window None (small_backend 200 ''RUNNING'' open_gate) (with_cookie SESSION_COOKIE ''t'') =
          (Inr ToLogin, with_cookie SESSION_COOKIE ''t'') \<and>
        login_page (small_backend 200 ''RUNNING'' open_gate) (with_cookie SESSION_COOKIE ''t'') = (Inr (SendTo ''/challenges''), w1)"
proof -
  have "json_ok open_gate" "jar_value (jar (with_cookie SESSION_COOKIE ''t'')) SESSION_COOKIE = Str ''t''"
    by (simp_all add: open_gate_def with_cookie_def jar_value_def map_get_def)
  from small_backend_run(1) [OF this(2,1)]
  obtain w1 where "portal_getSessionUserAction (small_backend 200 ''RUNNING'' open_gate) (with_cookie SESSION_COOKIE ''t'') = (Inr ann, w1)"
    by blast
  from failed_sign_out_bounces [OF windows(2) this, of None] show ?thesis by (auto simp: ann_def)
qed

text \<open>
  The password dialog sends only changes the server's schema accepts, once the current password is filled in: the new password
  has at least eight characters, was typed twice alike and differs from the current one. Otherwise it says why and keeps what
  was typed. An accepted change always ends the session, also when the dialog was closed meanwhile, and a dialog that is closed
  keeps no password.
\<close>

theorem password_change_checked:
  "(case snd (password_submit s) of
      Some (cur, new) \<Rightarrow>
        cur = pd_current s \<and> new = pd_new s \<and> new = pd_confirm s \<and> new \<noteq> cur \<and> 8 \<le> length new \<and>
        (zod_eval changePasswordSchema (Obj [(''currentPassword'', Str cur), (''newPassword'', Str new)]) \<noteq> None \<longleftrightarrow> cur \<noteq> [])
    | None \<Rightarrow>
        pd_error (fst (password_submit s)) \<noteq> None \<and> pd_current (fst (password_submit s)) = pd_current s \<and>
        pd_new (fst (password_submit s)) = pd_new s \<and> pd_confirm (fst (password_submit s)) = pd_confirm s) \<and>
   (snd (password_settle p r s) \<longleftrightarrow> (\<exists>a. r = Inr a \<and> ok_success a)) \<and>
   (case password_close s of (s', shut) \<Rightarrow>
      (shut \<longleftrightarrow> \<not> pd_submitting s) \<and> (if shut then pd_current s' = [] \<and> pd_new s' = [] \<and> pd_confirm s' = [] else s' = s)) \<and>
   (\<exists>w'. password_leave True p e w = (Inr (if isDesktopClient p then AppClosed else ToLogin), w') \<and>
         \<not> truthy (jar_value (jar w') SESSION_COOKIE))"
proof (intro conjI)
  show "case snd (password_submit s) of
      Some (cur, new) \<Rightarrow>
        cur = pd_current s \<and> new = pd_new s \<and> new = pd_confirm s \<and> new \<noteq> cur \<and> 8 \<le> length new \<and>
        (zod_eval changePasswordSchema (Obj [(''currentPassword'', Str cur), (''newPassword'', Str new)]) \<noteq> None \<longleftrightarrow> cur \<noteq> [])
    | None \<Rightarrow>
        pd_error (fst (password_submit s)) \<noteq> None \<and> pd_current (fst (password_submit s)) = pd_current s \<and>
        pd_new (fst (password_submit s)) = pd_new s \<and> pd_confirm (fst (password_submit s)) = pd_confirm s"
    by (auto simp: password_submit_def password_problem_def changePasswordSchema_def Let_def field_def drop_undefined_def get_opt_def
        Suc_le_eq)
  show "snd (password_settle p r s) \<longleftrightarrow> (\<exists>a. r = Inr a \<and> ok_success a)"
    by (auto simp: password_settle_def split: sum.split)
  show "case password_close s of (s', shut) \<Rightarrow>
      (shut \<longleftrightarrow> \<not> pd_submitting s) \<and> (if shut then pd_current s' = [] \<and> pd_new s' = [] \<and> pd_confirm s' = [] else s' = s)"
    by (simp add: password_close_def)
  obtain w1 where "catch (server_call True portal_logoutAction) (\<lambda>_. ret ()) e w = (Inr (), w1)"
      "\<not> truthy (jar_value (jar w1) SESSION_COOKIE)" using logout_run [of True e w] by auto
  then show "\<exists>w'. password_leave True p e w = (Inr (if isDesktopClient p then AppClosed else ToLogin), w') \<and>
         \<not> truthy (jar_value (jar w') SESSION_COOKIE)"
    by (simp add: password_leave_def bind_def closeDesktopApp_run ret_def)
qed

text \<open>
  Leaving the contest from the desktop client locks the session before the window goes: on confirmation the backend is told
  first, when the call gets through, and the shell is asked to quit last, whatever was answered; the window closes itself only
  when the shell does not answer. The page asks for confirmation only when neither the bridge nor the shell took the request.
\<close>

theorem leaving_tells_backend_first:
  "(\<exists>b w'. handleConfirmLeave reached e w = (Inr b, w') \<and>
      (\<exists>qs. sent w' = sent w @ qs @ [shell_request ''quit''] \<and> length qs \<le> 1 \<and>
            (\<not> reached \<longrightarrow> qs = []) \<and> (\<forall>q\<in>set qs. req_url q = env_api_url e @ ''/api/v1/telemetry/leave-contest'')) \<and>
      (b \<longleftrightarrow> (\<exists>x. env_fetch e (butlast (sent w')) (shell_request ''quit'') = Inl x))) \<and>
   (\<exists>b w'. handleRequestExit bridge e w = (Inr b, w') \<and>
      (b \<longleftrightarrow> bridge \<noteq> Some (Inr ()) \<and> (\<exists>x. env_fetch e (sent w) (shell_request ''request-exit'') = Inl x)))"
proof
  let ?url = "env_api_url e @ ''/api/v1/telemetry/leave-contest''"
  have "\<exists>b w1 qs. leaveContestAction e w = (Inr b, w1) \<and> sent w1 = sent w @ qs \<and> length qs \<le> 1 \<and> (\<forall>q\<in>set qs. req_url q = ?url)"
  proof (cases "env_in_headers e")
    case (Inr h)
    then show ?thesis
      by (cases "env_fetch e (sent w) (portal_request e w h ''/api/v1/telemetry/leave-contest'' (method_init ''POST''))")
         (auto simp: leaveContestAction_def io_simps)
  qed (auto simp: leaveContestAction_def io_simps)
  then obtain w1 qs where leave: "catch (bind (server_call reached leaveContestAction) (\<lambda>_. ret ())) (\<lambda>_. ret ()) e w = (Inr (), w1)"
      "sent w1 = sent w @ qs" "length qs \<le> 1" "\<not> reached \<longrightarrow> qs = []" "\<forall>q\<in>set qs. req_url q = ?url"
    by (cases reached) (auto simp: server_call_def bind_def catch_def ret_def throw_def)
  then show "\<exists>b w'. handleConfirmLeave reached e w = (Inr b, w') \<and>
      (\<exists>qs. sent w' = sent w @ qs @ [shell_request ''quit''] \<and> length qs \<le> 1 \<and>
            (\<not> reached \<longrightarrow> qs = []) \<and> (\<forall>q\<in>set qs. req_url q = env_api_url e @ ''/api/v1/telemetry/leave-contest'')) \<and>
      (b \<longleftrightarrow> (\<exists>x. env_fetch e (butlast (sent w')) (shell_request ''quit'') = Inl x))"
    by (auto simp: handleConfirmLeave_def bind_def [of _ "\<lambda>_. catch _ _"] io_simps butlast_append split: sum.split)
  show "\<exists>b w'. handleRequestExit bridge e w = (Inr b, w') \<and>
      (b \<longleftrightarrow> bridge \<noteq> Some (Inr ()) \<and> (\<exists>x. env_fetch e (sent w) (shell_request ''request-exit'') = Inl x))"
    by (auto simp: handleRequestExit_def io_simps split: option.split sum.split)
qed

text \<open>
  At most one link of the navigation is marked at a time, on every page below it, and every page of the portal has one.
\<close>

lemma starts_with_comparable: "starts_with s p \<Longrightarrow> starts_with s q \<Longrightarrow> starts_with p q \<or> starts_with q p"
  unfolding starts_with_iff by (metis append_eq_append_conv2)

theorem one_link_active:
  "length (active_links pathname) \<le> 1 \<and> (\<forall>l\<in>set NAV_LINKS. active_links (l @ rest) = [l])"
proof
  have "active_links pathname = [] \<or> (\<exists>l. active_links pathname = [l])"
    using starts_with_comparable [of pathname]
    by (auto simp: active_links_def NAV_LINKS_def) (fastforce)+
  then show "length (active_links pathname) \<le> 1" by auto
  show "\<forall>l\<in>set NAV_LINKS. active_links (l @ rest) = [l]" by (simp add: active_links_def NAV_LINKS_def)
qed

end
