(* ===== verification/PortalWidgets.thy ===== *)
theory PortalWidgets
  imports ProctorGate
begin

text \<open>
  Three pieces of the competitor portal that live in time: the banner of the network's state and the notices
  (\<open>components/portal/portal-shell.tsx\<close>), and the drop-down list the portal's pages share (\<open>components/ui/custom-select.tsx\<close>).
  Times are milliseconds; a timer is the moment it is due.
\<close>

section \<open>The network banner\<close>

definition isOffline :: "bool \<Rightarrow> proctor_state \<Rightarrow> bool" where
  "isOffline isOnline p \<longleftrightarrow> \<not> isOnline \<or> (ps_resolved p \<and> \<not> ps_serverReachable p)"

record net_banner =
  nb_now :: int
  nb_offline :: bool
  nb_showRestored :: bool
  nb_wasOffline :: bool
  nb_timer :: "int option"

datatype banner_view = OutageShown string | RestoredShown | NothingShown

definition banner_view :: "bool \<Rightarrow> net_banner \<Rightarrow> banner_view" where
  "banner_view isOnline s =
     (if nb_offline s then OutageShown (if isOnline then ''Contest Server Unreachable.'' else ''Network Connection Lost.'')
      else if nb_showRestored s then RestoredShown else NothingShown)"

definition banner_start :: "bool \<Rightarrow> net_banner" where
  "banner_start b = \<lparr>nb_now = 0, nb_offline = b, nb_showRestored = False, nb_wasOffline = b, nb_timer = None\<rparr>"

text \<open>The effect runs when \<open>isOffline\<close> changes, after the timer of its last run was cleared.\<close>

definition banner_change :: "bool \<Rightarrow> net_banner \<Rightarrow> net_banner" where
  "banner_change b s =
     (if b = nb_offline s then s
      else
        let s1 = s\<lparr>nb_offline := b, nb_timer := None\<rparr>
        in if nb_wasOffline s \<and> \<not> b then s1\<lparr>nb_showRestored := True, nb_timer := Some (nb_now s + 4000)\<rparr>
           else s1\<lparr>nb_wasOffline := b\<rparr>)"

definition banner_pass :: "nat \<Rightarrow> net_banner \<Rightarrow> net_banner" where
  "banner_pass ms s =
     (let s1 = s\<lparr>nb_now := nb_now s + int ms\<rparr>
      in case nb_timer s of
           Some d \<Rightarrow> if d \<le> nb_now s1 then s1\<lparr>nb_showRestored := False, nb_timer := None\<rparr> else s1
         | None \<Rightarrow> s1)"

inductive banner_step :: "net_banner \<Rightarrow> net_banner \<Rightarrow> bool" where
  Change: "banner_step s (banner_change b s)"
| Pass: "banner_step s (banner_pass ms s)"

section \<open>The notices\<close>

text \<open>
  The notice of a submission and the alert of the contest, each with its timer. \<open>clearToast\<close> is a new function at every render of
  the submissions provider, so the effect that keeps the notice's timer starts it afresh with every render; \<open>clearAlertToast\<close> is
  the same function always.
\<close>

record notices =
  nt_now :: int
  nt_submission :: "(nat \<times> int) option"
  nt_contest :: "(nat \<times> int) option"

definition no_notices :: notices where
  "no_notices = \<lparr>nt_now = 0, nt_submission = None, nt_contest = None\<rparr>"

datatype notice = SubmissionNotice nat | ContestAlert nat

definition activeToast :: "notices \<Rightarrow> notice option" where
  "activeToast s =
     (case nt_submission s of
        Some (i, _) \<Rightarrow> Some (SubmissionNotice i)
      | None \<Rightarrow> (case nt_contest s of Some (i, _) \<Rightarrow> Some (ContestAlert i) | None \<Rightarrow> None))"

datatype notice_event = ShowNotice nat | ShowAlert nat | ProviderRenders | CloseToast | PassTime nat

definition expire :: "int \<Rightarrow> (nat \<times> int) option \<Rightarrow> (nat \<times> int) option" where
  "expire now t = (case t of Some (i, due) \<Rightarrow> if due \<le> now then None else t | None \<Rightarrow> None)"

fun notice_apply :: "notice_event \<Rightarrow> notices \<Rightarrow> notices" where
  "notice_apply (ShowNotice i) s = s\<lparr>nt_submission := Some (i, nt_now s + 5000)\<rparr>"
| "notice_apply (ShowAlert i) s = s\<lparr>nt_contest := Some (i, nt_now s + 6000)\<rparr>"
| "notice_apply ProviderRenders s = s\<lparr>nt_submission := map_option (\<lambda>(i, _). (i, nt_now s + 5000)) (nt_submission s)\<rparr>"
| "notice_apply CloseToast s =
     (case nt_submission s of Some _ \<Rightarrow> s\<lparr>nt_submission := None\<rparr> | None \<Rightarrow> s\<lparr>nt_contest := None\<rparr>)"
| "notice_apply (PassTime ms) s =
     (let now = nt_now s + int ms
      in s\<lparr>nt_now := now, nt_submission := expire now (nt_submission s), nt_contest := expire now (nt_contest s)\<rparr>)"

section \<open>The drop-down list\<close>

record select_option =
  op_value :: string
  op_disabled :: bool

record select_list =
  sl_open :: bool
  sl_hi :: int
  sl_value :: string
  sl_reported :: "string list"

definition select_start :: "string \<Rightarrow> select_list" where
  "select_start v = \<lparr>sl_open = False, sl_hi = -1, sl_value = v, sl_reported = []\<rparr>"

definition findIndex :: "('a \<Rightarrow> bool) \<Rightarrow> 'a list \<Rightarrow> int" where
  "findIndex P xs = (case filter (\<lambda>i. P (xs ! i)) [0..<length xs] of [] \<Rightarrow> -1 | i # _ \<Rightarrow> int i)"

definition toggleDropdown :: "bool \<Rightarrow> select_option list \<Rightarrow> select_list \<Rightarrow> select_list" where
  "toggleDropdown disabled options s =
     (if disabled then s
      else
        let i = findIndex (\<lambda>o'. op_value o' = sl_value s) options;
            s1 = (if sl_open s then s else s\<lparr>sl_hi := if 0 \<le> i then i else 0\<rparr>)
        in s1\<lparr>sl_open := \<not> sl_open s\<rparr>)"

definition closeDropdown :: "select_list \<Rightarrow> select_list" where
  "closeDropdown s = s\<lparr>sl_open := False, sl_hi := -1\<rparr>"

definition selectOption :: "select_option \<Rightarrow> select_list \<Rightarrow> select_list" where
  "selectOption o' s = (if op_disabled o' then s else closeDropdown (s\<lparr>sl_reported := sl_reported s @ [op_value o']\<rparr>))"

datatype key = EnterKey | SpaceKey | ArrowDown | ArrowUp | HomeKey | EndKey | EscapeKey | TabKey | OtherKey

definition select_handleKeyDown :: "bool \<Rightarrow> select_option list \<Rightarrow> key \<Rightarrow> select_list \<Rightarrow> select_list" where
  "select_handleKeyDown disabled options k s =
     (if disabled then s
      else if k \<in> {EnterKey, SpaceKey} then
        (if sl_open s \<and> 0 \<le> sl_hi s
         then (if nat (sl_hi s) < length options then selectOption (options ! nat (sl_hi s)) s else s)
         else toggleDropdown disabled options s)
      else if k = ArrowDown then
        (if \<not> sl_open s then toggleDropdown disabled options s
         else s\<lparr>sl_hi := if int (length options) \<le> sl_hi s + 1 then 0 else sl_hi s + 1\<rparr>)
      else if k = ArrowUp then
        (if \<not> sl_open s then toggleDropdown disabled options s
         else s\<lparr>sl_hi := if sl_hi s - 1 < 0 then int (length options) - 1 else sl_hi s - 1\<rparr>)
      else if k = HomeKey then (if sl_open s then s\<lparr>sl_hi := 0\<rparr> else s)
      else if k = EndKey then (if sl_open s then s\<lparr>sl_hi := int (length options) - 1\<rparr> else s)
      else if k \<in> {EscapeKey, TabKey} then (if sl_open s then closeDropdown s else s)
      else s)"

inductive select_step :: "bool \<Rightarrow> select_option list \<Rightarrow> select_list \<Rightarrow> select_list \<Rightarrow> bool"
  for disabled :: bool and options :: "select_option list" where
  Click: "select_step disabled options s (toggleDropdown disabled options s)"
| KeyDown: "select_step disabled options s (select_handleKeyDown disabled options k s)"
| ClickOption: "sl_open s \<Longrightarrow> i < length options \<Longrightarrow> select_step disabled options s (selectOption (options ! i) s)"
| Hover: "sl_open s \<Longrightarrow> i < length options \<Longrightarrow> select_step disabled options s (s\<lparr>sl_hi := int i\<rparr>)"
| Outside: "sl_open s \<Longrightarrow> select_step disabled options s (closeDropdown s)"
| NewValue: "select_step disabled options s (s\<lparr>sl_value := v\<rparr>)"

section \<open>What they guarantee\<close>

definition banner_inv :: "net_banner \<Rightarrow> bool" where
  "banner_inv s \<longleftrightarrow> (nb_offline s \<longrightarrow> nb_wasOffline s \<and> nb_timer s = None) \<and>
     (\<not> nb_offline s \<longrightarrow> (nb_showRestored s \<longleftrightarrow> nb_timer s \<noteq> None) \<and> (nb_showRestored s \<longrightarrow> nb_wasOffline s)) \<and>
     (case nb_timer s of Some d \<Rightarrow> nb_now s < d \<and> d \<le> nb_now s + 4000 | None \<Rightarrow> True)"

lemma banner_change_inv: "banner_inv s \<Longrightarrow> banner_inv (banner_change b s)"
  by (cases b; cases "nb_offline s") (simp_all add: banner_inv_def banner_change_def Let_def)

lemma banner_pass_inv:
  assumes "banner_inv s"
  shows "banner_inv (banner_pass ms s)"
  using assms by (cases "nb_timer s") (auto simp: banner_inv_def banner_pass_def Let_def)

lemma banner_step_inv: "banner_step s s' \<Longrightarrow> banner_inv s \<Longrightarrow> banner_inv s'"
  by (induction rule: banner_step.induct) (simp_all add: banner_change_inv banner_pass_inv)

lemma banner_start_inv: "banner_inv (banner_start b)"
  by (simp add: banner_inv_def banner_start_def)

interpretation network_banner: state_machine "\<lambda>s. \<exists>b. s = banner_start b" banner_step banner_inv
  by unfold_locales (auto intro: banner_start_inv banner_step_inv)

text \<open>
  The banner tells the truth and does not linger: in every state it can reach over any sequence of losses, recoveries and
  waits, however quickly they follow each other, the outage shows exactly while the network or the server is away, the
  recovery shows only after an outage, and with no further loss it is gone four seconds later at the latest.
\<close>

theorem banner_truthful:
  assumes "reaches (\<lambda>s. \<exists>b. s = banner_start b) banner_step s"
  shows "((\<exists>t. banner_view isOnline s = OutageShown t) \<longleftrightarrow> nb_offline s) \<and>
         (banner_view isOnline s = RestoredShown \<longrightarrow> nb_wasOffline s \<and> (\<exists>d. nb_timer s = Some d \<and> d \<le> nb_now s + 4000)) \<and>
         (\<not> nb_offline s \<and> 4000 \<le> ms \<longrightarrow> banner_view isOnline (banner_pass ms s) = NothingShown)"
  using network_banner.reaches_inv [OF assms]
  by (auto simp: banner_view_def banner_inv_def banner_pass_def Let_def split: option.splits if_splits)

theorem banner_truthful_witness:
  "banner_view True (banner_pass 4000 (banner_change False (banner_change True (banner_start False)))) = NothingShown"
proof -
  have "reaches (\<lambda>s. \<exists>b. s = banner_start b) banner_step (banner_change False (banner_change True (banner_start False)))"
    by (blast intro: reaches_init reaches_step Change)
  from banner_truthful [OF this, of True 4000] show ?thesis by (simp add: banner_change_def banner_start_def Let_def)
qed

text \<open>How long the events take together.\<close>

definition elapsed :: "notice_event list \<Rightarrow> nat" where
  "elapsed evs = sum_list (map (\<lambda>ev. case ev of PassTime ms \<Rightarrow> ms | _ \<Rightarrow> 0) evs)"

definition keeps_notice :: "notice_event \<Rightarrow> bool" where
  "keeps_notice ev = (case ev of ShowNotice _ \<Rightarrow> True | ProviderRenders \<Rightarrow> True | _ \<Rightarrow> False)"

definition shows_alert :: "notice_event \<Rightarrow> bool" where
  "shows_alert ev = (case ev of ShowAlert _ \<Rightarrow> True | _ \<Rightarrow> False)"

definition due_by :: "int \<Rightarrow> (nat \<times> int) option \<Rightarrow> bool" where
  "due_by d t = (case t of Some (_, due) \<Rightarrow> due \<le> d | None \<Rightarrow> True)"

lemma expire_due: "due_by d t \<Longrightarrow> due_by d (expire now t)" "due_by d t \<Longrightarrow> d \<le> now \<Longrightarrow> expire now t = None"
  by (auto simp: due_by_def expire_def split: option.splits prod.splits if_splits)

lemma notice_now: "nt_now (fold notice_apply evs s) = nt_now s + int (elapsed evs)"
proof (induction evs arbitrary: s)
  case (Cons ev evs)
  then show ?case by (cases ev) (simp_all add: elapsed_def Let_def split: option.split)
qed (simp add: elapsed_def)

lemma notice_due:
  "list_all (\<lambda>ev. \<not> keeps_notice ev) evs \<Longrightarrow> due_by d (nt_submission s) \<Longrightarrow> due_by d (nt_submission (fold notice_apply evs s))"
proof (induction evs arbitrary: s)
  case (Cons ev evs)
  then show ?case by (cases ev) (auto simp: keeps_notice_def Let_def expire_due due_by_def [of d None] split: option.split)
qed simp

lemma alert_due:
  "list_all (\<lambda>ev. \<not> shows_alert ev) evs \<Longrightarrow> due_by d (nt_contest s) \<Longrightarrow> due_by d (nt_contest (fold notice_apply evs s))"
proof (induction evs arbitrary: s)
  case (Cons ev evs)
  then show ?case by (cases ev) (auto simp: shows_alert_def Let_def expire_due due_by_def [of d None] split: option.split)
qed simp

text \<open>
  A notice goes away by itself: whatever else happens, an alert of the contest is gone once six seconds have passed without
  another one, and the notice of a submission once five seconds have passed in which the submissions provider was not
  rendered. Every render starts the five seconds again, so while reports keep coming at shorter intervals the notice
  stays, however long that is.
\<close>

theorem notices_expire:
  "(list_all (\<lambda>ev. \<not> shows_alert ev) evs \<and> 6000 \<le> elapsed evs \<longrightarrow>
      nt_contest (notice_apply (PassTime 0) (fold notice_apply evs (notice_apply (ShowAlert i) s))) = None) \<and>
   (list_all (\<lambda>ev. \<not> keeps_notice ev) evs \<and> 5000 \<le> elapsed evs \<longrightarrow>
      nt_submission (notice_apply (PassTime 0) (fold notice_apply evs (notice_apply (ShowNotice i) s))) = None) \<and>
   (ms < 5000 \<longrightarrow> activeToast (((notice_apply ProviderRenders \<circ> notice_apply (PassTime ms)) ^^ n) (notice_apply (ShowNotice i) s)) =
      Some (SubmissionNotice i))"
proof (intro conjI impI)
  let ?t = "fold notice_apply evs (notice_apply (ShowAlert i) s)"
  assume a: "list_all (\<lambda>ev. \<not> shows_alert ev) evs \<and> 6000 \<le> elapsed evs"
  then have "due_by (nt_now s + 6000) (nt_contest ?t)" using alert_due [of evs "nt_now s + 6000" "notice_apply (ShowAlert i) s"]
    by (simp add: due_by_def)
  from expire_due(2) [OF this, of "nt_now ?t"] show "nt_contest (notice_apply (PassTime 0) ?t) = None"
    using a notice_now [of evs "notice_apply (ShowAlert i) s"] by (simp add: Let_def)
next
  let ?t = "fold notice_apply evs (notice_apply (ShowNotice i) s)"
  assume a: "list_all (\<lambda>ev. \<not> keeps_notice ev) evs \<and> 5000 \<le> elapsed evs"
  then have "due_by (nt_now s + 5000) (nt_submission ?t)" using notice_due [of evs "nt_now s + 5000" "notice_apply (ShowNotice i) s"]
    by (simp add: due_by_def)
  from expire_due(2) [OF this, of "nt_now ?t"] show "nt_submission (notice_apply (PassTime 0) ?t) = None"
    using a notice_now [of evs "notice_apply (ShowNotice i) s"] by (simp add: Let_def)
next
  let ?f = "notice_apply ProviderRenders \<circ> notice_apply (PassTime ms)"
  assume "ms < 5000"
  then have "nt_submission ((?f ^^ n) (notice_apply (ShowNotice i) s)) = Some (i, nt_now ((?f ^^ n) (notice_apply (ShowNotice i) s)) + 5000)"
    by (induction n) (simp_all add: Let_def expire_def)
  then show "activeToast ((?f ^^ n) (notice_apply (ShowNotice i) s)) = Some (SubmissionNotice i)" by (simp add: activeToast_def)
qed

theorem notices_expire_witness:
  "nt_contest (notice_apply (PassTime 0) (fold notice_apply [ProviderRenders, PassTime 6000] (notice_apply (ShowAlert 7) no_notices))) = None"
proof -
  have "list_all (\<lambda>ev. \<not> shows_alert ev) [ProviderRenders, PassTime 6000] \<and> 6000 \<le> elapsed [ProviderRenders, PassTime 6000]"
    by (simp add: shows_alert_def elapsed_def)
  then show ?thesis using notices_expire [of "[ProviderRenders, PassTime 6000]"] by blast
qed

text \<open>
  An alert of the contest can pass unseen: it waits behind the notice of a submission while its own six seconds run, so with one
  report in time the announcement that the round is about to end comes and goes behind "Submission queued".
\<close>

definition hidden_alert :: "notice_event list" where
  "hidden_alert = [ShowNotice 1, ShowAlert 2, PassTime 4000, ProviderRenders, PassTime 2000]"

theorem alert_passes_unseen:
  "list_all (\<lambda>n. activeToast (fold notice_apply (take n hidden_alert) no_notices) \<noteq> Some (ContestAlert 2)) [0, 1, 2, 3, 4, 5] \<and>
   nt_contest (fold notice_apply (take 4 hidden_alert) no_notices) = Some (2, 6000) \<and>
   nt_contest (fold notice_apply hidden_alert no_notices) = None"
  by (simp add: hidden_alert_def no_notices_def activeToast_def expire_def Let_def)

section \<open>What the list reports\<close>

lemma findIndex_range: "-1 \<le> findIndex P xs \<and> findIndex P xs < int (length xs) \<and> (findIndex P xs \<noteq> -1 \<longrightarrow> P (xs ! nat (findIndex P xs)))"
proof (cases "filter (\<lambda>i. P (xs ! i)) [0..<length xs]")
  case (Cons i is')
  have "i \<in> set (filter (\<lambda>i. P (xs ! i)) [0..<length xs])" unfolding Cons by simp
  then have "i < length xs \<and> P (xs ! i)" by simp
  then show ?thesis using Cons by (simp add: findIndex_def)
qed (simp add: findIndex_def)

lemma findIndex_found: "i < length xs \<Longrightarrow> P (xs ! i) \<Longrightarrow> 0 \<le> findIndex P xs"
  by (auto simp: findIndex_def filter_empty_conv split: list.split)

definition enabled_values :: "select_option list \<Rightarrow> string set" where
  "enabled_values options = {op_value o' | o'. o' \<in> set options \<and> \<not> op_disabled o'}"

definition in_list :: "select_option list \<Rightarrow> int \<Rightarrow> bool" where
  "in_list options i \<longleftrightarrow> 0 \<le> i \<and> i < int (length options)"

definition select_inv :: "bool \<Rightarrow> select_option list \<Rightarrow> select_list \<Rightarrow> bool" where
  "select_inv disabled options s \<longleftrightarrow>
     (sl_open s \<longrightarrow> \<not> disabled \<and> (options \<noteq> [] \<longrightarrow> in_list options (sl_hi s))) \<and>
     set (sl_reported s) \<subseteq> enabled_values options \<and> (disabled \<longrightarrow> sl_reported s = [])"

lemma selectOption_inv:
  "select_inv disabled options s \<Longrightarrow> \<not> disabled \<Longrightarrow> o' \<in> set options \<Longrightarrow> select_inv disabled options (selectOption o' s)"
  by (auto simp: select_inv_def selectOption_def closeDropdown_def enabled_values_def)

lemma toggleDropdown_inv: "select_inv disabled options s \<Longrightarrow> select_inv disabled options (toggleDropdown disabled options s)"
  using findIndex_range [of "\<lambda>o'. op_value o' = sl_value s" options]
  by (auto simp: select_inv_def toggleDropdown_def in_list_def Let_def)

lemma highlight_inv:
  "select_inv disabled options s \<Longrightarrow> (options \<noteq> [] \<Longrightarrow> in_list options i) \<Longrightarrow> select_inv disabled options (s\<lparr>sl_hi := i\<rparr>)"
  by (simp add: select_inv_def)

lemma closeDropdown_inv: "select_inv disabled options s \<Longrightarrow> select_inv disabled options (closeDropdown s)"
  by (simp add: select_inv_def closeDropdown_def)

lemma handleKeyDown_inv:
  assumes "select_inv disabled options s"
  shows "select_inv disabled options (select_handleKeyDown disabled options k s)"
proof (cases disabled)
  case False
  have open_in: "in_list options (sl_hi s)" if "sl_open s" "options \<noteq> []" using assms that by (simp add: select_inv_def)
  note parts = assms toggleDropdown_inv [OF assms] closeDropdown_inv [OF assms]
  show ?thesis
  proof (cases "k \<in> {ArrowDown, ArrowUp, HomeKey, EndKey}")
    case True
    then show ?thesis using False parts open_in
      by (auto simp: select_handleKeyDown_def in_list_def intro!: highlight_inv)
  next
    case other: False
    have "select_inv disabled options (selectOption (options ! nat (sl_hi s)) s)" if "nat (sl_hi s) < length options"
      using that selectOption_inv [OF assms False] by simp
    then show ?thesis using False other parts by (cases k) (simp_all add: select_handleKeyDown_def)
  qed
qed (use assms in \<open>simp add: select_handleKeyDown_def\<close>)

lemma select_step_inv: "select_step disabled options s s' \<Longrightarrow> select_inv disabled options s \<Longrightarrow> select_inv disabled options s'"
proof (induction rule: select_step.induct)
  case (ClickOption s i)
  then have "\<not> disabled" by (simp add: select_inv_def)
  then show ?case using ClickOption by (intro selectOption_inv) simp_all
next
  case (Hover s i)
  then show ?case by (intro highlight_inv) (simp_all add: in_list_def)
next
  case (NewValue s v)
  then show ?case by (simp add: select_inv_def)
qed (simp_all add: toggleDropdown_inv handleKeyDown_inv closeDropdown_inv)

lemma select_start_inv: "select_inv disabled options (select_start v)"
  by (simp add: select_inv_def select_start_def)

interpretation drop_down: state_machine "\<lambda>s. \<exists>v. s = select_start v" "select_step disabled options" "select_inv disabled options"
  for disabled options
  by unfold_locales (auto intro: select_start_inv select_step_inv)

text \<open>
  The list reports only what can be chosen: over any sequence of clicks, keys, hovers and new values, every value it reported
  is the value of an option that is not disabled, a disabled list never opens and reports nothing, and while it is open with
  options the highlighted one is one of them; opened, it highlights the option of its value.
\<close>

theorem select_reports_enabled:
  assumes "reaches (\<lambda>s. \<exists>v. s = select_start v) (select_step disabled options) s"
  shows "set (sl_reported s) \<subseteq> enabled_values options \<and> (disabled \<longrightarrow> \<not> sl_open s \<and> sl_reported s = []) \<and>
         (sl_open s \<and> options \<noteq> [] \<longrightarrow> in_list options (sl_hi s)) \<and>
         (\<not> disabled \<and> \<not> sl_open s \<and> i < length options \<and> op_value (options ! i) = sl_value s \<longrightarrow>
            op_value (options ! nat (sl_hi (toggleDropdown disabled options s))) = sl_value s)"
proof -
  have "select_inv disabled options s" by (rule drop_down.reaches_inv [OF assms])
  moreover have "op_value (options ! nat (sl_hi (toggleDropdown disabled options s))) = sl_value s"
    if "\<not> disabled" "\<not> sl_open s" "i < length options" "op_value (options ! i) = sl_value s"
    using that findIndex_found [of i options "\<lambda>o'. op_value o' = sl_value s"]
      findIndex_range [of "\<lambda>o'. op_value o' = sl_value s" options]
    by (auto simp: toggleDropdown_def Let_def)
  ultimately show ?thesis by (auto simp: select_inv_def)
qed

definition two_options :: "select_option list" where
  "two_options = [\<lparr>op_value = ''cpp'', op_disabled = False\<rparr>, \<lparr>op_value = ''java'', op_disabled = True\<rparr>]"

theorem select_reports_enabled_witness:
  "set (sl_reported (select_handleKeyDown False two_options EnterKey (toggleDropdown False two_options (select_start ''cpp'')))) = {''cpp''} \<and>
   set (sl_reported (select_handleKeyDown False two_options EnterKey (toggleDropdown False two_options (select_start ''cpp'')))) \<subseteq>
     enabled_values two_options"
proof -
  let ?s = "select_handleKeyDown False two_options EnterKey (toggleDropdown False two_options (select_start ''cpp''))"
  have "reaches (\<lambda>s. \<exists>v. s = select_start v) (select_step False two_options) ?s"
    by (blast intro: reaches_init reaches_step Click KeyDown)
  from select_reports_enabled [OF this] show ?thesis
    by (simp add: two_options_def select_start_def toggleDropdown_def findIndex_def select_handleKeyDown_def selectOption_def closeDropdown_def Let_def)
qed

text \<open>
  The arrows walk through the whole list and come back: from an open list, pressing the down arrow \<open>n\<close> times moves the
  highlight \<open>n\<close> places on, around the end, and the up arrow undoes the down arrow.
\<close>

theorem arrows_go_round:
  assumes "\<not> disabled" "sl_open s" "in_list options (sl_hi s)"
  shows "sl_hi ((select_handleKeyDown disabled options ArrowDown ^^ n) s) = (sl_hi s + int n) mod int (length options) \<and>
         select_handleKeyDown disabled options ArrowUp (select_handleKeyDown disabled options ArrowDown s) = s"
proof
  let ?down = "select_handleKeyDown disabled options ArrowDown" and ?k = "int (length options)"
  have step: "sl_open (?down t) \<and> in_list options (sl_hi (?down t)) \<and> sl_hi (?down t) = (sl_hi t + 1) mod ?k"
    if "sl_open t" "in_list options (sl_hi t)" for t
    using that assms(1) by (auto simp: select_handleKeyDown_def in_list_def) (smt (verit) mod_pos_pos_trivial mod_self)+
  have "sl_open ((?down ^^ n) s) \<and> in_list options (sl_hi ((?down ^^ n) s)) \<and> sl_hi ((?down ^^ n) s) = (sl_hi s + int n) mod ?k"
  proof (induction n)
    case (Suc n)
    then have t: "sl_open ((?down ^^ n) s)" "in_list options (sl_hi ((?down ^^ n) s))" by blast+
    have "((sl_hi s + int n) mod ?k + 1) mod ?k = (sl_hi s + int (Suc n)) mod ?k" by (simp add: mod_simps ac_simps)
    then show ?case using step [OF t] Suc unfolding funpow.simps o_def by metis
  qed (use assms in \<open>simp add: in_list_def\<close>)
  then show "sl_hi ((?down ^^ n) s) = (sl_hi s + int n) mod ?k" by blast
  show "select_handleKeyDown disabled options ArrowUp (?down s) = s"
    using assms by (auto simp: select_handleKeyDown_def in_list_def)
qed

theorem arrows_go_round_witness:
  "sl_hi ((select_handleKeyDown False two_options ArrowDown ^^ 2) (toggleDropdown False two_options (select_start ''cpp''))) = 0"
proof -
  let ?s = "toggleDropdown False two_options (select_start ''cpp'')"
  have s: "?s = \<lparr>sl_open = True, sl_hi = 0, sl_value = ''cpp'', sl_reported = []\<rparr>"
    by (simp add: two_options_def select_start_def toggleDropdown_def findIndex_def Let_def)
  have "sl_open ?s" "in_list two_options (sl_hi ?s)"
    unfolding s by (simp_all add: in_list_def two_options_def)
  from arrows_go_round [OF _ this, of False 2] have "sl_hi ((select_handleKeyDown False two_options ArrowDown ^^ 2) ?s) = 2 mod int (length two_options)"
    unfolding s by simp
  then show ?thesis by (simp add: two_options_def)
qed

end
