(* ===== verification/ConsolePages.thy ===== *)
theory ConsolePages
  imports AdminState AdminHooks AdminProblems RosterImport
begin

text \<open>
  The frame of the admin console and three of its pages: the dashboard layout (\<open>app/(dashboard)/layout.tsx\<close>), the links of
  the sidebar and the header (\<open>components/app-sidebar.tsx\<close>, \<open>app-header.tsx\<close>), the organizers' login page
  (\<open>app/login/page.tsx\<close>), the problem list (\<open>components/admin-problems.tsx\<close>, \<open>app/(dashboard)/problems/page.tsx\<close>) with the
  dialog for a problem's tests (\<open>components/testcase-manager.tsx\<close>). A step of the list is a click, a change of a
  filter, a settled request or a new list from the page.
\<close>

section \<open>The layout\<close>

datatype 'a console_answer = ToLoginPage | Dashboard 'a

record dashboard_frame =
  df_user :: jsv
  df_sidebarOpen :: bool

definition dashboard_layout :: "dashboard_frame console_answer io" where
  "dashboard_layout =
     bind getSessionUserAction (\<lambda>user.
     if \<not> truthy user then ret ToLoginPage
     else bind (cookie ''sidebar_state'') (\<lambda>c.
          ret (Dashboard \<lparr>df_user = user, df_sidebarOpen = (if c = Undefined then True else c = Str ''true'')\<rparr>)))"

section \<open>Navigation\<close>

definition NAVIGATION_HREFS :: "string list" where
  "NAVIGATION_HREFS = [''/'', ''/timer'', ''/monitoring'', ''/problems'', ''/users'', ''/teams'', ''/submissions'', ''/audit'']"

definition isLinkActive :: "string \<Rightarrow> string \<Rightarrow> bool" where
  "isLinkActive pathname href =
     (if href = ''/'' then pathname = ''/'' else pathname = href \<or> starts_with pathname (href @ ''/''))"

text \<open>The section's link and the title.\<close>

definition getPageMetadata :: "string \<Rightarrow> string \<times> string" where
  "getPageMetadata pathname =
     (if pathname = ''/'' then (''/'', ''Overview'')
      else if starts_with pathname ''/problems'' then (''/problems'', ''Problems'')
      else if starts_with pathname ''/users'' then (''/users'', ''Users'')
      else if starts_with pathname ''/teams'' then (''/teams'', ''Teams'')
      else if starts_with pathname ''/submissions'' then (''/submissions'', ''Submissions'')
      else if starts_with pathname ''/monitoring'' then (''/monitoring'', ''Monitoring'')
      else if starts_with pathname ''/timer'' then (''/timer'', ''Contest Timer'')
      else if starts_with pathname ''/audit'' then (''/audit'', ''Audit Logs'')
      else if starts_with pathname ''/support'' then (''/support'', ''Support & FAQ'')
      else if starts_with pathname ''/privacy'' then (''/privacy'', ''Privacy Policy'')
      else (''/'', ''Console''))"

section \<open>Signing in\<close>

record organizer_login =
  ol_username :: string
  ol_password :: string
  ol_error :: "string option"
  ol_loading :: bool

definition sign_in_disabled :: "organizer_login \<Rightarrow> bool" where
  "sign_in_disabled s \<longleftrightarrow> ol_loading s \<or> js_trim (ol_username s) = [] \<or> ol_password s = []"

definition handleLogin_start :: "organizer_login \<Rightarrow> organizer_login" where
  "handleLogin_start s = s\<lparr>ol_error := None, ol_loading := True\<rparr>"

text \<open>The second component says whether the browser goes to the overview.\<close>

definition handleLogin_settle :: "exn + auth_result \<Rightarrow> organizer_login \<Rightarrow> organizer_login \<times> bool" where
  "handleLogin_settle result s =
     (let failed = \<lambda>x. (s\<lparr>ol_error := Some (getErrorMessage x ''Authentication failed.''), ol_loading := False\<rparr>, False)
      in case result of
           Inl x \<Rightarrow> failed x
         | Inr r \<Rightarrow>
             if \<not> ar_success r then failed (Error (js_String (js_or (ar_error r) (Str ''Invalid organizer credentials''))))
             else (s, True))"

section \<open>The problem list\<close>

record problem_row =
  pw_id :: string
  pw_title :: string
  pw_slug :: string
  pw_difficulty :: string
  pw_published :: bool
  pw_testCount :: "nat option"
  pw_tests :: "nat option"

definition MIN_TESTS_TO_PUBLISH :: nat where
  "MIN_TESTS_TO_PUBLISH = 5"

definition row_testCount :: "problem_row \<Rightarrow> nat" where
  "row_testCount p = (case pw_testCount p of Some n \<Rightarrow> n | None \<Rightarrow> (case pw_tests p of Some n \<Rightarrow> n | None \<Rightarrow> 0))"

record problem_filters =
  qf_search :: string
  qf_difficulty :: string
  qf_status :: string

definition clearFilters :: problem_filters where
  "clearFilters = \<lparr>qf_search = [], qf_difficulty = ''all'', qf_status = ''all''\<rparr>"

definition matches_filters :: "problem_filters \<Rightarrow> problem_row \<Rightarrow> bool" where
  "matches_filters f p \<longleftrightarrow>
     (let query = js_lower (js_trim (qf_search f))
      in (query = [] \<or> str_includes (js_lower (pw_title p)) query \<or> str_includes (js_lower (pw_slug p)) query) \<and>
         (qf_difficulty f = ''all'' \<or> pw_difficulty p = qf_difficulty f) \<and>
         (qf_status f = ''all'' \<or> (if qf_status f = ''published'' then pw_published p else \<not> pw_published p)))"

definition filteredProblems :: "problem_filters \<Rightarrow> problem_row list \<Rightarrow> problem_row list" where
  "filteredProblems f problems = filter (matches_filters f) problems"

definition hasActiveFilters :: "problem_filters \<Rightarrow> bool" where
  "hasActiveFilters f \<longleftrightarrow> js_trim (qf_search f) \<noteq> [] \<or> qf_difficulty f \<noteq> ''all'' \<or> qf_status f \<noteq> ''all''"

definition publishedCount :: "problem_row list \<Rightarrow> nat" where
  "publishedCount problems = length (filter pw_published problems)"

datatype problem_command = SetPublished problem_row bool | DeleteProblem problem_row

record problems_view =
  pv_rows :: "problem_row list"
  pv_filters :: problem_filters
  pv_manager :: "(string \<times> string) option"
  pv_deleting :: "problem_row option"
  pv_pendingId :: "string option"
  pv_notice :: "(bool \<times> string) option"
  pv_refreshes :: nat
  pv_running :: "problem_command list"
  pv_sent :: "problem_command list"

definition problems_start :: "problem_row list \<Rightarrow> problems_view" where
  "problems_start rows = \<lparr>pv_rows = rows, pv_filters = clearFilters, pv_manager = None, pv_deleting = None, pv_pendingId = None,
     pv_notice = None, pv_refreshes = 0, pv_running = [], pv_sent = []\<rparr>"

definition command_row :: "problem_command \<Rightarrow> problem_row" where
  "command_row c = (case c of SetPublished p _ \<Rightarrow> p | DeleteProblem p \<Rightarrow> p)"

definition start_problem_command :: "problem_command \<Rightarrow> problems_view \<Rightarrow> problems_view" where
  "start_problem_command c s =
     s\<lparr>pv_pendingId := Some (pw_id (command_row c)), pv_running := pv_running s @ [c], pv_sent := pv_sent s @ [c]\<rparr>"

definition handleTogglePublish :: "problem_row \<Rightarrow> problems_view \<Rightarrow> problems_view" where
  "handleTogglePublish p s =
     (if \<not> pw_published p \<and> row_testCount p < MIN_TESTS_TO_PUBLISH
      then s\<lparr>pv_notice := Some (False, [CHR 0x22] @ pw_title p @ [CHR 0x22] @ '' needs more test cases'')\<rparr>
      else start_problem_command (SetPublished p (\<not> pw_published p)) s)"

definition openTestManager :: "problem_row \<Rightarrow> problems_view \<Rightarrow> problems_view" where
  "openTestManager p s = s\<lparr>pv_manager := Some (pw_id p, pw_title p)\<rparr>"

definition confirmDeleteProblem :: "problems_view \<Rightarrow> problems_view" where
  "confirmDeleteProblem s =
     (case pv_deleting s of None \<Rightarrow> s | Some target \<Rightarrow> start_problem_command (DeleteProblem target) (s\<lparr>pv_deleting := None\<rparr>))"

definition done_message :: "problem_command \<Rightarrow> string" where
  "done_message c =
     (case c of SetPublished p _ \<Rightarrow> if pw_published p then ''Problem unpublished'' else ''Problem published''
      | DeleteProblem _ \<Rightarrow> ''Problem deleted'')"

definition failed_message :: "problem_command \<Rightarrow> string" where
  "failed_message c =
     (case c of SetPublished _ _ \<Rightarrow> ''Failed to change the publish state.'' | DeleteProblem _ \<Rightarrow> ''Failed to delete the problem.'')"

definition problem_command_settle :: "problem_command \<Rightarrow> exn + ok_result \<Rightarrow> problems_view \<Rightarrow> problems_view" where
  "problem_command_settle c result s0 =
     (let s = s0\<lparr>pv_running := remove1 c (pv_running s0)\<rparr>;
          s1 = (case result of
                  Inl x \<Rightarrow> s\<lparr>pv_notice := Some (False, getErrorMessage x (failed_message c))\<rparr>
                | Inr r \<Rightarrow>
                    if \<not> ok_success r then s\<lparr>pv_notice := Some (False, js_String (js_or (ok_error r) (Str (failed_message c))))\<rparr>
                    else s\<lparr>pv_notice := Some (True, done_message c), pv_refreshes := Suc (pv_refreshes s)\<rparr>)
      in s1\<lparr>pv_pendingId := None\<rparr>)"

definition problem_busy :: "problems_view \<Rightarrow> problem_row \<Rightarrow> bool" where
  "problem_busy s p \<longleftrightarrow> pv_pendingId s = Some (pw_id p)"

inductive problems_step :: "problems_view \<Rightarrow> problems_view \<Rightarrow> bool" where
  Publish: "p \<in> set (filteredProblems (pv_filters s) (pv_rows s)) \<Longrightarrow> \<not> problem_busy s p \<Longrightarrow> problems_step s (handleTogglePublish p s)"
| AskDelete: "p \<in> set (filteredProblems (pv_filters s) (pv_rows s)) \<Longrightarrow> \<not> problem_busy s p \<Longrightarrow> problems_step s (s\<lparr>pv_deleting := Some p\<rparr>)"
| CancelDelete: "problems_step s (s\<lparr>pv_deleting := None\<rparr>)"
| ConfirmDelete: "problems_step s (confirmDeleteProblem s)"
| Answered: "c \<in> set (pv_running s) \<Longrightarrow> problems_step s (problem_command_settle c result s)"
| Refiltered: "problems_step s (s\<lparr>pv_filters := f\<rparr>)"
| Reloaded: "problems_step s (s\<lparr>pv_rows := rows\<rparr>)"
| OpenManager: "problems_step s (openTestManager p s)"
| CloseManager: "problems_step s (s\<lparr>pv_manager := None\<rparr>)"

datatype 'a page_shown = PlaceholderShown | ErrorShown string | ListShown 'a "string option"

definition problems_page_view :: "jsv list loading \<Rightarrow> jsv list page_shown" where
  "problems_page_view ld =
     (if ld_loading ld then PlaceholderShown
      else case ld_error ld of
             Some m \<Rightarrow> if ld_data ld = [] then ErrorShown m else ListShown (ld_data ld) (Some m)
           | None \<Rightarrow> ListShown (ld_data ld) None)"

section \<open>The dialog for a problem's tests\<close>

text \<open>\<open>Promise.all\<close> starts both calls; a failure of the first one surfaces after the second was sent.\<close>

definition manager_loader :: "string \<Rightarrow> (jsv \<times> jsv) io" where
  "manager_loader problemId =
     bind (catch (bind (getProblemDetailAction problemId) (\<lambda>problem. ret (ret problem))) (\<lambda>x. ret (throw x))) (\<lambda>detail.
     bind (catch (getProblemTestsAction problemId) (\<lambda>_. ret (Arr []))) (\<lambda>tests.
     bind detail (\<lambda>problem. ret (problem, js_or tests (Arr [])))))"

definition manager_slug :: "jsv \<Rightarrow> jsv" where
  "manager_slug problem = js_or (get_opt problem ''slug'') (Str ''problem'')"

definition manager_maxScore :: "jsv \<Rightarrow> jsv" where
  "manager_maxScore problem = js_coalesce (get_opt problem ''maxScore'') (IntV 100)"

section \<open>What the pages guarantee\<close>

text \<open>
  C30: The console opens for an administrator only. The dashboard's layout always answers; it shows the dashboard only
  when one request, to the session endpoint, was answered with success by a user whose role is admin, and it goes to the
  login page without any request when the browser has no session cookie.
\<close>

theorem console_admin_only:
  "\<exists>a w'. dashboard_layout e w = (Inr a, w') \<and>
     (\<forall>d. a = Dashboard d \<longrightarrow>
        (\<exists>q r. sent w' = sent w @ [q] \<and> req_url q = env_api_url e @ ''/api/v1/me'' \<and> env_fetch e (sent w) q = Inr r \<and>
               rsp_ok r \<and> json_value e r = Inr (df_user d) \<and> get_opt (df_user d) ''role'' = Str ''admin'')) \<and>
     (\<not> truthy (jar_value (jar w) ADMIN_SESSION_COOKIE) \<longrightarrow> a = ToLoginPage \<and> w' = w)"
proof -
  have "wp dashboard_layout
     (\<lambda>rv w'. \<exists>a. rv = Inr a \<and>
     (\<forall>d. a = Dashboard d \<longrightarrow>
        (\<exists>q r. sent w' = sent w @ [q] \<and> req_url q = env_api_url e @ ''/api/v1/me'' \<and> env_fetch e (sent w) q = Inr r \<and>
               rsp_ok r \<and> json_value e r = Inr (df_user d) \<and> get_opt (df_user d) ''role'' = Str ''admin'')) \<and>
     (\<not> truthy (jar_value (jar w) ADMIN_SESSION_COOKIE) \<longrightarrow> a = ToLoginPage \<and> w' = w)) e w"
    unfolding dashboard_layout_def getSessionUserAction_def fetchSessionUser_def
    by (intro wp_rules) (auto split: if_splits)
  then show ?thesis by (auto simp: wp_def)
qed

theorem console_admin_only_witness:
  "\<exists>a w'. dashboard_layout (answering 401 ''no'') (with_cookie ''admin_session'' ''t'') = (Inr a, w') \<and> a = ToLoginPage"
proof -
  have "\<not> rsp_ok r" if "env_fetch (answering 401 ''no'') qs q = Inr r" for qs q r
    using that by (auto simp: answering_def rsp_ok_def)
  then show ?thesis
    using console_admin_only [of "answering 401 ''no''" "with_cookie ''admin_session'' ''t''"]
    by (metis console_answer.exhaust)
qed

text \<open>
  a page's header names the section whose link the sidebar marks. For any path, a marked link is the one that
  the header's breadcrumb leads to, so at most one of the links is marked.
\<close>

theorem header_matches_sidebar:
  "list_all (\<lambda>href. isLinkActive p href \<longrightarrow> fst (getPageMetadata p) = href) NAVIGATION_HREFS"
  by (auto simp: NAVIGATION_HREFS_def isLinkActive_def getPageMetadata_def starts_with_iff)

theorem header_matches_sidebar_witness:
  "fst (getPageMetadata ''/problems/new'') = ''/problems'' \<and> isLinkActive ''/problems/new'' ''/problems''"
  using header_matches_sidebar [of "''/problems/new''"]
  by (auto simp: NAVIGATION_HREFS_def isLinkActive_def)

text \<open>What the list asks of the backend: a change of the published state turns it round, and publishes five tests or more.\<close>

definition proper_command :: "problem_command \<Rightarrow> bool" where
  "proper_command c \<longleftrightarrow>
     (case c of SetPublished p b \<Rightarrow> b \<noteq> pw_published p \<and> (b \<longrightarrow> MIN_TESTS_TO_PUBLISH \<le> row_testCount p) | DeleteProblem p \<Rightarrow> True)"

definition problems_ok :: "problems_view \<Rightarrow> bool" where
  "problems_ok s \<longleftrightarrow> list_all proper_command (pv_sent s) \<and> set (pv_running s) \<subseteq> set (pv_sent s)"

lemma problems_ok_start: "problems_ok (problems_start rows)"
  by (simp add: problems_ok_def problems_start_def)

lemma settle_requests:
  "pv_sent (problem_command_settle c r s) = pv_sent s" "pv_running (problem_command_settle c r s) = remove1 c (pv_running s)"
  by (simp_all add: problem_command_settle_def Let_def split: sum.split)

lemma problems_ok_step:
  assumes "problems_ok s" and "problems_step s s'"
  shows "problems_ok s'"
  using assms(2,1)
proof (induction rule: problems_step.induct)
  case (Publish p s)
  then show ?case
    by (cases "\<not> pw_published p \<and> row_testCount p < MIN_TESTS_TO_PUBLISH")
      (auto simp: handleTogglePublish_def proper_command_def problems_ok_def start_problem_command_def)
next
  case (ConfirmDelete s)
  then show ?case
    by (auto simp: confirmDeleteProblem_def problems_ok_def proper_command_def start_problem_command_def split: option.split)
next
  case (Answered c s result)
  then show ?case by (auto simp: problems_ok_def settle_requests dest: notin_set_remove1)
qed (auto simp: problems_ok_def openTestManager_def)

interpretation pl: state_machine "\<lambda>s. \<exists>rows. s = problems_start rows" problems_step problems_ok
  by unfold_locales (auto intro: problems_ok_start problems_ok_step)

text \<open>
  the list publishes a problem only with its five tests. In every state the list can reach, whatever the
  filters, reloads and answers in between, each request to change the published state of a problem asks for the
  opposite of the state its row showed, and a request to publish was made of a row with at least five tests; what is
  in flight is among the requests sent.
\<close>

theorem publishes_only_tested:
  assumes "reaches (\<lambda>s. \<exists>rows. s = problems_start rows) problems_step s"
    and "SetPublished p b \<in> set (pv_sent s)"
  shows "(b \<longleftrightarrow> \<not> pw_published p) \<and> (b \<longrightarrow> 5 \<le> row_testCount p) \<and> set (pv_running s) \<subseteq> set (pv_sent s)"
  using pl.reaches_inv [OF assms(1)] assms(2)
  by (auto simp: problems_ok_def proper_command_def MIN_TESTS_TO_PUBLISH_def list_all_iff)

definition row_with :: "string \<Rightarrow> nat \<Rightarrow> problem_row" where
  "row_with i n = \<lparr>pw_id = i, pw_title = ''Two Sum'', pw_slug = ''two-sum'', pw_difficulty = ''Easy'', pw_published = False,
     pw_testCount = Some n, pw_tests = None\<rparr>"

lemma row_listed: "row_with i n \<in> set (filteredProblems clearFilters [row_with ''1'' 4, row_with ''2'' 6]) \<longleftrightarrow>
    row_with i n \<in> {row_with ''1'' 4, row_with ''2'' 6}"
  by (simp add: filteredProblems_def matches_filters_def clearFilters_def js_trim_def js_lower_def Let_def row_with_def)

theorem publishes_only_tested_witness:
  "pv_sent (handleTogglePublish (row_with ''2'' 6) (handleTogglePublish (row_with ''1'' 4)
     (problems_start [row_with ''1'' 4, row_with ''2'' 6]))) = [SetPublished (row_with ''2'' 6) True] \<and>
   5 \<le> row_testCount (row_with ''2'' 6)"
proof -
  let ?s0 = "problems_start [row_with ''1'' 4, row_with ''2'' 6]"
  let ?s1 = "handleTogglePublish (row_with ''1'' 4) ?s0"
  let ?s2 = "handleTogglePublish (row_with ''2'' 6) ?s1"
  have idle: "pv_pendingId ?s0 = None" "pv_pendingId ?s1 = None" "pv_filters ?s0 = clearFilters" "pv_filters ?s1 = clearFilters"
    "pv_rows ?s0 = [row_with ''1'' 4, row_with ''2'' 6]" "pv_rows ?s1 = [row_with ''1'' 4, row_with ''2'' 6]"
    by (simp_all add: problems_start_def handleTogglePublish_def row_with_def row_testCount_def MIN_TESTS_TO_PUBLISH_def)
  have step: "problems_step ?s0 ?s1" "problems_step ?s1 ?s2"
    using row_listed [of "''1''" 4] row_listed [of "''2''" 6] idle by (auto intro!: Publish simp: problem_busy_def)
  have "reaches (\<lambda>s. \<exists>rows. s = problems_start rows) problems_step ?s0" by (rule reaches_init) blast
  then have reached: "reaches (\<lambda>s. \<exists>rows. s = problems_start rows) problems_step ?s2"
    using step by (meson reaches_step)
  have sent: "pv_sent ?s2 = [SetPublished (row_with ''2'' 6) True]"
    by (simp add: problems_start_def handleTogglePublish_def row_with_def row_testCount_def MIN_TESTS_TO_PUBLISH_def
        start_problem_command_def command_row_def)
  with publishes_only_tested [OF reached, of "row_with ''2'' 6" True] show ?thesis by simp
qed

text \<open>
  filtering loses no problem. The two settings of the status filter split what the other filters let through, the
  cleared filters show every problem, and filters that change what is shown count as active.
\<close>

theorem filters_partition:
  "length (filteredProblems (f\<lparr>qf_status := ''published''\<rparr>) ps) + length (filteredProblems (f\<lparr>qf_status := ''draft''\<rparr>) ps) =
     length (filteredProblems (f\<lparr>qf_status := ''all''\<rparr>) ps)"
  "filteredProblems clearFilters ps = ps"
  "filteredProblems f ps \<noteq> ps \<Longrightarrow> hasActiveFilters f"
proof -
  show "length (filteredProblems (f\<lparr>qf_status := ''published''\<rparr>) ps) + length (filteredProblems (f\<lparr>qf_status := ''draft''\<rparr>) ps) =
     length (filteredProblems (f\<lparr>qf_status := ''all''\<rparr>) ps)"
    by (induction ps) (auto simp: filteredProblems_def matches_filters_def Let_def)
  have shown: "filteredProblems g ps = ps" if "\<not> hasActiveFilters g" for g
    using that by (auto simp: filteredProblems_def matches_filters_def hasActiveFilters_def js_lower_def intro!: filter_True)
  then show "filteredProblems f ps \<noteq> ps \<Longrightarrow> hasActiveFilters f" by blast
  show "filteredProblems clearFilters ps = ps"
    by (rule shown) (simp add: hasActiveFilters_def clearFilters_def js_trim_def)
qed

text \<open>
  One variable holds the row whose request is in flight: a request on a second row frees the buttons of the first,
  and the answer to either one frees both.
\<close>

theorem problem_busy_flag_lost:
  assumes "pw_id p \<noteq> pw_id q"
  shows "\<not> problem_busy (start_problem_command (SetPublished q b) (start_problem_command (DeleteProblem p) s)) p"
    "\<not> problem_busy (problem_command_settle (DeleteProblem p) r (start_problem_command (SetPublished q b)
        (start_problem_command (DeleteProblem p) s))) q"
    "SetPublished q b \<in> set (pv_running (problem_command_settle (DeleteProblem p) r (start_problem_command (SetPublished q b)
        (start_problem_command (DeleteProblem p) s))))"
  using assms
  by (auto simp: problem_busy_def start_problem_command_def command_row_def problem_command_settle_def Let_def settle_requests split: sum.split)

text \<open>When the tests of a problem cannot be loaded, the dialog opens on an empty list with no message.\<close>

theorem tests_outage_reads_as_none:
  assumes "getProblemDetailAction pid e w = (Inr p, w1)" and "getProblemTestsAction pid e w1 = (Inl x, w2)"
  shows "manager_loader pid e w = (Inr (p, Arr []), w2)"
  using assms by (simp add: manager_loader_def bind_def catch_def ret_def throw_def js_or_def)

end
