(* ===== verification/ImportDialogs.thy ===== *)
theory ImportDialogs
  imports CsvImport RosterImport
begin

text \<open>
  The two dialogs that import a roster, as the organizer works with them: \<open>components/users/user-bulk-dialog.tsx\<close> and
  \<open>components/teams/team-bulk-dialog.tsx\<close>. They are one machine over two parsers: the text and the settings give rows, the
  rows give the preview, and a change of either ticks every valid row again. The parsers and the choice of rows are those
  of \<open>CsvImport\<close> and \<open>RosterImport\<close>. The locale \<open>import_parser\<close> says what a parser promises of the batches the dialog hands on.
\<close>

section \<open>The machine\<close>

record import_inputs =
  in_csv :: string

record ('i, 'r, 'p) import_dialog =
  im_inputs :: 'i
  im_rows :: "'r list"
  im_selected :: "nat set"
  im_filter :: preview_filter
  im_error :: "string option"
  im_pending :: bool
  im_sent :: "('i \<times> 'p list) list"

text \<open>
  \<open>recomputed\<close> is the memo of the parsed rows with the effect that depends on their valid indices; it runs when an input
  is another value, and when the page hands the dialog a new list of teams, which is another value even with equal teams.
\<close>

definition recomputed :: "('i \<Rightarrow> 'r list) \<Rightarrow> ('r \<Rightarrow> bool) \<Rightarrow> ('i, 'r, 'p) import_dialog \<Rightarrow> ('i, 'r, 'p) import_dialog" where
  "recomputed parse isValid s =
     s\<lparr>im_rows := parse (im_inputs s), im_selected := set (validIndices isValid (parse (im_inputs s))), im_filter := All\<rparr>"

definition import_opened :: "('i \<Rightarrow> 'r list) \<Rightarrow> ('r \<Rightarrow> bool) \<Rightarrow> 'i \<Rightarrow> ('i, 'r, 'p) import_dialog" where
  "import_opened parse isValid inp =
     recomputed parse isValid \<lparr>im_inputs = inp, im_rows = [], im_selected = {}, im_filter = All, im_error = None,
       im_pending = False, im_sent = []\<rparr>"

datatype 'i import_event =
    Edit 'i
  | TeamsReloaded 'i
  | FileRead nat string
  | CheckAll
  | CheckRow nat
  | Preview preview_filter
  | Busy bool
  | Submit

definition set_inputs :: "('i \<Rightarrow> 'r list) \<Rightarrow> ('r \<Rightarrow> bool) \<Rightarrow> 'i \<Rightarrow> ('i, 'r, 'p) import_dialog \<Rightarrow> ('i, 'r, 'p) import_dialog" where
  "set_inputs parse isValid inp s =
     (if inp = im_inputs s then s else recomputed parse isValid (s\<lparr>im_inputs := inp\<rparr>))"

text \<open>A file over the limit is refused with a notice; otherwise its text replaces the text of the box.\<close>

definition handleFile ::
  "('m import_inputs_scheme \<Rightarrow> 'r list) \<Rightarrow> ('r \<Rightarrow> bool) \<Rightarrow> nat \<Rightarrow> string \<Rightarrow>
   ('m import_inputs_scheme, 'r, 'p) import_dialog \<Rightarrow> ('m import_inputs_scheme, 'r, 'p) import_dialog" where
  "handleFile parse isValid bytes content s =
     (if bytes > MAX_CSV_BYTES then s
      else (set_inputs parse isValid ((im_inputs s)\<lparr>in_csv := content\<rparr>) s)\<lparr>im_error := None\<rparr>)"

text \<open>The button is enabled with a valid row ticked and no import running.\<close>

definition import_enabled :: "('r \<Rightarrow> bool) \<Rightarrow> ('i, 'r, 'p) import_dialog \<Rightarrow> bool" where
  "import_enabled isValid s \<longleftrightarrow> \<not> im_pending s \<and> selectedValid isValid (im_selected s) (im_rows s) \<noteq> []"

definition import_submit :: "('r list \<Rightarrow> nat set \<Rightarrow> string + 'p list) \<Rightarrow> ('i, 'r, 'p) import_dialog \<Rightarrow> ('i, 'r, 'p) import_dialog" where
  "import_submit handleSubmit s =
     (case handleSubmit (im_rows s) (im_selected s) of
        Inl m \<Rightarrow> s\<lparr>im_error := Some m\<rparr>
      | Inr batch \<Rightarrow> s\<lparr>im_error := None, im_sent := im_sent s @ [(im_inputs s, batch)]\<rparr>)"

definition import_apply ::
  "('m import_inputs_scheme \<Rightarrow> 'r list) \<Rightarrow> ('r \<Rightarrow> bool) \<Rightarrow> ('r list \<Rightarrow> nat set \<Rightarrow> string + 'p list) \<Rightarrow>
   'm import_inputs_scheme import_event \<Rightarrow> ('m import_inputs_scheme, 'r, 'p) import_dialog \<Rightarrow>
   ('m import_inputs_scheme, 'r, 'p) import_dialog" where
  "import_apply parse isValid handleSubmit ev s =
     (case ev of
        Edit inp \<Rightarrow> set_inputs parse isValid inp s
      | TeamsReloaded inp \<Rightarrow> recomputed parse isValid (s\<lparr>im_inputs := inp\<rparr>)
      | FileRead bytes content \<Rightarrow> handleFile parse isValid bytes content s
      | CheckAll \<Rightarrow>
          if validIndices isValid (im_rows s) = [] then s
          else s\<lparr>im_selected := toggleSelectAllValid isValid (im_rows s) (im_selected s)\<rparr>
      | CheckRow i \<Rightarrow>
          if i \<in> set (visibleRows isValid (im_filter s) (im_selected s) (im_rows s)) \<and> isValid (im_rows s ! i)
          then s\<lparr>im_selected := toggleRowSelection i (im_selected s)\<rparr> else s
      | Preview f \<Rightarrow> s\<lparr>im_filter := f\<rparr>
      | Busy b \<Rightarrow> s\<lparr>im_pending := b\<rparr>
      | Submit \<Rightarrow> if import_enabled isValid s then import_submit handleSubmit s else s)"

section \<open>The two dialogs\<close>

record user_inputs = import_inputs +
  ui_singleTeam :: bool
  ui_newTeam :: bool
  ui_teamId :: string
  ui_teamName :: string
  ui_teams :: "(string \<times> string) list"

definition target_team :: "user_inputs \<Rightarrow> string option" where
  "target_team i =
     (if ui_newTeam i then Some (js_trim (ui_teamName i)) else map_option snd (List.find (\<lambda>t. fst t = ui_teamId i) (ui_teams i)))"

definition user_rows :: "user_inputs \<Rightarrow> ParsedCsvRow list" where
  "user_rows i = (if js_trim (in_csv i) = [] then [] else parseCsvInput (in_csv i) (ui_singleTeam i) (target_team i))"

record team_inputs = import_inputs +
  ti_mode :: team_mode
  ti_existing :: "string list"

definition team_rows :: "team_inputs \<Rightarrow> parsed_team list" where
  "team_rows i =
     (if js_trim (in_csv i) = [] then [] else parseTeamsInput (in_csv i) (ti_mode i) (existingTeamNames (ti_existing i)))"

type_synonym user_dialog = "(user_inputs, ParsedCsvRow, ParsedCsvRow) import_dialog"
type_synonym team_dialog = "(team_inputs, parsed_team, string \<times> team_member list option) import_dialog"

definition user_dialog_step :: "user_dialog \<Rightarrow> user_dialog \<Rightarrow> bool" where
  "user_dialog_step s s' \<longleftrightarrow> (\<exists>ev. s' = import_apply user_rows row_isValid user_handleSubmit ev s)"

definition team_dialog_step :: "team_dialog \<Rightarrow> team_dialog \<Rightarrow> bool" where
  "team_dialog_step s s' \<longleftrightarrow> (\<exists>ev. s' = import_apply team_rows pt_isValid team_handleSubmit ev s)"

section \<open>The contract of a parser\<close>

lemma validIndices_bound: "i \<in> set (validIndices isValid rows) \<longleftrightarrow> i < length rows \<and> isValid (rows ! i)"
  by (auto simp: validIndices_def)

text \<open>What is on the screen is what the inputs say, and only valid rows are ticked.\<close>

definition preview_ok :: "('i \<Rightarrow> 'r list) \<Rightarrow> ('r \<Rightarrow> bool) \<Rightarrow> ('i, 'r, 'p) import_dialog \<Rightarrow> bool" where
  "preview_ok parse isValid s \<longleftrightarrow>
     im_rows s = parse (im_inputs s) \<and> im_selected s \<subseteq> set (validIndices isValid (im_rows s))"

lemma preview_ok_recomputed [simp]: "preview_ok parse isValid (recomputed parse isValid s)"
  by (simp add: preview_ok_def recomputed_def)

lemma recomputed_sent [simp]: "im_sent (recomputed parse isValid s) = im_sent s"
  by (simp add: recomputed_def)

locale import_parser =
  fixes parse :: "'m import_inputs_scheme \<Rightarrow> 'r list"
    and isValid :: "'r \<Rightarrow> bool"
    and handleSubmit :: "'r list \<Rightarrow> nat set \<Rightarrow> string + 'p list"
    and good :: "'m import_inputs_scheme \<Rightarrow> 'p list \<Rightarrow> bool"
  assumes submitted_good: "handleSubmit (parse i) sel = Inr batch \<Longrightarrow> good i batch"
begin

definition dialog_ok :: "('m import_inputs_scheme, 'r, 'p) import_dialog \<Rightarrow> bool" where
  "dialog_ok s \<longleftrightarrow> preview_ok parse isValid s \<and> list_all (\<lambda>(i, batch). good i batch) (im_sent s)"

lemma dialog_ok_error: "dialog_ok (s\<lparr>im_error := m\<rparr>) = dialog_ok s"
  by (simp add: dialog_ok_def preview_ok_def)

lemma opened_ok: "dialog_ok (import_opened parse isValid i)"
  by (simp add: dialog_ok_def import_opened_def)

lemma set_inputs_ok: "dialog_ok s \<Longrightarrow> dialog_ok (set_inputs parse isValid i s)"
  by (simp add: dialog_ok_def set_inputs_def)

lemma submit_ok: "dialog_ok s \<Longrightarrow> dialog_ok (import_submit handleSubmit s)"
  by (auto simp: dialog_ok_def import_submit_def preview_ok_def submitted_good split: sum.split)

lemma apply_ok: "dialog_ok s \<Longrightarrow> dialog_ok (import_apply parse isValid handleSubmit ev s)"
proof (cases ev)
  case (FileRead n content)
  then show "dialog_ok s \<Longrightarrow> ?thesis"
    using set_inputs_ok [of s "(im_inputs s)\<lparr>in_csv := content\<rparr>"] by (simp add: import_apply_def handleFile_def dialog_ok_error)
next
  case (CheckRow i)
  then show "dialog_ok s \<Longrightarrow> ?thesis"
    by (auto simp: import_apply_def dialog_ok_def preview_ok_def toggleRowSelection_def visibleRows_def validIndices_bound)
next
  case (Edit i)
  then show "dialog_ok s \<Longrightarrow> ?thesis" by (simp add: import_apply_def set_inputs_ok)
next
  case (TeamsReloaded i)
  then show "dialog_ok s \<Longrightarrow> ?thesis" by (simp add: import_apply_def dialog_ok_def)
next
  case Submit
  then show "dialog_ok s \<Longrightarrow> ?thesis" by (simp add: import_apply_def submit_ok)
qed (auto simp: import_apply_def dialog_ok_def preview_ok_def toggleSelectAllValid_def)

end

text \<open>A batch of users: not empty, every row valid, and in the one-team mode all of the team chosen.\<close>

definition good_users :: "user_inputs \<Rightarrow> ParsedCsvRow list \<Rightarrow> bool" where
  "good_users i batch \<longleftrightarrow>
     batch \<noteq> [] \<and> list_all (\<lambda>r. row_isValid r \<and> row_username r \<noteq> [] \<and> row_teamName r \<noteq> None \<and>
                           (ui_singleTeam i \<longrightarrow> row_teamName r = target_team i)) batch"

text \<open>A batch of teams: not empty, new names that differ without regard to case, and three members at most.\<close>

definition good_teams :: "team_inputs \<Rightarrow> (string \<times> team_member list option) list \<Rightarrow> bool" where
  "good_teams i batch \<longleftrightarrow>
     batch \<noteq> [] \<and> distinct (map (js_lower \<circ> fst) batch) \<and>
     list_all (\<lambda>(name, members). name \<noteq> [] \<and> js_lower name \<notin> set (existingTeamNames (ti_existing i)) \<and>
       (case members of None \<Rightarrow> True | Some ms \<Rightarrow> ms \<noteq> [] \<and> length ms \<le> 3)) batch"

lemma selectedValid_valid: "r \<in> set (selectedValid isValid sel rows) \<Longrightarrow> r \<in> set rows \<and> isValid r"
  by (auto simp: selectedValid_def)

lemma users_submitted:
  assumes "user_handleSubmit (user_rows i) sel = Inr batch"
  shows "good_users i batch"
proof -
  have batch: "batch = selectedValid row_isValid sel (user_rows i)" "batch \<noteq> []"
    using assms by (auto simp: user_handleSubmit_def split: if_splits)
  have "row_isValid r \<and> row_username r \<noteq> [] \<and> row_teamName r \<noteq> None \<and> (ui_singleTeam i \<longrightarrow> row_teamName r = target_team i)"
    if "r \<in> set batch" for r
  proof -
    have "r \<in> set (parseCsvInput (in_csv i) (ui_singleTeam i) (target_team i))" and valid: "row_isValid r"
      using selectedValid_valid [OF that [unfolded batch(1)]] by (auto simp: user_rows_def split: if_splits)
    with csv_row_validity [of "in_csv i" "ui_singleTeam i" "target_team i"] show ?thesis by (auto split: if_splits)
  qed
  with batch(2) show ?thesis by (auto simp: good_users_def list_all_iff)
qed

lemma teams_submitted:
  assumes "team_handleSubmit (team_rows i) sel = Inr batch"
  shows "good_teams i batch"
proof -
  have "team_handleSubmit (parseTeamsInput (in_csv i) (ti_mode i) (existingTeamNames (ti_existing i))) sel = Inr batch"
    using assms by (auto simp: team_rows_def team_handleSubmit_def split: if_splits)
  from team_import_sound [OF this] show ?thesis
    by (fastforce simp: good_teams_def list_all_iff split: option.split)
qed

interpretation ud: import_parser user_rows row_isValid user_handleSubmit good_users
  by unfold_locales (rule users_submitted)

interpretation td: import_parser team_rows pt_isValid team_handleSubmit good_teams
  by unfold_locales (rule teams_submitted)

interpretation um: state_machine "\<lambda>s. \<exists>i. s = import_opened user_rows row_isValid i" user_dialog_step ud.dialog_ok
  by unfold_locales (auto simp: user_dialog_step_def intro: ud.opened_ok ud.apply_ok)

interpretation tm: state_machine "\<lambda>s. \<exists>i. s = import_opened team_rows pt_isValid i" team_dialog_step td.dialog_ok
  by unfold_locales (auto simp: team_dialog_step_def intro: td.opened_ok td.apply_ok)

section \<open>What the dialogs hand on\<close>


text \<open>The text of the box with the team names of the round, and the clicks up to the import.\<close>

definition three_names :: team_inputs where
  "three_names = \<lparr>in_csv = join_with [CHR 0x0A] [''Zeta'', ''Eta'', ''zeta''], ti_mode = NamesOnly, ti_existing = [''Theta'']\<rparr>"

lemma three_names_rows:
  "team_rows three_names =
     [good_team ''Zeta'' [], good_team ''Eta'' [], team_rows three_names ! 2]"
  "map pt_isValid (team_rows three_names) = [True, True, False]"
  by code_simp+


text \<open>
  the user dialog hands on only rows that can become accounts. In every state the dialog can reach each batch it
  has handed on is not empty, every row has a username and a team, and in the one-team mode the team is the one chosen
  when the button was pressed, whatever was chosen before.
\<close>

theorem user_dialog_sound:
  assumes "reaches (\<lambda>s. \<exists>i. s = import_opened user_rows row_isValid i) user_dialog_step s"
  shows "list_all (\<lambda>(i, batch). good_users i batch) (im_sent s) \<and> preview_ok user_rows row_isValid s"
  using um.reaches_inv [OF assms] by (simp add: ud.dialog_ok_def)

definition to_team :: "string \<Rightarrow> user_inputs" where
  "to_team i = \<lparr>in_csv = ''ann,Ann,Red'', ui_singleTeam = True, ui_newTeam = False, ui_teamId = i, ui_teamName = [],
     ui_teams = [(''1'', ''Blue''), (''2'', ''Green'')]\<rparr>"

theorem user_dialog_sound_witness:
  "map (map row_teamName \<circ> snd) (im_sent (import_apply user_rows row_isValid user_handleSubmit Submit
     (import_apply user_rows row_isValid user_handleSubmit (Edit (to_team ''2'')) (import_opened user_rows row_isValid (to_team ''1''))))) =
     [[Some ''Green'']] \<and> target_team (to_team ''2'') = Some ''Green''"
proof -
  let ?s0 = "import_opened user_rows row_isValid (to_team ''1'') :: user_dialog"
  let ?s1 = "import_apply user_rows row_isValid user_handleSubmit (Edit (to_team ''2'')) ?s0"
  let ?s2 = "import_apply user_rows row_isValid user_handleSubmit Submit ?s1"
  have len: "map (\<lambda>(i, b). (i = to_team ''2'', ui_singleTeam i, length b)) (im_sent ?s2) = [(True, True, 1)]" by code_simp
  have team: "target_team (to_team ''2'') = Some ''Green''" by code_simp
  have "reaches (\<lambda>s. \<exists>i. s = import_opened user_rows row_isValid i) user_dialog_step ?s0" by (rule reaches_init) blast
  then have "reaches (\<lambda>s. \<exists>i. s = import_opened user_rows row_isValid i) user_dialog_step ?s2"
    by (rule reaches_step [OF reaches_step]) (auto simp: user_dialog_step_def)
  from user_dialog_sound [OF this] have "list_all (\<lambda>(i, batch). good_users i batch) (im_sent ?s2)" ..
  with len team show ?thesis
    by (auto simp: good_users_def map_eq_Cons_conv length_Suc_conv)
qed

text \<open>
  A reload of the page's teams ticks every valid row again: rows the organizer had unticked, and rows an import had
  just created, are ticked once more, without an edit of the text.
\<close>

theorem reload_ticks_again:
  "im_selected (import_apply parse isValid submit (TeamsReloaded i) s) = set (validIndices isValid (parse i))"
  by (simp add: import_apply_def recomputed_def)

text \<open>An edit that changes nothing keeps the ticks, and so does every other event but a tick.\<close>

theorem ticks_kept:
  "im_selected (import_apply parse isValid submit (Edit (im_inputs s)) s) = im_selected s"
  "im_selected (import_apply parse isValid submit (Preview f) s) = im_selected s"
  "im_selected (import_apply parse isValid submit (Busy b) s) = im_selected s"
  "im_selected (import_apply parse isValid submit Submit s) = im_selected s"
  by (simp_all add: import_apply_def set_inputs_def import_submit_def split: sum.split)

end
