(* ===== verification/EvidenceView.thy ===== *)
theory EvidenceView
  imports EvidenceTimeline AdminState
begin

text \<open>
  The page of one contestant's evidence, as it is shown: its requests and dialogs
  (\<open>app/(dashboard)/monitoring/[userId]/page.tsx\<close>), the box of a moment, and the card of a finding
  (\<open>components/monitoring/evidence-card.tsx\<close>). The moments are those of \<open>EvidenceTimeline\<close>. The evidence of a finding is JSON
  from the backend, which the card reads as if it had the fields its rule is meant to send.
\<close>

section \<open>The page\<close>

datatype ep_request = LoadTimeline | Readmit

record evidence_page =
  ep_timeline :: jsv
  ep_error :: "jsv option"
  ep_running :: "ep_request list"
  ep_readmitOpen :: bool
  ep_filter :: timeline_filter
  ep_notice :: "(bool \<times> string) option"
  ep_sent :: "ep_request list"

definition ep_isPending :: "evidence_page \<Rightarrow> bool" where
  "ep_isPending s \<longleftrightarrow> ep_running s \<noteq> []"

definition ep_send :: "ep_request \<Rightarrow> evidence_page \<Rightarrow> evidence_page" where
  "ep_send q s = s\<lparr>ep_running := ep_running s @ [q], ep_sent := ep_sent s @ [q]\<rparr>"

text \<open>The page opens with a request, sent by the effect of its first render.\<close>

definition page_opened :: evidence_page where
  "page_opened = ep_send LoadTimeline \<lparr>ep_timeline = Null, ep_error = None, ep_running = [], ep_readmitOpen = False,
     ep_filter = FilterAll, ep_notice = None, ep_sent = []\<rparr>"

definition ep_load_settle :: "timeline_result \<Rightarrow> evidence_page \<Rightarrow> evidence_page" where
  "ep_load_settle result s =
     (let s1 = s\<lparr>ep_running := remove1 LoadTimeline (ep_running s),
                 ep_error := (if nullish (tl_error result) then None else Some (tl_error result))\<rparr>
      in if truthy (tl_timeline result) then s1\<lparr>ep_timeline := tl_timeline result\<rparr> else s1)"

definition confirmReadmit :: "evidence_page \<Rightarrow> evidence_page" where
  "confirmReadmit s = ep_send Readmit (s\<lparr>ep_readmitOpen := False\<rparr>)"

definition ep_readmit_settle :: "exn + status_result \<Rightarrow> evidence_page \<Rightarrow> evidence_page" where
  "ep_readmit_settle result s0 =
     (let s = s0\<lparr>ep_running := remove1 Readmit (ep_running s0)\<rparr>
      in case result of
           Inl x \<Rightarrow> s\<lparr>ep_notice := Some (False, getErrorMessage x ''Failed to re-admit the contestant.'')\<rparr>
         | Inr r \<Rightarrow>
             if truthy (sr_error r) then s\<lparr>ep_notice := Some (False, js_String (sr_error r))\<rparr>
             else ep_send LoadTimeline (s\<lparr>ep_notice := Some (True, ''Contestant re-admitted'')\<rparr>))"

inductive ep_step :: "evidence_page \<Rightarrow> evidence_page \<Rightarrow> bool" where
  Refresh: "\<not> ep_isPending s \<Longrightarrow> ep_step s (ep_send LoadTimeline s)"
| AskReadmit: "\<not> ep_isPending s \<Longrightarrow> ep_step s (s\<lparr>ep_readmitOpen := True\<rparr>)"
| CloseReadmit: "ep_step s (s\<lparr>ep_readmitOpen := False\<rparr>)"
| ConfirmReadmit: "ep_readmitOpen s \<Longrightarrow> ep_step s (confirmReadmit s)"
| LoadAnswered: "LoadTimeline \<in> set (ep_running s) \<Longrightarrow> ep_step s (ep_load_settle result s)"
| ReadmitAnswered: "Readmit \<in> set (ep_running s) \<Longrightarrow> ep_step s (ep_readmit_settle result s)"
| ChooseFilter: "ep_step s (s\<lparr>ep_filter := f\<rparr>)"

text \<open>The line under the name: what is known of the contestant, or that the evidence is loading.\<close>

definition ellipsis :: string where
  "ellipsis = [CHR 0xE2, CHR 0x80, CHR 0xA6]"

definition ep_subtitle :: "evidence_page \<Rightarrow> string" where
  "ep_subtitle s =
     (if \<not> truthy (ep_timeline s) then ''Loading evidence'' @ ellipsis
      else ''@'' @ js_String (get_opt (ep_timeline s) ''username'') @
           (if truthy (get_opt (ep_timeline s) ''teamName'')
            then '' '' @ middle_dot @ '' '' @ js_String (get_opt (ep_timeline s) ''teamName'') else []) @
           (if truthy (get_opt (ep_timeline s) ''supportHint'')
            then '' '' @ middle_dot @ '' machine '' @ take 12 (js_String (get_opt (ep_timeline s) ''supportHint'')) else []))"

definition ep_title :: "evidence_page \<Rightarrow> jsv" where
  "ep_title s = js_coalesce (get_opt (ep_timeline s) ''displayName'') (Str ''Contestant'')"

text \<open>The chips: the count each shows, and whether it is coloured as an alarm while it is not the chosen one.\<close>

definition filter_chips :: "moment list \<Rightarrow> (timeline_filter \<times> nat option) list" where
  "filter_chips ms =
     (case moment_counts ms of (gapCount, violationCount, browserCount, submissionCount) \<Rightarrow>
        [(FilterAll, Some (length ms)), (FilterFindings, Some violationCount), (FilterBrowser, Some browserCount),
         (FilterGaps, Some gapCount), (FilterSubmissions, Some submissionCount), (FilterApps, None)])"

definition chip_alarming :: "timeline_filter \<times> nat option \<Rightarrow> bool" where
  "chip_alarming c \<longleftrightarrow>
     fst c \<in> {FilterFindings, FilterBrowser, FilterGaps} \<and> (case snd c of None \<Rightarrow> False | Some n \<Rightarrow> 0 < n)"

section \<open>The box of a moment\<close>

datatype moment_badge = BlackoutGap | SubmissionBadge | BrowserLockdownBadge | Violations nat | NormalActivity

definition getTheme :: "moment \<Rightarrow> moment_badge" where
  "getTheme s =
     (if mo_kind s = GapMoment then BlackoutGap
      else if mo_kind s = SubmissionMoment then SubmissionBadge
      else if isBrowserMoment s then BrowserLockdownBadge
      else if mo_findings s \<noteq> [] \<or> mo_severity s = CRITICAL \<or> mo_severity s = HIGH then Violations (length (mo_findings s))
      else NormalActivity)"

definition badgeLabel :: "moment_badge \<Rightarrow> string" where
  "badgeLabel b =
     (case b of
        BlackoutGap \<Rightarrow> ''BLACKOUT GAP''
      | SubmissionBadge \<Rightarrow> ''SUBMISSION''
      | BrowserLockdownBadge \<Rightarrow> ''BROWSER LOCKDOWN''
      | Violations n \<Rightarrow> show_nat n @ '' VIOLATION'' @ (if 1 < n then ''S'' else [])
      | NormalActivity \<Rightarrow> ''NORMAL ACTIVITY'')"

datatype moment_icon = WifiOffIcon | CheckIcon | ShieldIcon | ActivityIcon

definition moment_icon_of :: "moment \<Rightarrow> moment_icon" where
  "moment_icon_of s =
     (if mo_kind s = GapMoment then WifiOffIcon else if mo_kind s = SubmissionMoment then CheckIcon
      else if mo_findings s \<noteq> [] then ShieldIcon else ActivityIcon)"

text \<open>The parts of the box that depend on what the moment gathered, in their order.\<close>

datatype box_part =
    DetailLines "string list"
  | VerdictLine string string string
  | BlackoutDuration string
  | ReconnectedAt string
  | FocusChip member string
  | ProcessChips "member list"
  | EmptyContext
  | FindingCards "finding_detail list"
  | LanLine string
  | ProcessesLine jsnum
  | InternetLine bool

definition box_details :: "moment \<Rightarrow> box_part list" where
  "box_details s = (if mo_details s = [] then [] else [DetailLines (mo_details s)])"

definition box_verdict :: "moment \<Rightarrow> box_part list" where
  "box_verdict s =
     (case mo_submission s of
        None \<Rightarrow> []
      | Some sub \<Rightarrow> [VerdictLine (sd_verdict sub)
          (show_int (sd_score sub) @ '' / '' @ js_String (js_coalesce (sd_maxScore sub) (IntV 100)))
          (if truthy (sd_language sub) then js_String (sd_language sub) else [])])"

definition box_gap :: "(int \<Rightarrow> string) \<Rightarrow> moment \<Rightarrow> box_part list" where
  "box_gap loc s =
     (if mo_kind s \<noteq> GapMoment then []
      else (case mo_gapDuration s of None \<Rightarrow> [] | Some n \<Rightarrow> if 0 < n then [BlackoutDuration (formatDuration n)] else []) @
           (if text_or (mo_endedAt s) [] = [] then [] else [ReconnectedAt (formatClock loc (mo_endedAt s))]))"

text \<open>The frame of the context chips is there for an application called unknown, which then has no chip of its own.\<close>

definition box_context :: "moment \<Rightarrow> box_part list" where
  "box_context s =
     (let app = text_or (mo_foregroundApp s) []
      in if app = [] \<and> mo_processMatches s = [] then []
         else let parts = (if app \<noteq> [] \<and> app \<noteq> ''unknown'' then [FocusChip (formatAppName (Some app)) app] else []) @
                (if mo_processMatches s = [] then [] else [ProcessChips (map (\<lambda>p. formatAppName (Some p)) (mo_processMatches s))])
              in if parts = [] then [EmptyContext] else parts)"

definition box_environment :: "moment \<Rightarrow> box_part list" where
  "box_environment s =
     (if text_or (mo_lanIp s) [] = [] then [] else [LanLine (text_or (mo_lanIp s) [])]) @
     (case mo_totalProcesses s of None \<Rightarrow> [] | Some n \<Rightarrow> [ProcessesLine n]) @
     (case mo_internetReachable s of None \<Rightarrow> [] | Some b \<Rightarrow> [InternetLine b])"

definition SnapshotBox :: "(int \<Rightarrow> string) \<Rightarrow> moment \<Rightarrow> box_part list" where
  "SnapshotBox loc s =
     box_details s @ box_verdict s @ box_gap loc s @ box_context s @
     (if mo_findings s = [] then [] else [FindingCards (mo_findings s)]) @ box_environment s"

definition raw_offered :: "moment \<Rightarrow> bool" where
  "raw_offered s \<longleftrightarrow> (case mo_rawSignals s of None \<Rightarrow> False | Some fs \<Rightarrow> fs \<noteq> [])"

section \<open>The card of a finding\<close>

definition getCategoryConfig :: "string option \<Rightarrow> string \<Rightarrow> string" where
  "getCategoryConfig category ruleId =
     (if ruleId = ''ai.code.paste_burst'' then ''PASTE DYNAMICS''
      else if starts_with ruleId ''ai.ext.'' then ''EXTENSION''
      else if starts_with ruleId ''ai.proc.'' then ''AI PROCESS''
      else if starts_with ruleId ''ai.port.'' then ''LOCAL LLM PORT''
      else if starts_with ruleId ''app.'' \<or> starts_with ruleId ''ai.fg.'' then ''FOREGROUND''
      else if starts_with ruleId ''web.'' then ''BROWSER LOCKDOWN''
      else if starts_with ruleId ''net.'' then ''NETWORK''
      else text_or category ''INTEGRITY'')"

datatype card_part =
    PasteFigures "jsv list" bool
  | ProcessLabels "(member \<times> string option) list" "jsv option"
  | ExtensionList "jsv list"
  | FocusedApp member bool "jsv option"
  | ModelDaemon jsv jsv
  | EgressProbes string
  | LockdownDetail jsv "(jsv \<times> jsv) option" "(jsv \<times> jsv) option"

text \<open>
  The figures of a paste: the characters, the events, the keystrokes, the size and the largest piece; and whether they are
  inferred. The percentage beside them is left out, and the dwell of an application stays in milliseconds.
\<close>

definition paste_part :: "jsv \<Rightarrow> card_part" where
  "paste_part evidence =
     (let at0 = \<lambda>k. js_coalesce (get_opt evidence k) (IntV 0);
          inferred = (\<not> nullish (get_opt evidence ''effective_pasted'') \<and>
                      get_opt evidence ''effective_pasted'' \<noteq> get_opt evidence ''pasted_chars'')
      in PasteFigures [js_coalesce (get_opt evidence ''effective_pasted'') (at0 ''pasted_chars''),
                       at0 ''paste_count'', at0 ''typed_count'', at0 ''code_length'', at0 ''max_paste_size''] inferred)"

definition no_name :: "jsv \<Rightarrow> exn" where
  "no_name v =
     (if truthy v then Error ''raw.trim is not a function''
      else if nullish v then read_error v ''toLowerCase''
      else Error ''m.toLowerCase is not a function'')"

fun label_all :: "jsv list \<Rightarrow> exn + (member \<times> string option) list" where
  "label_all [] = Inr []"
| "label_all (Str m # ms) =
     (case process_label m of
        Inl x \<Rightarrow> Inl x
      | Inr l \<Rightarrow> (case label_all ms of Inl x \<Rightarrow> Inl x | Inr ls \<Rightarrow> Inr (l # ls)))"
| "label_all (v # ms) = Inl (no_name v)"

definition process_part :: "jsv \<Rightarrow> exn + card_part" where
  "process_part evidence =
     (case js_or (get_opt evidence ''matches'') (Arr []) of
        Arr ms \<Rightarrow>
          (case label_all ms of
             Inl x \<Rightarrow> Inl x
           | Inr ls \<Rightarrow> Inr (ProcessLabels ls
               (if nullish (get_opt evidence ''total'') then None else Some (get_opt evidence ''total''))))
      | _ \<Rightarrow> Inl (Error ''(evidence.matches || []).map is not a function''))"

definition foreground_part :: "jsv \<Rightarrow> exn + card_part" where
  "foreground_part evidence =
     (case get_opt evidence ''app'' of
        Str a \<Rightarrow>
          (let friendly = formatAppName (Some a)
           in if a = [] then Inr (FocusedApp (Own ''Unknown Application'') False
                (if nullish (get_opt evidence ''dwell_ms'') then None else Some (get_opt evidence ''dwell_ms'')))
              else case member_lower friendly of
                     Inl x \<Rightarrow> Inl x
                   | Inr l \<Rightarrow> Inr (FocusedApp (if friendly = Own [] then Own ''Unknown Application'' else friendly) (l \<noteq> js_lower a)
                       (if nullish (get_opt evidence ''dwell_ms'') then None else Some (get_opt evidence ''dwell_ms''))))
      | v \<Rightarrow>
          if truthy v then Inl (Error ''raw.trim is not a function'')
          else Inr (FocusedApp (Own ''Unknown Application'') False
                (if nullish (get_opt evidence ''dwell_ms'') then None else Some (get_opt evidence ''dwell_ms''))))"

definition probes_part :: "jsv \<Rightarrow> exn + card_part" where
  "probes_part evidence =
     (case js_or (get_opt evidence ''probes'') (Arr []) of
        Arr ps \<Rightarrow> let t = join_with '', '' (map (\<lambda>p. if nullish p then [] else js_String p) ps)
                  in Inr (EgressProbes (if t = [] then ''1.1.1.1:53'' else t))
      | _ \<Rightarrow> Inl (Error ''(evidence.probes || []).join is not a function''))"

definition lockdown_part :: "string \<Rightarrow> jsv \<Rightarrow> card_part" where
  "lockdown_part title evidence =
     LockdownDetail (js_or (get_opt evidence ''detail'') (Str title))
       (if nullish (get_opt evidence ''strikes'') then None
        else Some (get_opt evidence ''strikes'', js_coalesce (get_opt evidence ''max_strikes'') (IntV 3)))
       (if nullish (get_opt evidence ''screen_width'') then None
        else Some (get_opt evidence ''screen_width'', get_opt evidence ''screen_height''))"

definition ev_is_array :: "jsv \<Rightarrow> bool" where
  "ev_is_array v = (case v of Arr _ \<Rightarrow> True | _ \<Rightarrow> False)"

text \<open>The sections a card may have: whether it has them, and what they hold.\<close>

definition card_cases :: "string \<Rightarrow> string \<Rightarrow> jsv \<Rightarrow> (bool \<times> (exn + card_part)) list" where
  "card_cases ruleId title evidence =
     [(ruleId = ''ai.code.paste_burst'', Inr (paste_part evidence)),
      (starts_with ruleId ''ai.proc.'' \<or> ev_is_array (get_opt evidence ''matches''), process_part evidence),
      (ruleId = ''ai.ext.detected'' \<and> ev_is_array (get_opt evidence ''extensions''),
         Inr (ExtensionList (case get_opt evidence ''extensions'' of Arr es \<Rightarrow> es | _ \<Rightarrow> []))),
      (ruleId = ''app.unauthorized_foreground'' \<or> ruleId = ''ai.fg.denylist'', foreground_part evidence),
      (starts_with ruleId ''ai.port.'', Inr (ModelDaemon (js_or (get_opt evidence ''product'') (Str ''Local Model Server''))
         (get_opt evidence ''port''))),
      (ruleId = ''net.internet'', probes_part evidence),
      (starts_with ruleId ''web.'', Inr (lockdown_part title evidence))]"

fun rendered :: "(bool \<times> (exn + card_part)) list \<Rightarrow> exn + card_part list" where
  "rendered [] = Inr []"
| "rendered ((b, p) # rest) =
     (if \<not> b then rendered rest
      else case p of Inl x \<Rightarrow> Inl x | Inr c \<Rightarrow> (case rendered rest of Inl x \<Rightarrow> Inl x | Inr cs \<Rightarrow> Inr (c # cs)))"

definition EvidenceCard :: "string \<Rightarrow> string \<Rightarrow> jsv \<Rightarrow> exn + card_part list" where
  "EvidenceCard ruleId title evidence = rendered (card_cases ruleId title (js_or evidence (Obj [])))"

section \<open>What the page guarantees\<close>

text \<open>A moment of plain activity holds nothing that counts against the contestant, and one of violations holds a finding.\<close>

definition moment_ok :: "moment \<Rightarrow> bool" where
  "moment_ok s \<longleftrightarrow>
     (mo_kind s = ActivityMoment \<longrightarrow> mo_findings s = [] \<and> mo_severity s = NORMAL) \<and>
     (mo_kind s = ViolationMoment \<longrightarrow> mo_findings s \<noteq> [])"

lemma absorb_kind:
  "mo_kind (absorb e s) =
     (case en_kind e of
        GapEntry \<Rightarrow> GapMoment
      | SubmissionEntry \<Rightarrow> SubmissionMoment
      | FindingEntry \<Rightarrow> if mo_kind s \<noteq> GapMoment \<and> mo_kind s \<noteq> SubmissionMoment then ViolationMoment else mo_kind s
      | _ \<Rightarrow> mo_kind s)"
  by (simp add: absorb_defs Let_def split: entry_kind.split option.split)

lemma moment_ok_absorb: "moment_ok s \<Longrightarrow> moment_ok (absorb e s)"
  by (auto simp: moment_ok_def absorb_kind absorb_findings absorb_severity is_finding_def split: entry_kind.splits)

lemma moment_ok_new: "moment_ok (new_moment loc n e)"
  by (simp add: moment_ok_def new_moment_def)

lemma moment_ok_place: "list_all moment_ok ss \<Longrightarrow> list_all moment_ok (place loc n e ss)"
  by (induction ss) (simp_all add: moment_ok_absorb moment_ok_new)

lemma moment_ok_cluster: "list_all moment_ok (cluster loc es)"
  by (induction es rule: rev_induct) (simp_all add: cluster_snoc moment_ok_place, simp add: cluster_def)

lemma moment_ok_grouped: "s \<in> set (groupTimelineEntries loc es) \<Longrightarrow> moment_ok s"
  using moment_ok_cluster [of loc es] by (auto simp: groupTimelineEntries_def list_all_iff dest: mset_eq_setD)

text \<open>
  the badge of a moment and the chips agree. For a moment of the timeline the badge of a blackout or of a
  submission is there exactly when the chip of that name shows the moment, the badge of the browser lockdown only when its
  chip shows it, a badge that counts violations counts at least one and is under the chip of violations, and a moment
  with the badge of normal activity has no finding and no severity.
\<close>

theorem badge_matches_filter:
  assumes "s \<in> set (groupTimelineEntries loc es)"
  shows "(getTheme s = BlackoutGap \<longleftrightarrow> moment_shown FilterGaps s) \<and>
         (getTheme s = SubmissionBadge \<longleftrightarrow> moment_shown FilterSubmissions s) \<and>
         (getTheme s = BrowserLockdownBadge \<longrightarrow> moment_shown FilterBrowser s) \<and>
         (\<forall>n. getTheme s = Violations n \<longrightarrow> 0 < n \<and> moment_shown FilterFindings s) \<and>
         (getTheme s = NormalActivity \<longrightarrow> mo_findings s = [] \<and> mo_severity s = NORMAL)"
proof -
  have ok: "moment_ok s" by (rule moment_ok_grouped [OF assms])
  show ?thesis
    using ok by (cases "mo_kind s") (auto simp: getTheme_def moment_shown_def moment_ok_def)
qed

theorem badge_matches_filter_witness:
  "getTheme (new_moment (\<lambda>_. []) 0 (entry_at EventEntry ''2026-01-01T10:00:00Z'' ''Joined'')) = NormalActivity \<and>
   mo_severity (new_moment (\<lambda>_. []) 0 (entry_at EventEntry ''2026-01-01T10:00:00Z'' ''Joined'')) = NORMAL"
proof -
  let ?e = "entry_at EventEntry ''2026-01-01T10:00:00Z'' ''Joined''"
  let ?m = "new_moment (\<lambda>_. []) 0 ?e"
  have "absorb ?e ?m = ?m"
    by (simp add: absorb_def absorb_event_def entry_at_def text_or_def js_lower_def Let_def new_moment_def)
  then have listed: "?m \<in> set (groupTimelineEntries (\<lambda>_. []) [?e])"
    by (simp add: groupTimelineEntries_def cluster_def js_sort_def)
  moreover have "getTheme ?m = NormalActivity" by code_simp
  ultimately show ?thesis using badge_matches_filter [OF listed] by blast
qed

text \<open>
  a re-admission is confirmed, once, and evidence once shown stays. Every step of the page that asks the backend to
  re-admit the contestant is the confirmation of an open dialog and closes it; a re-admission that is accepted asks for the
  timeline again; and no step takes a timeline off the screen, whatever the backend answers.
\<close>

theorem readmit_confirmed:
  assumes "ep_step s s'"
  shows "(count_list (ep_sent s) Readmit < count_list (ep_sent s') Readmit \<longrightarrow> ep_readmitOpen s \<and> \<not> ep_readmitOpen s') \<and>
         (truthy (ep_timeline s) \<longrightarrow> truthy (ep_timeline s')) \<and>
         (\<not> truthy (sr_error r) \<longrightarrow> LoadTimeline \<in> set (ep_running (ep_readmit_settle (Inr r) s)))"
  using assms
proof (induction rule: ep_step.induct)
  case (ReadmitAnswered s result)
  then show ?case by (auto simp: ep_readmit_settle_def ep_send_def Let_def split: sum.split)
next
  case (LoadAnswered s result)
  then show ?case by (auto simp: ep_readmit_settle_def ep_load_settle_def ep_send_def Let_def)
qed (auto simp: ep_send_def confirmReadmit_def ep_readmit_settle_def Let_def)

theorem readmit_confirmed_witness:
  "LoadTimeline \<in> set (ep_running (ep_readmit_settle (Inr (sr_ok ''readmitted'' Undefined)) page_opened)) \<and>
   \<not> truthy (sr_error (sr_ok ''readmitted'' Undefined))"
  using readmit_confirmed [OF CloseReadmit [of page_opened], of "sr_ok ''readmitted'' Undefined"]
  by (simp add: sr_ok_def)

text \<open>
  An answer that holds neither a timeline nor an error leaves the page saying that evidence is loading, with no request
  under way.
\<close>

theorem reads_loading_forever:
  "ep_subtitle (ep_load_settle \<lparr>tl_timeline = Undefined, tl_error = Undefined\<rparr> page_opened) = ''Loading evidence'' @ ellipsis \<and>
   \<not> ep_isPending (ep_load_settle \<lparr>tl_timeline = Undefined, tl_error = Undefined\<rparr> page_opened)"
  by code_simp

text \<open>The context of a moment whose application is only known as unknown is an empty frame.\<close>

theorem unknown_app_empty_frame:
  assumes "mo_foregroundApp s = Some ''unknown''" and "mo_processMatches s = []"
  shows "EmptyContext \<in> set (SnapshotBox loc s)"
  using assms by (simp add: SnapshotBox_def box_context_def text_or_def Let_def)

text \<open>A rule is in one family: the label follows from the prefix, and a family of its own never reads the category.\<close>

definition card_families :: "string list" where
  "card_families = [''ai.ext.'', ''ai.proc.'', ''ai.port.'', ''app.'', ''ai.fg.'', ''web.'', ''net.'']"

theorem label_by_family:
  "list_all (\<lambda>fam. getCategoryConfig c (fam @ r) = getCategoryConfig None (fam @ ''x'')) card_families"
  by (simp add: card_families_def getCategoryConfig_def)

text \<open>What the rules are meant to send: lists of texts where the card maps over them, and a text for the application.\<close>

definition plain_name :: "string \<Rightarrow> bool" where
  "plain_name m \<longleftrightarrow> (\<exists>s. formatAppName (Some m) = Own s)"

definition evidence_ok :: "jsv \<Rightarrow> bool" where
  "evidence_ok evidence \<longleftrightarrow>
     (get_opt evidence ''matches'' = Undefined \<or>
        (\<exists>ms. get_opt evidence ''matches'' = Arr (map Str ms) \<and> list_all plain_name ms)) \<and>
     (get_opt evidence ''app'' = Undefined \<or> (\<exists>a. get_opt evidence ''app'' = Str a \<and> plain_name a)) \<and>
     (get_opt evidence ''probes'' = Undefined \<or> ev_is_array (get_opt evidence ''probes''))"

lemma label_all_ok: "list_all plain_name ms \<Longrightarrow> \<exists>ls. label_all (map Str ms) = Inr ls \<and> length ls = length ms"
proof (induction ms)
  case (Cons m ms)
  then obtain t where "formatAppName (Some m) = Own t" by (auto simp: plain_name_def)
  with Cons show ?case by (auto simp: process_label_def member_lower_def Let_def)
qed simp

lemma parts_total:
  assumes "evidence_ok evidence"
  shows "\<exists>p. process_part evidence = Inr p" "\<exists>p. foreground_part evidence = Inr p" "\<exists>p. probes_part evidence = Inr p"
proof -
  show "\<exists>p. process_part evidence = Inr p"
    using assms label_all_ok by (fastforce simp: evidence_ok_def process_part_def js_or_def)
  show "\<exists>p. foreground_part evidence = Inr p"
    using assms by (auto simp: evidence_ok_def foreground_part_def plain_name_def member_lower_def Let_def)
  show "\<exists>p. probes_part evidence = Inr p"
    using assms by (auto simp: evidence_ok_def probes_part_def ev_is_array_def js_or_def Let_def split: jsv.splits)
qed

lemma rendered_total: "\<forall>(b, p)\<in>set cs. b \<longrightarrow> (\<exists>c. p = Inr c) \<Longrightarrow> \<exists>ps. rendered cs = Inr ps \<and> length ps = length (filter fst cs)"
proof (induction cs)
  case (Cons bp cs)
  then obtain ps where "rendered cs = Inr ps" "length ps = length (filter fst cs)" by auto
  with Cons.prems show ?case by (cases bp) auto
qed simp



text \<open>
  The card trusts the shape of its evidence: a process finding whose matches are a single text, and a foreground finding
  whose application is a number, throw while the page renders.
\<close>

theorem card_trusts_shape:
  "EvidenceCard ''ai.proc.denylist'' ''AI'' (Obj [(''matches'', Str ''ollama'')]) =
     Inl (Error ''(evidence.matches || []).map is not a function'')"
  "EvidenceCard ''ai.fg.denylist'' ''AI'' (Obj [(''app'', IntV 7)]) = Inl (Error ''raw.trim is not a function'')"
  by code_simp+

end
