(* ===== verification/ContestViews.thy ===== *)
theory ContestViews
  imports ProctorGate ContestClock PortalLists
begin

text \<open>
  What the portal shows of the proctor gate and of the contest clock: the details behind the pill and the banner over a
  locked workspace (\<open>components/portal/proctor-status.tsx\<close>), the waiting room
  (\<open>components/challenges/contest-waiting-room.tsx\<close>) and the timer of the top bar (\<open>components/portal/contest-timer.tsx\<close>). The
  pill itself is \<open>pill_status\<close> of \<open>ProctorGate\<close>. Seconds since a report are whole numbers, as the backend sends them.
\<close>

section \<open>The pill's details\<close>

definition PRODUCT_NAME :: string where
  "PRODUCT_NAME = ''Labyrithm''"

definition pill_title :: "proctor_state \<Rightarrow> string" where
  "pill_title s =
     (let verified = ''Proctoring is active and verified by the contest server.'';
          code = get_opt (ps_local s) ''support_code''
      in case pill_status s of
           None \<Rightarrow> []
         | Some (label, tone) \<Rightarrow>
             if truthy (ps_starting s) then ''Proctor starting... Waiting for initial heartbeat.''
             else if truthy (ps_exempt s) then ''Proctor exempt '' @ em_dash @ '' browser access approved.''
             else if \<not> truthy (ps_submissionsAllowed s) then (if truthy code then ''Support code '' @ js_String code else label)
             else if \<not> ps_serverReachable s then ''The portal could not reach the contest server on the last check.''
             else if ps_accessMode s = Str ''WEB_ONLY'' then ''Browser access mode approved.''
             else if \<not> truthy (ps_local s) then
               (if isServerVerified s then verified
                else ''Waiting for local proctor agent on 127.0.0.1. Ensure '' @ PRODUCT_NAME @ '' Agent is running.'')
             else if truthy (get_opt (ps_local s) ''agent_version'')
               then ''Proctor agent '' @ js_String (get_opt (ps_local s) ''agent_version'') @ '' '' @ middle_dot @ '' support code '' @ js_String code
             else verified)"

definition since_ping :: "proctor_state \<Rightarrow> string \<Rightarrow> string" where
  "since_ping s now =
     (if num_pos (js_Number (ps_secondsSincePing s)) then js_String (ps_secondsSincePing s) @ ''s ago'' else now)"

datatype pill_note_kind = NoNote | VerifiedNote string | AgentNotDetected

definition pill_note :: "proctor_state \<Rightarrow> pill_note_kind" where
  "pill_note s =
     (if truthy (ps_local s) \<or> truthy (ps_exempt s) \<or> ps_accessMode s = Str ''WEB_ONLY'' then NoNote
      else if isServerVerified s then VerifiedNote (since_ping s ''just now'') else AgentNotDetected)"

text \<open>The rows of the details: the support code offered for copying, the last report, the agent's version and its port.\<close>

definition pill_rows :: "proctor_state \<Rightarrow> jsv option \<times> string \<times> string \<times> jsv option" where
  "pill_rows s =
     (let shown = \<lambda>k. (if truthy (get_opt (ps_local s) k) then Some (get_opt (ps_local s) k) else None)
      in (shown ''support_code'', since_ping s ''Just now'',
          (case shown ''agent_version'' of Some v \<Rightarrow> CHR ''v'' # js_String v | None \<Rightarrow> ''Unknown''), shown ''loopback_port''))"

text \<open>The dialog of the pill: a click on the pill turns it, a click elsewhere, Escape and its own button close it.\<close>

datatype pill_event = PillClick | OutsideClick | EscapeKey | CloseClick

fun pill_dialog :: "pill_event \<Rightarrow> bool \<Rightarrow> bool" where
  "pill_dialog PillClick isOpen = (\<not> isOpen)"
| "pill_dialog OutsideClick isOpen = False"
| "pill_dialog EscapeKey isOpen = False"
| "pill_dialog CloseClick isOpen = False"

section \<open>The banner over a locked workspace\<close>

definition formatAgo :: "int \<Rightarrow> string" where
  "formatAgo seconds = (if seconds < 90 then show_int seconds @ ''s'' else show_int ((seconds + 30) div 60) @ ''m'')"

datatype banner_action = AllowLocalAccess | ReloadPage

record locked_banner =
  lb_heading :: string
  lb_text :: string
  lb_supportCode :: "jsv option"
  lb_action :: banner_action
  lb_disabled :: bool
  lb_note :: string

datatype lock_banner = NoBanner | StartingBanner string | LockedBanner locked_banner

definition ProctorLockBanner :: "proctor_view \<Rightarrow> lock_banner" where
  "ProctorLockBanner v =
     (let s = pv_state v; notAllowed = (ps_code s = Str ''CLIENT_NOT_ALLOWED''); unattested = (ps_code s = Str ''NOT_ATTESTED'')
      in if \<not> ps_resolved s \<or> truthy (ps_submissionsAllowed s) \<or> truthy (ps_exempt s) then NoBanner
         else if truthy (ps_starting s)
         then StartingBanner (js_String (js_coalesce (ps_remedy s)
                (Str ''Submissions unlock as soon as the proctor client reports in.'')))
         else LockedBanner
           \<lparr>lb_heading = (if notAllowed then ''Submissions locked '' @ em_dash @ '' this window isn'' @ [CHR 0x27] @ ''t allowed for scored submissions.''
                          else ''Submissions locked '' @ em_dash @ '' proctor client isn'' @ [CHR 0x27] @ ''t reporting.''),
            lb_text = js_String (js_coalesce (ps_remedy s) (Str ''Start the proctor client, then submit again.'')) @
              (if \<not> notAllowed \<and> num_pos (js_Number (ps_secondsSincePing s))
               then '' Last report '' @ formatAgo (int_field (ps_secondsSincePing s)) @ '' ago.'' else []),
            lb_supportCode = (if truthy (get_opt (ps_local s) ''support_code'') then Some (get_opt (ps_local s) ''support_code'') else None),
            lb_action = (if unattested then AllowLocalAccess else ReloadPage),
            lb_disabled = (pv_access v = Requesting),
            lb_note = (if unattested \<and> pv_access v = AccessDenied
              then ''Local access was denied. Enable it in this site'' @ [CHR 0x27] @ ''s browser permissions, then retry verification.''
              else ''The contest workspace remains locked until the required proctor verification succeeds.'')\<rparr>)"

section \<open>The waiting room\<close>

definition isProctorConnected :: "proctor_state \<Rightarrow> bool" where
  "isProctorConnected s \<longleftrightarrow> truthy (ps_submissionsAllowed s) \<and> \<not> truthy (ps_code s) \<and> \<not> truthy (ps_starting s)"

record waiting_room =
  wr_startsIn :: "string option"
  wr_duration :: string
  wr_connected :: bool

definition ContestWaitingRoom :: "clock \<Rightarrow> proctor_state \<Rightarrow> waiting_room" where
  "ContestWaitingRoom ck p =
     \<lparr>wr_startsIn = (if num_pos (ck_startsIn ck) then Some (formattedStartsIn ck) else None),
      wr_duration = waiting_duration (co_durationSeconds (ck_state ck)), wr_connected = isProctorConnected p\<rparr>"

section \<open>The timer of the top bar\<close>

datatype badge_tone = PlainTone | WarningTone | CriticalTone

datatype timer_badge =
    StartsBadge string
  | NotStartedBadge
  | PausedBadge string
  | EndedBadge
  | RunningBadge badge_tone string bool

definition ContestTimer :: "clock \<Rightarrow> timer_badge" where
  "ContestTimer s =
     (if co_status (ck_state s) = NOT_STARTED
      then (if num_pos (ck_startsIn s) then StartsBadge (formattedStartsIn s) else NotStartedBadge)
      else if co_status (ck_state s) = PAUSED then PausedBadge (formattedRemaining s)
      else if co_status (ck_state s) = ENDED \<or> ck_remaining s = Fin 0 then EndedBadge
      else RunningBadge (if isCritical s then CriticalTone else if isWarning s then WarningTone else PlainTone)
             (formattedRemaining s) (ck_frozen s))"

section \<open>What the contestant is told\<close>

text \<open>
  the pill, the banner and the lock agree. In every state the banner is on the screen exactly when the workspace
  is locked; the pill is red exactly when the banner is the red one; a banner of a client that is starting comes with the
  pill that says so; and a green pill means that submissions are allowed and the server answered.
\<close>

theorem pill_and_banner:
  "(ProctorLockBanner v \<noteq> NoBanner \<longleftrightarrow> contestLocked (pv_state v)) \<and>
   ((\<exists>l. pill_status (pv_state v) = Some (l, PillDestructive)) \<longleftrightarrow> (\<exists>b. ProctorLockBanner v = LockedBanner b)) \<and>
   ((\<exists>t. ProctorLockBanner v = StartingBanner t) \<longrightarrow> pill_status (pv_state v) = Some (''Starting up'', PillWarning)) \<and>
   ((\<exists>l. pill_status (pv_state v) = Some (l, PillSuccess)) \<longrightarrow>
      truthy (ps_submissionsAllowed (pv_state v)) \<and> ps_serverReachable (pv_state v))"
  by (auto simp: ProctorLockBanner_def pill_status_def contestLocked_def Let_def)

theorem pill_and_banner_witness:
  "ProctorLockBanner (proctor_view_start Null) = NoBanner \<and> \<not> contestLocked (proctor_seed Null)"
  using pill_and_banner [of "proctor_view_start Null"]
  by (simp add: proctor_view_start_def proctor_seed_def INITIAL_PROCTOR_STATE_def contestLocked_def ProctorLockBanner_def)

text \<open>The life of the gate on one page: refreshes with any answers, and requests for local access.\<close>

inductive gate_step :: "proctor_view \<Rightarrow> proctor_view \<Rightarrow> bool" where
  Refreshed: "gate_step v (proctor_refresh self requestAccess before found after v)"
| AccessAsked: "gate_step v (requestLocalAccess v)"

definition pill_ok :: "proctor_view \<Rightarrow> bool" where
  "pill_ok v \<longleftrightarrow>
     (\<forall>l. pill_status (pv_state v) \<noteq> Some (l, PillAmber)) \<and>
     ((\<exists>l. pill_status (pv_state v) = Some (l, PillSuccess)) \<longrightarrow> agent_ready (ps_local (pv_state v)))"

text \<open>Whom \<open>proctor_resolve\<close> lets in, by the fields that the pill looks at.\<close>

definition let_in :: "proctor_state \<Rightarrow> bool" where
  "let_in s \<longleftrightarrow>
     truthy (ps_submissionsAllowed s) \<and> \<not> truthy (ps_exempt s) \<and> ps_serverReachable s \<and> ps_accessMode s \<noteq> Str ''WEB_ONLY''"

lemma coalesce_truthy [simp]: "truthy (js_coalesce v (Bool False)) = truthy v"
  by (cases v) (simp_all add: js_coalesce_def)

lemma coalesce_text [simp]: "js_coalesce v Null = Str t \<longleftrightarrow> v = Str t"
  by (cases v) (auto simp: js_coalesce_def)

lemma base_fields [simp]:
  "truthy (ps_exempt (proctor_base self agent)) = truthy (get_opt self ''exempt'')"
  "ps_accessMode (proctor_base self agent) = Str t \<longleftrightarrow> get_opt self ''access_mode'' = Str t"
  "ps_serverReachable (proctor_base self agent) \<longleftrightarrow> self \<noteq> Null"
  "ps_local (proctor_base self agent) = agent"
  by (simp_all add: proctor_base_def)

lemma refused_not_in [simp]: "\<not> let_in (refused b c m)"
  by (simp add: let_in_def refused_def)

lemma resolve_local: "ps_local (proctor_resolve self agent) = agent"
  by (simp add: proctor_resolve_def refused_def Let_def)

lemma resolve_refuses:
  assumes "\<not> agent_ready agent"
  shows "\<not> let_in (proctor_resolve self agent)"
proof (cases "truthy (get_opt self ''exempt'')")
  case True
  then show ?thesis by (simp add: proctor_resolve_def let_in_def Let_def)
next
  case exempt: False
  show ?thesis
  proof (cases "truthy (get_opt self ''allowed'') \<and> get_opt self ''access_mode'' = Str ''WEB_ONLY''")
    case True
    then show ?thesis using exempt by (simp add: proctor_resolve_def let_in_def Let_def)
  next
    case web: False
    show ?thesis
    proof (cases "truthy agent")
      case True
      then show ?thesis using exempt web assms by (auto simp: proctor_resolve_def agent_ready_def Let_def)
    next
      case False
      then show ?thesis
        using exempt web by (cases "truthy (get_opt self ''allowed'')") (auto simp: proctor_resolve_def let_in_def refused_def Let_def)
    qed
  qed
qed

lemma resolve_let_in: "let_in (proctor_resolve self agent) \<Longrightarrow> agent_ready (ps_local (proctor_resolve self agent))"
  using resolve_refuses by (auto simp: resolve_local)

lemma pill_let_in:
  "pill_status s = Some (l, PillAmber) \<Longrightarrow> let_in s \<and> \<not> truthy (ps_local s)"
  "pill_status s = Some (l, PillSuccess) \<Longrightarrow> let_in s"
  by (auto simp: pill_status_def let_in_def split: if_splits)

lemma pill_ok_resolved: "pv_state v = (proctor_resolve self agent)\<lparr>ps_resolved := r\<rparr> \<Longrightarrow> pill_ok v"
  using resolve_let_in [of self agent] pill_let_in [of "pv_state v"]
  by (fastforce simp: pill_ok_def let_in_def agent_ready_def)

lemma pill_ok_remedy: "pill_ok (v\<lparr>pv_state := s\<lparr>ps_remedy := m\<rparr>\<rparr>) = pill_ok (v\<lparr>pv_state := s\<rparr>)"
  by (simp add: pill_ok_def pill_status_def isServerVerified_def)

lemma pill_ok_start: "pill_ok (proctor_view_start self)"
proof (cases "truthy self")
  case False
  then show ?thesis by (simp add: proctor_view_start_def proctor_seed_def pill_ok_def pill_status_def INITIAL_PROCTOR_STATE_def)
next
  case True
  let ?v = "\<lparr>pv_state = proctor_seed self, pv_access = Checking, pv_knownPort = Undefined\<rparr>"
  let ?s = "(proctor_resolve self Null)\<lparr>ps_resolved := \<not> needs_local_proof self\<rparr>"
  have "pill_ok (?v\<lparr>pv_state := ?s\<rparr>)" by (rule pill_ok_resolved) simp
  then have "pill_ok (?v\<lparr>pv_state := ?s\<lparr>ps_remedy := m\<rparr>\<rparr>)" for m by (simp only: pill_ok_remedy)
  then show ?thesis
    using \<open>pill_ok (?v\<lparr>pv_state := ?s\<rparr>)\<close> True by (simp add: proctor_view_start_def proctor_seed_def Let_def)
qed

lemma pill_ok_step: "pill_ok v \<Longrightarrow> gate_step v v' \<Longrightarrow> pill_ok v'"
proof (erule gate_step.cases)
  fix u self requestAccess before found after
  assume "v' = proctor_refresh self requestAccess before found after u"
  then show "pill_ok v'" by (simp add: proctor_refresh_def Let_def pill_ok_resolved)
qed (simp add: requestLocalAccess_def pill_ok_def)

interpretation gate: state_machine "\<lambda>v. \<exists>self. v = proctor_view_start self" gate_step pill_ok
  by unfold_locales (auto intro: pill_ok_start pill_ok_step)

text \<open>
  C29: A green pill is earned. In every state the gate can reach on a page, whatever the server, the agent and the
  permissions answered, the pill says that proctoring is active and verified only when a healthy, enrolled agent that is
  neither revoked nor starting answered on this machine. It follows that the pill never says that the agent is
  reconnecting: a contestant whom the server admits, but whose agent cannot be found, is locked out instead.
\<close>

theorem green_pill_earned:
  assumes "reaches (\<lambda>v. \<exists>self. v = proctor_view_start self) gate_step v"
  shows "(pill_status (pv_state v) = Some (l, PillSuccess) \<longrightarrow> agent_ready (ps_local (pv_state v))) \<and>
         pill_status (pv_state v) \<noteq> Some (l, PillAmber)"
  using gate.reaches_inv [OF assms] by (auto simp: pill_ok_def)

definition healthy_agent :: jsv where
  "healthy_agent = Obj [(''enrolled'', Bool True), (''healthy'', Bool True)]"

definition desktop_allowed :: jsv where
  "desktop_allowed = Obj [(''allowed'', Bool True), (''access_mode'', Str ''DESKTOP'')]"

theorem green_pill_earned_witness:
  "pill_status (pv_state (proctor_refresh desktop_allowed False None healthy_agent None (proctor_view_start Null))) =
     Some (''Active & Verified'', PillSuccess) \<and>
   agent_ready (ps_local (pv_state (proctor_refresh desktop_allowed False None healthy_agent None (proctor_view_start Null))))"
proof -
  let ?v = "proctor_refresh desktop_allowed False None healthy_agent None (proctor_view_start Null)"
  have "reaches (\<lambda>v. \<exists>self. v = proctor_view_start self) gate_step (proctor_view_start Null)" by (rule reaches_init) blast
  then have "reaches (\<lambda>v. \<exists>self. v = proctor_view_start self) gate_step ?v" by (rule reaches_step) (rule Refreshed)
  moreover have "pill_status (pv_state ?v) = Some (''Active & Verified'', PillSuccess)" by code_simp
  ultimately show ?thesis using green_pill_earned by blast
qed

text \<open>
  The waiting room takes any admission for a connected client: a contestant who is exempt, one whose gate has not been read
  yet and one whose server cannot be reached are all told that their desktop client is active and talking to the servers.
\<close>

theorem admitted_reads_connected:
  "isProctorConnected (proctor_resolve (Obj [(''exempt'', Bool True)]) Null)"
  "isProctorConnected INITIAL_PROCTOR_STATE"
  "isProctorConnected (proctor_resolve Null Null) \<and> \<not> ps_serverReachable (proctor_resolve Null Null)"
  by code_simp+

text \<open>A client that is starting takes the pill even of an exempt contestant, who has no banner and is not locked.\<close>

theorem starting_hides_exemption:
  "pill_status ((proctor_resolve (Obj [(''exempt'', Bool True)]) (Obj [(''starting'', Bool True)]))\<lparr>ps_resolved := True\<rparr>) =
     Some (''Starting up'', PillWarning)"
  by code_simp

text \<open>
  the timer shows the phase the clock is in. In every reachable state of the contest clock whose count can be read
  the badge is that of the phase: before the round the time to its start or that it has not started, the time left while it is paused,
  the end when it has ended or no second is left, and otherwise a running count, red in the last five minutes and amber in the
  fifteen before them.
\<close>

theorem timer_shows_phase:
  assumes "reaches clock_initial clock_step s" and "ck_remaining s \<noteq> NaN"
  shows "case ContestTimer s of
           StartsBadge t \<Rightarrow> isNotStarted s \<and> t = formattedStartsIn s
         | NotStartedBadge \<Rightarrow> isNotStarted s
         | PausedBadge t \<Rightarrow> isPaused s \<and> t = formattedRemaining s
         | EndedBadge \<Rightarrow> isEnded s
         | RunningBadge tone t frozen \<Rightarrow>
             isRunning s \<and> t = formattedRemaining s \<and> (tone = CriticalTone \<longleftrightarrow> isCritical s) \<and> (tone = WarningTone \<longleftrightarrow> isWarning s)"
proof -
  have inv: "clock_inv s" by (rule contest_clock.reaches_inv [OF assms(1)])
  then obtain k where k: "ck_remaining s = Fin (of_int k)" "0 \<le> k" using assms(2) by (auto simp: clock_inv_def count_ok_def)
  then have pos: "num_pos (ck_remaining s) \<longleftrightarrow> ck_remaining s \<noteq> Fin 0" by (auto simp: num_pos_def)
  have "\<not> (isWarning s \<and> isCritical s)"
    by (cases "ck_remaining s") (auto simp: isWarning_def isCritical_def num_pos_def num_minus_def num_of_int_def)
  with pos show ?thesis
    by (cases "co_status (ck_state s)")
      (auto simp: ContestTimer_def isNotStarted_def isPaused_def isEnded_def isRunning_def)
qed

theorem timer_shows_phase_witness:
  "ContestTimer (clock_start (contest_of (defaultContestState ''2025-01-01T00:00:00Z'')) 0) = NotStartedBadge \<and>
   isNotStarted (clock_start (contest_of (defaultContestState ''2025-01-01T00:00:00Z'')) 0)"
proof -
  let ?s = "clock_start (contest_of (defaultContestState ''2025-01-01T00:00:00Z'')) 0"
  have "clock_initial ?s" unfolding clock_initial_def using default_state_valid by blast
  then have reached: "reaches clock_initial clock_step ?s" by (rule reaches_init)
  have "ContestTimer ?s = NotStartedBadge" "ck_remaining ?s \<noteq> NaN" by code_simp+
  with timer_shows_phase [OF reached] show ?thesis by simp
qed

text \<open>A time written in minutes is off by half a minute at most, and what the room shows of a round's length by less than one.\<close>

theorem ago_close: "90 \<le> d \<Longrightarrow> \<exists>m. formatAgo d = show_int m @ ''m'' \<and> \<bar>60 * m - d\<bar> \<le> 30"
proof -
  assume "90 \<le> d"
  moreover have "\<bar>60 * ((d + 30) div 60) - d\<bar> \<le> 30" by linarith
  ultimately show ?thesis by (intro exI [of _ "(d + 30) div 60"]) (simp add: formatAgo_def)
qed

theorem duration_close:
  "0 < d \<Longrightarrow> \<exists>h m. 0 \<le> m \<and> m < 60 \<and> 0 \<le> d - (3600 * h + 60 * m) \<and> d - (3600 * h + 60 * m) < 60 \<and>
     waiting_duration d = (if 0 < h then show_int h @ ''h '' @ (if 0 < m then show_int m @ ''m'' else []) else show_int m @ ''m'')"
proof -
  assume "0 < d"
  define r where "r = d mod 3600"
  define m where "m = r div 60"
  have d: "3600 * (d div 3600) + r = d" and r: "0 \<le> r" "r < 3600" by (simp_all add: r_def)
  have m: "60 * m + r mod 60 = r" "0 \<le> r mod 60" "r mod 60 < 60" by (simp_all add: m_def)
  have "0 \<le> m" "m < 60" using r m by linarith+
  moreover have "0 \<le> d - (3600 * (d div 3600) + 60 * m)" "d - (3600 * (d div 3600) + 60 * m) < 60" using d m by linarith+
  ultimately show ?thesis
    by (intro exI [of _ "d div 3600"] exI [of _ m]) (simp add: waiting_duration_def Let_def m_def r_def)
qed

end
