(* ===== verification/WorkspacePanels.thy ===== *)
theory WorkspacePanels
  imports CodeWorkspace
begin

text \<open>
  The panels beside the editor: the result of a submission (\<open>components/workspace/submission-result.tsx\<close>), the input and
  output of a run (\<open>io-panels.tsx\<close>) and the history of the code (\<open>history-panel.tsx\<close>), as functions from what they are
  given to what they show. Scores and times are shown as the backend sends them; snapshots are those of \<open>CodeHistory\<close>.
\<close>

section \<open>The result of a submission\<close>

text \<open>The rest of a \<open>SubmitResult\<close>, beside the fields the workspace reads.\<close>

record panel_result = work_result +
  sp_queuePosition :: jsv
  sp_error :: jsv
  sp_improvedBest :: bool
  sp_previousBest :: jsv
  sp_compileError :: jsv
  sp_subtasks :: "subtask_result list"

definition evaluating :: "panel_result option \<Rightarrow> bool \<Rightarrow> bool" where
  "evaluating result submitting \<longleftrightarrow> isEvaluating (map_option work_result.truncate result) submitting"

definition queue_line :: "panel_result option \<Rightarrow> string" where
  "queue_line result =
     queueMsg (map_option work_result.truncate result) (case result of None \<Rightarrow> Undefined | Some r \<Rightarrow> sp_queuePosition r)"

definition panel_badge :: "jsv \<Rightarrow> bool \<Rightarrow> (jsv \<times> tone) option" where
  "panel_badge verdict good =
     (if \<not> truthy verdict then None
      else case map_of VERDICT_DETAILS (js_String verdict) of
             Some (label, tone) \<Rightarrow> Some (Str label, tone)
           | None \<Rightarrow> Some (verdict, if good then Success else Destructive))"

record subtask_row =
  row_id :: jsv
  row_passed :: bool
  row_verdict :: "(jsv \<times> tone) option"
  row_time_ms :: "jsnum option"
  row_points :: string

definition subtask_row_of :: "subtask_result \<Rightarrow> subtask_row" where
  "subtask_row_of t =
     \<lparr>row_id = st_id t, row_passed = st_passed t, row_verdict = panel_badge (st_verdict t) (st_passed t),
      row_time_ms = (case st_timeMs t of Num n \<Rightarrow> Some n | _ \<Rightarrow> None),
      row_points = js_String (st_earned t) @ ''/'' @ js_String (st_points t) @ '' XP''\<rparr>"

record verdict_view =
  vv_score :: string
  vv_badge :: "(jsv \<times> tone) option"
  vv_breakdown :: "string option"
  vv_best :: "jsv option"
  vv_compileError :: "(string \<times> jsv) option"
  vv_rows :: "subtask_row list"

datatype result_panel = EvaluatingPanel string "int option" | PromptPanel | ErrorPanel jsv | VerdictPanel verdict_view

definition SubmissionResult :: "panel_result option \<Rightarrow> bool \<Rightarrow> string option \<Rightarrow> int option \<Rightarrow> int option \<Rightarrow> result_panel" where
  "SubmissionResult result submitting statusMessage testsDone testsTotal =
     (if evaluating result submitting
      then EvaluatingPanel (case statusMessage of None \<Rightarrow> queue_line result | Some m \<Rightarrow> if m = [] then queue_line result else m)
             (progressPct testsDone testsTotal)
      else case result of
             None \<Rightarrow> PromptPanel
           | Some r \<Rightarrow>
               if truthy (sp_error r) then ErrorPanel (sp_error r)
               else VerdictPanel
                 \<lparr>vv_score = js_String (wr_score r) @ '' / '' @ js_String (wr_maxScore r) @ '' XP'',
                  vv_badge = panel_badge (wr_verdict r) (wr_verdict r = Str ''AC''),
                  vv_breakdown = summarizeSubtasks (sp_subtasks r),
                  vv_best = (if sp_improvedBest r then None else Some (sp_previousBest r)),
                  vv_compileError =
                    (if truthy (sp_compileError r)
                     then Some (if wr_verdict r = Str ''CE'' then ''Compilation error:'' else ''Evaluation error:'', sp_compileError r)
                     else None),
                  vv_rows = map subtask_row_of (sp_subtasks r)\<rparr>)"

section \<open>Input and output\<close>

record shown_run =
  ru_verdict :: jsv
  ru_timeMs :: jsv
  ru_memoryKb :: "nat option"
  ru_exitCode :: jsv
  ru_stdout :: string
  ru_stderr :: string
  ru_compileError :: string

definition run_tone :: "jsv \<Rightarrow> tone" where
  "run_tone verdict =
     (if verdict = Str ''AC'' then Success
      else if verdict = Str ''TLE'' \<or> verdict = Str ''MLE'' \<or> verdict = Str ''SK'' then Warning else Destructive)"

text \<open>\<open>(memoryKb / 1024).toFixed(1)\<close>: tenths, rounded half up.\<close>

definition memory_mb :: "nat \<Rightarrow> string" where
  "memory_mb kb = (let tenths = (20 * kb + 1024) div 2048 in show_nat (tenths div 10) @ ''.'' @ show_nat (tenths mod 10) @ '' MB'')"

definition output_header :: "shown_run \<Rightarrow> (jsv \<times> tone) option \<times> string \<times> string option \<times> string \<times> bool" where
  "output_header r =
     ((if truthy (ru_verdict r) then Some (ru_verdict r, run_tone (ru_verdict r)) else None),
      js_String (ru_timeMs r) @ '' ms'',
      (case ru_memoryKb r of Some kb \<Rightarrow> if 0 < kb then Some (memory_mb kb) else None | None \<Rightarrow> None),
      ''exit '' @ js_String (ru_exitCode r), ru_exitCode r = IntV 0)"

datatype output_part = RunningLine | ClickRunLine | CompileErrorBox string | StdoutText string | StderrBox string string | NoOutputLine

definition OutputBody :: "shown_run option \<Rightarrow> bool \<Rightarrow> output_part list" where
  "OutputBody result running =
     (if running then [RunningLine]
      else case result of
             None \<Rightarrow> [ClickRunLine]
           | Some r \<Rightarrow>
               (if ru_compileError r \<noteq> [] then [CompileErrorBox (ru_compileError r)] else []) @
               (if ru_stdout r \<noteq> [] then [StdoutText (ru_stdout r)] else []) @
               (if ru_stderr r \<noteq> [] \<and> ru_compileError r = []
                then [StderrBox (if ru_verdict r = Str ''TLE'' then ''Time limit exceeded''
                                 else if ru_verdict r = Str ''MLE'' then ''Memory limit exceeded''
                                 else if ru_verdict r = Str ''OLE'' then ''Output limit exceeded'' else ''Stderr output'')
                        (ru_stderr r)] else []) @
               (if ru_stdout r = [] \<and> ru_stderr r = [] \<and> ru_compileError r = [] then [NoOutputLine] else []))"

definition clear_offered :: "string \<Rightarrow> bool" where
  "clear_offered stdin \<longleftrightarrow> stdin \<noteq> []"

section \<open>The history panel\<close>

record history_panel =
  hp_open :: bool
  hp_filter :: string
  hp_selectedId :: jsv
  hp_copied :: bool

definition history_panel_start :: "bool \<Rightarrow> history_panel" where
  "history_panel_start isOpen = \<lparr>hp_open = isOpen, hp_filter = ''all'', hp_selectedId = Null, hp_copied = False\<rparr>"

definition shown_snapshot :: "history_panel \<Rightarrow> jsv list \<Rightarrow> jsv option" where
  "shown_snapshot p snapshots = selected_snapshot (hp_filter p) (hp_selectedId p) snapshots"

datatype history_event = ShowTrigger string | PickSnapshot nat | CopyDone | CopyShownOver | RestoreClick | PanelOpen bool

text \<open>A step of the panel, with the snapshot it hands to the workspace; a click lands on a row of the list shown.\<close>

definition history_panel_event :: "jsv list \<Rightarrow> history_event \<Rightarrow> history_panel \<Rightarrow> history_panel \<times> jsv option" where
  "history_panel_event snapshots ev p =
     (case ev of
        ShowTrigger f \<Rightarrow> (p\<lparr>hp_filter := f\<rparr>, None)
      | PickSnapshot i \<Rightarrow>
          (if i < length (filteredSnapshots (hp_filter p) snapshots)
           then p\<lparr>hp_selectedId := get_opt (filteredSnapshots (hp_filter p) snapshots ! i) ''id''\<rparr> else p, None)
      | CopyDone \<Rightarrow> (if shown_snapshot p snapshots = None then p else p\<lparr>hp_copied := True\<rparr>, None)
      | CopyShownOver \<Rightarrow> (p\<lparr>hp_copied := False\<rparr>, None)
      | RestoreClick \<Rightarrow>
          (case shown_snapshot p snapshots of None \<Rightarrow> (p, None) | Some s \<Rightarrow> (p\<lparr>hp_open := False\<rparr>, Some s))
      | PanelOpen b \<Rightarrow> (p\<lparr>hp_open := b\<rparr>, None))"

text \<open>\<open>Math.round\<close> of a quotient of whole numbers.\<close>

definition round_div :: "int \<Rightarrow> int \<Rightarrow> int" where
  "round_div a b = (2 * a + b) div (2 * b)"

definition relativeTime :: "int \<Rightarrow> int \<Rightarrow> string" where
  "relativeTime now t =
     (let seconds = round_div (now - t) 1000; minutes = round_div seconds 60; hours = round_div minutes 60
      in if seconds < 60 then ''just now''
         else if minutes < 60 then show_int minutes @ ''m ago''
         else if hours < 24 then show_int hours @ ''h ago''
         else show_int (round_div hours 24) @ ''d ago'')"

definition preview_lines :: "jsv \<Rightarrow> nat" where
  "preview_lines s = length (split_char (CHR 0x0A) (js_String (get_opt s ''code'')))"

section \<open>What the panels guarantee\<close>

text \<open>
  the result panel never shows a verdict early or an old one late. It shows the evaluation exactly while a submission
  is being sent or its result is queued or running without a final verdict; a score is shown only of a result without
  error, and then all its tests are listed in their order; and a progress bar is between 0 and 100.
\<close>

theorem result_panel_stage:
  "((\<exists>m b. SubmissionResult result submitting msg n tests = EvaluatingPanel m b) \<longleftrightarrow> evaluating result submitting) \<and>
   (\<forall>v. SubmissionResult result submitting msg n tests = VerdictPanel v \<longrightarrow>
      \<not> submitting \<and> (\<exists>r. result = Some r \<and> \<not> truthy (sp_error r) \<and> map row_id (vv_rows v) = map st_id (sp_subtasks r))) \<and>
   (\<forall>m b. SubmissionResult result submitting msg n tests = EvaluatingPanel m (Some b) \<longrightarrow> b \<le> 100)"
  by (auto simp: SubmissionResult_def evaluating_def isEvaluating_def progressPct_def subtask_row_of_def split: option.splits if_splits)

theorem result_panel_stage_witness:
  "evaluating None True \<and> (\<exists>m b. SubmissionResult None True None (Some 3) (Some 4) = EvaluatingPanel m b)"
  using result_panel_stage [of None True None "Some 3" "Some 4"] by (simp add: evaluating_def isEvaluating_def)

text \<open>The bar never goes back while more tests are done, and is full when all are.\<close>

lemma progress_monotone: "m \<le> n \<Longrightarrow> progressPct (Some m) (Some t) = Some p \<Longrightarrow> progressPct (Some n) (Some t) = Some q \<Longrightarrow> p \<le> q"
  by (auto simp: progressPct_def split: if_splits intro!: min.mono zdiv_mono1)

lemma progress_full: "0 < t \<Longrightarrow> progressPct (Some t) (Some t) = Some 100"
proof -
  assume "0 < t"
  then have "(200 * t + t) div (2 * t) = 201 div 2"
    using div_mult_mult2 [of t 201 2] by (simp add: algebra_simps)
  then show ?thesis using \<open>0 < t\<close> by (simp add: progressPct_def)
qed

text \<open>Nothing a program wrote is lost, but its errors while the compiler's are shown; with nothing at all the panel says so.\<close>

theorem output_shown:
  "ru_stdout r \<noteq> [] \<Longrightarrow> StdoutText (ru_stdout r) \<in> set (OutputBody (Some r) False)"
  "ru_compileError r \<noteq> [] \<Longrightarrow> CompileErrorBox (ru_compileError r) \<in> set (OutputBody (Some r) False)"
  "ru_stderr r \<noteq> [] \<Longrightarrow> (\<exists>l. StderrBox l (ru_stderr r) \<in> set (OutputBody (Some r) False)) \<longleftrightarrow> ru_compileError r = []"
  "OutputBody (Some r) False = [NoOutputLine] \<longleftrightarrow> ru_stdout r = [] \<and> ru_stderr r = [] \<and> ru_compileError r = []"
  by (auto simp: OutputBody_def)

text \<open>
  what is restored is what is seen. A click on restore hands on the snapshot whose preview is open, which is one of the
  snapshots the filter lets through, and closes the panel; with a snapshot picked from the list and the filter unchanged
  it is one with the picked id; and there is something to restore exactly when the list is not empty.
\<close>

theorem restores_what_is_seen:
  "snd (history_panel_event snapshots RestoreClick p) = shown_snapshot p snapshots \<and>
   (shown_snapshot p snapshots = None \<longleftrightarrow> filteredSnapshots (hp_filter p) snapshots = []) \<and>
   (\<forall>s. shown_snapshot p snapshots = Some s \<longrightarrow>
      s \<in> set snapshots \<and> (hp_filter p = ''all'' \<or> get_opt s ''trigger'' = Str (hp_filter p)) \<and>
      \<not> hp_open (fst (history_panel_event snapshots RestoreClick p))) \<and>
   (i < length (filteredSnapshots (hp_filter p) snapshots) \<longrightarrow>
      (\<exists>s. shown_snapshot (fst (history_panel_event snapshots (PickSnapshot i) p)) snapshots = Some s \<and>
           get_opt s ''id'' = get_opt (filteredSnapshots (hp_filter p) snapshots ! i) ''id''))"
proof (intro conjI allI impI)
  let ?shown = "filteredSnapshots (hp_filter p) snapshots"
  show "snd (history_panel_event snapshots RestoreClick p) = shown_snapshot p snapshots"
    by (simp add: history_panel_event_def split: option.split)
  show "shown_snapshot p snapshots = None \<longleftrightarrow> ?shown = []"
    by (auto simp: shown_snapshot_def selected_snapshot_def Let_def dest: find_in_list split: option.splits list.splits)
  show "s \<in> set snapshots" "hp_filter p = ''all'' \<or> get_opt s ''trigger'' = Str (hp_filter p)"
      "\<not> hp_open (fst (history_panel_event snapshots RestoreClick p))"
    if "shown_snapshot p snapshots = Some s" for s
    using selected_is_shown [OF that [unfolded shown_snapshot_def]] that by (auto simp: filteredSnapshots_def history_panel_event_def)
  assume i: "i < length ?shown"
  let ?P = "\<lambda>s. get_opt s ''id'' = get_opt (?shown ! i) ''id''"
  have "List.find ?P ?shown \<noteq> None"
    unfolding find_None_iff using nth_mem [OF i] by metis
  then obtain s where s: "List.find ?P ?shown = Some s" by (meson not_None_eq)
  then have "?P s" by (auto simp: find_Some_iff)
  with s i show "\<exists>s. shown_snapshot (fst (history_panel_event snapshots (PickSnapshot i) p)) snapshots = Some s \<and> ?P s"
    by (intro exI [of _ s]) (simp add: shown_snapshot_def selected_snapshot_def history_panel_event_def)
qed

theorem restores_what_is_seen_witness:
  "shown_snapshot (history_panel_start True) [Obj [(''id'', Str ''b''), (''trigger'', Str ''ran'')], Obj [(''id'', Str ''a''), (''trigger'', Str ''submitted'')]] =
     Some (Obj [(''id'', Str ''b''), (''trigger'', Str ''ran'')]) \<and>
   snd (history_panel_event [Obj [(''id'', Str ''b''), (''trigger'', Str ''ran'')], Obj [(''id'', Str ''a''), (''trigger'', Str ''submitted'')]]
     RestoreClick (history_panel_start True)) = Some (Obj [(''id'', Str ''b''), (''trigger'', Str ''ran'')])"
proof -
  let ?ss = "[Obj [(''id'', Str ''b''), (''trigger'', Str ''ran'')], Obj [(''id'', Str ''a''), (''trigger'', Str ''submitted'')]]"
  have "shown_snapshot (history_panel_start True) ?ss = Some (Obj [(''id'', Str ''b''), (''trigger'', Str ''ran'')])"
    by (simp add: shown_snapshot_def selected_snapshot_def history_panel_start_def filteredSnapshots_def)
  then show ?thesis using restores_what_is_seen [of ?ss "history_panel_start True" 0] by simp
qed

text \<open>The chips count every snapshot once, as long as each was taken by one of the three triggers.\<close>

lemma triggers_counted:
  "list_all (\<lambda>s. get_opt s ''trigger'' \<in> {Str ''submitted'', Str ''autosave'', Str ''ran''}) snapshots \<Longrightarrow>
     (case snapshot_counts snapshots of (a, b, c) \<Rightarrow> a + b + c = length snapshots)"
  by (induction snapshots) (auto simp: snapshot_counts_def filteredSnapshots_def)

text \<open>A time shown in minutes is one of 1 to 59, in hours of 1 to 23.\<close>

lemma round_div_ge:
  assumes "0 < b" and "k * b \<le> a"
  shows "k \<le> round_div a b"
proof -
  have "(2 * (k * b)) div (2 * b) \<le> (2 * a + b) div (2 * b)" using assms by (intro zdiv_mono1) simp_all
  then show ?thesis using assms(1) by (simp add: round_div_def)
qed

theorem relative_time_ranges:
  "relativeTime now t = ''just now'' \<or>
   (\<exists>m. relativeTime now t = show_int m @ ''m ago'' \<and> 1 \<le> m \<and> m < 60) \<or>
   (\<exists>h. relativeTime now t = show_int h @ ''h ago'' \<and> 1 \<le> h \<and> h < 24) \<or>
   (\<exists>d. relativeTime now t = show_int d @ ''d ago'' \<and> 1 \<le> d)"
proof -
  define s where "s = round_div (now - t) 1000"
  define m where "m = round_div s 60"
  define h where "h = round_div m 60"
  have "60 \<le> s \<Longrightarrow> 1 \<le> m" "60 \<le> m \<Longrightarrow> 1 \<le> h" "24 \<le> h \<Longrightarrow> 1 \<le> round_div h 24"
    using round_div_ge [of 60 1 s] round_div_ge [of 60 1 m] round_div_ge [of 24 1 h] by (simp_all add: m_def h_def)
  then show ?thesis
    unfolding relativeTime_def Let_def s_def [symmetric] m_def [symmetric] h_def [symmetric]
    by (cases "s < 60"; cases "m < 60"; cases "h < 24"; simp add: not_less; blast)
qed

end
