(* ===== verification/TimerDock.thy ===== *)
theory TimerDock
  imports ContestHeader
begin

text \<open>
  The projector page around its clock (all under \<open>admin-frontend/src/components/timer\<close>): what the display shows
  (\<open>countdown-display.tsx\<close>), the dock with its dialogs (\<open>timer-control-dock.tsx\<close>), the commands and the confirmations of the
  page (\<open>contest-timer-client.tsx\<close>) and the tones it plays (\<open>timer-audio.ts\<close>). The clock itself is in \<open>ContestTimer\<close>.
  Counts are whole seconds; the local form of a time of day is the parameter \<open>loc\<close>. A dialog that is open keeps clicks from
  the page behind it, as the dialogs of the component library do; the shortcuts still reach the window.
\<close>

section \<open>The display\<close>

definition formatClockTime :: "(int \<Rightarrow> string) \<Rightarrow> jsv \<Rightarrow> string" where
  "formatClockTime loc isoString =
     (if \<not> truthy isoString then ''--:--:--''
      else case date_time isoString of Fin t \<Rightarrow> loc \<lfloor>t\<rfloor> | _ \<Rightarrow> ''Invalid Date'')"

datatype display_badge = ReadyToStart | ContestLive | UnderTenMinutes | FinalMinute | ContestPaused | ContestConcluded | ScoreboardFrozen

definition display_badges :: "contest_state \<Rightarrow> int \<Rightarrow> display_badge list" where
  "display_badges c remaining =
     (let running = has_status ''RUNNING'' c; u = urgency_of running remaining
      in (if has_status ''NOT_STARTED'' c then [ReadyToStart] else []) @
         (if running \<and> u = Calm then [ContestLive] else []) @
         (if running \<and> u = Urgent then [UnderTenMinutes] else []) @
         (if running \<and> u = Critical then [FinalMinute] else []) @
         (if has_status ''PAUSED'' c then [ContestPaused] else []) @
         (if has_status ''ENDED'' c then [ContestConcluded] else []) @
         (if cs_is_frozen c then [ScoreboardFrozen] else []))"

definition progressPercent :: "contest_state \<Rightarrow> int \<Rightarrow> int \<Rightarrow> rat" where
  "progressPercent c durationSeconds elapsed =
     (let total = max 1 durationSeconds
      in if has_status ''NOT_STARTED'' c then 0 else if has_status ''ENDED'' c then 100
         else min 100 (max 0 (of_int (max 0 elapsed) / of_int total * 100)))"

record countdown_view =
  cv_badges :: "display_badge list"
  cv_digits :: "string \<times> string \<times> string"
  cv_progress :: rat
  cv_elapsed :: string
  cv_duration :: string
  cv_started :: string
  cv_targetEnd :: string

definition digit_blocks :: "int \<Rightarrow> string \<times> string \<times> string" where
  "digit_blocks n = (case countdown_fields n of (h, m, s) \<Rightarrow> (pad_number h, pad_number m, pad_number s))"

definition CountdownDisplay :: "(int \<Rightarrow> string) \<Rightarrow> contest_state \<Rightarrow> int \<Rightarrow> int \<Rightarrow> int \<Rightarrow> countdown_view" where
  "CountdownDisplay loc c durationSeconds remaining elapsed =
     \<lparr>cv_badges = display_badges c remaining, cv_digits = digit_blocks remaining,
      cv_progress = progressPercent c durationSeconds elapsed,
      cv_elapsed = (case digit_blocks elapsed of (h, m, s) \<Rightarrow> h @ '':'' @ m @ '':'' @ s),
      cv_duration = formatTotalDurationMinutes durationSeconds,
      cv_started = formatClockTime loc (cs_start_time c), cv_targetEnd = formatClockTime loc (cs_end_time c)\<rparr>"

section \<open>The dock\<close>

datatype dock_button =
    StartButton | PauseButton | ResumeButton | FreezeButton | UnfreezeButton | EndButton | ExtendButton nat | CustomButton
  | SettingsButton | ResetButton | AudioButton | CleanButton | FullscreenButton | RestoreButton

definition DOCK_EXTENSIONS :: "nat list" where
  "DOCK_EXTENSIONS = [5, 10, 15, 30, 60]"

text \<open>The buttons in their order, and whether a running command disables them. In clean mode one button is left.\<close>

definition dock_toggles :: "dock_button list" where
  "dock_toggles = [AudioButton, CleanButton, FullscreenButton]"

definition dock_controls :: "contest_state \<Rightarrow> dock_button list" where
  "dock_controls c =
     (if has_status ''NOT_STARTED'' c then [StartButton] else []) @ (if has_status ''RUNNING'' c then [PauseButton] else []) @
     (if has_status ''PAUSED'' c then [ResumeButton] else []) @
     (if isLive c then [if cs_is_frozen c then UnfreezeButton else FreezeButton, EndButton] else []) @
     (if canExtend c then map ExtendButton DOCK_EXTENSIONS @ [CustomButton] else []) @ [SettingsButton, ResetButton]"

definition dock_offered :: "bool \<Rightarrow> bool \<Rightarrow> contest_state \<Rightarrow> dock_button list" where
  "dock_offered isCleanMode isLoading c =
     (if isCleanMode then [RestoreButton] else dock_toggles @ (if isLoading then [] else dock_controls c))"

record dock =
  dk_startOpen :: bool
  dk_startInput :: string
  dk_extendOpen :: bool
  dk_extendInput :: string

definition dock_start :: dock where
  "dock_start = \<lparr>dk_startOpen = False, dk_startInput = ''120'', dk_extendOpen = False, dk_extendInput = ''15''\<rparr>"

definition START_PRESETS :: "string list" where
  "START_PRESETS = [''60'', ''90'', ''120'', ''150'', ''180'', ''240'']"

section \<open>The commands of the page\<close>

datatype timer_action = DoStart "int option" | DoPause | DoResume | DoExtend int | DoFreeze | DoUnfreeze | DoEnd | DoReset

definition action_call :: "parser \<Rightarrow> timer_action \<Rightarrow> contest_state io" where
  "action_call sp a =
     (case a of
        DoStart dur \<Rightarrow> startContestAction sp (int_or_undefined dur)
      | DoPause \<Rightarrow> pauseContestAction | DoResume \<Rightarrow> resumeContestAction
      | DoExtend mins \<Rightarrow> extendContestAction sp (IntV mins)
      | DoFreeze \<Rightarrow> freezeContestAction | DoUnfreeze \<Rightarrow> unfreezeContestAction
      | DoEnd \<Rightarrow> endContestAction | DoReset \<Rightarrow> resetContestAction)"

definition complete_sound :: "timer_action \<Rightarrow> sound option" where
  "complete_sound a = (case a of DoStart _ \<Rightarrow> Some StartSound | DoResume \<Rightarrow> Some StartSound | DoEnd \<Rightarrow> Some Buzzer | _ \<Rightarrow> None)"

text \<open>A command under way, with whether sounds were on when it was given; or the saving of the settings.\<close>

datatype timer_job = Command timer_action bool | SaveSettings

record timer_page =
  tg_timer :: timer
  tg_dock :: dock
  tg_endOpen :: bool
  tg_resetOpen :: bool
  tg_fullscreen :: bool
  tg_jobs :: "timer_job list"
  tg_given :: "timer_action list"

definition page_start :: "contest_state \<Rightarrow> int \<Rightarrow> timer_page" where
  "page_start c date_now = \<lparr>tg_timer = timer_start c date_now, tg_dock = dock_start, tg_endOpen = False, tg_resetOpen = False,
     tg_fullscreen = False, tg_jobs = [], tg_given = []\<rparr>"

definition give :: "timer_action \<Rightarrow> timer_page \<Rightarrow> timer_page" where
  "give a p = p\<lparr>tg_jobs := tg_jobs p @ [Command a (tm_isAudioEnabled (tg_timer p))], tg_given := tg_given p @ [a],
                tg_timer := executeAction_start (tg_timer p)\<rparr>"

text \<open>\<open>onOpenSettings\<close> takes the title, the length and the freeze from the state; the other fields keep what they hold.\<close>

definition onOpenSettings :: "timer \<Rightarrow> timer" where
  "onOpenSettings t =
     t\<lparr>tm_settingsOpen := True,
       tm_settings := (tm_settings t)\<lparr>sf_title := cs_title (tm_state t),
         sf_duration := num_text (num_floor_div (cs_duration_seconds (tm_state t)) 60),
         sf_freeze := num_text (cs_freeze_minutes (tm_state t))\<rparr>\<rparr>"

definition toggle_audio :: "timer \<Rightarrow> timer" where
  "toggle_audio t = t\<lparr>tm_isAudioEnabled := \<not> tm_isAudioEnabled t\<rparr>"

definition toggle_clean :: "timer \<Rightarrow> timer" where
  "toggle_clean t = t\<lparr>tm_isCleanMode := \<not> tm_isCleanMode t\<rparr>"

text \<open>\<open>toggleFullscreen\<close>, with whether the browser grants it; a refusal is shown as if it had been granted.\<close>

definition toggleFullscreen :: "bool \<Rightarrow> timer_page \<Rightarrow> timer_page" where
  "toggleFullscreen has_element p = p\<lparr>tg_fullscreen := \<not> has_element\<rparr>"

definition dock_press :: "bool \<Rightarrow> dock_button \<Rightarrow> timer_page \<Rightarrow> timer_page" where
  "dock_press has_element b p =
     (case b of
        StartButton \<Rightarrow> p\<lparr>tg_dock := (tg_dock p)\<lparr>dk_startOpen := True\<rparr>\<rparr>
      | PauseButton \<Rightarrow> give DoPause p
      | ResumeButton \<Rightarrow> give DoResume p
      | FreezeButton \<Rightarrow> give DoFreeze p
      | UnfreezeButton \<Rightarrow> give DoUnfreeze p
      | EndButton \<Rightarrow> p\<lparr>tg_endOpen := True\<rparr>
      | ExtendButton m \<Rightarrow> give (DoExtend (int m)) p
      | CustomButton \<Rightarrow> p\<lparr>tg_dock := (tg_dock p)\<lparr>dk_extendOpen := True\<rparr>\<rparr>
      | SettingsButton \<Rightarrow> p\<lparr>tg_timer := onOpenSettings (tg_timer p)\<rparr>
      | ResetButton \<Rightarrow> p\<lparr>tg_resetOpen := True\<rparr>
      | AudioButton \<Rightarrow> p\<lparr>tg_timer := toggle_audio (tg_timer p)\<rparr>
      | CleanButton \<Rightarrow> p\<lparr>tg_timer := toggle_clean (tg_timer p)\<rparr>
      | RestoreButton \<Rightarrow> p\<lparr>tg_timer := toggle_clean (tg_timer p)\<rparr>
      | FullscreenButton \<Rightarrow> toggleFullscreen has_element p)"

text \<open>What the open dialogs do: typing, a preset, closing, and confirming.\<close>

definition confirm_start :: "timer_page \<Rightarrow> timer_page" where
  "confirm_start p = give (DoStart (handleConfirmStart (dk_startInput (tg_dock p)))) (p\<lparr>tg_dock := (tg_dock p)\<lparr>dk_startOpen := False\<rparr>\<rparr>)"

definition confirm_extend :: "timer_page \<Rightarrow> timer_page" where
  "confirm_extend p =
     (case handleConfirmCustomExtend (dk_extendInput (tg_dock p)) of
        None \<Rightarrow> p
      | Some mins \<Rightarrow> give (DoExtend mins) (p\<lparr>tg_dock := (tg_dock p)\<lparr>dk_extendOpen := False\<rparr>\<rparr>))"

definition confirm_end :: "timer_page \<Rightarrow> timer_page" where
  "confirm_end p = give DoEnd (p\<lparr>tg_endOpen := False\<rparr>)"

definition confirm_reset :: "timer_page \<Rightarrow> timer_page" where
  "confirm_reset p = give DoReset (p\<lparr>tg_resetOpen := False\<rparr>)"

definition save_settings :: "timer_page \<Rightarrow> timer_page" where
  "save_settings p = p\<lparr>tg_jobs := tg_jobs p @ [SaveSettings], tg_timer := executeAction_start (tg_timer p)\<rparr>"

definition job_settle :: "int \<Rightarrow> exn + unit \<Rightarrow> exn + contest_state \<Rightarrow> timer_job \<Rightarrow> timer_page \<Rightarrow> timer_page" where
  "job_settle date_now outcome answer j p =
     p\<lparr>tg_jobs := remove1 j (tg_jobs p),
       tg_timer := (case j of
          Command a audible \<Rightarrow> executeAction_settle audible date_now outcome (complete_sound a) answer (tg_timer p)
        | SaveSettings \<Rightarrow> saveSettings_settle date_now outcome answer (tg_timer p))\<rparr>"

definition page_modal :: "timer_page \<Rightarrow> bool" where
  "page_modal p \<longleftrightarrow> dk_startOpen (tg_dock p) \<or> dk_extendOpen (tg_dock p) \<or> tg_endOpen p \<or> tg_resetOpen p \<or> tm_settingsOpen (tg_timer p)"

inductive page_step :: "timer_page \<Rightarrow> timer_page \<Rightarrow> bool" where
  Pressed: "\<not> page_modal p \<Longrightarrow> b \<in> set (dock_offered (tm_isCleanMode (tg_timer p)) (tm_isLoading (tg_timer p)) (tm_state (tg_timer p))) \<Longrightarrow>
    page_step p (dock_press has_element b p)"
| StartTyped: "dk_startOpen (tg_dock p) \<Longrightarrow> page_step p (p\<lparr>tg_dock := (tg_dock p)\<lparr>dk_startInput := t\<rparr>\<rparr>)"
| StartClosed: "page_step p (p\<lparr>tg_dock := (tg_dock p)\<lparr>dk_startOpen := False\<rparr>\<rparr>)"
| StartConfirmed: "dk_startOpen (tg_dock p) \<Longrightarrow> \<not> tm_isLoading (tg_timer p) \<Longrightarrow> page_step p (confirm_start p)"
| ExtendTyped: "dk_extendOpen (tg_dock p) \<Longrightarrow> page_step p (p\<lparr>tg_dock := (tg_dock p)\<lparr>dk_extendInput := t\<rparr>\<rparr>)"
| ExtendClosed: "page_step p (p\<lparr>tg_dock := (tg_dock p)\<lparr>dk_extendOpen := False\<rparr>\<rparr>)"
| ExtendConfirmed: "dk_extendOpen (tg_dock p) \<Longrightarrow> \<not> tm_isLoading (tg_timer p) \<Longrightarrow> page_step p (confirm_extend p)"
| EndClosed: "page_step p (p\<lparr>tg_endOpen := False\<rparr>)"
| EndConfirmed: "tg_endOpen p \<Longrightarrow> page_step p (confirm_end p)"
| ResetClosed: "page_step p (p\<lparr>tg_resetOpen := False\<rparr>)"
| ResetConfirmed: "tg_resetOpen p \<Longrightarrow> page_step p (confirm_reset p)"
| SettingsTyped: "tm_settingsOpen (tg_timer p) \<Longrightarrow> page_step p (p\<lparr>tg_timer := (tg_timer p)\<lparr>tm_settings := f\<rparr>\<rparr>)"
| SettingsClosed: "page_step p (p\<lparr>tg_timer := (tg_timer p)\<lparr>tm_settingsOpen := False\<rparr>\<rparr>)"
| SettingsSaved: "tm_settingsOpen (tg_timer p) \<Longrightarrow> \<not> tm_isLoading (tg_timer p) \<Longrightarrow> page_step p (save_settings p)"
| Key: "page_step p (p\<lparr>tg_timer := fst (timer_handleKeyDown in_field k (tg_timer p))\<rparr>)"
| FullscreenChanged: "page_step p (p\<lparr>tg_fullscreen := b\<rparr>)"
| Ticked: "page_step p (p\<lparr>tg_timer := timer_tick date_now (tg_timer p)\<rparr>)"
| Synced: "page_step p (p\<lparr>tg_timer := timer_sync date_now answer (tg_timer p)\<rparr>)"
| Settled: "j \<in> set (tg_jobs p) \<Longrightarrow> page_step p (job_settle date_now outcome answer j p)"


section \<open>The tones\<close>

text \<open>
  One oscillator of the Web Audio interface: its wave, the frequencies set at given times, when it starts and when it stops.
  Frequencies are in hundredths of a hertz, times in milliseconds after the moment the sound is played.
\<close>

datatype wave = Sine | Triangle | Sawtooth

record oscillator =
  os_wave :: wave
  os_frequencies :: "(nat \<times> nat) list"
  os_starts :: nat
  os_stops :: nat

definition playContestStartSound :: "oscillator list" where
  "playContestStartSound = [\<lparr>os_wave = Sine, os_frequencies = [(0, 44000), (300, 88000)], os_starts = 0, os_stops = 400\<rparr>]"

definition playContestWarningSound :: "bool \<Rightarrow> oscillator list" where
  "playContestWarningSound oneMin =
     map (\<lambda>i. let startTime = i * 180 in
            \<lparr>os_wave = Triangle, os_frequencies = [(startTime, if oneMin then 98777 else 65925)],
             os_starts = startTime, os_stops = startTime + 120\<rparr>)
       [0..<(if oneMin then 3 else 2)]"

definition playContestEndSound :: "oscillator list" where
  "playContestEndSound = [\<lparr>os_wave = Sawtooth, os_frequencies = [(0, 32963), (400, 22000)], os_starts = 0, os_stops = 1200\<rparr>]"

definition tones :: "sound \<Rightarrow> oscillator list" where
  "tones x = (case x of FiveMinutes \<Rightarrow> playContestWarningSound False | OneMinute \<Rightarrow> playContestWarningSound True
                      | Buzzer \<Rightarrow> playContestEndSound | StartSound \<Rightarrow> playContestStartSound)"

text \<open>\<open>getAudioContext\<close>: one context for the page, made at the first sound and woken when it is suspended.\<close>

datatype audio_context = NoContext | Suspended | Sounding

definition getAudioContext :: "bool \<Rightarrow> bool \<Rightarrow> audio_context \<Rightarrow> audio_context" where
  "getAudioContext in_window supported ctx =
     (if \<not> in_window then ctx else if ctx = NoContext \<and> \<not> supported then NoContext else Sounding)"

section \<open>What the page guarantees\<close>

lemma read_pad_number: "0 \<le> n \<Longrightarrow> read_nat (pad_number n) = nat n"
proof -
  have "read_nat (CHR ''0'' # t) = read_nat t" for t by (simp add: read_nat_def digit_value_def)
  then show "0 \<le> n \<Longrightarrow> read_nat (pad_number n) = nat n" by (simp add: pad_number_def Let_def show_int_def)
qed

lemma countdown_sum: "countdown_fields n = (h, m, s) \<Longrightarrow> 3600 * h + 60 * m + s = max 0 n \<and> 0 \<le> h \<and> 0 \<le> m \<and> 0 \<le> s"
proof -
  assume "countdown_fields n = (h, m, s)"
  moreover define c where "c = max 0 n"
  ultimately have *: "h = c div 3600" "m = c mod 3600 div 60" "s = c mod 60"
    by (simp_all add: countdown_fields_def Let_def)
  have c: "0 \<le> c" by (simp add: c_def)
  have "c mod 3600 mod 60 = c mod 60" by (rule mod_mod_cancel) simp
  then have "c mod 3600 = 60 * m + s" using div_mult_mod_eq [of "c mod 3600" 60] * by simp
  then have "3600 * h + 60 * m + s = c" using div_mult_mod_eq [of c 3600] *(1) by linarith
  then show ?thesis using c * by (simp add: pos_imp_zdiv_nonneg_iff flip: c_def)
qed

lemma digits_tell: "digit_blocks m = digit_blocks n \<longleftrightarrow> max 0 m = max 0 n"
proof
  obtain h1 m1 s1 where a: "countdown_fields m = (h1, m1, s1)" by (cases "countdown_fields m") auto
  obtain h2 m2 s2 where b: "countdown_fields n = (h2, m2, s2)" by (cases "countdown_fields n") auto
  assume "digit_blocks m = digit_blocks n"
  then have "pad_number h1 = pad_number h2" "pad_number m1 = pad_number m2" "pad_number s1 = pad_number s2"
    using a b by (simp_all add: digit_blocks_def)
  then have "read_nat (pad_number h1) = read_nat (pad_number h2)" "read_nat (pad_number m1) = read_nat (pad_number m2)"
    "read_nat (pad_number s1) = read_nat (pad_number s2)" by simp_all
  then have "h1 = h2" "m1 = m2" "s1 = s2" using countdown_sum [OF a] countdown_sum [OF b] by (auto simp: read_pad_number eq_nat_nat_iff)
  with countdown_sum [OF a] countdown_sum [OF b] show "max 0 m = max 0 n" by simp
qed (simp add: digit_blocks_def countdown_fields_def Let_def)

lemma progress_bounds: "0 \<le> progressPercent c d e \<and> progressPercent c d e \<le> 100"
  by (simp add: progressPercent_def Let_def)

lemma progress_rises: "progressPercent c d e \<le> progressPercent c d (e + int k)"
proof -
  have "(of_int (max 0 e) :: rat) \<le> of_int (max 0 (e + int k))" by simp
  then have "(of_int (max 0 e) :: rat) / of_int (max 1 d) * 100 \<le> of_int (max 0 (e + int k)) / of_int (max 1 d) * 100"
    by (intro mult_right_mono divide_right_mono) auto
  then have "min 100 (max 0 ((of_int (max 0 e) :: rat) / of_int (max 1 d) * 100)) \<le>
             min 100 (max 0 (of_int (max 0 (e + int k)) / of_int (max 1 d) * 100))"
    by (intro min.mono max.mono order_refl)
  then show ?thesis by (simp only: progressPercent_def Let_def if_split order_refl) simp
qed

lemma one_badge:
  "cs_status c \<in> Str ` {''NOT_STARTED'', ''RUNNING'', ''PAUSED'', ''ENDED''} \<longleftrightarrow>
     length (filter (\<lambda>b. b \<noteq> ScoreboardFrozen) (display_badges c m)) = 1"
  by (cases "urgency_of (has_status ''RUNNING'' c) m") (auto simp: display_badges_def has_status_def Let_def)

text \<open>
  the display tells any two moments apart and never lies about the phase. Two counts show the same digits exactly when
  they are the same number of seconds (a count below zero shows zero), the progress is between 0 and 100 percent and never
  falls as time passes, and in each status of the round exactly one badge beside that of the frozen board is shown.
\<close>

theorem display_faithful:
  "(digit_blocks m = digit_blocks n \<longleftrightarrow> max 0 m = max 0 n) \<and>
   0 \<le> progressPercent c d e \<and> progressPercent c d e \<le> 100 \<and>
   progressPercent c d e \<le> progressPercent c d (e + int k) \<and>
   (cs_status c \<in> Str ` {''NOT_STARTED'', ''RUNNING'', ''PAUSED'', ''ENDED''} \<longleftrightarrow>
      length (filter (\<lambda>b. b \<noteq> ScoreboardFrozen) (display_badges c m)) = 1)"
  by (intro conjI digits_tell progress_bounds [THEN conjunct1] progress_bounds [THEN conjunct2] progress_rises one_badge)

text \<open>The control of the header that a button of the dock stands for.\<close>

definition header_control :: "dock_button \<Rightarrow> control option" where
  "header_control b =
     (case b of
        StartButton \<Rightarrow> Some StartContest | PauseButton \<Rightarrow> Some PauseContest | ResumeButton \<Rightarrow> Some ResumeContest
      | FreezeButton \<Rightarrow> Some ToggleFreeze | UnfreezeButton \<Rightarrow> Some ToggleFreeze | EndButton \<Rightarrow> Some EndContest
      | ExtendButton m \<Rightarrow> Some (ExtendContest m) | SettingsButton \<Rightarrow> Some OpenSettings | ResetButton \<Rightarrow> Some ResetContest
      | _ \<Rightarrow> None)"


text \<open>
  What keeps the commands in order: at most one is under way, the buttons are disabled while it is, and no dialog that could
  give another is open meanwhile.
\<close>

definition minutes_ok :: "timer_action \<Rightarrow> bool" where
  "minutes_ok a = (case a of DoStart (Some m) \<Rightarrow> 1 \<le> m | DoExtend m \<Rightarrow> 1 \<le> m | _ \<Rightarrow> True)"

definition command_dialogs :: "timer_page \<Rightarrow> bool" where
  "command_dialogs p \<longleftrightarrow> dk_startOpen (tg_dock p) \<or> dk_extendOpen (tg_dock p) \<or> tg_endOpen p \<or> tg_resetOpen p"

definition dialog_flags :: "timer_page \<Rightarrow> bool list" where
  "dialog_flags p = [dk_startOpen (tg_dock p), dk_extendOpen (tg_dock p), tg_endOpen p, tg_resetOpen p, tm_settingsOpen (tg_timer p)]"

definition page_inv :: "timer_page \<Rightarrow> bool" where
  "page_inv p \<longleftrightarrow>
     length (tg_jobs p) \<le> 1 \<and> (tm_isLoading (tg_timer p) \<longleftrightarrow> tg_jobs p \<noteq> []) \<and> (\<forall>a \<in> set (tg_given p). minutes_ok a) \<and>
     (tg_jobs p \<noteq> [] \<longrightarrow> \<not> command_dialogs p) \<and> length (filter (\<lambda>b. b) (dialog_flags p)) \<le> 1"

named_theorems timer_flags "what the operations of the clock leave alone"

lemma tick_flags [timer_flags]:
  "tm_isLoading (timer_tick d t) = tm_isLoading t" "tm_settingsOpen (timer_tick d t) = tm_settingsOpen t"
  by (simp_all add: timer_tick_def case_prod_beta)

lemma sync_flags [timer_flags]:
  "tm_isLoading (timer_sync d a t) = tm_isLoading t" "tm_settingsOpen (timer_sync d a t) = tm_settingsOpen t"
  by (simp_all add: timer_sync_def split: sum.split)

lemma key_flags [timer_flags]:
  "tm_isLoading (fst (timer_handleKeyDown f k t)) = tm_isLoading t"
  "tm_settingsOpen (fst (timer_handleKeyDown f k t)) = tm_settingsOpen t"
  by (simp_all add: timer_handleKeyDown_def)

lemma settle_flags [timer_flags]:
  "\<not> tm_isLoading (executeAction_settle b d r x a t)" "tm_settingsOpen (executeAction_settle b d r x a t) = tm_settingsOpen t"
  "\<not> tm_isLoading (saveSettings_settle d r a t)" "tm_settingsOpen (saveSettings_settle d r a t) \<Longrightarrow> tm_settingsOpen t"
  by (auto simp: executeAction_settle_def saveSettings_settle_def timer_sync_def split: sum.splits)

lemma toggle_flags [timer_flags]:
  "tm_isLoading (toggle_audio t) = tm_isLoading t" "tm_settingsOpen (toggle_audio t) = tm_settingsOpen t"
  "tm_isLoading (toggle_clean t) = tm_isLoading t" "tm_settingsOpen (toggle_clean t) = tm_settingsOpen t"
  "tm_isLoading (onOpenSettings t) = tm_isLoading t" "tm_settingsOpen (onOpenSettings t)"
  "tm_isLoading (executeAction_start t)" "tm_settingsOpen (executeAction_start t) = tm_settingsOpen t"
  by (simp_all add: toggle_audio_def toggle_clean_def onOpenSettings_def executeAction_start_def)

lemma page_inv_start: "page_inv (page_start c d)"
  by (simp add: page_inv_def page_start_def timer_start_def dock_start_def command_dialogs_def dialog_flags_def)

lemma give_inv:
  assumes "page_inv p" "tg_jobs p = []" "minutes_ok a" "\<not> command_dialogs p"
  shows "page_inv (give a p)"
  using assms by (auto simp: page_inv_def give_def command_dialogs_def dialog_flags_def timer_flags)

text \<open>Closing dialogs and changing what they or the clock hold keeps the order; so does opening one when none is open.\<close>

lemma page_inv_weaken:
  assumes "page_inv p" and "tg_jobs q = tg_jobs p" "tg_given q = tg_given p" "tm_isLoading (tg_timer q) = tm_isLoading (tg_timer p)"
    and "dk_startOpen (tg_dock q) \<Longrightarrow> dk_startOpen (tg_dock p)" "dk_extendOpen (tg_dock q) \<Longrightarrow> dk_extendOpen (tg_dock p)"
    and "tg_endOpen q \<Longrightarrow> tg_endOpen p" "tg_resetOpen q \<Longrightarrow> tg_resetOpen p"
    and "tm_settingsOpen (tg_timer q) \<Longrightarrow> tm_settingsOpen (tg_timer p)"
  shows "page_inv q"
  using assms by (auto simp: page_inv_def command_dialogs_def dialog_flags_def split: if_splits)

lemma page_inv_open:
  assumes "page_inv p" "tg_jobs p = []" "tg_jobs q = tg_jobs p" "tg_given q = tg_given p"
    and "tm_isLoading (tg_timer q) = tm_isLoading (tg_timer p)" "length (filter (\<lambda>b. b) (dialog_flags q)) \<le> 1"
  shows "page_inv q"
  using assms by (simp add: page_inv_def)

lemma offered_command:
  assumes "b \<in> set (dock_offered clean loading c)" "b \<notin> {RestoreButton, AudioButton, CleanButton, FullscreenButton}"
  shows "\<not> loading \<and> (\<forall>m. b = ExtendButton m \<longrightarrow> 1 \<le> m)"
  using assms by (auto simp: dock_offered_def dock_toggles_def dock_controls_def DOCK_EXTENSIONS_def split: if_splits)

lemma dock_press_inv:
  assumes inv: "page_inv p" and modal: "\<not> page_modal p"
    and b: "b \<in> set (dock_offered (tm_isCleanMode (tg_timer p)) (tm_isLoading (tg_timer p)) (tm_state (tg_timer p)))"
  shows "page_inv (dock_press e b p)"
proof (cases "b \<in> {RestoreButton, AudioButton, CleanButton, FullscreenButton}")
  case True
  then show ?thesis
    by (auto intro!: page_inv_weaken [OF inv] simp: dock_press_def toggleFullscreen_def timer_flags)
next
  case False
  note ready = offered_command [OF b False]
  have jobs: "tg_jobs p = []" using inv ready by (simp add: page_inv_def)
  have none_open: "\<not> command_dialogs p" "dialog_flags p = replicate 5 False"
    using modal by (simp_all add: page_modal_def command_dialogs_def dialog_flags_def numeral_eq_Suc)
  note gives = give_inv [OF inv jobs _ none_open(1)]
  note opens = page_inv_open [OF inv jobs]
  have flags: "\<not> dk_startOpen (tg_dock p)" "\<not> dk_extendOpen (tg_dock p)" "\<not> tg_endOpen p" "\<not> tg_resetOpen p"
    "\<not> tm_settingsOpen (tg_timer p)" using modal by (simp_all add: page_modal_def)
  show ?thesis
    by (cases b) (use False ready flags in \<open>auto simp: dock_press_def minutes_ok_def dialog_flags_def timer_flags intro: gives opens\<close>)
qed

text \<open>A dialog that gives a command is the only one open, and nothing is under way.\<close>

lemma confirm_ready:
  assumes "page_inv p" "command_dialogs p"
  shows "tg_jobs p = []"
  using assms by (auto simp: page_inv_def)

lemma confirm_give:
  assumes inv: "page_inv p" and jobs: "tg_jobs p = []" and ok: "minutes_ok a" and q: "page_inv q" "tg_jobs q = tg_jobs p"
    "\<not> command_dialogs q"
  shows "page_inv (give a q)"
  using give_inv [OF q(1) _ ok q(3)] q(2) jobs by simp

lemma minutes_read: "minutes_ok (DoStart (handleConfirmStart t))" "handleConfirmCustomExtend t = Some m \<Longrightarrow> minutes_ok (DoExtend m)"
  by (auto simp: minutes_ok_def handleConfirmStart_def handleConfirmCustomExtend_def split: option.splits if_splits)

lemma only_open:
  assumes "page_inv p"
  shows "dk_startOpen (tg_dock p) \<Longrightarrow> \<not> dk_extendOpen (tg_dock p) \<and> \<not> tg_endOpen p \<and> \<not> tg_resetOpen p"
    and "dk_extendOpen (tg_dock p) \<Longrightarrow> \<not> dk_startOpen (tg_dock p) \<and> \<not> tg_endOpen p \<and> \<not> tg_resetOpen p"
    and "tg_endOpen p \<Longrightarrow> \<not> dk_startOpen (tg_dock p) \<and> \<not> dk_extendOpen (tg_dock p) \<and> \<not> tg_resetOpen p"
    and "tg_resetOpen p \<Longrightarrow> \<not> dk_startOpen (tg_dock p) \<and> \<not> dk_extendOpen (tg_dock p) \<and> \<not> tg_endOpen p"
    and "tm_settingsOpen (tg_timer p) \<Longrightarrow> \<not> command_dialogs p"
  using assms by (auto simp: page_inv_def dialog_flags_def command_dialogs_def split: if_splits)

lemma closed_inv:
  assumes "page_inv p"
  shows "page_inv (p\<lparr>tg_dock := (tg_dock p)\<lparr>dk_startOpen := False\<rparr>\<rparr>)" "page_inv (p\<lparr>tg_dock := (tg_dock p)\<lparr>dk_extendOpen := False\<rparr>\<rparr>)"
    "page_inv (p\<lparr>tg_endOpen := False\<rparr>)" "page_inv (p\<lparr>tg_resetOpen := False\<rparr>)"
  by (auto intro!: page_inv_weaken [OF assms])

lemma confirm_inv:
  assumes inv: "page_inv p"
  shows "dk_startOpen (tg_dock p) \<Longrightarrow> page_inv (confirm_start p)"
    and "dk_extendOpen (tg_dock p) \<Longrightarrow> page_inv (confirm_extend p)"
    and "tg_endOpen p \<Longrightarrow> page_inv (confirm_end p)"
    and "tg_resetOpen p \<Longrightarrow> page_inv (confirm_reset p)"
proof -
  note only = only_open [OF inv] and ready = confirm_ready [OF inv]
  show "page_inv (confirm_start p)" if "dk_startOpen (tg_dock p)"
    using only(1) [OF that] ready that closed_inv(1) [OF inv] minutes_read(1)
    by (auto simp: confirm_start_def command_dialogs_def intro!: give_inv)
  show "page_inv (confirm_extend p)" if "dk_extendOpen (tg_dock p)"
    using only(2) [OF that] ready that closed_inv(2) [OF inv] minutes_read(2) inv
    by (auto simp: confirm_extend_def command_dialogs_def split: option.split intro!: give_inv)
  show "page_inv (confirm_end p)" if "tg_endOpen p"
    using only(3) [OF that] ready that closed_inv(3) [OF inv]
    by (auto simp: confirm_end_def command_dialogs_def minutes_ok_def intro!: give_inv)
  show "page_inv (confirm_reset p)" if "tg_resetOpen p"
    using only(4) [OF that] ready that closed_inv(4) [OF inv]
    by (auto simp: confirm_reset_def command_dialogs_def minutes_ok_def intro!: give_inv)
qed

lemma save_settings_inv:
  assumes "page_inv p" "tm_settingsOpen (tg_timer p)" "\<not> tm_isLoading (tg_timer p)"
  shows "page_inv (save_settings p)"
  using assms only_open(5) [OF assms(1)]
  by (auto simp: page_inv_def save_settings_def command_dialogs_def dialog_flags_def timer_flags)

lemma job_settle_inv:
  assumes inv: "page_inv p" and j: "j \<in> set (tg_jobs p)"
  shows "page_inv (job_settle d r a j p)"
proof -
  have jobs: "tg_jobs p = [j]" using inv j by (cases "tg_jobs p") (auto simp: page_inv_def)
  then have none: "\<not> command_dialogs p" using inv by (auto simp: page_inv_def)
  let ?q = "job_settle d r a j p"
  have "tg_jobs ?q = []" "tg_given ?q = tg_given p" "\<not> command_dialogs ?q" "\<not> tm_isLoading (tg_timer ?q)"
    using jobs none by (simp_all add: job_settle_def command_dialogs_def timer_flags split: timer_job.split)
  then show ?thesis using inv by (simp add: page_inv_def dialog_flags_def command_dialogs_def)
qed

inductive_cases page_stepE: "page_step p q"

lemma page_inv_step: "page_inv p \<Longrightarrow> page_step p q \<Longrightarrow> page_inv q"
proof (erule page_stepE, goal_cases)
  case (1 b e) then show ?case by (auto intro: dock_press_inv)
next
  case 2 then show ?case by (auto intro!: page_inv_weaken [of p])
next
  case 3 then show ?case by (auto intro: closed_inv)
next
  case 4 then show ?case by (auto intro: confirm_inv)
next
  case 5 then show ?case by (auto intro!: page_inv_weaken [of p])
next
  case 6 then show ?case by (auto intro: closed_inv)
next
  case 7 then show ?case by (auto intro: confirm_inv)
next
  case 8 then show ?case by (auto intro: closed_inv)
next
  case 9 then show ?case by (auto intro: confirm_inv)
next
  case 10 then show ?case by (auto intro: closed_inv)
next
  case 11 then show ?case by (auto intro: confirm_inv)
next
  case 19 then show ?case by (auto intro: job_settle_inv)
next
  case 14 then show ?case by (auto intro: save_settings_inv)
qed (auto intro!: page_inv_weaken [of p] simp: timer_flags)

interpretation projector: state_machine "\<lambda>p. \<exists>c d. p = page_start c d" page_step page_inv
  by unfold_locales (auto intro: page_inv_start page_inv_step)

text \<open>
  C24: The projector page gives one command at a time. In every state the page can reach, whatever is pressed, typed,
  synchronised and answered, at most one command or saving is under way, the buttons are disabled exactly while it is, no
  dialog that could give a second one is open then, and every command given so far asks for a length of at least one minute
  where it names one.
\<close>

theorem one_command_at_a_time:
  assumes "reaches (\<lambda>p. \<exists>c d. p = page_start c d) page_step p"
  shows "length (tg_jobs p) \<le> 1 \<and> (tm_isLoading (tg_timer p) \<longleftrightarrow> tg_jobs p \<noteq> []) \<and>
         (tg_jobs p \<noteq> [] \<longrightarrow> \<not> command_dialogs p) \<and> (\<forall>a \<in> set (tg_given p). minutes_ok a)"
  using projector.reaches_inv [OF assms] by (simp add: page_inv_def)

text \<open>A round that has not started: the start button, and the command its dialog gives.\<close>

definition fresh_round :: contest_state where
  "fresh_round = \<lparr>cs_title = Str ''T'', cs_status = Str ''NOT_STARTED'', cs_start_time = Null, cs_end_time = Null,
     cs_duration_seconds = Fin 7200, cs_freeze_minutes = Fin 30, cs_paused_at = Null, cs_remaining_seconds = Fin 7200,
     cs_elapsed_seconds = Fin 0, cs_is_frozen = False, cs_require_fullscreen = False, cs_min_client_version = Str ''0.2.0'',
     cs_enforce_binary_hash = False, cs_authorized_binary_hashes = Str [], cs_download_enabled = False, cs_server_time = Str []\<rparr>"

lemma fresh_page:
  "\<not> page_modal (page_start fresh_round 0)"
  "StartButton \<in> set (dock_offered (tm_isCleanMode (tg_timer (page_start fresh_round 0)))
     (tm_isLoading (tg_timer (page_start fresh_round 0))) (tm_state (tg_timer (page_start fresh_round 0))))"
  by (simp_all add: page_modal_def page_start_def timer_start_def dock_start_def fresh_round_def dock_offered_def dock_controls_def
      has_status_def)

lemma start_given:
  "tg_jobs (confirm_start (dock_press False StartButton (page_start fresh_round 0))) = [Command (DoStart (Some 120)) True]"
proof -
  have "handleConfirmStart ''120'' = Some 120" by code_simp
  then show ?thesis by (simp add: confirm_start_def give_def dock_press_def page_start_def dock_start_def timer_start_def)
qed

theorem one_command_at_a_time_witness:
  "tg_jobs (confirm_start (dock_press False StartButton (page_start fresh_round 0))) = [Command (DoStart (Some 120)) True] \<and>
   tm_isLoading (tg_timer (confirm_start (dock_press False StartButton (page_start fresh_round 0))))"
proof -
  let ?init = "\<lambda>p. \<exists>c d. p = page_start c d"
  let ?p = "page_start fresh_round 0"
  have "reaches ?init page_step ?p" by (rule reaches_init) blast
  then have pressed: "reaches ?init page_step (dock_press False StartButton ?p)"
    by (rule reaches_step) (rule page_step.Pressed [OF fresh_page])
  have "page_step (dock_press False StartButton ?p) (confirm_start (dock_press False StartButton ?p))"
    by (rule page_step.StartConfirmed) (simp_all add: dock_press_def page_start_def timer_start_def)
  with pressed have "reaches ?init page_step (confirm_start (dock_press False StartButton ?p))" by (rule reaches_step)
  from one_command_at_a_time [OF this] show ?thesis using start_given by simp
qed

section \<open>Findings\<close>

text \<open>
  The start dialog does not look at the round again: when another organizer has started it meanwhile, confirming still gives
  the start; and a length that is no number, or zero, starts the round with the length the server holds.
\<close>

theorem stale_start_given:
  assumes "dk_startOpen (tg_dock p)" "cs_status running = Str ''RUNNING''"
  shows "DoStart (handleConfirmStart (dk_startInput (tg_dock p))) \<in>
           set (tg_given (confirm_start (p\<lparr>tg_timer := timer_sync d (Inr running) (tg_timer p)\<rparr>)))"
  by (simp add: confirm_start_def give_def)

theorem unread_length_starts: "handleConfirmStart ''0'' = None" "handleConfirmStart ''abc'' = None" "handleConfirmStart [] = None"
  by code_simp+

text \<open>A command that fails leaves no trace on the page: only the disabled buttons are enabled again.\<close>

theorem failed_command_silent:
  "tg_timer (job_settle d (Inl x) answer (Command a audible) p) = (tg_timer p)\<lparr>tm_isLoading := False\<rparr>"
  by (simp add: job_settle_def executeAction_settle_def)

text \<open>Muting the page while a command is under way does not silence the sound of its completion.\<close>

theorem muted_command_sounds:
  assumes "\<not> tm_isAudioEnabled (tg_timer p)"
  shows "tm_sounds (tg_timer (job_settle d (Inr ()) (Inl x) (Command DoEnd True) p)) = tm_sounds (tg_timer p) @ [Buzzer]"
  by (simp add: job_settle_def executeAction_settle_def timer_sync_def complete_sound_def)

text \<open>The tones of a sound follow each other without overlap, and each stops after it has started.\<close>

lemma few: "[0..<2] = [0, 1]" "[0..<3] = [0, 1, 2]"
  by code_simp+

theorem tones_in_turn:
  "\<forall>x. list_all (\<lambda>t. os_starts t < os_stops t) (tones x) \<and> sorted_wrt (\<lambda>s t. os_stops s < os_starts t) (tones x)"
proof
  fix x
  show "list_all (\<lambda>t. os_starts t < os_stops t) (tones x) \<and> sorted_wrt (\<lambda>s t. os_stops s < os_starts t) (tones x)"
    by (cases x) (simp_all add: tones_def playContestStartSound_def playContestWarningSound_def playContestEndSound_def few Let_def)
qed

end
