(* ===== verification/NavMenus.thy ===== *)
theory NavMenus
  imports PortalChrome ConsolePages SubmissionsProvider
begin

text \<open>
  The menus around the pages: the collapsible sidebar of the console (\<open>admin-frontend/src/components/ui/sidebar.tsx\<close>,
  \<open>hooks/use-mobile.ts\<close>, the account part of \<open>components/app-sidebar.tsx\<close>) with the cookie the dashboard layout reads, and
  the portal's account menu and top bar (\<open>competitor-frontend/src/components/portal/user-account-menu.tsx\<close>, \<open>top-nav.tsx\<close>).
  The cookies of the browser are a jar, which the next request carries; a click runs in the render that shows it.
\<close>

section \<open>The sidebar\<close>

definition SIDEBAR_COOKIE_NAME :: string where
  "SIDEBAR_COOKIE_NAME = ''sidebar_state''"

definition MOBILE_BREAKPOINT :: nat where
  "MOBILE_BREAKPOINT = 768"

record sidebar =
  sb_open :: bool
  sb_openMobile :: bool
  sb_isMobile :: "bool option"
  sb_jar :: "(string \<times> jsv) list"

text \<open>\<open>useIsMobile\<close>: unknown, read as no, until the effect of the first render has measured the window.\<close>

definition useIsMobile :: "sidebar \<Rightarrow> bool" where
  "useIsMobile s = (case sb_isMobile s of Some b \<Rightarrow> b | None \<Rightarrow> False)"

definition measure_window :: "nat \<Rightarrow> sidebar \<Rightarrow> sidebar" where
  "measure_window innerWidth s = s\<lparr>sb_isMobile := Some (innerWidth < MOBILE_BREAKPOINT)\<rparr>"

definition sidebar_mounted :: "bool \<Rightarrow> (string \<times> jsv) list \<Rightarrow> sidebar" where
  "sidebar_mounted defaultOpen cookies = \<lparr>sb_open = defaultOpen, sb_openMobile = False, sb_isMobile = None, sb_jar = cookies\<rparr>"

definition sidebar_setOpen :: "bool \<Rightarrow> sidebar \<Rightarrow> sidebar" where
  "sidebar_setOpen openState s =
     s\<lparr>sb_open := openState, sb_jar := map_set SIDEBAR_COOKIE_NAME (Str (if openState then ''true'' else ''false'')) (sb_jar s)\<rparr>"

definition toggleSidebar :: "sidebar \<Rightarrow> sidebar" where
  "toggleSidebar s =
     (if useIsMobile s then s\<lparr>sb_openMobile := \<not> sb_openMobile s\<rparr> else sidebar_setOpen (\<not> sb_open s) s)"

text \<open>The shortcut is the letter b with the control or the command key.\<close>

definition sidebar_handleKeyDown :: "string \<Rightarrow> bool \<Rightarrow> sidebar \<Rightarrow> sidebar" where
  "sidebar_handleKeyDown key meta_or_ctrl s = (if key = ''b'' \<and> meta_or_ctrl then toggleSidebar s else s)"

inductive sidebar_step :: "sidebar \<Rightarrow> sidebar \<Rightarrow> bool" where
  Triggered: "sidebar_step s (toggleSidebar s)"
| KeyPressed: "sidebar_step s (sidebar_handleKeyDown k m s)"
| Resized: "sidebar_step s (measure_window n s)"
| SheetChanged: "sidebar_step s (s\<lparr>sb_openMobile := b\<rparr>)"
| OtherCookie: "k \<noteq> SIDEBAR_COOKIE_NAME \<Longrightarrow> sidebar_step s (s\<lparr>sb_jar := map_set k v (sb_jar s)\<rparr>)"

text \<open>What is rendered: on a narrow window a sheet, otherwise the panel, collapsed to icons, with the tooltips of its entries.\<close>

datatype sidebar_view = FixedPanel | MobileSheet bool | DesktopPanel bool

definition Sidebar :: "string \<Rightarrow> sidebar \<Rightarrow> sidebar_view" where
  "Sidebar collapsible s =
     (if collapsible = ''none'' then FixedPanel
      else if useIsMobile s then MobileSheet (sb_openMobile s) else DesktopPanel (sb_open s))"

definition tooltip_hidden :: "sidebar \<Rightarrow> bool" where
  "tooltip_hidden s \<longleftrightarrow> sb_open s \<or> useIsMobile s"

text \<open>The letters of the account's picture, before they are put in upper case: two words give their initials.\<close>

fun ws_words :: "string \<Rightarrow> string \<Rightarrow> string list" where
  "ws_words acc [] = (if acc = [] then [] else [rev acc])"
| "ws_words acc (c # cs) =
     (if js_ws c then (if acc = [] then ws_words [] cs else rev acc # ws_words [] cs) else ws_words (c # acc) cs)"

definition initialsOf :: "string \<Rightarrow> string" where
  "initialsOf name =
     (let source = js_trim name
      in case ws_words [] source of (a # _) # (b # _) # _ \<Rightarrow> [a, b] | _ \<Rightarrow> take 2 source)"

text \<open>\<open>handleLogout\<close> of the console has no handler for a failed call.\<close>

definition admin_handleLogout :: "bool \<Rightarrow> departure io" where
  "admin_handleLogout reached = bind (server_call reached logoutAction) (\<lambda>_. ret ToLogin)"

section \<open>The account menu of the portal\<close>

record user_menu =
  um_open :: bool
  um_password :: bool
  um_confirming :: bool
  um_signingOut :: bool
  um_running :: nat

definition user_menu_start :: user_menu where
  "user_menu_start = \<lparr>um_open = False, um_password = False, um_confirming = False, um_signingOut = False, um_running = 0\<rparr>"

text \<open>\<open>handleSignOut\<close> begins, and its \<open>finally\<close>; what it does between is \<open>handleSignOut\<close> of \<open>PortalChrome\<close>.\<close>

definition menu_signOut :: "user_menu \<Rightarrow> user_menu" where
  "menu_signOut s = s\<lparr>um_signingOut := True, um_running := Suc (um_running s)\<rparr>"

definition menu_signedOut :: "user_menu \<Rightarrow> user_menu" where
  "menu_signedOut s = s\<lparr>um_signingOut := False, um_confirming := False, um_open := False, um_running := um_running s - 1\<rparr>"

definition menu_toggle :: "user_menu \<Rightarrow> user_menu" where
  "menu_toggle s = s\<lparr>um_open := \<not> um_open s\<rparr>"

definition menu_dismiss :: "user_menu \<Rightarrow> user_menu" where
  "menu_dismiss s = (if um_open s then s\<lparr>um_open := False, um_confirming := False\<rparr> else s)"

definition menu_changePassword :: "user_menu \<Rightarrow> user_menu" where
  "menu_changePassword s = s\<lparr>um_open := False, um_password := True\<rparr>"

definition menu_signOutItem :: "page_window \<Rightarrow> user_menu \<Rightarrow> user_menu" where
  "menu_signOutItem p s = (if isDesktopClient p then s\<lparr>um_confirming := True\<rparr> else menu_signOut s)"

inductive menu_step :: "page_window \<Rightarrow> user_menu \<Rightarrow> user_menu \<Rightarrow> bool" for p where
  Toggled: "menu_step p s (menu_toggle s)"
| Dismissed: "menu_step p s (menu_dismiss s)"
| PasswordChosen: "um_open s \<Longrightarrow> menu_step p s (menu_changePassword s)"
| PasswordClosed: "menu_step p s (s\<lparr>um_password := False\<rparr>)"
| LinkFollowed: "um_open s \<Longrightarrow> menu_step p s (s\<lparr>um_open := False\<rparr>)"
| SignOutChosen: "um_open s \<Longrightarrow> \<not> um_confirming s \<Longrightarrow> \<not> um_signingOut s \<Longrightarrow> menu_step p s (menu_signOutItem p s)"
| ConfirmCancelled: "um_open s \<Longrightarrow> um_confirming s \<Longrightarrow> \<not> um_signingOut s \<Longrightarrow> menu_step p s (s\<lparr>um_confirming := False\<rparr>)"
| Confirmed: "um_open s \<Longrightarrow> um_confirming s \<Longrightarrow> \<not> um_signingOut s \<Longrightarrow> menu_step p s (menu_signOut s)"
| SignOutEnded: "0 < um_running s \<Longrightarrow> menu_step p s (menu_signedOut s)"

section \<open>The top bar\<close>

text \<open>The submission being judged, as the tooltip, the bar and the drawer write it.\<close>

definition active_counts :: "active \<Rightarrow> string" where
  "active_counts a = js_String (js_coalesce (ac_testsDone a) (IntV 0)) @ ''/'' @ js_String (ac_testsTotal a)"

definition active_position :: "active \<Rightarrow> string" where
  "active_position a = CHR ''#'' # js_String (js_coalesce (ac_queuePosition a) (IntV 1))"

definition active_title :: "active \<Rightarrow> string" where
  "active_title a =
     (if ac_status a = ''queued'' then ''Queued '' @ active_position a
      else if truthy (ac_testsTotal a) then ''Judging: '' @ active_counts a @ '' test cases'' else ''Judging...'')"

definition active_badge :: "active \<Rightarrow> string" where
  "active_badge a =
     (if ac_status a = ''queued'' then active_position a
      else if truthy (ac_testsTotal a) then active_counts a else ''Judging'')"

definition active_drawer :: "active \<Rightarrow> string" where
  "active_drawer a =
     (if ac_status a = ''queued'' then ''Queued '' @ active_position a
      else if truthy (ac_testsTotal a) then ''Evaluating ('' @ active_counts a @ '')'' else ''Evaluating...'')"

record top_nav =
  tn_mobileOpen :: bool
  tn_passwordOpen :: bool
  tn_isReloading :: bool

datatype nav_event = MenuToggle | LinkClick | PasswordClick | PasswordClose | ReloadClick

definition top_nav_event :: "nav_event \<Rightarrow> top_nav \<Rightarrow> top_nav" where
  "top_nav_event ev s =
     (case ev of
        MenuToggle \<Rightarrow> s\<lparr>tn_mobileOpen := \<not> tn_mobileOpen s\<rparr>
      | LinkClick \<Rightarrow> s\<lparr>tn_mobileOpen := False\<rparr>
      | PasswordClick \<Rightarrow> s\<lparr>tn_mobileOpen := False, tn_passwordOpen := True\<rparr>
      | PasswordClose \<Rightarrow> s\<lparr>tn_passwordOpen := False\<rparr>
      | ReloadClick \<Rightarrow> s\<lparr>tn_isReloading := True\<rparr>)"

section \<open>What the menus guarantee\<close>

text \<open>The cookie as the layout reads it.\<close>

definition opens_with :: "(string \<times> jsv) list \<Rightarrow> bool" where
  "opens_with cookies =
     (let c = jar_value cookies SIDEBAR_COOKIE_NAME in if c = Undefined then True else c = Str ''true'')"

lemma jar_value_map_set: "jar_value (map_set k v cookies) k' = (if k' = k then v else jar_value cookies k')"
  by (simp add: jar_value_def map_get_set)

definition sidebar_inv :: "sidebar \<Rightarrow> bool" where
  "sidebar_inv s \<longleftrightarrow> opens_with (sb_jar s) = sb_open s"

lemma sidebar_inv_step: "sidebar_inv s \<Longrightarrow> sidebar_step s t \<Longrightarrow> sidebar_inv t"
  by (erule sidebar_step.cases)
    (auto simp: sidebar_inv_def opens_with_def toggleSidebar_def sidebar_setOpen_def sidebar_handleKeyDown_def
      measure_window_def jar_value_map_set Let_def)

interpretation sidebar_machine: state_machine "\<lambda>s. \<exists>cookies. s = sidebar_mounted (opens_with cookies) cookies" sidebar_step sidebar_inv
proof (unfold_locales, goal_cases)
  case 1 then show ?case by (auto simp: sidebar_inv_def sidebar_mounted_def)
next
  case 2 then show ?case by (rule sidebar_inv_step)
qed

lemma layout_reads_jar:
  "fst (dashboard_layout e w) = Inr (Dashboard d) \<Longrightarrow> df_sidebarOpen d = opens_with (jar w)"
proof -
  have "wp dashboard_layout (\<lambda>rv w'. \<forall>d. rv = Inr (Dashboard d) \<longrightarrow> df_sidebarOpen d = opens_with (jar w)) e w"
    unfolding dashboard_layout_def getSessionUserAction_def fetchSessionUser_def
    by (intro wp_rules) (auto simp: opens_with_def SIDEBAR_COOKIE_NAME_def Let_def split: if_splits)
  then show "fst (dashboard_layout e w) = Inr (Dashboard d) \<Longrightarrow> df_sidebarOpen d = opens_with (jar w)"
    by (simp add: wp_def case_prod_beta)
qed

text \<open>
  the sidebar is found as it was left. However it is toggled, with the button, the rail or the keyboard, on a wide or
  a narrow window, the next page of the dashboard that is served with the browser's cookies opens it exactly when it was open.
\<close>

theorem sidebar_round_trip:
  assumes "reaches (\<lambda>s. \<exists>cookies. s = sidebar_mounted (opens_with cookies) cookies) sidebar_step s"
    and "jar w = sb_jar s" and "fst (dashboard_layout e w) = Inr (Dashboard d)"
  shows "df_sidebarOpen d = sb_open s"
  using sidebar_machine.reaches_inv [OF assms(1)] layout_reads_jar [OF assms(3)] assms(2) by (simp add: sidebar_inv_def)

definition admin_answer :: jsv where
  "admin_answer = Obj [(''username'', Str ''ann''), (''role'', Str ''admin'')]"

definition admin_backend :: env where
  "admin_backend = (answering 200 [])\<lparr>env_fetch := \<lambda>_ _. says 200 admin_answer\<rparr>"

definition admin_world :: world where
  "admin_world = \<lparr>sent = [], jar = map_set SIDEBAR_COOKIE_NAME (Str ''false'') [(ADMIN_SESSION_COOKIE, Str ''t'')], jar_attrs = []\<rparr>"

lemma admin_served:
  "fst (dashboard_layout admin_backend admin_world) =
     Inr (Dashboard \<lparr>df_user = admin_answer, df_sidebarOpen = False\<rparr>)"
proof -
  have ok: "json_ok admin_answer" by (simp add: admin_answer_def)
  obtain r where r: "says 200 admin_answer = Inr r" "rsp_status r = 200" "json_value admin_backend r = Inr admin_answer"
    using says_json [OF ok] by blast
  have token: "jar_value (jar admin_world) ADMIN_SESSION_COOKIE = Str ''t''"
    and c: "jar_value (jar admin_world) ''sidebar_state'' = Str ''false''"
    by (simp_all add: admin_world_def jar_value_def map_get_def SIDEBAR_COOKIE_NAME_def ADMIN_SESSION_COOKIE_def)
  have e: "env_fetch admin_backend = (\<lambda>_ _. Inr r)" "env_in_headers admin_backend = Inr [(''x-forwarded-for'', ''1.1.1.1, 10.0.0.7'')]"
    using r(1) by (simp_all add: admin_backend_def answering_def)
  have role: "get_opt admin_answer ''role'' = Str ''admin''" "truthy admin_answer"
    by (simp_all add: admin_answer_def)
  show ?thesis
    using token c e r(2,3) role
    by (simp add: dashboard_layout_def getSessionUserAction_def fetchSessionUser_def io_simps rsp_ok_def ret_def bind_def catch_def
        res_json_def in_headers_or_null_def)
qed

theorem sidebar_round_trip_witness:
  "\<exists>s::sidebar. sb_jar s = jar admin_world \<and> \<not> sb_open s \<and>
       fst (dashboard_layout admin_backend admin_world) = Inr (Dashboard \<lparr>df_user = admin_answer, df_sidebarOpen = sb_open s\<rparr>)"
proof -
  let ?init = "\<lambda>s. \<exists>cookies. s = sidebar_mounted (opens_with cookies) cookies"
  let ?c = "[(ADMIN_SESSION_COOKIE, Str ''t'')]"
  let ?s = "toggleSidebar (sidebar_mounted (opens_with ?c) ?c)"
  have r: "reaches ?init sidebar_step ?s"
    by (rule reaches_step, rule reaches_init) (blast, rule sidebar_step.Triggered)
  have s: "sb_jar ?s = jar admin_world"
    by (simp add: toggleSidebar_def sidebar_mounted_def useIsMobile_def sidebar_setOpen_def opens_with_def jar_value_def map_get_def
        admin_world_def SIDEBAR_COOKIE_NAME_def ADMIN_SESSION_COOKIE_def Let_def)
  from sidebar_round_trip [OF r s [symmetric] admin_served] have "\<not> sb_open ?s" by simp
  with s admin_served have "sb_jar ?s = jar admin_world \<and> \<not> sb_open ?s \<and>
       fst (dashboard_layout admin_backend admin_world) = Inr (Dashboard \<lparr>df_user = admin_answer, df_sidebarOpen = sb_open ?s\<rparr>)"
    by simp
  then show ?thesis by (rule exI [of _ ?s])
qed

text \<open>When the cookie has expired, after seven days, a closed sidebar is served open.\<close>

theorem expired_cookie_opens: "opens_with (map_delete SIDEBAR_COOKIE_NAME cookies)"
  by (simp add: opens_with_def jar_value_def map_get_delete)

text \<open>
  one sign-out at a time, and in the desktop window only after asking. In every state of the account menu, whatever is
  clicked and however the menu is closed and opened again, at most one sign-out is under way, and a step that
  begins one begins it when none is; in the desktop client it is the button of the question that was asked before.
\<close>

definition user_menu_inv :: "user_menu \<Rightarrow> bool" where
  "user_menu_inv s \<longleftrightarrow> um_running s = (if um_signingOut s then 1 else 0)"

lemma user_menu_inv_step: "user_menu_inv s \<Longrightarrow> menu_step p s t \<Longrightarrow> user_menu_inv t"
  by (erule menu_step.cases)
    (auto simp: user_menu_inv_def menu_toggle_def menu_dismiss_def menu_changePassword_def menu_signOutItem_def menu_signOut_def
      menu_signedOut_def split: if_splits)

interpretation account_menu: state_machine "\<lambda>s. s = user_menu_start" "menu_step p" user_menu_inv for p
proof (unfold_locales, goal_cases)
  case 1 then show ?case by (simp add: user_menu_inv_def user_menu_start_def)
next
  case 2 then show ?case by (rule user_menu_inv_step)
qed

theorem sign_out_asked_once:
  assumes "reaches (\<lambda>s. s = user_menu_start) (menu_step p) s" and "menu_step p s t" and "um_running s < um_running t"
  shows "um_running s = 0 \<and> um_running t = 1 \<and> um_open s \<and> (isDesktopClient p \<longrightarrow> um_confirming s)"
proof -
  have "um_running s = (if um_signingOut s then 1 else 0)"
    using account_menu.reaches_inv [OF assms(1)] by (simp add: user_menu_inv_def)
  with assms(2,3) show ?thesis
    by (auto elim!: menu_step.cases simp: menu_toggle_def menu_dismiss_def menu_changePassword_def menu_signOutItem_def
        menu_signOut_def menu_signedOut_def split: if_splits)
qed

definition asked :: user_menu where
  "asked = menu_signOutItem desktop_window (menu_toggle user_menu_start)"

theorem sign_out_asked_once_witness:
  "um_confirming asked \<and> um_running (menu_signOut asked) = 1"
proof -
  have "reaches (\<lambda>s. s = user_menu_start) (menu_step desktop_window) (menu_toggle user_menu_start)"
    by (rule reaches_step, rule reaches_init) (simp, rule menu_step.Toggled)
  then have r: "reaches (\<lambda>s. s = user_menu_start) (menu_step desktop_window) asked"
    unfolding asked_def by (rule reaches_step) (rule menu_step.SignOutChosen, simp_all add: menu_toggle_def user_menu_start_def)
  have "menu_step desktop_window asked (menu_signOut asked)"
    by (rule menu_step.Confirmed) (simp_all add: asked_def menu_signOutItem_def menu_toggle_def user_menu_start_def windows)
  from sign_out_asked_once [OF r this] show ?thesis by (simp add: menu_signOut_def windows)
qed

text \<open>
  Closing the menu with its own button keeps the question: opened again, it shows the confirmation at once. A
  click elsewhere takes it back.
\<close>

theorem question_survives_toggle:
  "um_confirming (menu_toggle (menu_toggle asked)) \<and> \<not> um_confirming (menu_toggle (menu_dismiss asked))"
  by (simp add: asked_def menu_toggle_def menu_dismiss_def menu_signOutItem_def user_menu_start_def windows)

text \<open>
  A failed call of the console's logout is thrown out of the transition, with the session kept; the portal's handler goes to
  the login page in the same case.
\<close>

theorem console_sign_out_throws:
  "admin_handleLogout False e w = (Inl (Error ''Failed to fetch''), w)"
  by (simp add: admin_handleLogout_def server_call_def io_simps throw_def bind_def)

text \<open>The picture of an account shows one or two letters of its name, whatever the name, when it has a letter at all.\<close>

lemma ws_words_nonempty: "list_all (\<lambda>x. x \<noteq> []) (ws_words acc s)"
  by (induction acc s rule: ws_words.induct) auto

theorem initials_short:
  "length (initialsOf name) \<le> 2 \<and> (js_trim name = [] \<longleftrightarrow> initialsOf name = [])"
proof -
  have empty: "js_trim name = [] \<Longrightarrow> initialsOf name = []" by (simp add: initialsOf_def)
  have "js_trim name \<noteq> [] \<Longrightarrow> initialsOf name \<noteq> []"
    by (auto simp: initialsOf_def Let_def neq_Nil_conv split: list.splits)
  then show ?thesis using empty by (auto simp: initialsOf_def Let_def split: list.splits)
qed

end
