(* ===== verification/TableViews.thy ===== *)
theory TableViews
  imports PeoplePages TestsTab
begin

text \<open>
  Dialogs and tables of the admin console that work on what a page hands them: the footer of every paginated table
  (\<open>components/shell/data-pagination.tsx\<close>), the dialogs and the table of the teams (\<open>components/teams\<close>), the assignment of a user
  (\<open>components/users/user-team-dialog.tsx\<close>), and the views of the problem editor: a test case, its content, the scoring, the
  samples, the statement and the metadata (\<open>components/problem-editor\<close>).
\<close>

section \<open>The footer of a table\<close>

definition en_dash :: string where
  "en_dash = [CHR 0xE2, CHR 0x80, CHR 0x93]"

definition plural_label :: "string \<Rightarrow> nat \<Rightarrow> string" where
  "plural_label itemLabel n = (if n = 1 then itemLabel else itemLabel @ ''s'')"

record pager_view =
  gv_summary :: string
  gv_prev :: "int \<times> bool"
  gv_next :: "int \<times> bool"
  gv_slots :: "nat option list"
  gv_compact :: "string option"

text \<open>The previous and the next page with whether their buttons are enabled; the compact footer has no numbered buttons.\<close>

definition DataPagination :: "string \<Rightarrow> bool \<Rightarrow> 'a PaginationState \<Rightarrow> pager_view" where
  "DataPagination itemLabel narrow st =
     \<lparr>gv_summary =
        (if pg_totalItems st = 0 then ''No '' @ itemLabel @ ''s''
         else ''Showing '' @ show_nat (pg_firstItem st) @ en_dash @ show_nat (pg_lastItem st) @ '' of '' @
              show_nat (pg_totalItems st) @ '' '' @ plural_label itemLabel (pg_totalItems st)),
      gv_prev = (int (pg_page st) - 1, 1 < pg_page st), gv_next = (int (pg_page st) + 1, pg_page st < pg_pageCount st),
      gv_slots = (if narrow then [] else pageWindow (pg_page st) (pg_pageCount st) 7),
      gv_compact = (if narrow then Some (show_nat (pg_page st) @ '' / '' @ show_nat (pg_pageCount st)) else None)\<rparr>"

definition enabled_targets :: "pager_view \<Rightarrow> int list" where
  "enabled_targets g =
     (if snd (gv_prev g) then [fst (gv_prev g)] else []) @ map int (List.map_filter (\<lambda>s. s) (gv_slots g)) @
     (if snd (gv_next g) then [fst (gv_next g)] else [])"

section \<open>The dialogs of the teams\<close>

text \<open>A dialog closes on a click beside it or on Escape only while nothing is being saved.\<close>

definition dialog_closes :: "bool \<Rightarrow> bool \<Rightarrow> bool" where
  "dialog_closes isOpen pending \<longleftrightarrow> \<not> isOpen \<and> \<not> pending"

definition team_create_submit :: "string \<Rightarrow> string option" where
  "team_create_submit name = (if js_trim name = [] then None else Some (js_trim name))"

definition team_edit_disabled :: "bool \<Rightarrow> team \<Rightarrow> string \<Rightarrow> bool" where
  "team_edit_disabled pending t name \<longleftrightarrow> pending \<or> js_trim name = [] \<or> js_trim name = tm_name t"

definition team_edit_submit :: "team \<Rightarrow> string \<Rightarrow> (string \<times> string) option" where
  "team_edit_submit t name = (if js_trim name = [] \<or> js_trim name = tm_name t then None else Some (tm_id t, js_trim name))"

definition member_options :: "user list \<Rightarrow> (string \<times> string) list" where
  "member_options unassigned =
     map (\<lambda>c. (us_id c, if us_displayName c = [] then us_username c else us_displayName c @ '' ('' @ us_username c @ '')'')) unassigned"

definition add_member_disabled :: "bool \<Rightarrow> user list \<Rightarrow> string \<Rightarrow> bool" where
  "add_member_disabled pending unassigned selectedUserId \<longleftrightarrow> pending \<or> selectedUserId = [] \<or> unassigned = []"

definition add_member_submit :: "team \<Rightarrow> string \<Rightarrow> (string \<times> string) option" where
  "add_member_submit t selectedUserId = (if selectedUserId = [] then None else Some (tm_id t, selectedUserId))"

definition team_options :: "team list \<Rightarrow> (string \<times> string) list" where
  "team_options teams = map (\<lambda>t. (tm_id t, tm_name t)) teams"

definition user_team_start :: "user \<Rightarrow> string" where
  "user_team_start u = (case us_teamId u of None \<Rightarrow> [] | Some t \<Rightarrow> t)"

definition user_team_disabled :: "bool \<Rightarrow> user \<Rightarrow> string \<Rightarrow> bool" where
  "user_team_disabled pending u selectedTeamId \<longleftrightarrow> pending \<or> selectedTeamId = [] \<or> selectedTeamId = user_team_start u"

definition user_team_submit :: "user \<Rightarrow> string \<Rightarrow> (string \<times> string) option" where
  "user_team_submit u selectedTeamId = (if selectedTeamId = [] then None else Some (us_id u, selectedTeamId))"

section \<open>The table of the teams\<close>

record team_row =
  tr_team :: team
  tr_count :: string
  tr_members :: "user list"

definition member_list :: "team \<Rightarrow> user list" where
  "member_list t = (case tm_members t of None \<Rightarrow> [] | Some ms \<Rightarrow> ms)"

definition team_row_of :: "team \<Rightarrow> team_row" where
  "team_row_of t =
     (let n = length (member_list t)
      in \<lparr>tr_team = t, tr_count = show_nat n @ '' member'' @ (if n = 1 then [] else ''s''), tr_members = member_list t\<rparr>)"

datatype team_table_view = EmptyTeams string bool | TeamRows "team_row list" pager_view

definition TeamTable :: "team list \<Rightarrow> bool \<Rightarrow> nat \<Rightarrow> nat \<Rightarrow> team_table_view" where
  "TeamTable teams searching page pageSize =
     (if teams = [] then EmptyTeams (if searching then ''No matching teams'' else ''No teams yet'') searching
      else let st = usePagination teams page pageSize
           in TeamRows (map team_row_of (pg_items st)) (DataPagination ''team'' False st))"

section \<open>A test case and its content\<close>

definition arrow_mark :: string where
  "arrow_mark = '' '' @ [CHR 0xE2, CHR 0x86, CHR 0xB5] @ '' ''"

definition cut_mark :: string where
  "cut_mark = '' '' @ [CHR 0xE2, CHR 0x80, CHR 0xA6]"

definition Snippet :: "string option \<Rightarrow> nat \<Rightarrow> string" where
  "Snippet v sz =
     (let isLarge = 256 < sz; cleaned = (case v of None \<Rightarrow> [] | Some s \<Rightarrow> js_trim s)
      in if cleaned = [] then ''(empty)''
         else if CHR 0x0A \<in> set cleaned
         then join_with arrow_mark (take 3 (split_char (CHR 0x0A) cleaned)) @ (if isLarge then cut_mark else [])
         else take 60 cleaned @ (if 60 < length cleaned \<or> isLarge then cut_mark else []))"

definition snippet_size :: "nat \<Rightarrow> string option" where
  "snippet_size sz = (if 256 < sz then Some (''('' @ formatByteSize sz @ '')'') else None)"

datatype inspector_pane = LoadingContent | ContentError string | HeadTailBody nat string nat nat string | FullBody string

definition inspector_preview :: "inspect_modal \<Rightarrow> HeadTailPreview" where
  "inspector_preview m = formatHeadTailPreview (im_content m) 25 25"

text \<open>The view the organizer chose counts for a text that is too long to be shown whole.\<close>

definition inspector_body :: "bool \<Rightarrow> inspect_modal \<Rightarrow> inspector_pane" where
  "inspector_body choseFull m =
     (let p = inspector_preview m;
          shown = (if ht_isTruncated p \<and> \<not> choseFull
                   then HeadTailBody (ht_headLinesCount p) (ht_headText p) (ht_omittedLines p) (ht_tailLinesCount p) (ht_tailText p)
                   else FullBody (im_content m))
      in if im_loading m then LoadingContent
         else case im_error m of None \<Rightarrow> shown | Some e \<Rightarrow> if e = [] then shown else ContentError e)"

definition inspector_filename :: "inspect_modal \<Rightarrow> string" where
  "inspector_filename m = ''case_'' @ show_nat (im_ordinal m) @ (if im_field m = InputField then ''.in'' else ''.out'')"

section \<open>Scoring, samples, statement and metadata\<close>

datatype scoring_line = TooFewTests nat | CustomScoring jsnum int nat | EvenScoring int nat int

definition scoring_text :: "nat \<Rightarrow> int \<Rightarrow> scoring_summary \<Rightarrow> scoring_line" where
  "scoring_text testCount maxScore s =
     (if \<not> ss_hasMinimumCases s then TooFewTests testCount
      else if ss_hasCustomPoints s then CustomScoring (ss_customPointsSum s) maxScore testCount
      else EvenScoring maxScore testCount (ss_autoPointPerTest s))"

definition scoring_buttons :: "nat \<Rightarrow> bool \<Rightarrow> bool \<times> bool" where
  "scoring_buttons testCount changed = (0 < testCount, changed)"

definition sample_removable :: "'a list \<Rightarrow> bool" where
  "sample_removable samples \<longleftrightarrow> 1 < length samples"

datatype statement_mode = EditMode | SplitMode | PreviewMode

definition statement_panes :: "statement_mode \<Rightarrow> bool \<times> bool" where
  "statement_panes view = (view \<noteq> PreviewMode, view \<noteq> EditMode)"

definition publish_blocked :: "nat \<Rightarrow> bool" where
  "publish_blocked testsCount \<longleftrightarrow> testsCount < MIN_EVALUATION_TEST_CASES"

definition publish_warning :: "nat \<Rightarrow> bool \<Rightarrow> bool" where
  "publish_warning testsCount published \<longleftrightarrow> published \<and> publish_blocked testsCount"

section \<open>What the dialogs and tables guarantee\<close>

lemma window_slots_within:
  assumes "1 \<le> page" "page \<le> n" "Some k \<in> set (pageWindow page n 7)"
  shows "1 \<le> k \<and> k \<le> n"
proof (cases "n \<le> 7")
  case True
  then show ?thesis using assms(3) by (auto simp: pageWindow_def)
next
  case False
  then obtain lo hi where w: "1 \<le> lo" "lo \<le> page" "page \<le> hi" "hi \<le> n" "pageWindow page n 7 = window_shape lo hi n"
    using pageWindow_shape [OF assms(1,2), of 7] by auto
  have block: "set [lo..<Suc hi] = {lo..hi}" by (simp only: set_upt atLeastLessThanSuc_atLeastAtMost)
  have "set (window_shape lo hi n) \<subseteq> {None, Some 1, Some n} \<union> Some ` set [lo..<Suc hi]"
    unfolding window_shape_def by (auto simp del: upt_Suc)
  then have "Some k \<in> {None, Some 1, Some n} \<union> Some ` {lo..hi}" using assms(3) w(5) unfolding block by auto
  then show ?thesis using w assms(1,2) by auto
qed

text \<open>
  C28: Every button of the footer leads where it says. For any list, any page size and any stored page, a button that is
  enabled names a page between the first and the last, and after the click the table shows exactly that page.
\<close>

theorem pager_leads_there:
  assumes "1 \<le> page" and "t \<in> set (enabled_targets (DataPagination label narrow (usePagination xs page sz)))"
  shows "1 \<le> t \<and> t \<le> int (page_count (length xs) sz) \<and>
         int (pg_page (usePagination xs (fst (set_page xs t (page, sz))) sz)) = t"
proof -
  let ?n = "page_count (length xs) sz"
  let ?p = "min page ?n"
  have n: "1 \<le> ?n" by (simp add: page_count_def)
  have st: "pg_page (usePagination xs page sz) = ?p" "pg_pageCount (usePagination xs page sz) = ?n"
    by (simp_all add: usePagination_def Let_def)
  have p: "1 \<le> ?p" "?p \<le> ?n" using assms(1) n by auto
  consider "t = int ?p - 1" "1 < ?p" | "t = int ?p + 1" "?p < ?n" | k where "t = int k" "Some k \<in> set (pageWindow ?p ?n 7)"
    using assms(2) by (auto simp: enabled_targets_def DataPagination_def st List.map_filter_def split: if_splits)
  then have range: "1 \<le> t \<and> t \<le> int ?n"
  proof cases
    case 3
    then show ?thesis using window_slots_within [OF p, of k] by simp
  qed (use p in auto)
  then show ?thesis by (auto simp: set_page_def usePagination_def Let_def)
qed

theorem pager_leads_there_witness:
  "pg_page (usePagination ''abcdefghij'' (fst (set_page ''abcdefghij'' 2 (3, 2))) 2) = 2"
proof -
  have "2 \<in> set (enabled_targets (DataPagination ''row'' True (usePagination ''abcdefghij'' 3 2)))"
    by (simp add: enabled_targets_def DataPagination_def usePagination_def page_count_def Let_def)
  from pager_leads_there [OF _ this] show ?thesis by simp
qed

text \<open>
  the dialogs hand on names the schema accepts. A created or renamed team has a trimmed name that is not empty and, when
  it is renamed, is another one; the server action's schema accepts it exactly when it has at most 100 characters, which
  is the one check the dialogs leave to it.
\<close>

theorem team_names_checked:
  assumes "team_create_submit name = Some n \<or> (\<exists>i. team_edit_submit t name = Some (i, n))"
  shows "n \<noteq> [] \<and> js_trim n = n \<and>
         (zod_eval updateTeamInputSchema (Obj [(''name'', Str n)]) \<noteq> None \<longleftrightarrow> length n \<le> 100)"
proof -
  have n: "n = js_trim name" "n \<noteq> []"
    using assms by (auto simp: team_create_submit_def team_edit_submit_def split: if_splits)
  then show ?thesis
    by (simp add: updateTeamInputSchema_def team_name_schema_def Suc_le_eq)
qed

theorem team_names_checked_witness:
  "zod_eval updateTeamInputSchema (Obj [(''name'', Str ''Code Warriors'')]) \<noteq> None"
proof -
  have "team_create_submit ''  Code Warriors '' = Some ''Code Warriors''" by code_simp
  from team_names_checked [OF disjI1, OF this] show ?thesis by simp
qed

text \<open>
  the inspector accounts for the whole content. Of a loaded content without error it shows either all of it or
  its first and last lines with the number of lines between, which add up to the lines of the content; all of it whenever the
  organizer asked for it.
\<close>

theorem inspector_accounts:
  assumes "\<not> im_loading m" "im_error m = None"
  shows "case inspector_body choseFull m of
           FullBody t \<Rightarrow> t = im_content m
         | HeadTailBody a ht om b tt \<Rightarrow>
             \<not> choseFull \<and> a + om + b = length (split_char CHR 0x0A (im_content m)) \<and> a \<le> 25 \<and> b \<le> 25
         | _ \<Rightarrow> False"
proof -
  let ?p = "formatHeadTailPreview (im_content m) 25 25"
  have "ht_headLinesCount ?p + ht_omittedLines ?p + ht_tailLinesCount ?p = ht_totalLines ?p"
    using preview_accounts_for_lines [of "im_content m" 25 25] by blast
  moreover have "ht_totalLines ?p = length (split_char CHR 0x0A (im_content m))"
    by (simp add: formatHeadTailPreview_def Let_def)
  moreover have "ht_isTruncated ?p \<Longrightarrow> ht_headLinesCount ?p \<le> 25 \<and> ht_tailLinesCount ?p \<le> 25"
    by (auto simp: formatHeadTailPreview_def Let_def split: if_splits)
  ultimately show ?thesis using assms by (simp add: inspector_body_def inspector_preview_def Let_def)
qed

definition loaded :: "string \<Rightarrow> inspect_modal" where
  "loaded t = handleInspect_settle (Inr t) (handleInspect_start 1 InputField)"

theorem inspector_accounts_witness: "inspector_body True (loaded ''5'') = FullBody ''5''"
  using inspector_accounts [of "loaded ''5''" True]
  by (auto simp: loaded_def handleInspect_settle_def handleInspect_start_def split: inspector_pane.splits)

text \<open>
  One long line is called truncated with no line omitted: the preview shows the whole content and says that
  lines were cut.
\<close>

theorem long_line_not_cut:
  assumes "CHR 0x0A \<notin> set t" "4096 < length t" "\<not> im_loading m" "im_error m = None" "im_content m = t"
  shows "inspector_body False m = HeadTailBody 1 t 0 0 []"
proof -
  have one: "split_char CHR 0x0A t = [t]" using assms(1) by (rule split_char_atom)
  have "length t \<le> utf8_size t" by (induction t) (auto simp: utf8_size_def)
  then have big: "\<not> utf8_size t \<le> 4096" using assms(2) by simp
  show ?thesis
    using assms(3-5) one big by (simp add: inspector_body_def inspector_preview_def formatHeadTailPreview_def Let_def)
qed

text \<open>
  A short text of more than three lines is shown as its first three, without the mark that says so.
\<close>

theorem snippet_drops_lines:
  "Snippet (Some (''1'' @ [CHR 0x0A] @ ''2'' @ [CHR 0x0A] @ ''3'' @ [CHR 0x0A] @ ''4'')) 7 = ''1'' @ arrow_mark @ ''2'' @ arrow_mark @ ''3''"
  by code_simp

text \<open>
  A chosen member stays chosen when the list no longer has them: as long as another competitor is unassigned the button
  is enabled, and the dialog hands on the one who has joined a team meanwhile.
\<close>

theorem stale_member_added:
  assumes "u \<noteq> []" "others \<noteq> []" "u \<notin> set (map us_id others)"
  shows "\<not> add_member_disabled False others u \<and> add_member_submit t u = Some (tm_id t, u) \<and> u \<notin> fst ` set (member_options others)"
  using assms by (auto simp: add_member_disabled_def add_member_submit_def member_options_def)

end
