(* ===== verification/PortalViews.thy ===== *)
theory PortalViews
  imports PortalLists CompetitorLib
begin

text \<open>
  Views of the competitor portal: the language guides with their search (\<open>components/docs\<close>), the problem beside the editor
  (\<open>components/problem/problem-panel.tsx\<close>), the rows of the leaderboard (\<open>components/leaderboard/leaderboard-client.tsx\<close>) and the
  cards of the challenges (\<open>components/challenges\<close>). The guides' texts are data; a date in local form is a parameter.
\<close>

section \<open>The guides\<close>

record syntax_item =
  sy_id :: string
  sy_name :: string
  sy_syntax :: string
  sy_description :: string
  sy_notes :: "string list"

record doc_topic =
  dt_id :: string
  dt_title :: string
  dt_summary :: string
  dt_items :: "syntax_item list"

definition item_matches :: "string \<Rightarrow> syntax_item \<Rightarrow> bool" where
  "item_matches q item \<longleftrightarrow>
     str_includes (js_lower (sy_name item)) q \<or> str_includes (js_lower (sy_description item)) q \<or>
     str_includes (js_lower (sy_syntax item)) q"

definition topic_matches :: "string \<Rightarrow> doc_topic \<Rightarrow> bool" where
  "topic_matches q topic \<longleftrightarrow> str_includes (js_lower (dt_title topic)) q \<or> str_includes (js_lower (dt_summary topic)) q"

definition matched_topic :: "string \<Rightarrow> doc_topic \<Rightarrow> doc_topic option" where
  "matched_topic q topic =
     (let matchingItems = filter (item_matches q) (dt_items topic)
      in if topic_matches q topic then Some topic
         else if matchingItems \<noteq> [] then Some (topic\<lparr>dt_items := matchingItems\<rparr>) else None)"

definition filteredTopics :: "string \<Rightarrow> doc_topic list \<Rightarrow> doc_topic list" where
  "filteredTopics searchQuery topics =
     (if js_trim searchQuery = [] then topics else List.map_filter (matched_topic (js_lower searchQuery)) topics)"

text \<open>The switcher marks the guide that is open; the contents scroll to a section that is on the page.\<close>

definition guide_marked :: "string \<Rightarrow> string \<Rightarrow> bool" where
  "guide_marked current slug \<longleftrightarrow> slug = current"

definition scrollToSection :: "string list \<Rightarrow> string \<Rightarrow> string option" where
  "scrollToSection on_page section_id = (if section_id \<in> set on_page then Some section_id else None)"

text \<open>Copying: the text put on the clipboard, and whether the button says so until its timer ends. A refusal is ignored.\<close>

datatype copy_event = CopyGranted | CopyRefused | CopyTimeout

fun copy_button :: "copy_event \<Rightarrow> bool \<Rightarrow> bool" where
  "copy_button CopyGranted shown = True"
| "copy_button CopyRefused shown = shown"
| "copy_button CopyTimeout shown = False"

text \<open>The verdicts the guide explains.\<close>

definition VERDICTS :: "(string \<times> string) list" where
  "VERDICTS = [(''AC'', ''Accepted''), (''WA'', ''Wrong Answer''), (''TLE'', ''Time Limit Exceeded''), (''MLE'', ''Memory Limit Exceeded''),
     (''RTE'', ''Runtime Error''), (''CE'', ''Compilation Error''), (''SK'', ''Skipped'')]"

section \<open>The problem beside the editor\<close>

record sample_block =
  sa_index :: nat
  sa_input :: string
  sa_output :: string
  sa_explanation :: "string option"

definition SampleBlocks :: "(string \<times> string \<times> string option) list \<Rightarrow> sample_block list" where
  "SampleBlocks samples =
     map (\<lambda>(i, inp, out, why). \<lparr>sa_index = i + 1, sa_input = inp, sa_output = out,
            sa_explanation = (case why of Some w \<Rightarrow> if w = [] then None else Some w | None \<Rightarrow> None)\<rparr>)
       (zip [0..<length samples] samples)"

section \<open>The leaderboard\<close>

definition same_text :: "string option \<Rightarrow> string \<Rightarrow> bool" where
  "same_text own x \<longleftrightarrow> (case own of None \<Rightarrow> False | Some t \<Rightarrow> t \<noteq> [] \<and> x = t)"

definition isCurrentTeam :: "string option \<Rightarrow> string option \<Rightarrow> leaderboard_entry \<Rightarrow> bool" where
  "isCurrentTeam teamId teamName row \<longleftrightarrow> same_text teamId (le_teamId row) \<or> same_text teamName (le_teamName row)"

datatype rank_mark = GoldMark | SilverMark | BronzeMark | PlainRank int

definition rank_mark_of :: "leaderboard_entry \<Rightarrow> rank_mark" where
  "rank_mark_of row =
     (if le_rank row = 1 then GoldMark else if le_rank row = 2 then SilverMark else if le_rank row = 3 then BronzeMark
      else PlainRank (le_rank row))"

record standing_row =
  sr_entry :: leaderboard_entry
  sr_mark :: rank_mark
  sr_own :: bool
  sr_last :: "string option"

definition standing_row_of :: "(string \<Rightarrow> string) \<Rightarrow> string option \<Rightarrow> string option \<Rightarrow> leaderboard_entry \<Rightarrow> standing_row" where
  "standing_row_of loc teamId teamName row =
     \<lparr>sr_entry = row, sr_mark = rank_mark_of row, sr_own = isCurrentTeam teamId teamName row,
      sr_last = (case le_lastSubmissionAt row of Some t \<Rightarrow> if t = [] then None else Some (loc t) | None \<Rightarrow> None)\<rparr>"

text \<open>The rows of the page, or why there is none; and the line with the rank of the own team.\<close>

datatype board_view = NoMatchingTeams | NoStandings | Standings "standing_row list"

definition LeaderboardClient :: "collator \<Rightarrow> (string \<Rightarrow> string) \<Rightarrow> string option \<Rightarrow> string option \<Rightarrow> board \<Rightarrow> board_view" where
  "LeaderboardClient collate loc teamId teamName b =
     (if sortedLeaderboard collate (bd_sortBy b) (bd_search b) (bd_leaderboard b) = []
      then (if bd_search b = [] then NoStandings else NoMatchingTeams)
      else Standings (map (standing_row_of loc teamId teamName) (board_rows collate b)))"

definition own_rank_line :: "string option \<Rightarrow> string option \<Rightarrow> board \<Rightarrow> string option" where
  "own_rank_line teamId teamName b =
     map_option (\<lambda>e. ''Your rank: #'' @ show_int (le_rank e) @ '' ('' @ show_int (le_totalScore e) @ '' XP)'')
       (currentUserStanding teamId teamName (bd_leaderboard b))"

datatype board_head = RankHead | TeamHead | SolvedHead | ScoreHead

definition board_head_click :: "board_head \<Rightarrow> string \<Rightarrow> string" where
  "board_head_click h sortBy =
     (case h of
        RankHead \<Rightarrow> if sortBy = ''RANK_ASC'' then ''SCORE_ASC'' else ''RANK_ASC''
      | ScoreHead \<Rightarrow> if sortBy = ''RANK_ASC'' then ''SCORE_ASC'' else ''RANK_ASC''
      | TeamHead \<Rightarrow> if sortBy = ''NAME_ASC'' then ''RANK_ASC'' else ''NAME_ASC''
      | SolvedHead \<Rightarrow> if sortBy = ''SOLVED_DESC'' then ''RANK_ASC'' else ''SOLVED_DESC'')"

section \<open>The challenges\<close>

record shown_card =
  sc_problem :: challenge
  sc_view :: card_view
  sc_badge :: string
  sc_href :: "string option"

text \<open>What a card links to (none while it is locked) and the badge of its progress, for the slug of the problem.\<close>

definition card_badge :: "string \<Rightarrow> challenge_progress \<Rightarrow> string" where
  "card_badge contest_status progress =
     (if contest_status = ''PAUSED'' then ''Paused'' else if contest_status = ''NOT_STARTED'' then ''Locked''
      else (case map_of CHALLENGE_STATUS_LABELS (cg_status progress) of Some l \<Rightarrow> l | None \<Rightarrow> []))"

definition card_href :: "string \<Rightarrow> string \<Rightarrow> string option" where
  "card_href contest_status slug =
     (if contest_status = ''PAUSED'' \<or> contest_status = ''NOT_STARTED'' then None else Some (''/challenges/'' @ slug))"

definition shown_card_of :: "(challenge \<Rightarrow> string) \<Rightarrow> string \<Rightarrow> progress_map \<Rightarrow> challenge \<Rightarrow> shown_card" where
  "shown_card_of slug contest_status progress p =
     \<lparr>sc_problem = p, sc_view = ChallengeCard contest_status p (progress_of progress (ch_id p)),
      sc_badge = card_badge contest_status (progress_of progress (ch_id p)), sc_href = card_href contest_status (slug p)\<rparr>"

text \<open>A link is prefetched once the pointer or the focus has been on it.\<close>

datatype prefetch_event = PointerEnter | LinkFocus | OtherEvent

fun intentPrefetch :: "prefetch_event \<Rightarrow> bool \<Rightarrow> bool" where
  "intentPrefetch PointerEnter b = True"
| "intentPrefetch LinkFocus b = True"
| "intentPrefetch OtherEvent b = b"

section \<open>What the views guarantee\<close>

lemma matched_topic_Some:
  "matched_topic q u = Some t \<longleftrightarrow>
     (if topic_matches q u then t = u
      else filter (item_matches q) (dt_items u) \<noteq> [] \<and> t = u\<lparr>dt_items := filter (item_matches q) (dt_items u)\<rparr>)"
  by (auto simp: matched_topic_def Let_def)

lemma set_map_filter: "y \<in> set (List.map_filter f xs) \<longleftrightarrow> (\<exists>x \<in> set xs. f x = Some y)"
  by (induction xs) (auto simp: map_filter_simps split: option.splits)

lemma in_filteredTopics:
  "js_trim q \<noteq> [] \<Longrightarrow>
   t \<in> set (filteredTopics q topics) \<longleftrightarrow> (\<exists>u \<in> set topics. matched_topic (js_lower q) u = Some t)"
  by (simp add: filteredTopics_def set_map_filter)

text \<open>
  the search of a guide neither hides nor invents. Every entry whose name, description or code contains the text is
  shown, under its topic; and a topic is shown only with entries of its own, all of them when the topic itself
  matches, and otherwise only those that do.
\<close>

theorem search_shows_matches:
  assumes "js_trim q \<noteq> []"
  shows "(\<forall>u \<in> set topics. \<forall>i \<in> set (dt_items u). item_matches (js_lower q) i \<longrightarrow>
            (\<exists>t \<in> set (filteredTopics q topics). dt_id t = dt_id u \<and> i \<in> set (dt_items t))) \<and>
         (\<forall>t \<in> set (filteredTopics q topics). \<exists>u \<in> set topics. dt_id t = dt_id u \<and> dt_title t = dt_title u \<and>
            (topic_matches (js_lower q) u \<and> dt_items t = dt_items u \<or>
             dt_items t = filter (item_matches (js_lower q)) (dt_items u) \<and> dt_items t \<noteq> []))"
proof (intro conjI ballI impI)
  fix u i
  assume u: "u \<in> set topics" and i: "i \<in> set (dt_items u)" "item_matches (js_lower q) i"
  then have some: "filter (item_matches (js_lower q)) (dt_items u) \<noteq> []" by (auto simp: filter_empty_conv)
  let ?t = "if topic_matches (js_lower q) u then u else u\<lparr>dt_items := filter (item_matches (js_lower q)) (dt_items u)\<rparr>"
  have "matched_topic (js_lower q) u = Some ?t" using some by (simp add: matched_topic_Some)
  then have "?t \<in> set (filteredTopics q topics)" using in_filteredTopics [OF assms] u by blast
  then show "\<exists>t \<in> set (filteredTopics q topics). dt_id t = dt_id u \<and> i \<in> set (dt_items t)"
    by (rule bexI [rotated]) (use i in simp)
next
  fix t
  assume "t \<in> set (filteredTopics q topics)"
  then obtain u where u: "u \<in> set topics" "matched_topic (js_lower q) u = Some t" using in_filteredTopics [OF assms] by blast
  show "\<exists>u \<in> set topics. dt_id t = dt_id u \<and> dt_title t = dt_title u \<and>
            (topic_matches (js_lower q) u \<and> dt_items t = dt_items u \<or>
             dt_items t = filter (item_matches (js_lower q)) (dt_items u) \<and> dt_items t \<noteq> [])"
    by (rule bexI [OF _ u(1)]) (use u(2) in \<open>auto simp: matched_topic_Some split: if_splits\<close>)
qed

definition loops_topic :: doc_topic where
  "loops_topic = \<lparr>dt_id = ''loops'', dt_title = ''Loops'', dt_summary = ''Repeat a block'',
     dt_items = [\<lparr>sy_id = ''for'', sy_name = ''for'', sy_syntax = ''for i in range(n):'', sy_description = ''Counts'', sy_notes = []\<rparr>,
                 \<lparr>sy_id = ''while'', sy_name = ''while'', sy_syntax = ''while x:'', sy_description = ''Waits'', sy_notes = []\<rparr>]\<rparr>"

theorem search_shows_matches_witness:
  "\<exists>t. t \<in> set (filteredTopics ''Range'' [loops_topic]) \<and> hd (dt_items loops_topic) \<in> set (dt_items t)"
proof -
  have "item_matches (js_lower ''Range'') (hd (dt_items loops_topic))" "js_trim ''Range'' \<noteq> []" by code_simp+
  moreover have "hd (dt_items loops_topic) \<in> set (dt_items loops_topic)" by (simp add: loops_topic_def)
  ultimately show ?thesis using search_shows_matches [of "''Range''" "[loops_topic]"] by auto
qed

text \<open>The search looks for the text as it is typed, blanks at its ends included: a blank after the word finds nothing.\<close>

theorem trailing_blank_finds_nothing:
  "length (filteredTopics ''loops'' [loops_topic]) = 1" "filteredTopics ''loops '' [loops_topic] = []"
  by code_simp+

text \<open>The guide explains all verdicts of the portal but two: the output limit and the error of the sandbox.\<close>

theorem verdicts_unexplained:
  "filter (\<lambda>v. v \<notin> set (map fst VERDICTS)) (map fst VERDICT_DETAILS) = [''OLE'', ''IE'']"
  by code_simp

text \<open>
  the leaderboard marks the own team wherever its rank is told. The line with the own rank is shown exactly when some
  row of the board is the own team's; it tells the rank of such a row; and a row of the page is marked as the own team's only
  when the line is shown.
\<close>

lemma standing_found: "currentUserStanding teamId teamName rows = List.find (isCurrentTeam teamId teamName) rows"
proof -
  have "isCurrentTeam teamId teamName =
      (\<lambda>e. (case teamId of None \<Rightarrow> False | Some t \<Rightarrow> t \<noteq> [] \<and> le_teamId e = t) \<or>
           (case teamName of None \<Rightarrow> False | Some t \<Rightarrow> t \<noteq> [] \<and> le_teamName e = t))"
    by (rule ext) (simp add: isCurrentTeam_def same_text_def)
  then show ?thesis by (simp only: currentUserStanding_def)
qed

lemma board_rows_subset: "set (board_rows collate b) \<subseteq> set (bd_leaderboard b)"
  by (auto simp: board_rows_def page_rows_def sortedLeaderboard_def filteredLeaderboard_def Let_def
      dest!: in_set_takeD in_set_dropD)

theorem own_team_marked:
  "(own_rank_line teamId teamName b \<noteq> None \<longleftrightarrow> list_ex (isCurrentTeam teamId teamName) (bd_leaderboard b)) \<and>
   (case currentUserStanding teamId teamName (bd_leaderboard b) of
      None \<Rightarrow> True | Some e \<Rightarrow> e \<in> set (bd_leaderboard b) \<and> isCurrentTeam teamId teamName e) \<and>
   (case LeaderboardClient collate loc teamId teamName b of
      Standings rows \<Rightarrow> own_rank_line teamId teamName b = None \<longrightarrow> list_all (\<lambda>r. \<not> sr_own r) rows | _ \<Rightarrow> True)"
proof -
  have line: "own_rank_line teamId teamName b \<noteq> None \<longleftrightarrow> list_ex (isCurrentTeam teamId teamName) (bd_leaderboard b)"
    using find_None_prop [of "isCurrentTeam teamId teamName" "bd_leaderboard b"]
    by (auto simp: own_rank_line_def standing_found list_ex_iff)
  moreover have "case currentUserStanding teamId teamName (bd_leaderboard b) of
      None \<Rightarrow> True | Some e \<Rightarrow> e \<in> set (bd_leaderboard b) \<and> isCurrentTeam teamId teamName e"
    by (auto simp: standing_found split: option.split dest: find_Some_prop)
  moreover have "list_all (\<lambda>r. \<not> sr_own r) (map (standing_row_of loc teamId teamName) (board_rows collate b))"
    if "own_rank_line teamId teamName b = None"
    using that line board_rows_subset [of collate b] by (auto simp: list_all_iff list_ex_iff standing_row_of_def)
  ultimately show ?thesis by (auto simp: LeaderboardClient_def)
qed

theorem own_team_marked_witness:
  "own_rank_line (Some ''t1'') None (board_start [\<lparr>le_rank = 1, le_teamId = ''t1'', le_teamName = ''A'', le_totalScore = 5,
     le_problemsSolved = 1, le_lastSubmissionAt = None\<rparr>]) \<noteq> None"
proof -
  let ?b = "board_start [\<lparr>le_rank = 1, le_teamId = ''t1'', le_teamName = ''A'', le_totalScore = 5, le_problemsSolved = 1,
    le_lastSubmissionAt = None\<rparr>]"
  have "list_ex (isCurrentTeam (Some ''t1'') None) (bd_leaderboard ?b)"
    by (simp add: board_start_def isCurrentTeam_def same_text_def)
  then show ?thesis using own_team_marked [of "Some ''t1''" None ?b] by blast
qed

text \<open>The samples are numbered from one, in their order, with their texts unchanged.\<close>

theorem samples_in_order:
  "map sa_index (SampleBlocks samples) = [1..<Suc (length samples)] \<and>
   map sa_input (SampleBlocks samples) = map fst samples \<and> map sa_output (SampleBlocks samples) = map (fst \<circ> snd) samples"
proof -
  have "map (\<lambda>x. fst x + 1) (zip [0..<length samples] samples) = map (\<lambda>i. i + 1) [0..<length samples]"
    by (simp add: map_fst_zip_take flip: map_map [where g = fst, unfolded comp_def])
  moreover have "map (\<lambda>i. i + 1) [0..<length samples] = [1..<Suc (length samples)]" by (simp add: map_Suc_upt)
  moreover have "map (\<lambda>x. f (snd x)) (zip [0..<length samples] samples) = map f samples" for f :: "string \<times> string \<times> string option \<Rightarrow> string"
    by (rule nth_equalityI) simp_all
  ultimately show ?thesis
    by (simp add: SampleBlocks_def case_prod_beta comp_def del: upt_Suc)
qed

end
