(* ===== verification/ShellViews.thy ===== *)
theory ShellViews
  imports ContestClock AdminState ConsolePages PeoplePages MonitoringConsole BrowserStorage
begin

text \<open>
  The pieces around the pages of the two portals: the security headers of their builds (\<open>next.config.ts\<close>), the banner of
  the phase of the round (\<open>components/portal/contest-phase-banner.tsx\<close>), the theme of a challenge
  (\<open>components/problem/challenge-theme-provider.tsx\<close>), the download page (\<open>app/download/page.tsx\<close>,
  \<open>components/download/desktop-download-cards.tsx\<close>, \<open>app/robots.ts\<close>), the error page (\<open>app/error.tsx\<close>) and the button that
  copies an address (\<open>components/support/copy-email-button.tsx\<close>); of the console, the pages of users and teams
  (\<open>app/(dashboard)/users/page.tsx\<close>, \<open>teams/page.tsx\<close>) and the frame of the monitoring pages
  (\<open>components/monitoring/monitoring-chrome.tsx\<close>).
\<close>

section \<open>Security headers\<close>

definition quoted :: "string \<Rightarrow> string" where
  "quoted s = [CHR 0x27] @ s @ [CHR 0x27]"

definition common_headers :: "(string \<times> string) list" where
  "common_headers =
     [(''X-Frame-Options'', ''DENY''), (''X-Content-Type-Options'', ''nosniff''),
      (''Referrer-Policy'', ''strict-origin-when-cross-origin''),
      (''X-Robots-Tag'', ''noindex, nofollow, noarchive, nosnippet''),
      (''Permissions-Policy'', ''camera=(), microphone=(), geolocation=(), payment=()''),
      (''Strict-Transport-Security'', ''max-age=15552000'')]"

definition console_policy :: "bool \<Rightarrow> string list" where
  "console_policy production =
     [''default-src '' @ quoted ''self'',
      (if \<not> production
       then ''script-src '' @ quoted ''self'' @ '' '' @ quoted ''unsafe-inline'' @ '' '' @ quoted ''unsafe-eval''
       else ''script-src '' @ quoted ''self'' @ '' '' @ quoted ''unsafe-inline''),
      ''style-src '' @ quoted ''self'' @ '' '' @ quoted ''unsafe-inline'',
      ''img-src '' @ quoted ''self'' @ '' data: blob: https: http:'',
      ''font-src '' @ quoted ''self'' @ '' data:'',
      ''connect-src '' @ quoted ''self'' @ '' https: http://127.0.0.1:* http://localhost:*'',
      ''frame-ancestors '' @ quoted ''none'', ''base-uri '' @ quoted ''self'', ''form-action '' @ quoted ''self'',
      ''object-src '' @ quoted ''none'']"

definition portal_policy :: "string list" where
  "portal_policy =
     [''default-src '' @ quoted ''self'',
      ''script-src '' @ quoted ''self'' @ '' '' @ quoted ''unsafe-inline'' @ '' '' @ quoted ''unsafe-eval'' @ '' blob:'',
      ''worker-src '' @ quoted ''self'' @ '' blob:'',
      ''style-src '' @ quoted ''self'' @ '' '' @ quoted ''unsafe-inline'',
      ''img-src '' @ quoted ''self'' @ '' data: blob: https: http:'',
      ''font-src '' @ quoted ''self'' @ '' data:'',
      ''connect-src '' @ quoted ''self'' @ '' http://127.0.0.1:* http://localhost:*'',
      ''frame-ancestors '' @ quoted ''none'', ''base-uri '' @ quoted ''self'', ''form-action '' @ quoted ''self'',
      ''object-src '' @ quoted ''none'']"

definition console_headers :: "bool \<Rightarrow> (string \<times> string) list" where
  "console_headers production = common_headers @ [(''Content-Security-Policy'', join_with ''; '' (console_policy production))]"

definition portal_securityHeaders :: "(string \<times> string) list" where
  "portal_securityHeaders = common_headers @ [(''Content-Security-Policy'', join_with ''; '' portal_policy)]"

text \<open>
  How a browser reads a policy: directives between semicolons, the first word of a directive its name, the others the
  sources it allows.
\<close>

definition directive_words :: "string \<Rightarrow> string list" where
  "directive_words d = filter (\<lambda>w. w \<noteq> []) (split_char CHR '' '' d)"

definition policy_sources :: "string \<Rightarrow> string \<Rightarrow> string list option" where
  "policy_sources policy name =
     map_option (drop 1) (find (\<lambda>ws. ws \<noteq> [] \<and> hd ws = name) (map directive_words (split_char CHR '';'' policy)))"

definition allowed_sources :: "(string \<times> string) list \<Rightarrow> string \<Rightarrow> string list option" where
  "allowed_sources headers name = Option.bind (map_of headers ''Content-Security-Policy'') (\<lambda>policy. policy_sources policy name)"

section \<open>The banner of the phase\<close>

datatype phase_banner = NotActiveBanner string "string option" | PausedBanner | ConcludedBanner | FreezeBanner

definition ContestPhaseBanner :: "string \<Rightarrow> clock \<Rightarrow> phase_banner option" where
  "ContestPhaseBanner title s =
     (if co_status (ck_state s) = NOT_STARTED
      then Some (NotActiveBanner (title @ '' is not yet active.'')
                   (if num_pos (ck_startsIn s) then Some (''Starts in '' @ formattedStartsIn s) else None))
      else if co_status (ck_state s) = PAUSED then Some PausedBanner
      else if co_status (ck_state s) = ENDED then Some ConcludedBanner
      else if ck_frozen s then Some FreezeBanner
      else None)"

section \<open>The theme of a challenge\<close>

datatype challenge_mode = DarkMode | LightMode

definition THEME_STORAGE_KEY :: string where "THEME_STORAGE_KEY = ''minilabyrithm_challenge_theme''"
definition DEFAULT_MODE :: challenge_mode where "DEFAULT_MODE = DarkMode"

fun mode_text :: "challenge_mode \<Rightarrow> string" where
  "mode_text DarkMode = ''dark''"
| "mode_text LightMode = ''light''"

text \<open>The storage of the browser is absent where it is blocked: reading and writing throw then.\<close>

definition readMode :: "storage option \<Rightarrow> challenge_mode" where
  "readMode st =
     (case st of
        None \<Rightarrow> DEFAULT_MODE
      | Some s \<Rightarrow>
          (case storage_get s THEME_STORAGE_KEY of
             Some t \<Rightarrow> if t = ''dark'' then DarkMode else if t = ''light'' then LightMode else DEFAULT_MODE
           | None \<Rightarrow> DEFAULT_MODE))"

definition storeMode :: "(storage \<Rightarrow> bool) \<Rightarrow> challenge_mode \<Rightarrow> storage option \<Rightarrow> storage option" where
  "storeMode fits m st =
     (case st of
        None \<Rightarrow> None
      | Some s \<Rightarrow> (case storage_set fits THEME_STORAGE_KEY (mode_text m) s of Inr s' \<Rightarrow> Some s' | Inl _ \<Rightarrow> Some s))"

text \<open>
  \<open>useSyncExternalStore\<close>: the first render shows the server's mode, the one after it and every notified one the mode
  read from the storage. Another tab changes the storage without notifying this one.
\<close>

record theme_view =
  tv_storage :: "storage option"
  tv_shown :: challenge_mode

definition theme_opened :: "storage option \<Rightarrow> theme_view" where
  "theme_opened st = \<lparr>tv_storage = st, tv_shown = DEFAULT_MODE\<rparr>"

definition theme_rendered :: "theme_view \<Rightarrow> theme_view" where
  "theme_rendered v = v\<lparr>tv_shown := readMode (tv_storage v)\<rparr>"

definition writeMode :: "(storage \<Rightarrow> bool) \<Rightarrow> challenge_mode \<Rightarrow> theme_view \<Rightarrow> theme_view" where
  "writeMode fits m v = theme_rendered (v\<lparr>tv_storage := storeMode fits m (tv_storage v)\<rparr>)"

section \<open>The download page\<close>

record download_card =
  dc_label :: string
  dc_recommended :: bool
  dc_about :: string
  dc_install :: string
  dc_gate :: string
  dc_href :: string
  dc_sha256 :: string

definition DesktopDownloadCards :: "desktop_os option \<Rightarrow> download_card list" where
  "DesktopDownloadCards recommended =
     map (\<lambda>b. \<lparr>dc_label = db_label b, dc_recommended = (recommended = Some (db_os b)),
               dc_about = db_file b @ '' '' @ [CHR 0xB7] @ '' '' @ db_sizeLabel b,
               dc_install = db_installNote b, dc_gate = db_gateNote b,
               dc_href = ''/desktop-client/'' @ db_file b, dc_sha256 = db_sha256 b\<rparr>) DESKTOP_BUILDS"

text \<open>The page is missing unless the organizers have enabled it; the server does not know the visitor's system.\<close>

definition DownloadPage :: "parser \<Rightarrow> string \<Rightarrow> download_card list option io" where
  "DownloadPage sp loaded_at =
     bind (getContestStateAction sp loaded_at) (\<lambda>contest.
     ret (if truthy (get_opt contest ''downloadEnabled'') then Some (DesktopDownloadCards None) else None))"

definition robots_disallow :: "string list" where
  "robots_disallow = [''/download'', ''/desktop-client/'']"

section \<open>A label that is shown for two seconds\<close>

text \<open>
  The retry button of the error page and the copy button of the support page share a pattern: a press sets a flag and a
  timer that clears it; the time each timer has left is in the list. The retry button is disabled while its flag is set.
\<close>

record flash =
  fl_on :: bool
  fl_timers :: "nat list"
  fl_presses :: nat

definition flash_off :: flash where
  "flash_off = \<lparr>fl_on = False, fl_timers = [], fl_presses = 0\<rparr>"

definition flash_press :: "flash \<Rightarrow> flash" where
  "flash_press f = f\<lparr>fl_on := True, fl_timers := fl_timers f @ [2000], fl_presses := Suc (fl_presses f)\<rparr>"

text \<open>Some milliseconds pass, no more than the first timer has left.\<close>

definition flash_pass :: "nat \<Rightarrow> flash \<Rightarrow> flash" where
  "flash_pass d f =
     (let left = map (\<lambda>t. t - d) (fl_timers f)
      in f\<lparr>fl_on := (fl_on f \<and> 0 \<notin> set left), fl_timers := filter (\<lambda>t. t \<noteq> 0) left\<rparr>)"

definition handleRetry :: "flash \<Rightarrow> flash" where
  "handleRetry f = (if fl_on f then f else flash_press f)"

datatype clipboard_answer = ClipboardWritten | ClipboardRefused bool

text \<open>
  Where the clipboard refuses, the text is copied by the older command, whose answer (the flag of \<open>ClipboardRefused\<close>) is
  not read.
\<close>

definition handleCopy :: "clipboard_answer \<Rightarrow> flash \<Rightarrow> flash" where
  "handleCopy a f = (case a of ClipboardWritten \<Rightarrow> flash_press f | ClipboardRefused done \<Rightarrow> flash_press f)"

inductive retry_step :: "flash \<Rightarrow> flash \<Rightarrow> bool" where
  Retried: "retry_step f (handleRetry f)"
| RetryPassed: "\<forall>t \<in> set (fl_timers f). d \<le> t \<Longrightarrow> retry_step f (flash_pass d f)"

inductive copy_step :: "flash \<Rightarrow> flash \<Rightarrow> bool" where
  Copied: "copy_step f (handleCopy a f)"
| CopyPassed: "\<forall>t \<in> set (fl_timers f). d \<le> t \<Longrightarrow> copy_step f (flash_pass d f)"

section \<open>Users and teams\<close>

text \<open>\<open>Promise.all\<close> starts every call; the page learns of the first failure, taken in the order of the text.\<close>

definition begun :: "'a io \<Rightarrow> 'a io io" where
  "begun a = catch (bind a (\<lambda>v. ret (ret v))) (\<lambda>x. ret (throw x))"

definition users_loader :: "(jsv \<times> jsv \<times> jsv) io" where
  "users_loader =
     bind (begun listUsersAction) (\<lambda>users. bind (begun listTeamsAction) (\<lambda>teams.
     bind (catch getSessionUserAction (\<lambda>_. ret Null)) (\<lambda>session.
     bind users (\<lambda>us. bind teams (\<lambda>ts. ret (us, ts, get_opt session ''id''))))))"

definition teams_loader :: "(jsv \<times> jsv) io" where
  "teams_loader =
     bind (begun listTeamsAction) (\<lambda>teams. bind (begun listUsersAction) (\<lambda>users.
     bind teams (\<lambda>ts. bind users (\<lambda>us. ret (ts, us)))))"

definition users_page_view :: "('u list \<times> 't list \<times> 'i) loading \<Rightarrow> ('u list \<times> 't list \<times> 'i) page_shown" where
  "users_page_view ld =
     (if ld_loading ld then PlaceholderShown
      else case ld_error ld of
             Some m \<Rightarrow> if fst (ld_data ld) = [] then ErrorShown m else ListShown (ld_data ld) (Some m)
           | None \<Rightarrow> ListShown (ld_data ld) None)"

definition teams_page_view :: "('t list \<times> user list) loading \<Rightarrow> ('t list \<times> user list) page_shown" where
  "teams_page_view ld =
     (let shown = (fst (ld_data ld), filter (\<lambda>u. us_role u = ''competitor'') (snd (ld_data ld)))
      in if ld_loading ld then PlaceholderShown
         else case ld_error ld of
                Some m \<Rightarrow> if fst (ld_data ld) = [] then ErrorShown m else ListShown shown (Some m)
              | None \<Rightarrow> ListShown shown None)"

section \<open>The frame of the monitoring pages\<close>

record section_link =
  sl_href :: string
  sl_section :: string
  sl_label :: string
  sl_count :: "string option"
  sl_alarming :: bool

definition onlineCount :: "console \<Rightarrow> nat" where
  "onlineCount s = length (filter (\<lambda>i. get_opt i ''status'' = Str ''ONLINE'') (arr_of (co_telemetry s)))"

definition highRiskCount :: "console \<Rightarrow> nat" where
  "highRiskCount s = length (filter (\<lambda>i. get_opt i ''severity'' = Str ''HIGH'') (arr_of (co_risk s)))"

definition liveAgentCount :: "console \<Rightarrow> nat" where
  "liveAgentCount s = length (filter (\<lambda>a. \<not> truthy (get_opt a ''revokedAt'')) (arr_of (co_agents s)))"

definition section_links :: "console \<Rightarrow> section_link list" where
  "section_links s =
     [\<lparr>sl_href = ''/monitoring/risk'', sl_section = ''risk'', sl_label = ''Risk & evidence'',
       sl_count = (if ''risk'' \<in> co_loaded s then Some (show_nat (highRiskCount s) @ '' high'') else None),
       sl_alarming = (0 < highRiskCount s)\<rparr>,
      \<lparr>sl_href = ''/monitoring/telemetry'', sl_section = ''telemetry'', sl_label = ''Live telemetry'',
       sl_count = (if ''telemetry'' \<in> co_loaded s then Some (show_nat (onlineCount s) @ '' online'') else None),
       sl_alarming = False\<rparr>,
      \<lparr>sl_href = ''/monitoring/agents'', sl_section = ''agents'', sl_label = ''Enrolled agents'',
       sl_count = (if ''agents'' \<in> co_loaded s then Some (show_nat (liveAgentCount s)) else None),
       sl_alarming = False\<rparr>]"

definition link_active :: "console \<Rightarrow> section_link \<Rightarrow> bool" where
  "link_active s l \<longleftrightarrow> starts_with (co_pathname s) (sl_href l)"

text \<open>The badge is red on a section that needs attention and is not the one open.\<close>

definition badge_alarming :: "console \<Rightarrow> section_link \<Rightarrow> bool" where
  "badge_alarming s l \<longleftrightarrow> sl_count l \<noteq> None \<and> sl_alarming l \<and> \<not> link_active s l"

definition auto_label :: "console \<Rightarrow> string" where
  "auto_label s = (if co_auto s then ''Auto '' @ show_nat (POLL_INTERVAL_MS div 1000) @ ''s'' else ''Auto paused'')"

definition toggle_auto :: "console \<Rightarrow> console" where
  "toggle_auto s = setAutoRefreshActive (\<not> co_auto s) s"

definition press_refresh :: "console \<Rightarrow> console" where
  "press_refresh s = (if co_isRefreshing s then s else refreshNow s)"

datatype frame_part = StaleWarning jsv | FleetTiles jsv | FleetPlaceholder | SectionLink string bool "string option"

definition MonitoringChrome :: "console \<Rightarrow> frame_part list" where
  "MonitoringChrome s =
     (if truthy (co_loadError s) then [StaleWarning (co_loadError s)] else []) @
     [if ''overview'' \<in> co_loaded s then FleetTiles (co_overview s) else FleetPlaceholder] @
     map (\<lambda>l. SectionLink (sl_label l) (link_active s l) (sl_count l)) (section_links s)"

section \<open>What they guarantee\<close>

lemma script_sources:
  "allowed_sources (console_headers True) ''script-src'' = Some [quoted ''self'', quoted ''unsafe-inline'']"
  "allowed_sources portal_securityHeaders ''script-src'' =
     Some [quoted ''self'', quoted ''unsafe-inline'', quoted ''unsafe-eval'', ''blob:'']"
  by code_simp+

lemma connect_sources:
  "allowed_sources (console_headers production) ''connect-src'' =
     Some [quoted ''self'', ''https:'', ''http://127.0.0.1:*'', ''http://localhost:*'']"
  "allowed_sources portal_securityHeaders ''connect-src'' =
     Some [quoted ''self'', ''http://127.0.0.1:*'', ''http://localhost:*'']"
proof -
  show "allowed_sources (console_headers production) ''connect-src'' =
      Some [quoted ''self'', ''https:'', ''http://127.0.0.1:*'', ''http://localhost:*'']"
  proof (rule bool.induct [of _ production])
    show "allowed_sources (console_headers True) ''connect-src'' =
        Some [quoted ''self'', ''https:'', ''http://127.0.0.1:*'', ''http://localhost:*'']"
      by code_simp
    show "allowed_sources (console_headers False) ''connect-src'' =
        Some [quoted ''self'', ''https:'', ''http://127.0.0.1:*'', ''http://localhost:*'']"
      by code_simp
  qed
  show "allowed_sources portal_securityHeaders ''connect-src'' =
      Some [quoted ''self'', ''http://127.0.0.1:*'', ''http://localhost:*'']"
    by code_simp
qed

text \<open>
  The scripts of the console run under a stricter policy than those of the portal: in production neither evaluated text nor
  blobs, and nothing the portal does not allow too. No page of either may be framed, and both send the same other headers.
\<close>

theorem console_scripts_stricter:
  "\<exists>c p. allowed_sources (console_headers True) ''script-src'' = Some c \<and>
         allowed_sources portal_securityHeaders ''script-src'' = Some p \<and>
         set c \<subseteq> set p \<and> quoted ''unsafe-eval'' \<in> set p - set c \<and>
         allowed_sources (console_headers True) ''frame-ancestors'' = Some [quoted ''none''] \<and>
         allowed_sources portal_securityHeaders ''frame-ancestors'' = Some [quoted ''none'']"
proof -
  have "allowed_sources (console_headers True) ''frame-ancestors'' = Some [quoted ''none'']"
    "allowed_sources portal_securityHeaders ''frame-ancestors'' = Some [quoted ''none'']"
    by code_simp+
  moreover have "set [quoted ''self'', quoted ''unsafe-inline''] \<subseteq>
      set [quoted ''self'', quoted ''unsafe-inline'', quoted ''unsafe-eval'', ''blob:'']"
    by auto
  moreover have "quoted ''unsafe-eval'' \<notin> set [quoted ''self'', quoted ''unsafe-inline'']" by (simp add: quoted_def)
  ultimately show ?thesis unfolding script_sources by auto
qed

text \<open>Each banner stands for the flag of the clock with its name; only the end of the round is announced late.\<close>

theorem banner_matches_flags:
  "(\<exists>t d. ContestPhaseBanner title s = Some (NotActiveBanner t d)) \<longleftrightarrow> isNotStarted s"
  "ContestPhaseBanner title s = Some PausedBanner \<longleftrightarrow> isPaused s"
  "ContestPhaseBanner title s = Some ConcludedBanner \<Longrightarrow> isEnded s"
  by (auto simp: ContestPhaseBanner_def isNotStarted_def isPaused_def isEnded_def split: if_splits)

text \<open>After a tick the frozen board is announced exactly in a running round with an end that the server calls frozen.\<close>

theorem freeze_banner_running:
  "ContestPhaseBanner title (calculateTick d s) = Some FreezeBanner \<longleftrightarrow>
     co_status (ck_state s) = RUNNING \<and> co_endTime (ck_state s) \<noteq> None \<and> co_isFrozen (ck_state s)"
proof (cases "co_status (ck_state s)")
  case RUNNING
  have fired: "ck_state (foldl (fire_threshold r) u ts) = ck_state u" "ck_frozen (foldl (fire_threshold r) u ts) = ck_frozen u"
    for r u ts by (induction ts arbitrary: u) (auto simp: fire_threshold_def split: prod.split)
  show ?thesis using RUNNING
    by (auto simp: ContestPhaseBanner_def calculateTick_def running_tick_def Let_def fired split: option.split)
qed (auto simp: ContestPhaseBanner_def calculateTick_def Let_def)

text \<open>A mode that was stored is shown at once, and again on every later visit; another tab cannot make this one show nonsense.\<close>

theorem picked_mode_kept:
  assumes "storage_set fits THEME_STORAGE_KEY (mode_text m) s = Inr s'" "tv_storage v = Some s"
  shows "tv_shown (writeMode fits m v) = m" "tv_storage (writeMode fits m v) = Some s'"
    "tv_shown (theme_rendered (theme_opened (tv_storage (writeMode fits m v)))) = m"
proof -
  have "storage_get s' THEME_STORAGE_KEY = Some (mode_text m)"
    using local_storage.get_set [OF assms(1)] by simp
  then have "readMode (Some s') = m" by (cases m) (simp_all add: readMode_def)
  then show "tv_shown (writeMode fits m v) = m" "tv_storage (writeMode fits m v) = Some s'"
    "tv_shown (theme_rendered (theme_opened (tv_storage (writeMode fits m v)))) = m"
    using assms by (simp_all add: writeMode_def theme_rendered_def theme_opened_def storeMode_def)
qed

text \<open>
  The download page always answers, and it offers the builds only when one request, for the state of the round, was answered
  with success.
\<close>

theorem download_on_request:
  "\<exists>a w'. DownloadPage sp loaded_at e w = (Inr a, w') \<and>
     (a \<noteq> None \<longrightarrow>
        (\<exists>q r. sent w' = sent w @ [q] \<and> req_url q = env_api_url e @ ''/api/v1/contest/state'' \<and>
               env_fetch e (sent w) q = Inr r \<and> rsp_ok r))"
proof -
  have off: "\<not> truthy (get_opt (defaultContestState loaded_at) ''downloadEnabled'')"
    by (simp add: defaultContestState_def get_opt_def field_def)
  show ?thesis
    by (simp add: DownloadPage_def getContestStateAction_def io_simps off split: sum.split)
qed

text \<open>Every build and the page itself are excluded from indexing; at most one build is recommended, and none by the server.\<close>

theorem downloads_unindexed:
  "\<forall>c \<in> set (DesktopDownloadCards os). \<exists>p \<in> set robots_disallow. starts_with (dc_href c) p"
  "length (filter dc_recommended (DesktopDownloadCards os)) = (if os = None then 0 else 1)"
proof -
  show "\<forall>c \<in> set (DesktopDownloadCards os). \<exists>p \<in> set robots_disallow. starts_with (dc_href c) p"
    by (simp add: DesktopDownloadCards_def robots_disallow_def)
  show "length (filter dc_recommended (DesktopDownloadCards os)) = (if os = None then 0 else 1)"
  proof (cases os)
    case (Some o')
    then show ?thesis by (cases o') (simp_all add: DesktopDownloadCards_def DESKTOP_BUILDS_def)
  qed (simp add: DesktopDownloadCards_def DESKTOP_BUILDS_def)
qed

definition retry_inv :: "flash \<Rightarrow> bool" where
  "retry_inv f \<longleftrightarrow> length (fl_timers f) \<le> 1 \<and> (fl_on f \<longleftrightarrow> fl_timers f \<noteq> [])"

definition copy_inv :: "flash \<Rightarrow> bool" where
  "copy_inv f \<longleftrightarrow> (fl_on f \<longrightarrow> fl_timers f \<noteq> []) \<and> (\<forall>t \<in> set (fl_timers f). 0 < t \<and> t \<le> 2000)"

lemma retry_inv_step: "retry_inv f \<Longrightarrow> retry_step f g \<Longrightarrow> retry_inv g"
  by (erule retry_step.cases; cases "fl_timers f")
     (auto simp: retry_inv_def handleRetry_def flash_press_def flash_pass_def Let_def)

lemma copy_inv_pass: "copy_inv f \<Longrightarrow> copy_inv (flash_pass d f)"
proof -
  assume inv: "copy_inv f"
  have "fl_timers (flash_pass d f) \<noteq> []" if "fl_on (flash_pass d f)"
  proof -
    have on: "fl_on f" "0 \<notin> (\<lambda>t. t - d) ` set (fl_timers f)" using that by (simp_all add: flash_pass_def Let_def)
    with inv obtain t where t: "t \<in> set (fl_timers f)" by (cases "fl_timers f") (auto simp: copy_inv_def)
    moreover have "t - d \<noteq> 0" using t on(2) by (metis imageI)
    ultimately show ?thesis by (auto simp: flash_pass_def Let_def filter_empty_conv)
  qed
  moreover have "\<forall>t \<in> set (fl_timers (flash_pass d f)). 0 < t \<and> t \<le> 2000"
    using inv by (fastforce simp: copy_inv_def flash_pass_def Let_def)
  ultimately show "copy_inv (flash_pass d f)" unfolding copy_inv_def by blast
qed

lemma copy_inv_step: "copy_inv f \<Longrightarrow> copy_step f g \<Longrightarrow> copy_inv g"
  by (erule copy_step.cases)
     (auto simp: copy_inv_pass, auto simp: copy_inv_def handleCopy_def flash_press_def split: clipboard_answer.split)

interpretation retry_label: state_machine "\<lambda>f. f = flash_off" retry_step retry_inv
  by unfold_locales (simp add: retry_inv_def flash_off_def, erule (1) retry_inv_step)

interpretation copy_label: state_machine "\<lambda>f. f = flash_off" copy_step copy_inv
  by unfold_locales (simp add: copy_inv_def flash_off_def, erule (1) copy_inv_step)

text \<open>
  The retry button never has two timers, so every retry is announced until its own timer ends; the copy button says that the
  address was copied for two seconds at most after the last press.
\<close>

theorem retry_announced:
  "reaches (\<lambda>f. f = flash_off) retry_step f \<Longrightarrow> length (fl_timers f) \<le> 1 \<and> (fl_on f \<longleftrightarrow> fl_timers f \<noteq> [])"
  "reaches (\<lambda>f. f = flash_off) copy_step g \<Longrightarrow> fl_on g \<Longrightarrow> \<exists>t \<in> set (fl_timers g). t \<le> 2000"
proof -
  show "length (fl_timers f) \<le> 1 \<and> (fl_on f \<longleftrightarrow> fl_timers f \<noteq> [])" if "reaches (\<lambda>f. f = flash_off) retry_step f"
    using retry_label.reaches_inv [OF that] by (simp add: retry_inv_def)
  show "\<exists>t \<in> set (fl_timers g). t \<le> 2000" if "reaches (\<lambda>f. f = flash_off) copy_step g" "fl_on g"
    using copy_label.reaches_inv [OF that(1)] that(2) by (cases "fl_timers g") (auto simp: copy_inv_def)
qed

lemma lift_cases: "lift (Inr v) = ret v" "lift (Inl x) = throw x"
  by (rule ext, rule ext, simp add: lift_def ret_def throw_def)+

lemma begun_run: "a e w = (r, w') \<Longrightarrow> begun a e w = (Inr (lift r), w')"
  by (cases r) (simp_all add: begun_def bind_def catch_def ret_def throw_def lift_cases)

text \<open>
  The page of users needs the lists of users and of teams, but not the session: whatever that call does, the page loads with
  both lists.
\<close>

theorem users_page_without_session:
  assumes "listUsersAction e w = (Inr us, w1)" "listTeamsAction e w1 = (Inr ts, w2)"
  shows "\<exists>i w3. users_loader e w = (Inr (us, ts, i), w3) \<and>
           (\<forall>x w4. getSessionUserAction e w2 = (Inl x, w4) \<longrightarrow> i = Undefined)"
proof -
  have "users_loader e w = (case getSessionUserAction e w2 of
      (Inr session, w3) \<Rightarrow> (Inr (us, ts, get_opt session ''id''), w3) | (Inl x, w3) \<Rightarrow> (Inr (us, ts, get_opt Null ''id''), w3))"
    unfolding users_loader_def
    by (simp add: run_bind run_catch run_ret begun_run [of listUsersAction, OF assms(1)] begun_run [of listTeamsAction, OF assms(2)] lift_cases split: prod.split sum.split)
  moreover have "get_opt Null ''id'' = Undefined" by (simp add: get_opt_def)
  moreover obtain r w3 where "getSessionUserAction e w2 = (r, w3)" by fastforce
  ultimately show ?thesis by (cases r) simp_all
qed

text \<open>A reload that fails leaves the rows on screen under a warning, and an empty page says that it could not be loaded.\<close>

theorem failed_reload_keeps_rows:
  fixes s :: "('u list \<times> 't list \<times> 'i) loading"
  assumes "ld_mounted s"
  shows "users_page_view (settle_request fallback (ld_request s) (Inl x) s) =
           (if fst (ld_data s) = [] then ErrorShown (getErrorMessage x fallback)
            else ListShown (ld_data s) (Some (getErrorMessage x fallback)))"
  using assms by (simp add: users_page_view_def settle_request_def Let_def)

text \<open>
  The link that is marked belongs to a section the page polls, at most one link is marked, and a count that is shown was
  counted from the rows of a section that was loaded.
\<close>

theorem marked_section_polled:
  "\<forall>l \<in> set (section_links s). (link_active s l \<longrightarrow> sl_section l \<in> set (sectionsForPath (co_pathname s))) \<and>
     (sl_count l \<noteq> None \<longleftrightarrow> sl_section l \<in> co_loaded s)"
  "length (filter (link_active s) (section_links s)) \<le> 1"
proof -
  let ?p = "co_pathname s"
  have one: "\<not> (starts_with ?p ''/monitoring/risk'' \<and> starts_with ?p ''/monitoring/telemetry'')"
    "\<not> (starts_with ?p ''/monitoring/risk'' \<and> starts_with ?p ''/monitoring/agents'')"
    "\<not> (starts_with ?p ''/monitoring/telemetry'' \<and> starts_with ?p ''/monitoring/agents'')"
    by (auto simp: starts_with_iff)
  then show "\<forall>l \<in> set (section_links s). (link_active s l \<longrightarrow> sl_section l \<in> set (sectionsForPath (co_pathname s))) \<and>
     (sl_count l \<noteq> None \<longleftrightarrow> sl_section l \<in> co_loaded s)"
    by (auto simp: section_links_def link_active_def sectionsForPath_def)
  show "length (filter (link_active s) (section_links s)) \<le> 1"
    using one by (auto simp: section_links_def link_active_def)
qed

text \<open>
  The frame warns of stale rows exactly when the last answer names a section that failed; its red badge stands for high
  risks that are not on screen; and pressing refresh again while a refresh runs sends nothing.
\<close>

theorem warning_tells:
  "(\<exists>v. StaleWarning v \<in> set (MonitoringChrome (apply_snapshot sections snapshot s))) \<longleftrightarrow>
     object_keys (js_coalesce (get_opt snapshot ''errors'') (Obj [])) \<noteq> []"
  by (auto simp: MonitoringChrome_def apply_snapshot_def Let_def)

theorem red_badge_means:
  assumes "l \<in> set (section_links s)" "badge_alarming s l"
  shows "sl_section l = ''risk'' \<and> 0 < highRiskCount s \<and> \<not> starts_with (co_pathname s) ''/monitoring/risk''"
  using assms by (auto simp: section_links_def badge_alarming_def link_active_def)

theorem refresh_not_doubled: "press_refresh (press_refresh s) = press_refresh s"
  by (simp add: press_refresh_def refreshNow_def load_start_def)

text \<open>The page of teams offers competitors only.\<close>

theorem teams_offer_competitors:
  "teams_page_view ld = ListShown (ts, us) m \<Longrightarrow> u \<in> set us \<Longrightarrow> us_role u = ''competitor'' \<and> u \<in> set (snd (ld_data ld))"
  by (auto simp: teams_page_view_def Let_def split: if_splits option.splits)

section \<open>Findings\<close>

text \<open>The console's policy lets its pages connect to the local agent, and to any host, which the portal's does not.\<close>

theorem console_connects_anywhere:
  "\<exists>c p. allowed_sources (console_headers production) ''connect-src'' = Some c \<and>
         allowed_sources portal_securityHeaders ''connect-src'' = Some p \<and>
         set p \<subseteq> set c \<and> ''http://127.0.0.1:*'' \<in> set c \<and> ''https:'' \<in> set c - set p"
proof -
  have "set [quoted ''self'', ''http://127.0.0.1:*'', ''http://localhost:*''] \<subseteq>
      set [quoted ''self'', ''https:'', ''http://127.0.0.1:*'', ''http://localhost:*'']"
    "''https:'' \<notin> set [quoted ''self'', ''http://127.0.0.1:*'', ''http://localhost:*'']"
    by (auto simp: quoted_def)
  then show ?thesis unfolding connect_sources by auto
qed

text \<open>When the storage is blocked or full, choosing a mode changes nothing, not even for the session.\<close>

theorem blocked_storage_keeps_mode:
  assumes "tv_storage v = None \<or> (\<exists>s x. tv_storage v = Some s \<and> storage_set fits THEME_STORAGE_KEY (mode_text m) s = Inl x)"
  shows "writeMode fits m v = theme_rendered v"
  using assms by (auto simp: writeMode_def storeMode_def theme_rendered_def)

text \<open>In the last moment of a round, until the server is asked, no banner says that it has ended.\<close>

theorem end_announced_late:
  assumes "co_status (ck_state s) = RUNNING" "ck_remaining s = Fin 0"
  shows "isEnded s \<and> ContestPhaseBanner title s \<noteq> Some ConcludedBanner"
  using assms by (simp add: isEnded_def ContestPhaseBanner_def)

text \<open>A second copy is announced only until the timer of the first one ends, and a copy that failed is announced too.\<close>

theorem second_copy_cut_short:
  "\<not> fl_on (flash_pass 500 (handleCopy ClipboardWritten (flash_pass 1500 (handleCopy ClipboardWritten flash_off))))"
  by (simp add: handleCopy_def flash_press_def flash_pass_def flash_off_def Let_def)

theorem failed_copy_announced: "handleCopy (ClipboardRefused False) f = handleCopy ClipboardWritten f"
  by (simp add: handleCopy_def)

text \<open>An outage of the session endpoint takes from administrators the reset of their own password.\<close>

theorem own_reset_lost: "us_role u = ''admin'' \<Longrightarrow> reset_disabled pending None u"
  by (simp add: reset_disabled_def)

end
